(* ===== verification/Owl_Prelude.thy ===== *)
theory Owl_Prelude
  imports Main "HOL-Library.Word" "HOL-Library.AList"
begin

text \<open>
  Shared vocabulary of the development: machine integers, the outcome of an operation that can
  panic, the standard-library collections the OwlNest crates use (\<open>HashMap\<close>, \<open>HashSet\<close>,
  \<open>VecDeque\<close>), formatted text, I/O errors, and the libp2p types that behaviours and connection
  handlers exchange with the swarm.

  Conventions.
  \<^item> An \<open>u64\<close> is a \<open>64 word\<close>; \<open>+\<close> and \<open>-\<close> wrap, as they do in a release build.
  \<^item> A panic (\<open>unwrap\<close>, \<open>expect\<close>, slice out of range) is the value \<open>Panics\<close>, a loop that never
    ends the value \<open>Hangs\<close>.
  \<^item> A \<open>String\<close> or a path is the \<open>string\<close> of its UTF-8 bytes.
  \<^item> A \<open>HashMap\<close> is an association list with distinct keys and a \<open>HashSet\<close> a list without
    repetition. Rust leaves the iteration order of both unspecified; the list is one such order,
    and every statement quantifies over all states, hence over all orders.
  \<^item> A formatted \<open>String\<close> is kept as the list of its pieces (literals and formatted arguments),
    so no text rendering of a foreign type has to be invented.
\<close>

named_theorems owl_simps \<open>unfolding rules for the collection operations\<close>

section \<open>Integers, outcomes, polls\<close>

type_synonym u8 = "8 word"
type_synonym u32 = "32 word"
type_synonym u64 = "64 word"
type_synonym u128 = "128 word"

datatype 'a outcome = Panics | Hangs | Returns 'a

fun and_then :: "'a outcome \<Rightarrow> ('a \<Rightarrow> 'b outcome) \<Rightarrow> 'b outcome" where
  "and_then Panics f = Panics"
| "and_then Hangs f = Hangs"
| "and_then (Returns a) f = f a"

lemma and_then_cong [fundef_cong]:
  "x = y \<Longrightarrow> (\<And>a. y = Returns a \<Longrightarrow> f a = g a) \<Longrightarrow> and_then x f = and_then y g"
  by (cases y) simp_all

text \<open>Evaluating a list of fallible elements in order: the first panic wins.\<close>

fun collect_outcomes :: "'a outcome list \<Rightarrow> 'a list outcome" where
  "collect_outcomes [] = Returns []"
| "collect_outcomes (x # xs) = and_then x (\<lambda>a. and_then (collect_outcomes xs) (\<lambda>as. Returns (a # as)))"

datatype 'a poll = Pending | Ready 'a

lemma and_then_Returns_iff:
  "and_then x f = Returns b \<longleftrightarrow> (\<exists>a. x = Returns a \<and> f a = Returns b)"
  by (cases x) auto

lemma and_then_Panics_iff:
  "and_then x f = Panics \<longleftrightarrow> x = Panics \<or> (\<exists>a. x = Returns a \<and> f a = Panics)"
  by (cases x) auto

lemma collect_outcomes_Returns_iff:
  "collect_outcomes xs = Returns ys \<longleftrightarrow> xs = map Returns ys"
  by (induction xs arbitrary: ys) (auto simp: and_then_Returns_iff map_eq_Cons_conv)

section \<open>Collections of the standard library\<close>

subsection \<open>VecDeque\<close>

definition push_back :: "'a list \<Rightarrow> 'a \<Rightarrow> 'a list" where
  "push_back q x = q @ [x]"

fun pop_front :: "'a list \<Rightarrow> ('a \<times> 'a list) option" where
  "pop_front [] = None"
| "pop_front (x # q) = Some (x, q)"

lemma set_push_back [simp]: "set (push_back q x) = insert x (set q)"
  by (simp add: push_back_def)

lemma length_push_back [simp]: "length (push_back q x) = Suc (length q)"
  by (simp add: push_back_def)

lemma pop_front_Some_iff: "pop_front q = Some (x, q') \<longleftrightarrow> q = x # q'"
  by (cases q) auto

lemma pop_front_None_iff: "pop_front q = None \<longleftrightarrow> q = []"
  by (cases q) auto

subsection \<open>HashMap\<close>

type_synonym ('k, 'v) hash_map = "('k \<times> 'v) list"

definition hm_get :: "('k, 'v) hash_map \<Rightarrow> 'k \<Rightarrow> 'v option" where
  "hm_get m k = map_of m k"

definition hm_contains_key :: "('k, 'v) hash_map \<Rightarrow> 'k \<Rightarrow> bool" where
  "hm_contains_key m k \<longleftrightarrow> hm_get m k \<noteq> None"

definition hm_insert :: "'k \<Rightarrow> 'v \<Rightarrow> ('k, 'v) hash_map \<Rightarrow> ('k, 'v) hash_map" where
  "hm_insert k v m = AList.update k v m"

definition hm_remove :: "'k \<Rightarrow> ('k, 'v) hash_map \<Rightarrow> ('k, 'v) hash_map" where
  "hm_remove k m = AList.delete k m"

definition hm_retain :: "('k \<Rightarrow> 'v \<Rightarrow> bool) \<Rightarrow> ('k, 'v) hash_map \<Rightarrow> ('k, 'v) hash_map" where
  "hm_retain P m = filter (\<lambda>(k, v). P k v) m"

definition hm_values :: "('k, 'v) hash_map \<Rightarrow> 'v list" where
  "hm_values m = map snd m"

definition hm_keys :: "('k, 'v) hash_map \<Rightarrow> 'k set" where
  "hm_keys m = fst ` set m"

definition hm_wf :: "('k, 'v) hash_map \<Rightarrow> bool" where
  "hm_wf m \<longleftrightarrow> distinct (map fst m)"

lemma hm_get_Nil [simp]: "hm_get [] k = None"
  by (simp add: hm_get_def)

lemma hm_wf_Nil [simp]: "hm_wf []"
  by (simp add: hm_wf_def)

lemma hm_get_insert [simp]: "hm_get (hm_insert k v m) k' = (if k' = k then Some v else hm_get m k')"
  by (simp add: hm_get_def hm_insert_def update_conv')

lemma hm_get_remove [simp]: "hm_get (hm_remove k m) k' = (if k' = k then None else hm_get m k')"
  by (simp add: hm_get_def hm_remove_def delete_conv')

lemma hm_wf_insert [simp]: "hm_wf m \<Longrightarrow> hm_wf (hm_insert k v m)"
  by (simp add: hm_wf_def hm_insert_def distinct_update)

lemma hm_wf_remove [simp]: "hm_wf m \<Longrightarrow> hm_wf (hm_remove k m)"
  by (simp add: hm_wf_def hm_remove_def distinct_delete)

lemma hm_wf_retain [simp]: "hm_wf m \<Longrightarrow> hm_wf (hm_retain P m)"
  unfolding hm_wf_def hm_retain_def
  by (induction m) auto

lemma hm_get_Some_iff: "hm_wf m \<Longrightarrow> hm_get m k = Some v \<longleftrightarrow> (k, v) \<in> set m"
  by (simp add: hm_get_def hm_wf_def)

lemma hm_get_Some_in_set: "hm_get m k = Some v \<Longrightarrow> (k, v) \<in> set m"
  by (simp add: hm_get_def map_of_SomeD)

lemma hm_get_retain:
  assumes "hm_wf m"
  shows "hm_get (hm_retain P m) k =
    (case hm_get m k of None \<Rightarrow> None | Some v \<Rightarrow> if P k v then Some v else None)"
  using assms unfolding hm_wf_def hm_retain_def hm_get_def
  by (induction m) (auto split: option.splits simp: map_of_eq_None_iff rev_image_eqI)

lemma hm_get_retain_Some [simp]:
  "hm_wf m \<Longrightarrow> hm_get (hm_retain P m) k = Some v \<longleftrightarrow> hm_get m k = Some v \<and> P k v"
  by (auto simp: hm_get_retain split: option.splits)

lemma hm_keys_dom: "hm_keys m = dom (hm_get m)"
  by (simp add: hm_keys_def hm_get_def [abs_def] dom_map_of_conv_image_fst)

lemma hm_get_None_iff: "hm_get m k = None \<longleftrightarrow> k \<notin> hm_keys m"
  by (auto simp: hm_keys_dom)

lemma hm_contains_key_iff: "hm_contains_key m k \<longleftrightarrow> k \<in> hm_keys m"
  by (auto simp: hm_contains_key_def hm_keys_dom)

lemma hm_contains_key_insert [simp]:
  "hm_contains_key (hm_insert k v m) k' \<longleftrightarrow> k' = k \<or> hm_contains_key m k'"
  by (simp add: hm_contains_key_def)

lemma hm_contains_key_remove [simp]:
  "hm_contains_key (hm_remove k m) k' \<longleftrightarrow> k' \<noteq> k \<and> hm_contains_key m k'"
  by (simp add: hm_contains_key_def)

lemma set_hm_values: "hm_wf m \<Longrightarrow> v \<in> set (hm_values m) \<longleftrightarrow> (\<exists>k. hm_get m k = Some v)"
  by (force simp: hm_values_def hm_get_Some_iff)

lemma hm_insert_new: "hm_get m k = None \<Longrightarrow> hm_insert k v m = m @ [(k, v)]"
  unfolding hm_insert_def hm_get_def
  by (induction m) (auto split: if_splits)

lemma length_hm_insert_new: "hm_get m k = None \<Longrightarrow> length (hm_insert k v m) = Suc (length m)"
  by (simp add: hm_insert_new)

subsection \<open>HashSet\<close>

type_synonym 'a hash_set = "'a list"

definition hs_contains :: "'a hash_set \<Rightarrow> 'a \<Rightarrow> bool" where
  "hs_contains s x \<longleftrightarrow> x \<in> set s"

definition hs_insert :: "'a \<Rightarrow> 'a hash_set \<Rightarrow> 'a hash_set" where
  "hs_insert x s = List.insert x s"

definition hs_remove :: "'a \<Rightarrow> 'a hash_set \<Rightarrow> 'a hash_set" where
  "hs_remove x s = removeAll x s"

definition hs_wf :: "'a hash_set \<Rightarrow> bool" where
  "hs_wf s \<longleftrightarrow> distinct s"

lemma hs_wf_Nil [simp]: "hs_wf []"
  by (simp add: hs_wf_def)

lemma set_hs_insert [simp]: "set (hs_insert x s) = insert x (set s)"
  by (simp add: hs_insert_def)

lemma set_hs_remove [simp]: "set (hs_remove x s) = set s - {x}"
  by (simp add: hs_remove_def)

lemma hs_wf_insert [simp]: "hs_wf s \<Longrightarrow> hs_wf (hs_insert x s)"
  by (simp add: hs_wf_def hs_insert_def)

lemma hs_wf_remove [simp]: "hs_wf s \<Longrightarrow> hs_wf (hs_remove x s)"
  by (simp add: hs_wf_def hs_remove_def distinct_removeAll)

lemma hs_contains_insert [simp]: "hs_contains (hs_insert x s) y \<longleftrightarrow> y = x \<or> hs_contains s y"
  by (simp add: hs_contains_def)

lemma hs_contains_remove [simp]: "hs_contains (hs_remove x s) y \<longleftrightarrow> y \<noteq> x \<and> hs_contains s y"
  by (auto simp: hs_contains_def)

lemma length_hs_insert: "length (hs_insert x s) = (if hs_contains s x then length s else Suc (length s))"
  by (simp add: hs_insert_def hs_contains_def List.insert_def)

lemma length_hs_remove_le: "length (hs_remove x s) \<le> length s"
  by (simp add: hs_remove_def length_removeAll_less_eq)

lemma card_hs: "hs_wf s \<Longrightarrow> card (set s) = length s"
  by (simp add: hs_wf_def distinct_card)

lemmas hash_defs [owl_simps] =
  hm_get_def hm_contains_key_def hm_insert_def hm_remove_def hm_retain_def hm_values_def
  hs_contains_def hs_insert_def hs_remove_def push_back_def

subsection \<open>The dictionary interface\<close>

text \<open>
  What clients of a keyed store rely on. The laws are those of \<open>HashMap\<close>: a lookup after an
  insertion or a removal. A sequence of updates is interpreted once, for every provider.
\<close>

datatype ('k, 'v) update_op = Put 'k 'v | Del 'k

fun apply_update :: "('k \<rightharpoonup> 'v) \<Rightarrow> ('k, 'v) update_op \<Rightarrow> ('k \<rightharpoonup> 'v)" where
  "apply_update f (Put k v) = f(k \<mapsto> v)"
| "apply_update f (Del k) = f(k := None)"

locale dictionary =
  fixes empty :: 'm
    and get :: "'m \<Rightarrow> 'k \<Rightarrow> 'v option"
    and put :: "'k \<Rightarrow> 'v \<Rightarrow> 'm \<Rightarrow> 'm"
    and del :: "'k \<Rightarrow> 'm \<Rightarrow> 'm"
    and invar :: "'m \<Rightarrow> bool"
  assumes get_empty: "get empty = Map.empty"
    and get_put: "invar m \<Longrightarrow> get (put k v m) = (get m)(k \<mapsto> v)"
    and get_del: "invar m \<Longrightarrow> get (del k m) = (get m)(k := None)"
    and invar_empty: "invar empty"
    and invar_put: "invar m \<Longrightarrow> invar (put k v m)"
    and invar_del: "invar m \<Longrightarrow> invar (del k m)"
begin

primrec run_update :: "'m \<Rightarrow> ('k, 'v) update_op \<Rightarrow> 'm" where
  "run_update m (Put k v) = put k v m"
| "run_update m (Del k) = del k m"

lemma run_update_refines: "invar m \<Longrightarrow> get (run_update m u) = apply_update (get m) u"
  by (cases u) (simp_all add: get_put get_del)

lemma run_update_invar: "invar m \<Longrightarrow> invar (run_update m u)"
  by (cases u) (simp_all add: invar_put invar_del)

lemma run_updates_refine:
  "invar m \<Longrightarrow> get (foldl run_update m us) = foldl apply_update (get m) us \<and> invar (foldl run_update m us)"
  by (induction us arbitrary: m) (simp_all add: run_update_refines run_update_invar)

lemma put_del_cancel: "invar m \<Longrightarrow> get m k = None \<Longrightarrow> get (del k (put k v m)) = get m"
  by (simp add: get_put get_del invar_put fun_upd_idem)

end

interpretation hm: dictionary "[]" hm_get hm_insert hm_remove hm_wf
  by unfold_locales (auto simp: fun_eq_iff)

subsection \<open>Histories\<close>

text \<open>
  A store of histories: appending under a key extends the history of that key only. Whatever is
  appended in whatever order, each history is the subsequence of the entries for its key.
\<close>

definition log_of :: "'k \<Rightarrow> ('k \<times> 'm) list \<Rightarrow> 'm list" where
  "log_of k entries = map snd (filter (\<lambda>e. fst e = k) entries)"

locale history_log =
  fixes history :: "'s \<Rightarrow> 'k \<Rightarrow> 'm list option"
    and append_entry :: "'k \<Rightarrow> 'm \<Rightarrow> 's \<Rightarrow> 's"
  assumes history_append: "history (append_entry k x s) k' =
      (if k' = k then Some ((case history s k of None \<Rightarrow> [] | Some xs \<Rightarrow> xs) @ [x]) else history s k')"
begin

lemma history_fold:
  "history (fold (\<lambda>(k, x). append_entry k x) entries s) k =
     (if log_of k entries = [] then history s k
      else Some ((case history s k of None \<Rightarrow> [] | Some xs \<Rightarrow> xs) @ log_of k entries))"
proof (induction entries arbitrary: s)
  case (Cons e entries)
  obtain k' x where "e = (k', x)" by (cases e)
  then show ?case
    using Cons.IH [of "append_entry k' x s"]
    by (auto simp: log_of_def history_append split: option.splits)
qed (simp add: log_of_def)

end

text \<open>A history that can be cleared while its key stays known.\<close>

locale resettable_history = history_log +
  fixes reset :: "'b option \<Rightarrow> 'a \<Rightarrow> 'a"
  assumes history_reset: "history (reset sel s) k =
      (if sel = None \<or> sel = Some k then map_option (\<lambda>_. []) (history s k) else history s k)"
begin

lemma history_since_reset:
  "history (fold (\<lambda>(k, x). append_entry k x) entries (reset sel s)) k =
     (if sel = None \<or> sel = Some k
      then if log_of k entries = [] then map_option (\<lambda>_. []) (history s k) else Some (log_of k entries)
      else if log_of k entries = [] then history s k
      else Some ((case history s k of None \<Rightarrow> [] | Some xs \<Rightarrow> xs) @ log_of k entries))"
  by (auto simp: history_fold history_reset split: option.splits)

end

section \<open>Refinement of operation sequences\<close>

text \<open>
  A component whose operations implement those of an abstract specification: each operation
  returns, keeps the invariant, gives the specified answer and commutes with the abstraction. Then
  whole sequences of operations do, so the component never panics and is observed as its
  specification.
\<close>

fun run_ops :: "('op \<Rightarrow> 'c \<Rightarrow> ('r \<times> 'c) outcome) \<Rightarrow> 'op list \<Rightarrow> 'c \<Rightarrow> ('r list \<times> 'c) outcome" where
  "run_ops exec [] c = Returns ([], c)"
| "run_ops exec (op # ops) c =
     and_then (exec op c) (\<lambda>(r, c'). and_then (run_ops exec ops c') (\<lambda>(rs, c''). Returns (r # rs, c'')))"

fun run_spec :: "('op \<Rightarrow> 'a \<Rightarrow> 'q \<times> 'a) \<Rightarrow> 'op list \<Rightarrow> 'a \<Rightarrow> 'q list \<times> 'a" where
  "run_spec spec [] a = ([], a)"
| "run_spec spec (op # ops) a =
     (let (q, a') = spec op a; (qs, a'') = run_spec spec ops a' in (q # qs, a''))"

locale data_refinement =
  fixes exec :: "'op \<Rightarrow> 'c \<Rightarrow> ('r \<times> 'c) outcome"
    and spec :: "'op \<Rightarrow> 'a \<Rightarrow> 'q \<times> 'a"
    and abs_state :: "'c \<Rightarrow> 'a"
    and abs_reply :: "'r \<Rightarrow> 'q"
    and invar :: "'c \<Rightarrow> bool"
  assumes exec_refines: "invar c \<Longrightarrow>
      \<exists>r c'. exec op c = Returns (r, c') \<and> invar c' \<and> spec op (abs_state c) = (abs_reply r, abs_state c')"
begin

lemma run_refines:
  "invar c \<Longrightarrow> \<exists>rs c'. run_ops exec ops c = Returns (rs, c') \<and> invar c'
     \<and> run_spec spec ops (abs_state c) = (map abs_reply rs, abs_state c')"
proof (induction ops arbitrary: c)
  case (Cons op ops)
  obtain r c' where 1: "exec op c = Returns (r, c')" "invar c'" "spec op (abs_state c) = (abs_reply r, abs_state c')"
    using exec_refines [OF Cons.prems] by blast
  with Cons.IH [of c'] show ?case by auto
qed simp

end

section \<open>Invariants of transition systems\<close>

text \<open>
  A component with a step relation: an invariant that holds initially and is kept by every step
  holds in every reachable state.
\<close>

locale invariant_system =
  fixes init :: 's
    and step :: "'s \<Rightarrow> 's \<Rightarrow> bool"
    and inv :: "'s \<Rightarrow> bool"
  assumes inv_init: "inv init"
    and inv_step: "inv s \<Longrightarrow> step s t \<Longrightarrow> inv t"
begin

lemma steps_inv:
  assumes "step\<^sup>*\<^sup>* s t" and "inv s"
  shows "inv t"
  using assms by (induction rule: rtranclp_induct) (auto intro: inv_step)

lemma reachable_inv: "step\<^sup>*\<^sup>* init t \<Longrightarrow> inv t"
  using steps_inv inv_init by blast

end

section \<open>Sources of events\<close>

text \<open>
  What the swarm relies on when it polls a behaviour: a poll hands out the head of a queue and
  says \<open>Pending\<close> only when the queue is empty. Draining a source then yields the queue in order.
\<close>

fun drain :: "('b \<Rightarrow> 'e poll \<times> 'b) \<Rightarrow> nat \<Rightarrow> 'b \<Rightarrow> 'e list \<times> 'b" where
  "drain f 0 b = ([], b)"
| "drain f (Suc n) b =
     (case f b of
        (Pending, b') \<Rightarrow> ([], b')
      | (Ready e, b') \<Rightarrow> (let (es, b'') = drain f n b' in (e # es, b'')))"

locale event_source =
  fixes poll_next :: "'b \<Rightarrow> 'e poll \<times> 'b"
    and queue :: "'b \<Rightarrow> 'e list"
  assumes poll_empty: "queue b = [] \<Longrightarrow> fst (poll_next b) = Pending \<and> queue (snd (poll_next b)) = []"
    and poll_head: "queue b = e # es \<Longrightarrow> fst (poll_next b) = Ready e \<and> queue (snd (poll_next b)) = es"
begin

lemma poll_pending_iff: "fst (poll_next b) = Pending \<longleftrightarrow> queue b = []"
  using poll_empty poll_head by (cases "queue b") auto

lemma drain_take: "fst (drain poll_next n b) = take n (queue b) \<and> queue (snd (drain poll_next n b)) = drop n (queue b)"
proof (induction n arbitrary: b)
  case (Suc n)
  show ?case
  proof (cases "queue b")
    case Nil
    then show ?thesis
      using poll_empty [OF Nil] by (cases "poll_next b") simp
  next
    case (Cons e es)
    then show ?thesis
      using poll_head [OF Cons] Suc.IH [of "snd (poll_next b)"]
      by (cases "poll_next b"; cases "drain poll_next n (snd (poll_next b))") simp
  qed
qed simp

lemma drain_pending:
  "length (queue b) < n \<Longrightarrow> \<exists>b'. fst (poll_next b') = Pending \<and> snd (drain poll_next n b) = snd (poll_next b')"
proof (induction n arbitrary: b)
  case (Suc n)
  show ?case
  proof (cases "queue b")
    case Nil
    then show ?thesis
      using poll_empty [OF Nil] by (intro exI [of _ b]) (cases "poll_next b", simp)
  next
    case (Cons e es)
    then show ?thesis
      using poll_head [OF Cons] Suc.IH [of "snd (poll_next b)"] Suc.prems
      by (cases "poll_next b"; cases "drain poll_next n (snd (poll_next b))") simp
  qed
qed simp

lemma drain_all: "length (queue b) \<le> n \<Longrightarrow> fst (drain poll_next n b) = queue b"
  by (simp add: drain_take)

end

section \<open>Identities, text and I/O errors\<close>

text \<open>A libp2p \<open>PeerId\<close>: an opaque multihash, compared for equality only.\<close>

datatype peer_id = PeerId "u8 list"

datatype io_error_kind =
  NotFound | PermissionDenied | AlreadyExists | InvalidData | ConnectionAborted | UnexpectedEof | OtherKind nat

datatype fmt =
    Lit string
  | ArgNat nat
  | ArgStr string
  | ArgPad nat string
  | ArgBytes "u8 list"
  | ArgUtf8Lossy "u8 list"
  | ArgPeer peer_id
  | ArgKind io_error_kind
  | ArgForeign string

type_synonym rust_text = "fmt list"

text \<open>An \<open>std::io::Error\<close>: its kind and its message. \<open>{e:?}\<close> and \<open>{e}\<close> are the foreign renderings.\<close>

datatype io_error = IoError (io_kind: io_error_kind) (io_message: rust_text)

definition io_display :: "io_error \<Rightarrow> rust_text" where
  "io_display e = io_message e"

definition io_debug :: "io_error \<Rightarrow> rust_text" where
  "io_debug e = ArgKind (io_kind e) # io_message e"

section \<open>libp2p vocabulary\<close>

text \<open>
  The types of the swarm interface that the source names: \<open>ToSwarm\<close>, \<open>NotifyHandler\<close>,
  \<open>FromSwarm\<close>, \<open>ConnectionHandlerEvent\<close>, \<open>ConnectionEvent\<close> and \<open>StreamUpgradeError\<close>. Of
  \<open>FromSwarm\<close> only the constructor the source matches on is kept apart; dial and listen options
  are opaque.
\<close>

datatype notify_handler = Any | One nat

datatype multiaddr = Multiaddr (multiaddr_str: string)

datatype ('out, 'handler) to_swarm =
    GenerateEvent 'out
  | DialOpts nat
  | ListenOn nat
  | RemoveListener nat
  | NotifyHandler peer_id notify_handler 'handler
  | NewExternalAddrCandidate multiaddr
  | ExternalAddrConfirmed multiaddr
  | ExternalAddrExpired multiaddr
  | CloseConnection peer_id "nat option"
  | NewExternalAddrOfPeer peer_id multiaddr

record connection_closed =
  cc_peer_id :: peer_id
  cc_remaining_established :: nat

datatype from_swarm = ConnectionClosed connection_closed | OtherFromSwarm nat

datatype ('p, 'e) connection_handler_event =
    OutboundSubstreamRequest 'p
  | NotifyBehaviour 'e
  | ReportRemoteProtocols "string list"

datatype stream_upgrade_error = UpgradeTimeout | UpgradeApply string | NegotiationFailed | UpgradeIo io_error

datatype 'stream connection_event =
    FullyNegotiatedInbound 'stream
  | FullyNegotiatedOutbound 'stream
  | AddressChange
  | DialUpgradeError stream_upgrade_error
  | ListenUpgradeError
  | LocalProtocolsChange
  | RemoteProtocolsChange

text \<open>\<open>enum State\<close> of every connection handler of the workspace.\<close>

datatype handler_state = Inactive bool | Active

text \<open>A \<open>oneshot::Sender\<close> is known by the identity of its channel.\<close>

type_synonym callback = nat

text \<open>A \<open>Duration\<close> in milliseconds.\<close>

type_synonym duration = nat

end
