(* ===== verification/Blob_Types.thy ===== *)
theory Blob_Types
  imports Owl_Prelude
begin

text \<open>
  The data of \<open>owlnest-blob\<close>: configuration (\<open>config.rs\<close>), errors and their \<open>Display\<close> texts
  (\<open>error.rs\<close>, \<open>owlnest-core\<close>), the events of the behaviour (\<open>lib.rs\<close>) and of the connection
  handler (\<open>handler.rs\<close>), files and paths of the standard library as far as they are used, and
  the records \<open>PendingRecv\<close>, \<open>OngoingFileRecv\<close>, \<open>PendingSend\<close>, \<open>OngoingFileSend\<close>, \<open>RecvInfo\<close>,
  \<open>SendInfo\<close> of \<open>behaviour.rs\<close>. The tracing spans the records carry are left out.
\<close>

section \<open>Configuration\<close>

record blob_config =
  bc_timeout_ms :: u64
  bc_max_pending_recv :: u64
  bc_pending_recv_timeout_sec :: u64
  bc_ongoing_recv_timeout_sec :: u64
  bc_pending_send_timeout_sec :: u64
  bc_ongoing_send_timeout_sec :: u64

definition blob_config_default :: blob_config where
  "blob_config_default =
     \<lparr>bc_timeout_ms = 60 * 1000, bc_max_pending_recv = 16,
      bc_pending_recv_timeout_sec = 60 * 60, bc_ongoing_recv_timeout_sec = 60,
      bc_pending_send_timeout_sec = 0, bc_ongoing_send_timeout_sec = 3 * 60\<rparr>"

definition blob_config_new :: blob_config where
  "blob_config_new = blob_config_default"

definition blob_config_with_timeout :: "blob_config \<Rightarrow> u64 \<Rightarrow> blob_config" where
  "blob_config_with_timeout c ms = c\<lparr>bc_timeout_ms := ms\<rparr>"

section \<open>Errors\<close>

datatype channel_error = ChannelTimeout | ChannelClosed

datatype operation_error = OperationTimeout | OperationInterrupted

fun channel_error_fmt :: "channel_error \<Rightarrow> rust_text" where
  "channel_error_fmt ChannelTimeout = [Lit ''Timeout waiting for response'']"
| "channel_error_fmt ChannelClosed = [Lit ''Channel closed unexpectedly'']"

fun operation_error_fmt :: "operation_error \<Rightarrow> rust_text" where
  "operation_error_fmt OperationTimeout = [Lit ''Timeout'']"
| "operation_error_fmt OperationInterrupted = [Lit ''Interrupted'']"

datatype blob_error =
    UnrecognizedMessage rust_text
  | IO rust_text
  | BlobChannel
  | UnexpectedEOF u64

fun blob_error_fmt :: "blob_error \<Rightarrow> rust_text" where
  "blob_error_fmt (UnrecognizedMessage msg) = msg"
| "blob_error_fmt (IO msg) = msg"
| "blob_error_fmt BlobChannel = [Lit ''Callback channel closed unexpectedly'']"
| "blob_error_fmt (UnexpectedEOF recv_id) =
     [Lit ''The file of recv ID '', ArgNat (unat recv_id), Lit '' meets an unexpected EOF'']"

datatype file_send_error =
    IsDirectory
  | FileNotFound
  | SendPermissionDenied
  | OtherFsError io_error_kind
  | FilePeerNotFound
  | SendChannel channel_error
  | SendOperation operation_error

fun file_send_error_fmt :: "file_send_error \<Rightarrow> rust_text" where
  "file_send_error_fmt IsDirectory = [Lit ''The target to send to is a directory'']"
| "file_send_error_fmt FileNotFound = [Lit ''The target file is not found'']"
| "file_send_error_fmt SendPermissionDenied = [Lit ''Permission denied'']"
| "file_send_error_fmt (OtherFsError k) = [Lit ''Other file system error: '', ArgKind k]"
| "file_send_error_fmt FilePeerNotFound = [Lit ''Target peer is not found'']"
| "file_send_error_fmt (SendChannel e) = channel_error_fmt e"
| "file_send_error_fmt (SendOperation e) = operation_error_fmt e"

datatype file_recv_error =
    PendingRecvNotFound u64
  | RecvTimeout
  | FsError string io_error_kind
  | RecvChannel channel_error
  | RecvOperation operation_error

fun file_recv_error_fmt :: "file_recv_error \<Rightarrow> rust_text" where
  "file_recv_error_fmt (PendingRecvNotFound i) =
     [Lit ''Cannot find operation associated with recv ID '', ArgNat (unat i),
      Lit '', is the request already accepted or cancaled?'']"
| "file_recv_error_fmt RecvTimeout = [Lit ''Timeout when waiting response from remote.'']"
| "file_recv_error_fmt (FsError path e) =
     (case e of
        AlreadyExists \<Rightarrow>
          [Lit ''File(or folder) '', ArgStr path,
           Lit '' already exists. Overwritting is not allowed. Please delete the file before accepting the request.'']
      | PermissionDenied \<Rightarrow>
          [Lit ''Cannot write to file(or folder) '', ArgStr path,
           Lit '': Permission denied. Please make sure you have properly set the permission.'']
      | k \<Rightarrow> [Lit ''OS reported OtherError '', ArgKind k])"
| "file_recv_error_fmt (RecvChannel e) = channel_error_fmt e"
| "file_recv_error_fmt (RecvOperation e) = operation_error_fmt e"

datatype cancellation_error = IdNotFound | CancelPeerNotFound

fun cancellation_error_fmt :: "cancellation_error \<Rightarrow> rust_text" where
  "cancellation_error_fmt IdNotFound = [Lit ''ID not found'']"
| "cancellation_error_fmt CancelPeerNotFound = [Lit ''Peer not found'']"

section \<open>Files and paths\<close>

text \<open>
  An open \<open>std::fs::File\<close>: the bytes of the file and the offset of the handle. A \<open>read\<close> answers
  with an error or moves some bytes, at least one unless the file has ended or the buffer is empty.
  A \<open>write\<close> answers with an error or accepts a prefix, possibly empty, of the buffer.
\<close>

record fs_file =
  f_data :: "u8 list"
  f_pos :: nat

definition file_read_len :: "nat \<Rightarrow> nat \<Rightarrow> fs_file \<Rightarrow> nat" where
  "file_read_len hint cap f = min (max 1 hint) (min cap (length (f_data f) - f_pos f))"

definition file_read :: "io_error + nat \<Rightarrow> nat \<Rightarrow> fs_file \<Rightarrow> io_error + u8 list \<times> fs_file" where
  "file_read ans cap f =
     (case ans of
        Inl e \<Rightarrow> Inl e
      | Inr hint \<Rightarrow>
          (let n = file_read_len hint cap f
           in Inr (take n (drop (f_pos f) (f_data f)), f\<lparr>f_pos := f_pos f + n\<rparr>)))"

definition file_put :: "u8 list \<Rightarrow> fs_file \<Rightarrow> fs_file" where
  "file_put bs f =
     \<lparr>f_data = take (f_pos f) (f_data f) @ replicate (f_pos f - length (f_data f)) 0 @ bs
                @ drop (f_pos f + length bs) (f_data f),
      f_pos = f_pos f + length bs\<rparr>"

definition file_write :: "io_error + nat \<Rightarrow> u8 list \<Rightarrow> fs_file \<Rightarrow> io_error + nat \<times> fs_file" where
  "file_write ans bs f =
     (case ans of
        Inl e \<Rightarrow> Inl e
      | Inr n \<Rightarrow> Inr (min n (length bs), if bs = [] \<or> n = 0 then f else file_put (take n bs) f))"

text \<open>
  \<open>Path::file_name\<close> and \<open>PathBuf::push\<close> on Unix: empty and \<open>.\<close> components are skipped, a final
  \<open>..\<close> or an empty path has no file name, pushing an absolute path replaces the receiver.
\<close>

fun path_split :: "string \<Rightarrow> string list" where
  "path_split [] = [[]]"
| "path_split (c # cs) =
     (if c = CHR ''/'' then [] # path_split cs
      else (case path_split cs of [] \<Rightarrow> [[c]] | w # ws \<Rightarrow> (c # w) # ws))"

definition path_components :: "string \<Rightarrow> string list" where
  "path_components p = filter (\<lambda>w. w \<noteq> [] \<and> w \<noteq> ''.'') (path_split p)"

definition path_file_name :: "string \<Rightarrow> string option" where
  "path_file_name p =
     (let ws = path_components p
      in if ws = [] \<or> last ws = ''..'' then None else Some (last ws))"

definition path_push :: "string \<Rightarrow> string \<Rightarrow> string" where
  "path_push p q =
     (if q \<noteq> [] \<and> hd q = CHR ''/'' then q
      else if p = [] \<or> last p = CHR ''/'' then p @ q
      else p @ ''/'' @ q)"

text \<open>Slicing \<open>&s[i..]\<close> of a string panics unless \<open>i\<close> is a UTF-8 character boundary.\<close>

definition str_slice_from :: "string \<Rightarrow> nat \<Rightarrow> string outcome" where
  "str_slice_from s i =
     (if i = 0 \<or> i = length s \<or> (i < length s \<and> \<not> (128 \<le> (of_char (s ! i) :: nat) \<and> (of_char (s ! i) :: nat) < 192))
      then Returns (drop i s) else Panics)"

section \<open>Records of transfers\<close>

record pending_recv =
  pr_local_recv_id :: u64
  pr_remote_send_id :: u64
  pr_bytes_total :: u64
  pr_file_name :: string
  pr_remote :: peer_id
  pr_timestamp :: u64

record ongoing_file_recv =
  or_remote_send_id :: u64
  or_local_recv_id :: u64
  or_remote :: peer_id
  or_bytes_received :: u64
  or_bytes_total :: u64
  or_file_handle :: fs_file
  or_file_path :: string
  or_last_active :: u64

record pending_send =
  ps_local_send_id :: u64
  ps_remote :: peer_id
  ps_file_path :: string
  ps_bytes_total :: u64
  ps_file :: fs_file
  ps_timestamp :: u64

record ongoing_file_send =
  os_local_send_id :: u64
  os_remote :: peer_id
  os_bytes_sent :: u64
  os_bytes_total :: u64
  os_file_handle :: fs_file
  os_file_path :: string
  os_last_active :: u64

record recv_info =
  ri_local_recv_id :: u64
  ri_bytes_total :: u64
  ri_bytes_received :: u64
  ri_file_name :: string
  ri_remote :: peer_id
  ri_timestamp :: u64

record send_info =
  si_local_send_id :: u64
  si_bytes_sent :: u64
  si_bytes_total :: u64
  si_started :: bool
  si_remote :: peer_id
  si_file_path :: string

definition recv_info_of_pending :: "pending_recv \<Rightarrow> recv_info" where
  "recv_info_of_pending v =
     \<lparr>ri_local_recv_id = pr_local_recv_id v, ri_bytes_total = pr_bytes_total v, ri_bytes_received = 0,
      ri_file_name = pr_file_name v, ri_remote = pr_remote v, ri_timestamp = pr_timestamp v\<rparr>"

definition recv_info_of_ongoing :: "ongoing_file_recv \<Rightarrow> recv_info outcome" where
  "recv_info_of_ongoing v =
     (case path_file_name (or_file_path v) of
        None \<Rightarrow> Panics
      | Some name \<Rightarrow> Returns
          \<lparr>ri_local_recv_id = or_local_recv_id v, ri_bytes_total = or_bytes_total v,
           ri_bytes_received = or_bytes_received v, ri_file_name = name,
           ri_remote = or_remote v, ri_timestamp = or_last_active v\<rparr>)"

definition send_info_of_pending :: "pending_send \<Rightarrow> send_info" where
  "send_info_of_pending v =
     \<lparr>si_local_send_id = ps_local_send_id v, si_bytes_sent = 0, si_bytes_total = ps_bytes_total v,
      si_started = False, si_remote = ps_remote v, si_file_path = ps_file_path v\<rparr>"

definition send_info_of_ongoing :: "ongoing_file_send \<Rightarrow> send_info" where
  "send_info_of_ongoing v =
     \<lparr>si_local_send_id = os_local_send_id v, si_bytes_sent = os_bytes_sent v,
      si_bytes_total = os_bytes_total v, si_started = True, si_remote = os_remote v,
      si_file_path = os_file_path v\<rparr>"

definition send_info_fmt :: "send_info \<Rightarrow> rust_text outcome" where
  "send_info_fmt v =
     and_then (str_slice_from (si_file_path v) (length (si_file_path v) - 30)) (\<lambda>tail.
       let pre = [Lit ''ID('', ArgNat (unat (si_local_send_id v)), Lit '')'', ArgPad 30 tail, Lit ''\<newline>'',
                  Lit ''Remote: '', ArgPeer (si_remote v), Lit ''\<newline>'']
       in if si_started v
          then if si_bytes_sent v = 0 then Panics
               else Returns (pre @ [Lit ''Bytes total: '', ArgNat (unat (si_bytes_total v)),
                      Lit ''; Bytes sent: '', ArgNat (unat (si_bytes_sent v)), Lit ''('',
                      ArgNat (unat (si_bytes_total v div si_bytes_sent v)), Lit ''%)\<newline>''])
          else Returns (pre @ [Lit ''Bytes total: '', ArgNat (unat (si_bytes_total v))]))"

section \<open>Events\<close>

datatype blob_in_event =
    In_SendFile fs_file string peer_id callback
  | In_AcceptFile fs_file u64 string callback
  | In_ListConnected callback
  | In_ListRecv callback
  | In_ListSend callback
  | In_CancelRecv u64 callback
  | In_CancelSend u64 callback

datatype blob_out_event =
    Out_IncomingFile peer_id string u64 u64
  | Out_RecvProgressed u64 u64 u64
  | Out_OngoingRecvError u64 rust_text
  | Out_SendProgressed u64 u64 u64
  | Out_OngoingSendError u64 rust_text
  | Out_CancelledSend u64
  | Out_CancelledRecv u64
  | Out_Error blob_error
  | Out_InboundNegotiated peer_id
  | Out_OutboundNegotiated peer_id
  | Out_Unsupported peer_id

datatype blob_from_behaviour =
    FB_NewFileSend string u64 callback u64
  | FB_FileChunk u64 "u8 list"
  | FB_AcceptFile u64 callback
  | FB_LocalCancelSend u64
  | FB_LocalCancelRecv u64

datatype blob_to_behaviour =
    TB_RecvProgressed u64 "u8 list"
  | TB_SendProgressed u64 duration
  | TB_IncomingFile string u64 u64
  | TB_FileSendAccepted u64
  | TB_FileSendPending u64
  | TB_RemoteCancelSend u64
  | TB_RemoteCancelRecv u64
  | TB_Error blob_error
  | TB_InboundNegotiated
  | TB_OutboundNegotiated
  | TB_Unsupported

text \<open>The answers sent through the \<open>oneshot\<close> callbacks of the input events.\<close>

datatype blob_reply =
    ReplySend callback "file_send_error + u64"
  | ReplyRecv callback "file_recv_error + duration"
  | ReplyCancel callback "cancellation_error + unit"
  | ReplyConnected callback "peer_id list"
  | ReplyListRecv callback "recv_info list"
  | ReplyListSend callback "send_info list"

section \<open>Lemmas on files and paths\<close>

lemma file_read_len_le: "file_read_len hint cap f \<le> cap" "file_read_len hint cap f \<le> length (f_data f) - f_pos f"
  by (simp_all add: file_read_len_def)

lemma file_read_len_zero_iff:
  "0 < cap \<Longrightarrow> file_read_len hint cap f = 0 \<longleftrightarrow> length (f_data f) \<le> f_pos f"
  by (auto simp: file_read_len_def min_def)

lemma file_put_append:
  "f_pos f = length (f_data f) \<Longrightarrow>
     file_put bs f = \<lparr>f_data = f_data f @ bs, f_pos = f_pos f + length bs\<rparr>"
  by (simp add: file_put_def)

lemma path_split_not_Nil [simp]: "path_split p \<noteq> []"
  by (cases p) (auto split: list.splits)

end
