(* ===== verification/Blob_Behaviour.thy ===== *)
theory Blob_Behaviour
  imports Blob_Types
begin

text \<open>
  \<open>owlnest-blob/src/behaviour.rs\<close>: the state of the network behaviour and every operation of it.
  An operation takes the environment it runs in (clock, file system answers, which callback
  receivers are still alive), the state, and returns the new state with the answers it sends
  through callbacks. Log output is not modelled.
\<close>

section \<open>State\<close>

record blob_env =
  be_now :: u64
  be_instant :: nat
  be_metadata :: "io_error option"
  be_read :: "io_error + nat"
  be_write :: "nat \<Rightarrow> io_error + nat"
  be_receiver_alive :: "callback \<Rightarrow> bool"

type_synonym blob_to_swarm = "(blob_out_event, blob_from_behaviour) to_swarm"

record blob_behaviour =
  bb_config :: blob_config
  bb_out_events :: "blob_out_event list"
  bb_pending_handler_event :: "blob_to_swarm list"
  bb_connected_peers :: "peer_id hash_set"
  bb_recv_counter :: u64
  bb_send_counter :: u64
  bb_pending_recv :: "(u64, pending_recv) hash_map"
  bb_pending_send :: "(u64, pending_send) hash_map"
  bb_ongoing_recv :: "(u64, ongoing_file_recv) hash_map"
  bb_ongoing_send :: "(u64, ongoing_file_send) hash_map"
  bb_expiry_deadline :: nat

definition FILE_CHUNK_SIZE :: nat where
  "FILE_CHUNK_SIZE = push_bit 18 1"

definition blob_behaviour_default :: "nat \<Rightarrow> blob_behaviour" where
  "blob_behaviour_default instant =
     \<lparr>bb_config = blob_config_default, bb_out_events = [], bb_pending_handler_event = [],
      bb_connected_peers = [], bb_recv_counter = 0, bb_send_counter = 0, bb_pending_recv = [],
      bb_pending_send = [], bb_ongoing_recv = [], bb_ongoing_send = [],
      bb_expiry_deadline = instant + 5000\<rparr>"

definition blob_behaviour_new :: "blob_config \<Rightarrow> nat \<Rightarrow> blob_behaviour" where
  "blob_behaviour_new config instant = (blob_behaviour_default instant)\<lparr>bb_config := config\<rparr>"

section \<open>Helpers\<close>

definition blob_next_recv_id :: "blob_behaviour \<Rightarrow> u64 \<times> blob_behaviour" where
  "blob_next_recv_id b = (bb_recv_counter b, b\<lparr>bb_recv_counter := bb_recv_counter b + 1\<rparr>)"

definition blob_next_send_id :: "blob_behaviour \<Rightarrow> u64 \<times> blob_behaviour" where
  "blob_next_send_id b = (bb_send_counter b, b\<lparr>bb_send_counter := bb_send_counter b + 1\<rparr>)"

definition blob_emit :: "blob_out_event \<Rightarrow> blob_behaviour \<Rightarrow> blob_behaviour" where
  "blob_emit ev b = b\<lparr>bb_out_events := push_back (bb_out_events b) ev\<rparr>"

definition blob_notify :: "peer_id \<Rightarrow> blob_from_behaviour \<Rightarrow> blob_behaviour \<Rightarrow> blob_behaviour" where
  "blob_notify peer ev b =
     b\<lparr>bb_pending_handler_event := push_back (bb_pending_handler_event b) (NotifyHandler peer Any ev)\<rparr>"

text \<open>\<open>remove_recv_record\<close>: both maps are searched with the local receive id.\<close>

definition blob_remove_recv_record ::
  "u64 \<Rightarrow> blob_behaviour \<Rightarrow> (peer_id \<times> u64) option \<times> blob_behaviour" where
  "blob_remove_recv_record local_recv_id b =
     (case hm_get (bb_pending_recv b) local_recv_id of
        Some v \<Rightarrow> (Some (pr_remote v, pr_remote_send_id v),
                   b\<lparr>bb_pending_recv := hm_remove local_recv_id (bb_pending_recv b)\<rparr>)
      | None \<Rightarrow>
          (case hm_get (bb_ongoing_recv b) local_recv_id of
             Some v \<Rightarrow> (Some (or_remote v, or_remote_send_id v),
                        b\<lparr>bb_ongoing_recv := hm_remove local_recv_id (bb_ongoing_recv b)\<rparr>)
           | None \<Rightarrow> (None, b)))"

definition blob_remove_send_record ::
  "u64 \<Rightarrow> blob_behaviour \<Rightarrow> peer_id option \<times> blob_behaviour" where
  "blob_remove_send_record local_send_id b =
     (case hm_get (bb_pending_send b) local_send_id of
        Some v \<Rightarrow> (Some (ps_remote v),
                   b\<lparr>bb_pending_send := hm_remove local_send_id (bb_pending_send b)\<rparr>)
      | None \<Rightarrow>
          (case hm_get (bb_ongoing_send b) local_send_id of
             Some v \<Rightarrow> (Some (os_remote v),
                        b\<lparr>bb_ongoing_send := hm_remove local_send_id (bb_ongoing_send b)\<rparr>)
           | None \<Rightarrow> (None, b)))"

definition blob_cancel_recv :: "u64 \<Rightarrow> blob_behaviour \<Rightarrow> bool \<times> blob_behaviour" where
  "blob_cancel_recv local_recv_id b =
     (case blob_remove_recv_record local_recv_id b of
        (Some (remote, remote_send_id), b') \<Rightarrow>
          (True, blob_emit (Out_CancelledRecv local_recv_id)
                   (blob_notify remote (FB_LocalCancelRecv remote_send_id) b'))
      | (None, b') \<Rightarrow> (False, b'))"

definition blob_cancel_send :: "u64 \<Rightarrow> blob_behaviour \<Rightarrow> bool \<times> blob_behaviour" where
  "blob_cancel_send local_send_id b =
     (case blob_remove_send_record local_send_id b of
        (Some remote, b') \<Rightarrow> (True, blob_notify remote (FB_LocalCancelSend local_send_id) b')
      | (None, b') \<Rightarrow> (False, b'))"

text \<open>\<open>extract_if(..).next()\<close> removes the first matching entry, in iteration order.\<close>

definition blob_remove_recv_by_remote_send_id ::
  "u64 \<Rightarrow> blob_behaviour \<Rightarrow> (peer_id \<times> u64) option \<times> blob_behaviour" where
  "blob_remove_recv_by_remote_send_id remote_send_id b =
     (case hm_get (bb_ongoing_recv b) remote_send_id of
        Some v \<Rightarrow> (Some (or_remote v, or_local_recv_id v),
                   b\<lparr>bb_ongoing_recv := hm_remove remote_send_id (bb_ongoing_recv b)\<rparr>)
      | None \<Rightarrow>
          (case List.find (\<lambda>(_, v). pr_remote_send_id v = remote_send_id) (bb_pending_recv b) of
             Some (k, v) \<Rightarrow> (Some (pr_remote v, pr_remote_send_id v),
                             b\<lparr>bb_pending_recv := hm_remove k (bb_pending_recv b)\<rparr>)
           | None \<Rightarrow> (None, b)))"

section \<open>Progress of transfers\<close>

definition blob_progress_ongoing_send :: "blob_env \<Rightarrow> u64 \<Rightarrow> blob_behaviour \<Rightarrow> blob_behaviour" where
  "blob_progress_ongoing_send env local_send_id b =
     (case hm_get (bb_ongoing_send b) local_send_id of
        None \<Rightarrow> b
      | Some v0 \<Rightarrow>
          (let v = v0\<lparr>os_last_active := be_now env\<rparr>
           in case file_read (be_read env) FILE_CHUNK_SIZE (os_file_handle v) of
                Inl e \<Rightarrow> b\<lparr>bb_ongoing_send := hm_remove local_send_id (bb_ongoing_send b)\<rparr>
              | Inr (buf, fh) \<Rightarrow>
                  (let v' = v\<lparr>os_file_handle := fh,
                              os_bytes_sent := os_bytes_sent v + of_nat (length buf)\<rparr>;
                       b1 = blob_notify (os_remote v') (FB_FileChunk (os_local_send_id v') buf)
                              (b\<lparr>bb_ongoing_send := hm_insert local_send_id v' (bb_ongoing_send b)\<rparr>)
                   in if length buf = 0
                      then b1\<lparr>bb_ongoing_send := hm_remove local_send_id (bb_ongoing_send b1)\<rparr>
                      else b1)))"

partial_function (option) blob_write_loop ::
  "(nat \<Rightarrow> io_error + nat) \<Rightarrow> nat \<Rightarrow> fs_file \<Rightarrow> u8 list \<Rightarrow> nat \<Rightarrow> (io_error + nat \<times> fs_file) option" where
  "blob_write_loop ans i f content cursor =
     (case file_write (ans i) (drop cursor content) f of
        Inl e \<Rightarrow> Some (Inl e)
      | Inr (bytes_written, f') \<Rightarrow>
          if cursor + bytes_written \<ge> length content then Some (Inr (cursor + bytes_written, f'))
          else blob_write_loop ans (Suc i) f' content (cursor + bytes_written))"

definition blob_progress_ongoing_recv ::
  "blob_env \<Rightarrow> u64 \<Rightarrow> u8 list \<Rightarrow> blob_behaviour \<Rightarrow> blob_behaviour outcome" where
  "blob_progress_ongoing_recv env remote_send_id content b =
     (case hm_get (bb_ongoing_recv b) remote_send_id of
        None \<Rightarrow> Returns b
      | Some v0 \<Rightarrow>
          (let b1 = b\<lparr>bb_ongoing_recv := hm_remove remote_send_id (bb_ongoing_recv b)\<rparr>;
               v = v0\<lparr>or_last_active := be_now env\<rparr>
           in if length content = 0 \<and> or_bytes_received v \<noteq> or_bytes_total v
              then Returns (blob_emit (Out_Error (UnexpectedEOF (or_local_recv_id v))) b1)
              else if length content = 0
              then Returns (blob_emit (Out_RecvProgressed (or_local_recv_id v) (or_bytes_total v) (or_bytes_total v)) b1)
              else (case blob_write_loop (be_write env) 0 (or_file_handle v) content 0 of
                      None \<Rightarrow> Hangs
                    | Some (Inl e) \<Rightarrow>
                        Returns (blob_emit (Out_OngoingRecvError (or_local_recv_id v) (io_debug e)) b1)
                    | Some (Inr (cursor, fh)) \<Rightarrow>
                        Returns (b1\<lparr>bb_ongoing_recv :=
                          hm_insert remote_send_id
                            (v\<lparr>or_file_handle := fh, or_bytes_received := or_bytes_received v + of_nat cursor\<rparr>)
                            (bb_ongoing_recv b1)\<rparr>))))"

definition blob_on_new_pending_recv ::
  "blob_env \<Rightarrow> peer_id \<Rightarrow> string \<Rightarrow> u64 \<Rightarrow> u64 \<Rightarrow> blob_behaviour \<Rightarrow> blob_behaviour" where
  "blob_on_new_pending_recv env from file_name remote_send_id bytes_total b =
     (let (local_recv_id, b1) = blob_next_recv_id b;
          rec = \<lparr>pr_local_recv_id = local_recv_id, pr_remote_send_id = remote_send_id,
                 pr_bytes_total = bytes_total, pr_file_name = file_name, pr_remote = from,
                 pr_timestamp = be_now env\<rparr>
      in blob_emit (Out_IncomingFile from file_name local_recv_id bytes_total)
           (b1\<lparr>bb_pending_recv := hm_insert local_recv_id rec (bb_pending_recv b1)\<rparr>))"

definition blob_accept_pending_recv ::
  "blob_env \<Rightarrow> fs_file \<Rightarrow> string \<Rightarrow> u64 \<Rightarrow> callback \<Rightarrow> blob_behaviour \<Rightarrow> blob_behaviour \<times> blob_reply list" where
  "blob_accept_pending_recv env file path recv_id cb b =
     (case hm_get (bb_pending_recv b) recv_id of
        None \<Rightarrow> (b, [ReplyRecv cb (Inl (PendingRecvNotFound recv_id))])
      | Some p \<Rightarrow>
          (let rec = \<lparr>or_remote_send_id = pr_remote_send_id p, or_local_recv_id = recv_id,
                      or_remote = pr_remote p, or_bytes_received = 0, or_bytes_total = pr_bytes_total p,
                      or_file_handle = file, or_file_path = path_push path (pr_file_name p),
                      or_last_active = be_now env\<rparr>;
               b1 = b\<lparr>bb_pending_recv := hm_remove recv_id (bb_pending_recv b),
                      bb_ongoing_recv := hm_insert (pr_remote_send_id p) rec (bb_ongoing_recv b)\<rparr>
           in (blob_notify (pr_remote p) (FB_AcceptFile (pr_remote_send_id p) cb) b1, [])))"

definition blob_pending_send_accepted ::
  "blob_env \<Rightarrow> u64 \<Rightarrow> blob_behaviour \<Rightarrow> ((unit + u64) \<times> blob_behaviour) outcome" where
  "blob_pending_send_accepted env local_send_id b =
     (if \<not> hm_contains_key (bb_pending_send b) local_send_id
          \<and> \<not> hm_contains_key (bb_ongoing_send b) local_send_id
      then Returns (Inl (), b)
      else (case hm_get (bb_pending_send b) local_send_id of
              None \<Rightarrow> Panics
            | Some p \<Rightarrow>
                (let rec = \<lparr>os_local_send_id = ps_local_send_id p, os_remote = ps_remote p,
                            os_bytes_sent = 0, os_bytes_total = ps_bytes_total p,
                            os_file_handle = ps_file p, os_file_path = ps_file_path p,
                            os_last_active = be_now env\<rparr>;
                     b1 = b\<lparr>bb_pending_send := hm_remove local_send_id (bb_pending_send b),
                            bb_ongoing_send := hm_insert (ps_local_send_id p) rec (bb_ongoing_send b)\<rparr>
                 in Returns (Inr (ps_bytes_total p),
                             blob_progress_ongoing_send env (ps_local_send_id p) b1))))"

section \<open>Expiry\<close>

text \<open>The four blocks of \<open>check_expiry\<close>; a timeout of 0 switches a block off.\<close>

definition blob_expire_pending_send :: "u64 \<Rightarrow> blob_behaviour \<Rightarrow> blob_behaviour" where
  "blob_expire_pending_send now b =
     (if bc_pending_send_timeout_sec (bb_config b) > 0
      then fold (\<lambda>k b. snd (blob_cancel_send k b))
             (map fst (filter (\<lambda>(_, v). now - ps_timestamp v > bc_pending_send_timeout_sec (bb_config b))
                (bb_pending_send b))) b
      else b)"

definition blob_expire_pending_recv :: "u64 \<Rightarrow> blob_behaviour \<Rightarrow> blob_behaviour" where
  "blob_expire_pending_recv now b =
     (if bc_pending_recv_timeout_sec (bb_config b) > 0
      then fold (\<lambda>k b. snd (blob_cancel_recv k b))
             (map fst (filter (\<lambda>(_, v). now - pr_timestamp v > bc_pending_recv_timeout_sec (bb_config b))
                (bb_pending_recv b))) b
      else b)"

definition blob_expire_ongoing_send :: "u64 \<Rightarrow> blob_behaviour \<Rightarrow> blob_behaviour" where
  "blob_expire_ongoing_send now b =
     (if bc_ongoing_send_timeout_sec (bb_config b) > 0
      then fold (\<lambda>k b. snd (blob_cancel_send k b))
             (map fst (filter (\<lambda>(_, v). now - os_last_active v > bc_ongoing_send_timeout_sec (bb_config b))
                (bb_ongoing_send b))) b
      else b)"

definition blob_expire_ongoing_recv :: "u64 \<Rightarrow> blob_behaviour \<Rightarrow> blob_behaviour" where
  "blob_expire_ongoing_recv now b =
     (if bc_ongoing_recv_timeout_sec (bb_config b) > 0
      then fold (\<lambda>k b. snd (blob_cancel_recv k b))
             (map (\<lambda>(_, v). or_local_recv_id v)
                (filter (\<lambda>(_, v). now - or_last_active v > bc_ongoing_recv_timeout_sec (bb_config b))
                   (bb_ongoing_recv b))) b
      else b)"

definition blob_check_expiry :: "blob_env \<Rightarrow> blob_behaviour \<Rightarrow> blob_behaviour" where
  "blob_check_expiry env b =
     blob_expire_ongoing_recv (be_now env)
       (blob_expire_ongoing_send (be_now env)
         (blob_expire_pending_recv (be_now env)
           (blob_expire_pending_send (be_now env) b)))"

section \<open>Requests of the application\<close>

definition blob_send_file ::
  "blob_env \<Rightarrow> fs_file \<Rightarrow> string \<Rightarrow> peer_id \<Rightarrow> callback \<Rightarrow> blob_behaviour
    \<Rightarrow> (blob_behaviour \<times> blob_reply list) outcome" where
  "blob_send_file env file file_path to cb b =
     (let (local_send_id, b1) = blob_next_send_id b
      in if \<not> hs_contains (bb_connected_peers b1) to
         then if be_receiver_alive env cb
              then Returns (b1, [ReplySend cb (Inl FilePeerNotFound)]) else Panics
         else (case be_metadata env of
                 Some _ \<Rightarrow> Returns (b1, [])
               | None \<Rightarrow>
                   (let bytes_total = of_nat (length (f_data file));
                        rec = \<lparr>ps_local_send_id = local_send_id, ps_remote = to, ps_file_path = file_path,
                               ps_bytes_total = bytes_total, ps_file = file, ps_timestamp = be_now env\<rparr>
                    in case path_file_name file_path of
                         None \<Rightarrow> Panics
                       | Some file_name \<Rightarrow>
                           Returns (blob_notify to (FB_NewFileSend file_name local_send_id cb bytes_total)
                             (b1\<lparr>bb_pending_send := hm_insert local_send_id rec (bb_pending_send b1)\<rparr>), []))))"

fun blob_push_event ::
  "blob_env \<Rightarrow> blob_in_event \<Rightarrow> blob_behaviour \<Rightarrow> (blob_behaviour \<times> blob_reply list) outcome" where
  "blob_push_event env (In_SendFile file file_path to cb) b = blob_send_file env file file_path to cb b"
| "blob_push_event env (In_AcceptFile file recv_id path cb) b =
     Returns (blob_accept_pending_recv env file path recv_id cb b)"
| "blob_push_event env (In_CancelRecv recv_id cb) b =
     (case blob_cancel_recv recv_id b of
        (True, b') \<Rightarrow> Returns (b', [ReplyCancel cb (Inr ())])
      | (False, b') \<Rightarrow> Returns (b', [ReplyCancel cb (Inl IdNotFound)]))"
| "blob_push_event env (In_CancelSend local_send_id cb) b =
     (case blob_cancel_send local_send_id b of
        (True, b') \<Rightarrow> Returns (b', [ReplyCancel cb (Inr ())])
      | (False, b') \<Rightarrow> Returns (b', [ReplyCancel cb (Inl IdNotFound)]))"
| "blob_push_event env (In_ListConnected cb) b = Returns (b, [ReplyConnected cb (bb_connected_peers b)])"
| "blob_push_event env (In_ListRecv cb) b =
     and_then (collect_outcomes
                 (map recv_info_of_ongoing (hm_values (bb_ongoing_recv b))
                  @ map (\<lambda>v. Returns (recv_info_of_pending v)) (hm_values (bb_pending_recv b))))
       (\<lambda>infos. Returns (b, [ReplyListRecv cb infos]))"
| "blob_push_event env (In_ListSend cb) b =
     Returns (b, [ReplyListSend cb (map send_info_of_ongoing (hm_values (bb_ongoing_send b))
                                    @ map send_info_of_pending (hm_values (bb_pending_send b)))])"

section \<open>Events of connections\<close>

fun blob_on_handler_event ::
  "blob_env \<Rightarrow> peer_id \<Rightarrow> blob_to_behaviour \<Rightarrow> blob_behaviour \<Rightarrow> blob_behaviour outcome" where
  "blob_on_handler_event env peer (TB_RecvProgressed remote_send_id content) b =
     blob_progress_ongoing_recv env remote_send_id content b"
| "blob_on_handler_event env peer (TB_IncomingFile file_name remote_send_id bytes_total) b =
     Returns (blob_on_new_pending_recv env peer file_name remote_send_id bytes_total b)"
| "blob_on_handler_event env peer (TB_Error e) b = Returns (blob_emit (Out_Error e) b)"
| "blob_on_handler_event env peer TB_InboundNegotiated b =
     Returns (blob_emit (Out_InboundNegotiated peer) b)"
| "blob_on_handler_event env peer TB_OutboundNegotiated b =
     Returns (blob_emit (Out_OutboundNegotiated peer)
       (b\<lparr>bb_connected_peers := hs_insert peer (bb_connected_peers b)\<rparr>))"
| "blob_on_handler_event env peer TB_Unsupported b = Returns (blob_emit (Out_Unsupported peer) b)"
| "blob_on_handler_event env peer (TB_FileSendPending local_send_id) b = Returns b"
| "blob_on_handler_event env peer (TB_FileSendAccepted local_send_id) b =
     and_then (blob_pending_send_accepted env local_send_id b) (\<lambda>r.
       case r of
         (Inr bytes_total, b') \<Rightarrow> Returns (blob_emit (Out_SendProgressed local_send_id 0 bytes_total) b')
       | (Inl _, b') \<Rightarrow> Returns b')"
| "blob_on_handler_event env peer (TB_SendProgressed local_send_id rtt) b =
     (let b1 = (case hm_get (bb_ongoing_send b) local_send_id of
                  Some v \<Rightarrow> blob_emit (Out_SendProgressed local_send_id (os_bytes_sent v) (os_bytes_total v)) b
                | None \<Rightarrow> b)
      in Returns (blob_progress_ongoing_send env local_send_id b1))"
| "blob_on_handler_event env peer (TB_RemoteCancelSend local_send_id) b =
     Returns (snd (blob_remove_send_record local_send_id (blob_emit (Out_CancelledSend local_send_id) b)))"
| "blob_on_handler_event env peer (TB_RemoteCancelRecv remote_send_id) b =
     (case blob_remove_recv_by_remote_send_id remote_send_id b of
        (Some (_, local_recv_id), b') \<Rightarrow> Returns (blob_emit (Out_CancelledRecv local_recv_id) b')
      | (None, b') \<Rightarrow> Returns b')"

definition blob_on_disconnect :: "connection_closed \<Rightarrow> blob_behaviour \<Rightarrow> blob_behaviour" where
  "blob_on_disconnect info b =
     (if cc_remaining_established info < 1
      then b\<lparr>bb_connected_peers := hs_remove (cc_peer_id info) (bb_connected_peers b),
             bb_pending_send := hm_retain (\<lambda>_ v. ps_remote v \<noteq> cc_peer_id info) (bb_pending_send b),
             bb_pending_recv := hm_retain (\<lambda>_ v. pr_remote v \<noteq> cc_peer_id info) (bb_pending_recv b),
             bb_ongoing_send := hm_retain (\<lambda>_ v. os_remote v \<noteq> cc_peer_id info) (bb_ongoing_send b),
             bb_ongoing_recv := hm_retain (\<lambda>_ v. or_remote v \<noteq> cc_peer_id info) (bb_ongoing_recv b)\<rparr>
      else b)"

fun blob_on_swarm_event :: "from_swarm \<Rightarrow> blob_behaviour \<Rightarrow> blob_behaviour" where
  "blob_on_swarm_event (ConnectionClosed info) b = blob_on_disconnect info b"
| "blob_on_swarm_event (OtherFromSwarm _) b = b"

text \<open>The first statement of \<open>poll\<close>: the throttled expiry check.\<close>

definition blob_tick :: "blob_env \<Rightarrow> blob_behaviour \<Rightarrow> blob_behaviour" where
  "blob_tick env b =
     (if be_instant env \<ge> bb_expiry_deadline b
      then (blob_check_expiry env b)\<lparr>bb_expiry_deadline := be_instant env + 5000\<rparr>
      else b)"

definition blob_poll :: "blob_env \<Rightarrow> blob_behaviour \<Rightarrow> blob_to_swarm poll \<times> blob_behaviour" where
  "blob_poll env b0 =
     (let b = blob_tick env b0
      in case pop_front (bb_out_events b) of
           Some (ev, q) \<Rightarrow> (Ready (GenerateEvent ev), b\<lparr>bb_out_events := q\<rparr>)
         | None \<Rightarrow>
             (case pop_front (bb_pending_handler_event b) of
                Some (ev, q) \<Rightarrow> (Ready ev, b\<lparr>bb_pending_handler_event := q\<rparr>)
              | None \<Rightarrow> (Pending, b)))"

definition blob_queue :: "blob_env \<Rightarrow> blob_behaviour \<Rightarrow> blob_to_swarm list" where
  "blob_queue env b =
     map GenerateEvent (bb_out_events (blob_tick env b)) @ bb_pending_handler_event (blob_tick env b)"

lemmas blob_op_defs =
  blob_next_recv_id_def blob_next_send_id_def blob_emit_def blob_notify_def
  blob_remove_recv_record_def blob_remove_send_record_def blob_cancel_recv_def blob_cancel_send_def
  blob_remove_recv_by_remote_send_id_def

lemma blob_tick_idle: "be_instant env < bb_expiry_deadline b \<Longrightarrow> blob_tick env b = b"
  by (simp add: blob_tick_def)

lemma blob_tick_deadline [simp]: "be_instant env < bb_expiry_deadline (blob_tick env b)"
  by (simp add: blob_tick_def)

interpretation blob_src: event_source "blob_poll env" "blob_queue env" for env
proof (unfold_locales, goal_cases)
  case (1 b)
  then show ?case
    by (simp add: blob_poll_def blob_queue_def blob_tick_idle)
next
  case (2 b e es)
  then show ?case
    by (cases "bb_out_events (blob_tick env b)")
      (auto simp: blob_poll_def blob_queue_def blob_tick_idle Let_def)
qed

end
