(* ===== verification/Blob_Protocol.thy ===== *)
theory Blob_Protocol
  imports Blob_Behaviour "HOL-Library.Sublist"
begin

text \<open>
  The protocol of one file transfer, as an abstract transition system. Its state is what two blob
  behaviours and the queues between them know about one send id: the sender's and the receiver's
  records, the commands and events under way. The steps allow every interleaving, lost commands,
  lost acknowledgements, cancellations, expiry, I/O errors and broken connections. The invariant
  says that the receiver's file is always a prefix of the sender's, and complete once the empty
  chunk is there. \<open>Blob_Network\<close> shows that two real behaviours refine it.
\<close>

section \<open>State and steps\<close>

datatype xmsg = XOffer u64 | XChunk "u8 list"

datatype xack = XAccepted | XProgress

record xfer =
  xf_file :: "u8 list option"
  xf_pending :: "fs_file option"
  xf_sending :: "fs_file option"
  xf_up :: "xmsg list"
  xf_acks :: "xack list"
  xf_arrived :: "xmsg list"
  xf_offers :: "u64 \<rightharpoonup> u64"
  xf_recv :: "(u64 \<times> u64 \<times> fs_file) option"
  xf_accepts :: nat

definition xfer_init :: xfer where
  "xfer_init = \<lparr>xf_file = None, xf_pending = None, xf_sending = None, xf_up = [], xf_acks = [],
     xf_arrived = [], xf_offers = Map.empty, xf_recv = None, xf_accepts = 0\<rparr>"

fun chunks_of :: "xmsg list \<Rightarrow> u8 list list" where
  "chunks_of [] = []"
| "chunks_of (XOffer n # ms) = chunks_of ms"
| "chunks_of (XChunk c # ms) = c # chunks_of ms"

fun offers_of :: "xmsg list \<Rightarrow> u64 list" where
  "offers_of [] = []"
| "offers_of (XOffer n # ms) = n # offers_of ms"
| "offers_of (XChunk c # ms) = offers_of ms"

fun acks_of :: "xmsg \<Rightarrow> xack list" where
  "acks_of (XOffer n) = []"
| "acks_of (XChunk c) = [XProgress]"

text \<open>Reading the next chunk; the chunk may be addressed to another peer.\<close>

definition xfer_read :: "io_error + nat \<Rightarrow> bool \<Rightarrow> xfer \<Rightarrow> xfer" where
  "xfer_read ans here x =
     (case xf_sending x of
        None \<Rightarrow> x
      | Some f \<Rightarrow>
          (case file_read ans FILE_CHUNK_SIZE f of
             Inl e \<Rightarrow> x\<lparr>xf_sending := None\<rparr>
           | Inr (buf, f') \<Rightarrow>
               x\<lparr>xf_up := xf_up x @ (if here then [XChunk buf] else []),
                 xf_sending := (if buf = [] then None else Some f')\<rparr>))"

definition xfer_forgets :: "xfer \<Rightarrow> xfer \<Rightarrow> bool" where
  "xfer_forgets x x' \<longleftrightarrow>
     (\<exists>p s off r. p \<in> {None, xf_pending x} \<and> s \<in> {None, xf_sending x} \<and> off \<subseteq>\<^sub>m xf_offers x \<and> r \<in> {None, xf_recv x}
        \<and> x' = x\<lparr>xf_pending := p, xf_sending := s, xf_offers := off, xf_recv := r\<rparr>)"

inductive xfer_step :: "xfer \<Rightarrow> xfer \<Rightarrow> bool" where
  ask: "xf_file x = None \<Longrightarrow> p \<in> {None, Some \<lparr>f_data = D, f_pos = 0\<rparr>} \<Longrightarrow> ms \<in> {[], [XOffer (of_nat (length D))]}
    \<Longrightarrow> xfer_step x (x\<lparr>xf_file := Some D, xf_pending := p, xf_up := xf_up x @ ms\<rparr>)"
| forget: "xfer_forgets x x' \<Longrightarrow> xfer_step x x'"
| transmit: "xf_up x = m # ms \<Longrightarrow> delivered = [] \<and> acked = [] \<or> delivered = [m] \<and> acked \<in> {[], acks_of m}
    \<Longrightarrow> xfer_step x (x\<lparr>xf_up := ms, xf_arrived := xf_arrived x @ delivered, xf_acks := xf_acks x @ acked\<rparr>)"
| transmit_accept: "xf_accepts x = Suc n \<Longrightarrow> as \<in> {[], [XAccepted]}
    \<Longrightarrow> xfer_step x (x\<lparr>xf_accepts := n, xf_acks := xf_acks x @ as\<rparr>)"
| accepted: "xf_acks x = XAccepted # as \<Longrightarrow> xf_pending x = Some f
    \<Longrightarrow> xfer_step x (xfer_read ans here (x\<lparr>xf_acks := as, xf_pending := None, xf_sending := Some f\<rparr>))"
| accepted_late: "xf_acks x = XAccepted # as \<Longrightarrow> xf_pending x = None \<Longrightarrow> xfer_step x (x\<lparr>xf_acks := as\<rparr>)"
| progressed: "xf_acks x = XProgress # as \<Longrightarrow> xfer_step x (xfer_read ans here (x\<lparr>xf_acks := as\<rparr>))"
| offered: "xf_arrived x = XOffer n # ms \<Longrightarrow> xf_offers x i = None
    \<Longrightarrow> xfer_step x (x\<lparr>xf_arrived := ms, xf_offers := (xf_offers x)(i \<mapsto> n)\<rparr>)"
| stored: "xf_arrived x = XChunk c # ms \<Longrightarrow> c \<noteq> [] \<Longrightarrow> xf_recv x = Some (r, t, f)
    \<Longrightarrow> xfer_step x (x\<lparr>xf_arrived := ms, xf_recv := Some (r + of_nat (length c), t, file_put c f)\<rparr>)"
| dropped: "xf_arrived x = XChunk c # ms \<Longrightarrow> xfer_step x (x\<lparr>xf_arrived := ms, xf_recv := None\<rparr>)"
| accept: "xf_offers x i = Some n \<Longrightarrow> k \<in> {0, 1}
    \<Longrightarrow> xfer_step x (x\<lparr>xf_offers := (xf_offers x)(i := None), xf_recv := Some (0, n, \<lparr>f_data = [], f_pos = 0\<rparr>),
          xf_accepts := xf_accepts x + k\<rparr>)"
| sender_reset: "xfer_step x (x\<lparr>xf_up := drop j (xf_up x), xf_acks := []\<rparr>)"
| receiver_reset: "n \<le> xf_accepts x
    \<Longrightarrow> xfer_step x (x\<lparr>xf_arrived := [], xf_offers := Map.empty, xf_recv := None, xf_accepts := n\<rparr>)"

inductive_cases xfer_stepE: "xfer_step x x'"

section \<open>The invariant\<close>

text \<open>
  At any time at most one message can move the transfer on: the offer, the pending request, the
  acceptance, a chunk on its way or its acknowledgement.
\<close>

definition xf_tokens :: "xfer \<Rightarrow> nat" where
  "xf_tokens x = length (xf_up x) + length (offers_of (xf_arrived x)) + card (dom (xf_offers x))
     + xf_accepts x + length (xf_acks x)"

definition xf_flow :: "xfer \<Rightarrow> u8 list list" where
  "xf_flow x = chunks_of (xf_arrived x) @ chunks_of (xf_up x)"

definition xf_early :: "xfer \<Rightarrow> bool" where
  "xf_early x \<longleftrightarrow> offers_of (xf_up x) \<noteq> [] \<or> offers_of (xf_arrived x) \<noteq> [] \<or> xf_offers x \<noteq> Map.empty"

definition xf_unsent :: "xfer \<Rightarrow> bool" where
  "xf_unsent x \<longleftrightarrow> xf_early x \<or> xf_accepts x \<noteq> 0 \<or> XAccepted \<in> set (xf_acks x)"

definition recv_ok :: "u8 list \<Rightarrow> u8 list list \<Rightarrow> u64 \<Rightarrow> u64 \<Rightarrow> fs_file \<Rightarrow> bool" where
  "recv_ok D cs r t f \<longleftrightarrow> t = of_nat (length D) \<and> r = of_nat (length (f_data f)) \<and> f_pos f = length (f_data f)
     \<and> prefix (f_data f @ concat cs) D \<and> (\<forall>ys zs. cs = ys @ [] # zs \<longrightarrow> f_data f @ concat ys = D)"

definition xf_ready :: "xfer \<Rightarrow> bool" where
  "xf_ready x \<longleftrightarrow> XProgress \<in> set (xf_acks x) \<or> chunks_of (xf_up x) \<noteq> []"

definition xf_sender_ok :: "u8 list \<Rightarrow> xfer \<Rightarrow> bool" where
  "xf_sender_ok D x \<longleftrightarrow>
     (\<forall>f. xf_pending x = Some f \<longrightarrow> f = \<lparr>f_data = D, f_pos = 0\<rparr> \<and> xf_sending x = None)
     \<and> (\<forall>f. xf_sending x = Some f \<longrightarrow> f_data f = D \<and> f_pos f \<le> length D)"

definition xf_totals_ok :: "u8 list \<Rightarrow> xfer \<Rightarrow> bool" where
  "xf_totals_ok D x \<longleftrightarrow> (\<forall>n. n \<in> set (offers_of (xf_up x)) \<union> set (offers_of (xf_arrived x)) \<union> ran (xf_offers x)
     \<longrightarrow> n = of_nat (length D))"

definition xf_start_ok :: "xfer \<Rightarrow> bool" where
  "xf_start_ok x \<longleftrightarrow> (xf_early x \<longrightarrow> xf_recv x = None)
     \<and> (xf_unsent x \<longrightarrow> xf_sending x = None \<and> xf_flow x = []
          \<and> (\<forall>r t f. xf_recv x = Some (r, t, f) \<longrightarrow> f_data f = []))"

definition xf_data_ok :: "u8 list \<Rightarrow> xfer \<Rightarrow> bool" where
  "xf_data_ok D x \<longleftrightarrow> (\<forall>r t f. xf_recv x = Some (r, t, f) \<longrightarrow> recv_ok D (xf_flow x) r t f
     \<and> (\<forall>s. xf_sending x = Some s \<and> xf_ready x \<longrightarrow> f_data f @ concat (xf_flow x) = take (f_pos s) D))"

definition xfer_inv :: "xfer \<Rightarrow> bool" where
  "xfer_inv x \<longleftrightarrow> finite (dom (xf_offers x)) \<and>
     (case xf_file x of
        None \<Rightarrow> x = xfer_init
      | Some D \<Rightarrow> xf_tokens x \<le> 1 \<and> xf_sender_ok D x \<and> xf_totals_ok D x \<and> xf_start_ok x \<and> xf_data_ok D x)"

lemmas xfer_inv_defs = xfer_inv_def xf_tokens_def xf_sender_ok_def xf_totals_ok_def xf_start_ok_def xf_data_ok_def
  xf_flow_def xf_early_def xf_unsent_def xf_ready_def

lemma chunks_of_append [simp]: "chunks_of (xs @ ys) = chunks_of xs @ chunks_of ys"
  by (induction xs rule: chunks_of.induct) simp_all

lemma offers_of_append [simp]: "offers_of (xs @ ys) = offers_of xs @ offers_of ys"
  by (induction xs rule: offers_of.induct) simp_all

lemma xfer_invI:
  assumes "finite (dom (xf_offers x))" "xf_file x = Some D" "xf_tokens x \<le> 1" "xf_sender_ok D x" "xf_totals_ok D x"
    "xf_start_ok x" "xf_data_ok D x"
  shows "xfer_inv x"
  using assms by (simp add: xfer_inv_def)

lemma xfer_inv_init [simp]: "xfer_inv xfer_init"
  by (simp add: xfer_inv_def xfer_init_def)


section \<open>Every step keeps the invariant\<close>

lemma xfer_inv_None: "xfer_inv x \<Longrightarrow> xf_file x = None \<Longrightarrow> x = xfer_init"
  by (simp add: xfer_inv_def)

lemma xfer_inv_Some:
  assumes "xfer_inv x" and "xf_file x = Some D"
  shows "finite (dom (xf_offers x))" "xf_tokens x \<le> 1" "xf_sender_ok D x" "xf_totals_ok D x" "xf_start_ok x" "xf_data_ok D x"
  using assms by (simp_all add: xfer_inv_def)

lemma xfer_inv_busy: "xfer_inv x \<Longrightarrow> x \<noteq> xfer_init \<Longrightarrow> \<exists>D. xf_file x = Some D"
  by (cases "xf_file x") (auto dest: xfer_inv_None)

lemma xfer_init_fields [simp]:
  "xf_file xfer_init = None" "xf_pending xfer_init = None" "xf_sending xfer_init = None" "xf_up xfer_init = []"
  "xf_acks xfer_init = []" "xf_arrived xfer_init = []" "xf_offers xfer_init = Map.empty" "xf_recv xfer_init = None"
  "xf_accepts xfer_init = 0"
  by (simp_all add: xfer_init_def)

lemma xfer_ask_inv:
  assumes "xfer_inv x" "xf_file x = None" "p \<in> {None, Some \<lparr>f_data = D, f_pos = 0\<rparr>}" "ms \<in> {[], [XOffer (of_nat (length D))]}"
  shows "xfer_inv (x\<lparr>xf_file := Some D, xf_pending := p, xf_up := xf_up x @ ms\<rparr>)"
proof -
  have "x = xfer_init"
    using assms(1,2) by (rule xfer_inv_None)
  then show ?thesis
    using assms(3,4) by (intro xfer_invI [of _ D]) (auto simp: xfer_inv_defs)
qed

lemma xfer_forgetsI:
  "p \<in> {None, xf_pending x} \<Longrightarrow> s \<in> {None, xf_sending x} \<Longrightarrow> off \<subseteq>\<^sub>m xf_offers x \<Longrightarrow> r \<in> {None, xf_recv x}
    \<Longrightarrow> xfer_forgets x (x\<lparr>xf_pending := p, xf_sending := s, xf_offers := off, xf_recv := r\<rparr>)"
  unfolding xfer_forgets_def by blast

lemma xfer_forgets_inv:
  assumes "xfer_inv x" and "xfer_forgets x x'"
  shows "xfer_inv x'"
proof -
  obtain p s off r where p: "p \<in> {None, xf_pending x}" and s: "s \<in> {None, xf_sending x}"
    and off: "off \<subseteq>\<^sub>m xf_offers x" and r: "r \<in> {None, xf_recv x}"
    and x': "x' = x\<lparr>xf_pending := p, xf_sending := s, xf_offers := off, xf_recv := r\<rparr>"
    using assms(2) unfolding xfer_forgets_def by blast
  have sub: "dom off \<subseteq> dom (xf_offers x)"
    using off by (rule map_le_implies_dom_le)
  show ?thesis
  proof (cases "xf_file x")
    case None
    then show ?thesis
      using xfer_inv_None [OF assms(1)] p s r sub by (auto simp: x' xfer_init_def xfer_inv_def)
  next
    case (Some D)
    note inv = xfer_inv_Some [OF assms(1) Some]
    have ran: "ran off \<subseteq> ran (xf_offers x)"
      using off by (force simp: ran_def map_le_def dom_def)
    have early: "xf_early x' \<Longrightarrow> xf_early x" "xf_unsent x' \<Longrightarrow> xf_unsent x"
      using sub by (auto simp: x' xf_early_def xf_unsent_def)
    have flow: "xf_flow x' = xf_flow x" "xf_ready x' = xf_ready x"
      by (simp_all add: x' xf_flow_def xf_ready_def)
    show ?thesis
    proof (rule xfer_invI)
      show "xf_tokens x' \<le> 1"
        using inv(2) card_mono [OF inv(1) sub] by (simp add: x' xf_tokens_def)
      show "xf_sender_ok D x'"
        using inv(3) p s by (auto simp: x' xf_sender_ok_def)
      show "xf_totals_ok D x'"
        using inv(4) ran by (auto simp: x' xf_totals_ok_def)
      show "xf_start_ok x'"
        using inv(5) early r s by (auto simp: xf_start_ok_def flow) (auto simp: x')
      have "xf_recv x = Some y" if "xf_recv x' = Some y" for y
        using that r by (auto simp: x')
      moreover have "xf_sending x = Some y" if "xf_sending x' = Some y" for y
        using that s by (auto simp: x')
      ultimately show "xf_data_ok D x'"
        using inv(6) unfolding xf_data_ok_def flow by blast
    qed (use Some finite_subset [OF sub inv(1)] in \<open>simp_all add: x'\<close>)
  qed
qed

lemma recv_ok_appendD:
  assumes "recv_ok D (cs @ ds) r t f"
  shows "recv_ok D cs r t f"
proof -
  have "prefix (f_data f @ concat cs) D"
    using assms append_prefixD [of "f_data f @ concat cs" "concat ds" D] by (simp add: recv_ok_def)
  moreover have "f_data f @ concat ys = D" if "cs = ys @ [] # zs" for ys zs
    using assms that unfolding recv_ok_def by (metis append.assoc append_Cons)
  ultimately show ?thesis
    using assms by (simp add: recv_ok_def)
qed

lemma xfer_transmit_inv:
  assumes "xfer_inv x" "xf_up x = m # ms"
    and "delivered = [] \<and> acked = [] \<or> delivered = [m] \<and> acked \<in> {[], acks_of m}"
  shows "xfer_inv (x\<lparr>xf_up := ms, xf_arrived := xf_arrived x @ delivered, xf_acks := xf_acks x @ acked\<rparr>)"
proof -
  obtain D where D: "xf_file x = Some D"
    using xfer_inv_busy [OF assms(1)] assms(2) by force
  note inv = xfer_inv_Some [OF assms(1) D]
  have ms: "ms = []" "xf_acks x = []" "offers_of (xf_arrived x) = []" "xf_accepts x = 0" "xf_offers x = Map.empty"
    using inv(1,2) assms(2) by (auto simp: xf_tokens_def)
  show ?thesis
  proof (cases m)
    case (XOffer n)
    then show ?thesis
      using inv assms(2,3) ms by (intro xfer_invI [of _ D]) (auto simp: D xfer_inv_defs)
  next
    case (XChunk c)
    then show ?thesis
      using inv assms(2,3) ms by (intro xfer_invI [of _ D]) (auto simp: D xfer_inv_defs dest: recv_ok_appendD)
  qed
qed


lemma xfer_transmit_accept_inv:
  assumes "xfer_inv x" "xf_accepts x = Suc n" "as \<in> {[], [XAccepted]}"
  shows "xfer_inv (x\<lparr>xf_accepts := n, xf_acks := xf_acks x @ as\<rparr>)"
proof -
  obtain D where D: "xf_file x = Some D"
    using xfer_inv_busy [OF assms(1)] assms(2) by force
  note inv = xfer_inv_Some [OF assms(1) D]
  have ms: "n = 0" "xf_acks x = []" "xf_up x = []" "offers_of (xf_arrived x) = []" "xf_offers x = Map.empty"
    using inv(1,2) assms(2) by (auto simp: xf_tokens_def)
  show ?thesis
    using inv assms(2,3) ms by (intro xfer_invI [of _ D]) (auto simp: D xfer_inv_defs)
qed

text \<open>Reading on: the single token is spent and the next chunk takes its place.\<close>

lemma take_read:
  assumes "file_read ans cap f = Inr (buf, f')" and "f_data f = D" and "f_pos f \<le> length D" and "0 < cap"
  shows "f_data f' = D" "f_pos f' \<le> length D" "take (f_pos f) D @ buf = take (f_pos f') D"
    and "buf = [] \<Longrightarrow> take (f_pos f) D = D"
proof -
  obtain hint where h: "ans = Inr hint"
    using assms(1) by (cases ans) (auto simp: file_read_def)
  define n where "n = file_read_len hint cap f"
  have n: "buf = take n (drop (f_pos f) D)" "f' = f\<lparr>f_pos := f_pos f + n\<rparr>" "n \<le> length D - f_pos f"
    using assms(1,2) h file_read_len_le(2) [of hint cap f] by (auto simp: file_read_def n_def Let_def)
  then show "f_data f' = D" "f_pos f' \<le> length D" "take (f_pos f) D @ buf = take (f_pos f') D"
    using assms(2,3) by (auto simp: take_add)
  assume "buf = []"
  then have "n = 0 \<or> length D \<le> f_pos f"
    using n(1) by simp
  then show "take (f_pos f) D = D"
    using file_read_len_zero_iff [OF assms(4), of hint f] assms(2) by (auto simp: n_def)
qed

lemma recv_ok_snoc:
  assumes "recv_ok D cs r t f" and "prefix (f_data f @ concat cs @ c) D" and "c = [] \<Longrightarrow> f_data f @ concat cs = D"
  shows "recv_ok D (cs @ [c]) r t f"
proof -
  have "f_data f @ concat ys = D" if eq: "cs @ [c] = ys @ [] # zs" for ys zs
  proof (cases zs rule: rev_cases)
    case Nil
    with eq assms(3) show ?thesis by simp
  next
    case (snoc zs' z)
    with eq have "cs = ys @ [] # zs'" by simp
    with assms(1) show ?thesis by (simp add: recv_ok_def)
  qed
  with assms(1,2) show ?thesis
    by (simp add: recv_ok_def)
qed

lemma xfer_read_inv:
  assumes "finite (dom (xf_offers x))" "xf_file x = Some D" "xf_tokens x = 0" "xf_sender_ok D x" "xf_totals_ok D x"
    and "xf_recv x \<noteq> None \<longrightarrow> xf_data_ok D x"
    and "\<And>r t f s. xf_recv x = Some (r, t, f) \<Longrightarrow> xf_sending x = Some s \<Longrightarrow> f_data f @ concat (xf_flow x) = take (f_pos s) D"
  shows "xfer_inv (xfer_read ans here x)"
proof -
  have z: "xf_up x = []" "xf_acks x = []" "offers_of (xf_arrived x) = []" "xf_offers x = Map.empty" "xf_accepts x = 0"
    using assms(1,3) by (auto simp: xf_tokens_def)
  have start: "xf_start_ok x"
    using z by (simp add: xf_start_ok_def xf_unsent_def xf_early_def)
  have inv: "xfer_inv x"
    using assms start by (intro xfer_invI [of _ D]) (auto simp: xf_data_ok_def)
  show ?thesis
  proof (cases "xf_sending x")
    case None
    then show ?thesis using inv by (simp add: xfer_read_def)
  next
    case (Some s)
    show ?thesis
    proof (cases "file_read ans FILE_CHUNK_SIZE s")
      case (Inl e)
      then show ?thesis
        using Some xfer_forgets_inv [OF inv xfer_forgetsI [of "xf_pending x" x None "xf_offers x" "xf_recv x"]]
        by (simp add: xfer_read_def)
    next
      case (Inr y)
      obtain buf s' where y: "y = (buf, s')" by (cases y)
      have s: "f_data s = D" "f_pos s \<le> length D" "xf_pending x = None"
        using assms(4) Some by (cases "xf_pending x"; auto simp: xf_sender_ok_def)+
      have "0 < FILE_CHUNK_SIZE"
        by (simp add: FILE_CHUNK_SIZE_def)
      note rd = take_read [OF Inr [unfolded y] s(1,2) this]
      have data: "recv_ok D (xf_flow x @ [buf]) r t f \<and> f_data f @ concat (xf_flow x) @ buf = take (f_pos s') D"
        if "xf_recv x = Some (r, t, f)" for r t f
        using assms(7) [OF that Some] rd(3,4) assms(6) that
        by (auto intro!: recv_ok_snoc simp: xf_data_ok_def take_is_prefix append_assoc [symmetric] simp del: append_assoc)
      let ?x' = "x\<lparr>xf_up := if here then [XChunk buf] else [], xf_sending := if buf = [] then None else Some s'\<rparr>"
      have "xfer_inv ?x'"
      proof (rule xfer_invI)
        show "xf_sender_ok D ?x'"
          using s(3) rd(1,2) by (simp add: xf_sender_ok_def)
        show "xf_totals_ok D ?x'" "xf_tokens ?x' \<le> 1" "xf_start_ok ?x'" "finite (dom (xf_offers ?x'))" "xf_file ?x' = Some D"
          using z assms(2) by (simp_all add: xf_totals_ok_def xf_tokens_def xf_start_ok_def xf_unsent_def xf_early_def)
        have flow: "xf_flow ?x' = (if here then xf_flow x @ [buf] else xf_flow x)" "xf_ready ?x' = here"
          using z(1,2) by (simp_all add: xf_flow_def xf_ready_def)
        show "xf_data_ok D ?x'"
          unfolding xf_data_ok_def flow using data recv_ok_appendD [of D "xf_flow x" "[buf]"] by simp
      qed
      then show ?thesis
        using Some Inr y z(1) by (simp add: xfer_read_def)
    qed
  qed
qed


lemma xfer_accepted_inv:
  assumes "xfer_inv x" "xf_acks x = XAccepted # as" "xf_pending x = Some p"
  shows "xfer_inv (xfer_read ans here (x\<lparr>xf_acks := as, xf_pending := None, xf_sending := Some p\<rparr>))"
proof -
  obtain D where D: "xf_file x = Some D"
    using xfer_inv_busy [OF assms(1)] assms(2) by force
  note inv = xfer_inv_Some [OF assms(1) D]
  have tok: "as = []" "xf_up x = []" "offers_of (xf_arrived x) = []" "xf_offers x = Map.empty" "xf_accepts x = 0"
    using inv(1,2) assms(2) by (auto simp: xf_tokens_def)
  have p: "p = \<lparr>f_data = D, f_pos = 0\<rparr>"
    using inv(3) assms(3) by (simp add: xf_sender_ok_def)
  have flow: "xf_flow x = []" "\<And>r t f. xf_recv x = Some (r, t, f) \<Longrightarrow> f_data f = []"
    using inv(5) assms(2) by (auto simp: xf_start_ok_def xf_unsent_def)
  show ?thesis
  proof (rule xfer_read_inv [of _ D])
    let ?x = "x\<lparr>xf_acks := as, xf_pending := None, xf_sending := Some p\<rparr>"
    have same: "xf_flow ?x = xf_flow x"
      by (simp add: xf_flow_def)
    show "xf_recv ?x \<noteq> None \<longrightarrow> xf_data_ok D ?x"
      using inv(6) unfolding xf_data_ok_def same by (auto simp: xf_ready_def tok)
    show "f_data f @ concat (xf_flow ?x) = take (f_pos s) D" if "xf_recv ?x = Some (r, t, f)" "xf_sending ?x = Some s" for r t f s
      unfolding same using that flow p by auto
  qed (use D tok p inv(1) in \<open>simp_all add: xf_tokens_def xf_sender_ok_def xf_totals_ok_def\<close>)
qed

lemma xfer_progressed_inv:
  assumes "xfer_inv x" "xf_acks x = XProgress # as"
  shows "xfer_inv (xfer_read ans here (x\<lparr>xf_acks := as\<rparr>))"
proof -
  obtain D where D: "xf_file x = Some D"
    using xfer_inv_busy [OF assms(1)] assms(2) by force
  note inv = xfer_inv_Some [OF assms(1) D]
  have tok: "as = []" "xf_up x = []" "offers_of (xf_arrived x) = []" "xf_offers x = Map.empty" "xf_accepts x = 0"
    using inv(1,2) assms(2) by (auto simp: xf_tokens_def)
  show ?thesis
  proof (rule xfer_read_inv [of _ D])
    let ?x = "x\<lparr>xf_acks := as\<rparr>"
    have same: "xf_flow ?x = xf_flow x"
      by (simp add: xf_flow_def)
    show "xf_recv ?x \<noteq> None \<longrightarrow> xf_data_ok D ?x"
      using inv(6) unfolding xf_data_ok_def same by (auto simp: xf_ready_def tok)
    show "f_data f @ concat (xf_flow ?x) = take (f_pos s) D" if "xf_recv ?x = Some (r, t, f)" "xf_sending ?x = Some s" for r t f s
      using that inv(6) assms(2) by (simp add: xf_data_ok_def same xf_ready_def)
  qed (use D tok inv in \<open>simp_all add: xf_tokens_def xf_sender_ok_def xf_totals_ok_def\<close>)
qed

lemma xfer_accepted_late_inv:
  assumes "xfer_inv x" "xf_acks x = XAccepted # as" "xf_pending x = None"
  shows "xfer_inv (x\<lparr>xf_acks := as\<rparr>)"
proof -
  obtain D where D: "xf_file x = Some D"
    using xfer_inv_busy [OF assms(1)] assms(2) by force
  note inv = xfer_inv_Some [OF assms(1) D]
  have tok: "as = []" "xf_up x = []" "offers_of (xf_arrived x) = []" "xf_offers x = Map.empty" "xf_accepts x = 0"
    using inv(1,2) assms(2) by (auto simp: xf_tokens_def)
  show ?thesis
    using inv assms(2) tok by (intro xfer_invI [of _ D]) (simp_all add: D xfer_inv_defs)
qed

lemma xfer_offered_inv:
  assumes "xfer_inv x" "xf_arrived x = XOffer n # ms" "xf_offers x i = None"
  shows "xfer_inv (x\<lparr>xf_arrived := ms, xf_offers := (xf_offers x)(i \<mapsto> n)\<rparr>)"
proof -
  obtain D where D: "xf_file x = Some D"
    using xfer_inv_busy [OF assms(1)] assms(2) by force
  note inv = xfer_inv_Some [OF assms(1) D]
  have tok: "xf_acks x = []" "xf_up x = []" "offers_of ms = []" "xf_offers x = Map.empty" "xf_accepts x = 0"
    using inv(1,2) assms(2) by (auto simp: xf_tokens_def)
  show ?thesis
    using inv assms(2) tok by (intro xfer_invI [of _ D]) (simp_all add: D xfer_inv_defs)
qed

lemma recv_ok_store:
  assumes "recv_ok D (c # cs) r t f"
  shows "recv_ok D cs (r + of_nat (length c)) t (file_put c f)"
proof -
  have f: "file_put c f = \<lparr>f_data = f_data f @ c, f_pos = f_pos f + length c\<rparr>"
    using assms by (simp add: recv_ok_def file_put_append)
  have "f_data f @ c @ concat ys = D" if "cs = ys @ [] # zs" for ys zs
    using assms that unfolding recv_ok_def by (metis append_Cons concat.simps(2))
  then show ?thesis
    using assms by (simp add: recv_ok_def f)
qed

lemma xfer_stored_inv:
  assumes "xfer_inv x" "xf_arrived x = XChunk c # ms" "c \<noteq> []" "xf_recv x = Some (r, t, f)"
  shows "xfer_inv (x\<lparr>xf_arrived := ms, xf_recv := Some (r + of_nat (length c), t, file_put c f)\<rparr>)"
proof -
  obtain D where D: "xf_file x = Some D"
    using xfer_inv_busy [OF assms(1)] assms(2) by force
  note inv = xfer_inv_Some [OF assms(1) D]
  let ?x = "x\<lparr>xf_arrived := ms, xf_recv := Some (r + of_nat (length c), t, file_put c f)\<rparr>"
  have flow: "xf_flow x = c # xf_flow ?x"
    by (simp add: xf_flow_def assms(2))
  have ok: "recv_ok D (xf_flow x) r t f"
    using inv(6) assms(4) by (simp add: xf_data_ok_def)
  have sent: "\<not> xf_unsent x" "xf_unsent ?x = xf_unsent x" "xf_early ?x = xf_early x" "xf_ready ?x = xf_ready x"
    using inv(5) flow by (auto simp: xf_start_ok_def xf_unsent_def xf_early_def xf_ready_def assms(2))
  show ?thesis
  proof (rule xfer_invI)
    show "xf_data_ok D ?x"
      using inv(6) recv_ok_store [OF ok [unfolded flow]] assms(4) ok flow
      unfolding xf_data_ok_def sent by (auto simp: file_put_append recv_ok_def [of _ _ r])
    show "xf_start_ok ?x"
      using sent by (auto simp: xf_start_ok_def xf_unsent_def)
  qed (use inv D assms(2) in \<open>simp_all add: xf_tokens_def xf_sender_ok_def xf_totals_ok_def\<close>)
qed

lemma xfer_dropped_inv:
  assumes "xfer_inv x" "xf_arrived x = XChunk c # ms"
  shows "xfer_inv (x\<lparr>xf_arrived := ms, xf_recv := None\<rparr>)"
proof -
  obtain D where D: "xf_file x = Some D"
    using xfer_inv_busy [OF assms(1)] assms(2) by force
  note inv = xfer_inv_Some [OF assms(1) D]
  show ?thesis
    using inv assms(2) by (intro xfer_invI [of _ D]) (auto simp: D xfer_inv_defs)
qed

lemma xfer_accept_inv:
  assumes "xfer_inv x" "xf_offers x i = Some n" "k \<in> {0, 1}"
  shows "xfer_inv (x\<lparr>xf_offers := (xf_offers x)(i := None), xf_recv := Some (0, n, \<lparr>f_data = [], f_pos = 0\<rparr>),
          xf_accepts := xf_accepts x + k\<rparr>)" (is "xfer_inv ?x")
proof -
  obtain D where D: "xf_file x = Some D"
    using xfer_inv_busy [OF assms(1)] assms(2) by force
  note inv = xfer_inv_Some [OF assms(1) D]
  have "0 < card (dom (xf_offers x))"
    using inv(1) assms(2) by (auto simp: card_gt_0_iff)
  then have "length (xf_acks x) = 0" "length (xf_up x) = 0" "length (offers_of (xf_arrived x)) = 0" "xf_accepts x = 0"
    and one: "card (dom (xf_offers x)) = 1"
    using inv(2) unfolding xf_tokens_def by linarith+
  then have tok: "xf_acks x = []" "xf_up x = []" "offers_of (xf_arrived x) = []" "xf_accepts x = 0"
    by simp_all
  obtain j where "dom (xf_offers x) = {j}"
    using one by (rule card_1_singletonE)
  moreover from this have "i = j"
    using assms(2) by auto
  ultimately have off: "(xf_offers x)(i := None) = Map.empty"
    by (auto simp: fun_eq_iff domIff)
  have n: "n = of_nat (length D)"
    using inv(4) assms(2) by (auto simp: xf_totals_ok_def ran_def)
  have early: "xf_flow x = []" "xf_sending x = None"
    using inv(5) assms(2) by (auto simp: xf_start_ok_def xf_unsent_def xf_early_def)
  then have flow: "xf_flow ?x = []"
    by (simp add: xf_flow_def)
  show ?thesis
  proof (rule xfer_invI)
    show "xf_start_ok ?x"
      using early tok unfolding xf_start_ok_def flow by (simp add: xf_early_def off)
    show "xf_data_ok D ?x"
      using early unfolding xf_data_ok_def flow by (simp add: recv_ok_def n)
  qed (use inv D tok off assms(3) in \<open>auto simp: xf_tokens_def xf_sender_ok_def xf_totals_ok_def\<close>)
qed

lemma set_chunks_drop: "set (chunks_of (drop j ms)) \<subseteq> set (chunks_of ms)" "set (offers_of (drop j ms)) \<subseteq> set (offers_of ms)"
  by (induction ms arbitrary: j rule: chunks_of.induct) (auto simp: drop_Cons' split: if_splits)

lemma xfer_sender_reset_inv:
  assumes "xfer_inv x"
  shows "xfer_inv (x\<lparr>xf_up := drop j (xf_up x), xf_acks := []\<rparr>)" (is "xfer_inv ?x")
proof (cases "xf_file x")
  case None
  then show ?thesis
    using xfer_inv_None [OF assms] by (auto simp: xfer_init_def xfer_inv_def)
next
  case (Some D)
  note inv = xfer_inv_Some [OF assms Some]
  have early: "xf_early ?x \<Longrightarrow> xf_early x" "xf_unsent ?x \<Longrightarrow> xf_unsent x"
    using set_chunks_drop(2) [of j "xf_up x"] by (auto simp: xf_early_def xf_unsent_def)
  have "length (xf_up x) \<le> 1"
    using inv(2) by (simp add: xf_tokens_def)
  then have up: "drop j (xf_up x) = xf_up x \<or> drop j (xf_up x) = []"
    by (cases j) auto
  then obtain cs where flow: "xf_flow x = xf_flow ?x @ cs" and cs: "xf_ready ?x \<Longrightarrow> cs = [] \<and> xf_ready x"
    by (auto simp: xf_flow_def xf_ready_def)
  show ?thesis
  proof (rule xfer_invI)
    show "xf_start_ok ?x"
      using inv(5) early flow unfolding xf_start_ok_def by auto
    show "xf_data_ok D ?x"
      using inv(6) cs recv_ok_appendD [of D "xf_flow ?x" cs] unfolding xf_data_ok_def flow by auto
    show "xf_totals_ok D ?x"
      using inv(4) set_chunks_drop(2) [of j "xf_up x"] by (auto simp: xf_totals_ok_def)
  qed (use inv Some in \<open>simp_all add: xf_tokens_def xf_sender_ok_def\<close>)
qed

lemma xfer_receiver_reset_inv:
  assumes "xfer_inv x" "n \<le> xf_accepts x"
  shows "xfer_inv (x\<lparr>xf_arrived := [], xf_offers := Map.empty, xf_recv := None, xf_accepts := n\<rparr>)"
proof (cases "xf_file x")
  case None
  then show ?thesis
    using xfer_inv_None [OF assms(1)] assms(2) by (auto simp: xfer_init_def xfer_inv_def)
next
  case (Some D)
  note inv = xfer_inv_Some [OF assms(1) Some]
  show ?thesis
  proof (rule xfer_invI)
    let ?x = "x\<lparr>xf_arrived := [], xf_offers := Map.empty, xf_recv := None, xf_accepts := n\<rparr>"
    show "xf_start_ok ?x"
      using inv(5) assms(2) by (auto simp: xf_start_ok_def xf_unsent_def xf_early_def xf_flow_def)
  qed (use inv(1-4) Some assms(2) in \<open>auto simp: xf_tokens_def xf_sender_ok_def xf_totals_ok_def xf_data_ok_def\<close>)
qed

theorem xfer_step_inv:
  assumes "xfer_inv x" and "xfer_step x x'"
  shows "xfer_inv x'"
  using assms(2)
proof (cases rule: xfer_step.cases)
  case (ask p D ms)
  then show ?thesis using xfer_ask_inv [OF assms(1)] by blast
next
  case forget
  then show ?thesis using xfer_forgets_inv [OF assms(1)] by blast
next
  case (transmit m ms delivered acked)
  then show ?thesis using xfer_transmit_inv [OF assms(1)] by blast
next
  case (transmit_accept n as)
  then show ?thesis using xfer_transmit_accept_inv [OF assms(1)] by blast
next
  case (accept i n k)
  then show ?thesis using xfer_accept_inv [OF assms(1)] by blast
qed (auto intro: xfer_accepted_inv [OF assms(1)] xfer_accepted_late_inv [OF assms(1)] xfer_progressed_inv [OF assms(1)]
    xfer_offered_inv [OF assms(1)] xfer_stored_inv [OF assms(1)] xfer_dropped_inv [OF assms(1)]
    xfer_sender_reset_inv [OF assms(1)] xfer_receiver_reset_inv [OF assms(1)])

interpretation xfer_sys: invariant_system xfer_init xfer_step xfer_inv
  by unfold_locales (auto intro: xfer_step_inv)

end
