(* ===== verification/Blob_Invariant.thy ===== *)
theory Blob_Invariant
  imports Blob_Behaviour "HOL-Library.Multiset"
begin

text \<open>
  The consistency of the blob behaviour's bookkeeping. \<open>blob_inv\<close> says that the four tables have
  distinct keys, that records are filed under the right id, that ids have been handed out by the
  counters, that a send is never pending and ongoing at once and that no receive id names two
  receives. \<open>blob_step\<close> is one call into the behaviour, or a reordering of a hash table, before a
  64-bit counter wraps.
\<close>

section \<open>The invariant\<close>

definition blob_tables_wf :: "blob_behaviour \<Rightarrow> bool" where
  "blob_tables_wf b \<longleftrightarrow>
     hm_wf (bb_pending_recv b) \<and> hm_wf (bb_pending_send b) \<and> hm_wf (bb_ongoing_recv b)
     \<and> hm_wf (bb_ongoing_send b) \<and> hs_wf (bb_connected_peers b)"

definition blob_sends_ok :: "blob_behaviour \<Rightarrow> bool" where
  "blob_sends_ok b \<longleftrightarrow>
     (\<forall>k v. hm_get (bb_pending_send b) k = Some v \<longrightarrow>
        ps_local_send_id v = k \<and> k < bb_send_counter b \<and> hm_get (bb_ongoing_send b) k = None)
     \<and> (\<forall>k v. hm_get (bb_ongoing_send b) k = Some v \<longrightarrow>
        os_local_send_id v = k \<and> k < bb_send_counter b)"

definition blob_recvs_ok :: "blob_behaviour \<Rightarrow> bool" where
  "blob_recvs_ok b \<longleftrightarrow>
     (\<forall>k v. hm_get (bb_pending_recv b) k = Some v \<longrightarrow>
        pr_local_recv_id v = k \<and> k < bb_recv_counter b)
     \<and> (\<forall>k v. hm_get (bb_ongoing_recv b) k = Some v \<longrightarrow>
        or_remote_send_id v = k \<and> or_local_recv_id v < bb_recv_counter b
        \<and> hm_get (bb_pending_recv b) (or_local_recv_id v) = None)
     \<and> (\<forall>k v k' v'. hm_get (bb_ongoing_recv b) k = Some v \<and> hm_get (bb_ongoing_recv b) k' = Some v'
        \<and> or_local_recv_id v = or_local_recv_id v' \<longrightarrow> k = k')"

definition blob_inv :: "blob_behaviour \<Rightarrow> bool" where
  "blob_inv b \<longleftrightarrow> blob_tables_wf b \<and> blob_sends_ok b \<and> blob_recvs_ok b"

definition blob_no_wrap :: "blob_behaviour \<Rightarrow> bool" where
  "blob_no_wrap b \<longleftrightarrow> bb_send_counter b + 1 \<noteq> 0 \<and> bb_recv_counter b + 1 \<noteq> 0"

text \<open>A hash table may change its iteration order at any time.\<close>

definition blob_rehash :: "blob_behaviour \<Rightarrow> blob_behaviour \<Rightarrow> bool" where
  "blob_rehash b b' \<longleftrightarrow>
     (\<exists>pr ps ongr ongs cp. mset pr = mset (bb_pending_recv b) \<and> mset ps = mset (bb_pending_send b)
        \<and> mset ongr = mset (bb_ongoing_recv b) \<and> mset ongs = mset (bb_ongoing_send b)
        \<and> mset cp = mset (bb_connected_peers b)
        \<and> b' = b\<lparr>bb_pending_recv := pr, bb_pending_send := ps, bb_ongoing_recv := ongr,
                 bb_ongoing_send := ongs, bb_connected_peers := cp\<rparr>)"

inductive blob_step :: "blob_behaviour \<Rightarrow> blob_behaviour \<Rightarrow> bool" where
  request: "blob_no_wrap b \<Longrightarrow> blob_push_event env ev b = Returns (b', replies) \<Longrightarrow> blob_step b b'"
| connection: "blob_no_wrap b \<Longrightarrow> blob_on_handler_event env peer hev b = Returns b' \<Longrightarrow> blob_step b b'"
| swarm: "blob_step b (blob_on_swarm_event sev b)"
| poll: "blob_step b (snd (blob_poll env b))"
| rehash: "blob_rehash b b' \<Longrightarrow> blob_step b b'"

inductive_cases blob_stepE: "blob_step b b'"

section \<open>Words and tables\<close>

lemma word_Suc_less: "(c :: u64) + 1 \<noteq> 0 \<Longrightarrow> c < c + 1"
  using unatSuc [of c] by (simp add: word_less_nat_alt add.commute)

lemma word_less_Suc: "(c :: u64) + 1 \<noteq> 0 \<Longrightarrow> k < c \<Longrightarrow> k < c + 1"
  using word_Suc_less [of c] by (meson less_trans)

lemma hm_wf_mset: "mset m' = mset m \<Longrightarrow> hm_wf m' = hm_wf m"
  unfolding hm_wf_def by (metis mset_map mset_eq_imp_distinct_iff)

lemma hm_get_mset: "hm_wf m \<Longrightarrow> mset m' = mset m \<Longrightarrow> hm_get m' = hm_get m"
proof
  fix k assume wf: "hm_wf m" and eq: "mset m' = mset m"
  then have "set m' = set m" "hm_wf m'"
    using hm_wf_mset [OF eq] by (auto dest: mset_eq_setD)
  with wf have "hm_get m' k = Some v \<longleftrightarrow> hm_get m k = Some v" for v
    by (simp add: hm_get_Some_iff)
  then show "hm_get m' k = hm_get m k"
    by (cases "hm_get m k"; cases "hm_get m' k") auto
qed

lemma hs_wf_mset: "mset s' = mset s \<Longrightarrow> hs_wf s' = hs_wf s"
  unfolding hs_wf_def by (rule mset_eq_imp_distinct_iff)

section \<open>Every operation keeps the invariant\<close>

lemmas blob_inv_defs = blob_inv_def blob_tables_wf_def blob_sends_ok_def blob_recvs_ok_def

lemma blob_recvs_ok_sends [simp]:
  "blob_recvs_ok (b\<lparr>bb_ongoing_send := ongs\<rparr>) = blob_recvs_ok b"
  "blob_recvs_ok (b\<lparr>bb_pending_send := ps\<rparr>) = blob_recvs_ok b"
  "blob_recvs_ok (b\<lparr>bb_send_counter := c\<rparr>) = blob_recvs_ok b"
  by (simp_all add: blob_recvs_ok_def)

lemma blob_sends_ok_recvs [simp]:
  "blob_sends_ok (b\<lparr>bb_ongoing_recv := ongr\<rparr>) = blob_sends_ok b"
  "blob_sends_ok (b\<lparr>bb_pending_recv := pr\<rparr>) = blob_sends_ok b"
  "blob_sends_ok (b\<lparr>bb_recv_counter := c\<rparr>) = blob_sends_ok b"
  by (simp_all add: blob_sends_ok_def)

lemma blob_inv_emit [simp]: "blob_inv (blob_emit ev b) = blob_inv b"
  by (simp add: blob_inv_defs blob_emit_def)

lemma blob_inv_notify [simp]: "blob_inv (blob_notify p ev b) = blob_inv b"
  by (simp add: blob_inv_defs blob_notify_def)

lemma blob_inv_deadline [simp]: "blob_inv (b\<lparr>bb_expiry_deadline := d\<rparr>) = blob_inv b"
  by (simp add: blob_inv_defs)

lemma blob_inv_out_events [simp]: "blob_inv (b\<lparr>bb_out_events := q\<rparr>) = blob_inv b"
  by (simp add: blob_inv_defs)

lemma blob_inv_pending_handler_event [simp]: "blob_inv (b\<lparr>bb_pending_handler_event := q\<rparr>) = blob_inv b"
  by (simp add: blob_inv_defs)

text \<open>Forgetting records is always safe.\<close>

lemma blob_inv_submap:
  assumes inv: "blob_inv b" and wf: "blob_tables_wf b'"
    and ps: "hm_get (bb_pending_send b') \<subseteq>\<^sub>m hm_get (bb_pending_send b)"
    and ongs: "hm_get (bb_ongoing_send b') \<subseteq>\<^sub>m hm_get (bb_ongoing_send b)"
    and pr: "hm_get (bb_pending_recv b') \<subseteq>\<^sub>m hm_get (bb_pending_recv b)"
    and ongr: "hm_get (bb_ongoing_recv b') \<subseteq>\<^sub>m hm_get (bb_ongoing_recv b)"
    and cnt: "bb_send_counter b' = bb_send_counter b" "bb_recv_counter b' = bb_recv_counter b"
  shows "blob_inv b'"
proof -
  have none: "hm_get m' k = None" if "hm_get m' \<subseteq>\<^sub>m hm_get m" "hm_get m k = None"
    for m m' :: "(u64, 'z) hash_map" and k
    using that by (metis domIff map_le_def)
  have some: "hm_get m k = Some v" if "hm_get m' \<subseteq>\<^sub>m hm_get m" "hm_get m' k = Some v"
    for m m' :: "(u64, 'z) hash_map" and k v
    using that by (metis domI map_le_def)
  have "blob_sends_ok b'"
    using inv unfolding blob_inv_def blob_sends_ok_def cnt
    by (meson some [OF ps] some [OF ongs] none [OF ongs])
  moreover have "blob_recvs_ok b'"
    using inv unfolding blob_inv_def blob_recvs_ok_def cnt
    by (meson some [OF pr] some [OF ongr] none [OF pr])
  ultimately show ?thesis
    using wf by (simp add: blob_inv_def)
qed

lemma hm_remove_map_le [simp]: "hm_get (hm_remove k m) \<subseteq>\<^sub>m hm_get m"
  by (simp add: map_le_def dom_def)

lemma hm_retain_map_le: "hm_wf m \<Longrightarrow> hm_get (hm_retain P m) \<subseteq>\<^sub>m hm_get m"
  by (auto simp: map_le_def dom_def)

lemma blob_inv_tables: "blob_inv b \<Longrightarrow> blob_tables_wf b"
  by (simp add: blob_inv_def)

lemma blob_inv_connected:
  "blob_inv b \<Longrightarrow> hs_wf cp \<Longrightarrow> blob_inv (b\<lparr>bb_connected_peers := cp\<rparr>)"
  by (rule blob_inv_submap) (auto simp: blob_tables_wf_def dest!: blob_inv_tables)

lemma blob_inv_remove_pending_send:
  "blob_inv b \<Longrightarrow> blob_inv (b\<lparr>bb_pending_send := hm_remove k (bb_pending_send b)\<rparr>)"
  by (rule blob_inv_submap) (auto simp: blob_tables_wf_def dest!: blob_inv_tables)

lemma blob_inv_remove_ongoing_send:
  "blob_inv b \<Longrightarrow> blob_inv (b\<lparr>bb_ongoing_send := hm_remove k (bb_ongoing_send b)\<rparr>)"
  by (rule blob_inv_submap) (auto simp: blob_tables_wf_def dest!: blob_inv_tables)

lemma blob_inv_remove_pending_recv:
  "blob_inv b \<Longrightarrow> blob_inv (b\<lparr>bb_pending_recv := hm_remove k (bb_pending_recv b)\<rparr>)"
  by (rule blob_inv_submap) (auto simp: blob_tables_wf_def dest!: blob_inv_tables)

lemma blob_inv_remove_ongoing_recv:
  "blob_inv b \<Longrightarrow> blob_inv (b\<lparr>bb_ongoing_recv := hm_remove k (bb_ongoing_recv b)\<rparr>)"
  by (rule blob_inv_submap) (auto simp: blob_tables_wf_def dest!: blob_inv_tables)

lemmas blob_inv_removes =
  blob_inv_remove_pending_send blob_inv_remove_ongoing_send
  blob_inv_remove_pending_recv blob_inv_remove_ongoing_recv

lemma blob_inv_update_ongoing_send:
  assumes "blob_inv b" and "hm_get (bb_ongoing_send b) k = Some v" and "os_local_send_id v' = os_local_send_id v"
  shows "blob_inv (b\<lparr>bb_ongoing_send := hm_insert k v' (bb_ongoing_send b)\<rparr>)"
proof -
  have sends: "blob_sends_ok b"
    using assms(1) by (simp add: blob_inv_def)
  then have "hm_get (bb_pending_send b) k = None"
    using assms(2) by (cases "hm_get (bb_pending_send b) k") (auto simp: blob_sends_ok_def)
  with sends assms(2,3) have "blob_sends_ok (b\<lparr>bb_ongoing_send := hm_insert k v' (bb_ongoing_send b)\<rparr>)"
    by (auto simp: blob_sends_ok_def)
  then show ?thesis
    using assms(1) by (simp add: blob_inv_def blob_tables_wf_def)
qed

lemma blob_inv_cancel_send: "blob_inv b \<Longrightarrow> blob_inv (snd (blob_cancel_send k b))"
  by (auto simp: blob_cancel_send_def blob_remove_send_record_def blob_inv_removes split: option.splits)

lemma blob_inv_cancel_recv: "blob_inv b \<Longrightarrow> blob_inv (snd (blob_cancel_recv k b))"
  by (auto simp: blob_cancel_recv_def blob_remove_recv_record_def blob_inv_removes split: option.splits)

lemma blob_inv_fold_cancel_send: "blob_inv b \<Longrightarrow> blob_inv (fold (\<lambda>k b. snd (blob_cancel_send k b)) ks b)"
  by (induction ks arbitrary: b) (simp_all add: blob_inv_cancel_send)

lemma blob_inv_fold_cancel_recv: "blob_inv b \<Longrightarrow> blob_inv (fold (\<lambda>k b. snd (blob_cancel_recv k b)) ks b)"
  by (induction ks arbitrary: b) (simp_all add: blob_inv_cancel_recv)

lemma blob_inv_check_expiry: "blob_inv b \<Longrightarrow> blob_inv (blob_check_expiry env b)"
  by (simp add: blob_check_expiry_def blob_expire_pending_send_def blob_expire_pending_recv_def
      blob_expire_ongoing_send_def blob_expire_ongoing_recv_def
      blob_inv_fold_cancel_recv blob_inv_fold_cancel_send)

lemma blob_inv_progress_send:
  assumes "blob_inv b"
  shows "blob_inv (blob_progress_ongoing_send env k b)"
proof (cases "hm_get (bb_ongoing_send b) k")
  case (Some v)
  have "blob_inv (b\<lparr>bb_ongoing_send := hm_insert k v' (bb_ongoing_send b)\<rparr>)"
    if "os_local_send_id v' = os_local_send_id v" for v'
    using assms Some that by (rule blob_inv_update_ongoing_send)
  then show ?thesis
    using assms Some
    by (auto simp: blob_progress_ongoing_send_def Let_def intro!: blob_inv_removes split: sum.splits)
qed (use assms in \<open>simp add: blob_progress_ongoing_send_def\<close>)

lemma blob_inv_ongoing_recvD:
  assumes "blob_inv b" and "hm_get (bb_ongoing_recv b) k = Some v"
  shows "or_remote_send_id v = k" and "or_local_recv_id v < bb_recv_counter b"
    and "hm_get (bb_pending_recv b) (or_local_recv_id v) = None"
    and "\<And>k' v'. hm_get (bb_ongoing_recv b) k' = Some v' \<Longrightarrow> or_local_recv_id v' = or_local_recv_id v \<Longrightarrow> k' = k"
  using assms unfolding blob_inv_def blob_recvs_ok_def by metis+

lemma blob_inv_pending_recvD:
  assumes "blob_inv b" and "hm_get (bb_pending_recv b) k = Some v"
  shows "pr_local_recv_id v = k" and "k < bb_recv_counter b"
  using assms unfolding blob_inv_def blob_recvs_ok_def by metis+

lemma blob_inv_insert_ongoing_recv:
  assumes "blob_inv b" and "or_remote_send_id v = k" and "or_local_recv_id v < bb_recv_counter b"
    and "hm_get (bb_pending_recv b) (or_local_recv_id v) = None"
    and "\<And>k' v'. hm_get (bb_ongoing_recv b) k' = Some v' \<Longrightarrow> or_local_recv_id v' = or_local_recv_id v \<Longrightarrow> k' = k"
  shows "blob_inv (b\<lparr>bb_ongoing_recv := hm_insert k v (bb_ongoing_recv b)\<rparr>)"
proof -
  have "blob_recvs_ok (b\<lparr>bb_ongoing_recv := hm_insert k v (bb_ongoing_recv b)\<rparr>)"
    using assms unfolding blob_inv_def blob_recvs_ok_def by simp metis
  then show ?thesis
    using assms(1) by (simp add: blob_inv_def blob_tables_wf_def)
qed

lemma blob_inv_progress_recv:
  assumes "blob_inv b" and "blob_progress_ongoing_recv env k content b = Returns b'"
  shows "blob_inv b'"
proof (cases "hm_get (bb_ongoing_recv b) k")
  case None
  then show ?thesis
    using assms by (simp add: blob_progress_ongoing_recv_def)
next
  case (Some v)
  let ?b1 = "b\<lparr>bb_ongoing_recv := hm_remove k (bb_ongoing_recv b)\<rparr>"
  have b1: "blob_inv ?b1"
    by (rule blob_inv_remove_ongoing_recv [OF assms(1)])
  note v = blob_inv_ongoing_recvD [OF assms(1) Some]
  have "blob_inv (?b1\<lparr>bb_ongoing_recv := hm_insert k v' (bb_ongoing_recv ?b1)\<rparr>)"
    if "or_remote_send_id v' = k" "or_local_recv_id v' = or_local_recv_id v" for v'
    using b1 by (rule blob_inv_insert_ongoing_recv) (use that v in \<open>auto split: if_splits\<close>)
  then show ?thesis
    using assms(2) Some b1 v(1)
    by (auto simp: blob_progress_ongoing_recv_def Let_def split: if_splits option.splits sum.splits)
qed

lemma blob_inv_new_pending_recv:
  assumes "blob_inv b" and "bb_recv_counter b + 1 \<noteq> 0"
  shows "blob_inv (blob_on_new_pending_recv env from name rid n b)"
proof -
  have fresh: "or_local_recv_id v \<noteq> bb_recv_counter b" if "hm_get (bb_ongoing_recv b) k = Some v" for k v
    using blob_inv_ongoing_recvD(2) [OF assms(1) that] by simp
  have "blob_recvs_ok (b\<lparr>bb_recv_counter := bb_recv_counter b + 1,
      bb_pending_recv := hm_insert (bb_recv_counter b) v (bb_pending_recv b)\<rparr>)"
    if "pr_local_recv_id v = bb_recv_counter b" for v
    using assms that fresh word_Suc_less [OF assms(2)] word_less_Suc [OF assms(2)]
    unfolding blob_inv_def blob_recvs_ok_def by simp blast
  then have "blob_inv (b\<lparr>bb_recv_counter := bb_recv_counter b + 1,
      bb_pending_recv := hm_insert (bb_recv_counter b) v (bb_pending_recv b)\<rparr>)"
    if "pr_local_recv_id v = bb_recv_counter b" for v
    using assms(1) that by (simp add: blob_inv_def blob_tables_wf_def)
  then show ?thesis
    by (simp add: blob_on_new_pending_recv_def blob_next_recv_id_def)
qed

lemma blob_inv_accept_pending_recv:
  assumes "blob_inv b"
  shows "blob_inv (fst (blob_accept_pending_recv env f path rid cb b))"
proof (cases "hm_get (bb_pending_recv b) rid")
  case (Some p)
  let ?b1 = "b\<lparr>bb_pending_recv := hm_remove rid (bb_pending_recv b)\<rparr>"
  have "\<And>k v. hm_get (bb_ongoing_recv b) k = Some v \<Longrightarrow> or_local_recv_id v \<noteq> rid"
    using blob_inv_ongoing_recvD(3) [OF assms] Some by fastforce
  then have upd: "blob_inv (?b1\<lparr>bb_ongoing_recv := hm_insert k v (bb_ongoing_recv ?b1)\<rparr>)"
    if "or_remote_send_id v = k" "or_local_recv_id v = rid" for k v
    using that assms blob_inv_pending_recvD(2) [OF assms Some]
    by (intro blob_inv_insert_ongoing_recv blob_inv_remove_pending_recv) auto
  show ?thesis
    using Some by (auto simp: blob_accept_pending_recv_def Let_def intro!: upd [simplified])
qed (use assms in \<open>simp add: blob_accept_pending_recv_def\<close>)

lemma blob_inv_move_send:
  assumes "blob_inv b" and "hm_get (bb_pending_send b) k = Some p" and "os_local_send_id v = k"
  shows "blob_inv (b\<lparr>bb_pending_send := hm_remove k (bb_pending_send b),
                     bb_ongoing_send := hm_insert k v (bb_ongoing_send b)\<rparr>)"
proof -
  have "blob_sends_ok (b\<lparr>bb_pending_send := hm_remove k (bb_pending_send b),
                     bb_ongoing_send := hm_insert k v (bb_ongoing_send b)\<rparr>)"
    using assms unfolding blob_inv_def blob_sends_ok_def by auto
  then show ?thesis
    using assms(1) by (simp add: blob_inv_def blob_tables_wf_def)
qed

lemma blob_inv_pending_send_accepted:
  assumes "blob_inv b" and "blob_pending_send_accepted env k b = Returns (r, b')"
  shows "blob_inv b'"
proof (cases "hm_get (bb_pending_send b) k")
  case (Some p)
  moreover have "ps_local_send_id p = k"
    using assms(1) Some unfolding blob_inv_def blob_sends_ok_def by auto
  ultimately show ?thesis
    using assms blob_inv_move_send [OF assms(1) Some]
    by (auto simp: blob_pending_send_accepted_def Let_def intro!: blob_inv_progress_send split: if_splits)
qed (use assms in \<open>auto simp: blob_pending_send_accepted_def split: if_splits\<close>)

lemma blob_inv_insert_pending_send:
  assumes "blob_inv b" and "bb_send_counter b + 1 \<noteq> 0" and "ps_local_send_id v = bb_send_counter b"
  shows "blob_inv (b\<lparr>bb_send_counter := bb_send_counter b + 1,
                     bb_pending_send := hm_insert (bb_send_counter b) v (bb_pending_send b)\<rparr>)"
proof -
  have "hm_get (bb_ongoing_send b) (bb_send_counter b) = None"
    using assms(1) unfolding blob_inv_def blob_sends_ok_def
    by (cases "hm_get (bb_ongoing_send b) (bb_send_counter b)") auto
  then have "blob_sends_ok (b\<lparr>bb_send_counter := bb_send_counter b + 1,
                     bb_pending_send := hm_insert (bb_send_counter b) v (bb_pending_send b)\<rparr>)"
    using assms word_Suc_less [OF assms(2)] word_less_Suc [OF assms(2)]
    unfolding blob_inv_def blob_sends_ok_def by auto
  then show ?thesis
    using assms(1) by (simp add: blob_inv_def blob_tables_wf_def)
qed

lemma blob_inv_bump_send_counter:
  assumes "blob_inv b" and "bb_send_counter b + 1 \<noteq> 0"
  shows "blob_inv (b\<lparr>bb_send_counter := bb_send_counter b + 1\<rparr>)"
  using assms word_less_Suc [OF assms(2)]
  by (auto simp: blob_inv_def blob_tables_wf_def blob_sends_ok_def)

lemma blob_inv_send_file:
  assumes "blob_inv b" and "bb_send_counter b + 1 \<noteq> 0"
    and "blob_send_file env f path peer cb b = Returns (b', rs)"
  shows "blob_inv b'"
  using assms blob_inv_insert_pending_send [OF assms(1,2)] blob_inv_bump_send_counter [OF assms(1,2)]
  by (auto simp: blob_send_file_def blob_next_send_id_def Let_def split: if_splits option.splits)

lemma blob_inv_push_event:
  assumes "blob_inv b" and "blob_no_wrap b" and "blob_push_event env ev b = Returns (b', rs)"
  shows "blob_inv b'"
proof (cases ev)
  case (In_SendFile f path peer cb)
  with assms show ?thesis
    by (auto simp: blob_no_wrap_def intro: blob_inv_send_file)
next
  case (In_AcceptFile f rid path cb)
  with assms(3) blob_inv_accept_pending_recv [OF assms(1), of env f path rid cb] show ?thesis
    by simp
next
  case (In_CancelRecv rid cb)
  with assms(3) blob_inv_cancel_recv [OF assms(1), of rid] show ?thesis
    by (auto split: prod.splits bool.splits)
next
  case (In_CancelSend sid cb)
  with assms(3) blob_inv_cancel_send [OF assms(1), of sid] show ?thesis
    by (auto split: prod.splits bool.splits)
qed (use assms in \<open>auto simp: and_then_Returns_iff\<close>)

lemma blob_inv_remove_send_record: "blob_inv b \<Longrightarrow> blob_inv (snd (blob_remove_send_record k b))"
  by (auto simp: blob_remove_send_record_def intro!: blob_inv_removes split: option.splits)

lemma blob_inv_remove_by_remote: "blob_inv b \<Longrightarrow> blob_inv (snd (blob_remove_recv_by_remote_send_id k b))"
  by (auto simp: blob_remove_recv_by_remote_send_id_def intro!: blob_inv_removes split: option.splits)

lemma blob_accepted_cases:
  assumes "blob_on_handler_event env peer (TB_FileSendAccepted sid) b = Returns b'"
  obtains (failed) "blob_pending_send_accepted env sid b = Returns (Inl (), b')"
  | (started) n b1 where "blob_pending_send_accepted env sid b = Returns (Inr n, b1)"
      "b' = blob_emit (Out_SendProgressed sid 0 n) b1"
proof (cases "blob_pending_send_accepted env sid b")
  case (Returns x)
  with assms that show thesis
    by (cases x; cases "fst x") auto
qed (use assms in auto)

lemma blob_inv_on_handler_event:
  assumes "blob_inv b" and "blob_no_wrap b" and "blob_on_handler_event env peer ev b = Returns b'"
  shows "blob_inv b'"
proof (cases ev)
  case (TB_RecvProgressed rid content)
  with assms show ?thesis by (auto intro: blob_inv_progress_recv)
next
  case (TB_IncomingFile name rid n)
  with assms show ?thesis by (auto simp: blob_no_wrap_def intro: blob_inv_new_pending_recv)
next
  case (TB_FileSendAccepted sid)
  from assms(3) [unfolded TB_FileSendAccepted] show ?thesis
    by (cases rule: blob_accepted_cases) (use blob_inv_pending_send_accepted [OF assms(1)] in auto)
next
  case (TB_SendProgressed sid rtt)
  with assms show ?thesis
    by (auto simp: Let_def intro!: blob_inv_progress_send split: option.splits)
next
  case (TB_RemoteCancelSend sid)
  with assms show ?thesis by (auto intro: blob_inv_remove_send_record)
next
  case (TB_RemoteCancelRecv rid)
  with assms(3) blob_inv_remove_by_remote [OF assms(1), of rid] show ?thesis
    by (auto split: prod.splits option.splits)
qed (use assms blob_inv_connected [OF assms(1)] blob_inv_tables [OF assms(1)] in
    \<open>auto simp: blob_tables_wf_def\<close>)

lemma blob_inv_on_disconnect: "blob_inv b \<Longrightarrow> blob_inv (blob_on_disconnect info b)"
  unfolding blob_on_disconnect_def
  by (cases "cc_remaining_established info < 1")
    (auto simp: blob_tables_wf_def hm_retain_map_le intro!: blob_inv_submap [of b] dest: blob_inv_tables)

lemma blob_inv_on_swarm_event: "blob_inv b \<Longrightarrow> blob_inv (blob_on_swarm_event ev b)"
  by (cases ev) (simp_all add: blob_inv_on_disconnect)

lemma blob_inv_tick: "blob_inv b \<Longrightarrow> blob_inv (blob_tick env b)"
  by (simp add: blob_tick_def blob_inv_check_expiry)

lemma blob_inv_poll: "blob_inv b \<Longrightarrow> blob_inv (snd (blob_poll env b))"
  by (auto simp: blob_poll_def Let_def blob_inv_tick split: option.splits)

lemma blob_rehashD:
  assumes "blob_tables_wf b" and "blob_rehash b b'"
  shows "blob_tables_wf b'"
    and "hm_get (bb_pending_recv b') = hm_get (bb_pending_recv b)"
    and "hm_get (bb_pending_send b') = hm_get (bb_pending_send b)"
    and "hm_get (bb_ongoing_recv b') = hm_get (bb_ongoing_recv b)"
    and "hm_get (bb_ongoing_send b') = hm_get (bb_ongoing_send b)"
    and "bb_send_counter b' = bb_send_counter b" "bb_recv_counter b' = bb_recv_counter b"
    and "bb_out_events b' = bb_out_events b"
    and "bb_pending_handler_event b' = bb_pending_handler_event b"
proof -
  obtain pr ps ongr ongs cp where eq: "mset pr = mset (bb_pending_recv b)" "mset ps = mset (bb_pending_send b)"
    "mset ongr = mset (bb_ongoing_recv b)" "mset ongs = mset (bb_ongoing_send b)"
    "mset cp = mset (bb_connected_peers b)"
    and b': "b' = b\<lparr>bb_pending_recv := pr, bb_pending_send := ps, bb_ongoing_recv := ongr,
                 bb_ongoing_send := ongs, bb_connected_peers := cp\<rparr>"
    using assms(2) unfolding blob_rehash_def by blast
  note wf = assms(1) [unfolded blob_tables_wf_def]
  show "blob_tables_wf b'"
    using wf hm_wf_mset [OF eq(1)] hm_wf_mset [OF eq(2)] hm_wf_mset [OF eq(3)] hm_wf_mset [OF eq(4)]
      hs_wf_mset [OF eq(5)] by (simp add: b' blob_tables_wf_def)
  show "hm_get (bb_pending_recv b') = hm_get (bb_pending_recv b)"
    "hm_get (bb_pending_send b') = hm_get (bb_pending_send b)"
    "hm_get (bb_ongoing_recv b') = hm_get (bb_ongoing_recv b)"
    "hm_get (bb_ongoing_send b') = hm_get (bb_ongoing_send b)"
    using wf eq by (simp_all add: b' hm_get_mset)
qed (use assms(2) in \<open>auto simp: blob_rehash_def\<close>)

lemma blob_inv_rehash: "blob_inv b \<Longrightarrow> blob_rehash b b' \<Longrightarrow> blob_inv b'"
  by (rule blob_inv_submap [of b]) (simp_all add: blob_rehashD [OF blob_inv_tables])

lemma blob_inv_step: "blob_inv b \<Longrightarrow> blob_step b b' \<Longrightarrow> blob_inv b'"
  by (erule blob_stepE)
    (auto intro: blob_inv_push_event blob_inv_on_handler_event blob_inv_rehash
      simp: blob_inv_on_swarm_event blob_inv_poll)

lemma blob_inv_new: "blob_inv (blob_behaviour_new config instant)"
  by (simp add: blob_inv_defs blob_behaviour_new_def blob_behaviour_default_def)

interpretation blob_sys: invariant_system "blob_behaviour_new config instant" blob_step blob_inv
  for config instant
  by unfold_locales (auto intro: blob_inv_new blob_inv_step)

end
