(* ===== verification/Blob_Safety.thy ===== *)
theory Blob_Safety
  imports Blob_Invariant
begin

text \<open>
  Safety properties of the blob behaviour over whole runs: the invariant in every reachable state,
  uniqueness of the ids it hands out, the finality of a cancelled send, what a cancelled receive
  really removes, when the behaviour panics, and the clean-up after a disconnection.
\<close>

section \<open>Counters never go back\<close>

definition blob_counters_le :: "blob_behaviour \<Rightarrow> blob_behaviour \<Rightarrow> bool" where
  "blob_counters_le b b' \<longleftrightarrow> bb_send_counter b \<le> bb_send_counter b' \<and> bb_recv_counter b \<le> bb_recv_counter b'"

definition blob_same_counters :: "blob_behaviour \<Rightarrow> blob_behaviour \<Rightarrow> bool" where
  "blob_same_counters b b' \<longleftrightarrow> bb_send_counter b' = bb_send_counter b \<and> bb_recv_counter b' = bb_recv_counter b"

lemma blob_same_counters_emit [simp]: "blob_same_counters b (blob_emit ev b') = blob_same_counters b b'"
  by (simp add: blob_same_counters_def blob_emit_def)

lemma blob_same_counters_trans: "blob_same_counters a b \<Longrightarrow> blob_same_counters b c \<Longrightarrow> blob_same_counters a c"
  by (simp add: blob_same_counters_def)

lemma blob_same_counters_basic [simp]:
  "blob_same_counters b b"
  "blob_same_counters b (snd (blob_cancel_send k b))"
  "blob_same_counters b (snd (blob_cancel_recv k b))"
  "blob_same_counters b (snd (blob_remove_send_record k b))"
  "blob_same_counters b (snd (blob_remove_recv_by_remote_send_id k b))"
  "blob_same_counters b (blob_progress_ongoing_send env k b)"
  "blob_same_counters b (fst (blob_accept_pending_recv env f path k cb b))"
  "blob_same_counters b (blob_on_disconnect info b)"
  by (auto simp: blob_same_counters_def blob_op_defs blob_progress_ongoing_send_def
      blob_accept_pending_recv_def blob_on_disconnect_def Let_def split: option.splits sum.splits)

lemma blob_same_counters_eqs:
  "blob_cancel_send k b = (r, b') \<Longrightarrow> blob_same_counters b b'"
  "blob_cancel_recv k b = (r, b') \<Longrightarrow> blob_same_counters b b'"
  "blob_accept_pending_recv env f path k cb b = (b', rs) \<Longrightarrow> blob_same_counters b b'"
  "blob_remove_recv_by_remote_send_id k b = (o1, b') \<Longrightarrow> blob_same_counters b b'"
  by (metis blob_same_counters_basic(2) snd_conv, metis blob_same_counters_basic(3) snd_conv,
      metis blob_same_counters_basic(7) fst_conv, metis blob_same_counters_basic(5) snd_conv)

lemma blob_same_counters_fold:
  assumes "\<And>k b. blob_same_counters b (f k b)"
  shows "blob_same_counters b (fold f ks b)"
proof (induction ks arbitrary: b)
  case (Cons k ks)
  show ?case
    using blob_same_counters_trans [OF assms [of b k] Cons.IH [of "f k b"]] by simp
qed simp

lemma blob_same_counters_check_expiry [simp]: "blob_same_counters b (blob_check_expiry env b)"
proof -
  have "blob_same_counters b (blob_expire_pending_send n b)" "blob_same_counters b (blob_expire_pending_recv n b)"
    "blob_same_counters b (blob_expire_ongoing_send n b)" "blob_same_counters b (blob_expire_ongoing_recv n b)" for n b
    by (simp_all add: blob_expire_pending_send_def blob_expire_pending_recv_def
        blob_expire_ongoing_send_def blob_expire_ongoing_recv_def blob_same_counters_fold)
  then show ?thesis
    unfolding blob_check_expiry_def by (meson blob_same_counters_trans)
qed

lemma blob_same_counters_poll: "blob_same_counters b (snd (blob_poll env b))"
  using blob_same_counters_check_expiry [of b env]
  by (auto simp: blob_poll_def blob_tick_def Let_def blob_same_counters_def split: option.splits)

lemma blob_same_counters_progress_recv:
  "blob_progress_ongoing_recv env k content b = Returns b' \<Longrightarrow> blob_same_counters b b'"
  by (auto simp: blob_progress_ongoing_recv_def blob_same_counters_def blob_emit_def Let_def
      split: option.splits if_splits sum.splits)

lemma blob_same_counters_accepted:
  "blob_pending_send_accepted env k b = Returns (r, b') \<Longrightarrow> blob_same_counters b b'"
  using blob_same_counters_basic(6) [of _ env]
  by (fastforce simp: blob_pending_send_accepted_def blob_same_counters_def Let_def
      split: option.splits if_splits)

lemma blob_counters_le_emit [simp]: "blob_counters_le b (blob_emit ev b') = blob_counters_le b b'"
  by (simp add: blob_counters_le_def blob_emit_def)

lemma blob_counters_le_same: "blob_same_counters b b' \<Longrightarrow> blob_counters_le b b'"
  by (simp add: blob_counters_le_def blob_same_counters_def)

lemma blob_counters_le_step:
  assumes "blob_step b b'"
  shows "blob_counters_le b b'"
  using assms
proof (cases rule: blob_step.cases)
  case (request env ev replies)
  have "blob_counters_le b b'" if "blob_send_file env f path peer cb b = Returns (b', rs)" for f path peer cb rs
    using that request(1) word_Suc_less [of "bb_send_counter b"]
    by (auto simp: blob_send_file_def blob_next_send_id_def blob_counters_le_def blob_notify_def
        blob_no_wrap_def Let_def split: if_splits option.splits)
  with request show ?thesis
    by (cases ev) (auto simp: and_then_Returns_iff intro: blob_counters_le_same blob_same_counters_eqs
        split: prod.splits bool.splits)
next
  case (connection env peer hev)
  show ?thesis
  proof (cases hev)
    case (TB_IncomingFile name rid n)
    with connection word_Suc_less [of "bb_recv_counter b"] show ?thesis
      by (auto simp: blob_on_new_pending_recv_def blob_next_recv_id_def blob_counters_le_def
          blob_emit_def blob_no_wrap_def)
  next
    case (TB_FileSendAccepted sid)
    from connection(2) [unfolded this] show ?thesis
      by (cases rule: blob_accepted_cases) (auto intro: blob_same_counters_accepted blob_counters_le_same)
  next
    case (TB_RecvProgressed rid content)
    with connection show ?thesis
      by (simp add: blob_counters_le_same blob_same_counters_progress_recv)
  next
    case (TB_RemoteCancelRecv rid)
    with connection show ?thesis
      by (auto intro!: blob_counters_le_same dest: blob_same_counters_eqs split: prod.splits option.splits)
  qed (use connection in \<open>auto simp: blob_counters_le_def blob_emit_def Let_def blob_notify_def
        blob_progress_ongoing_send_def blob_remove_send_record_def split: option.splits sum.splits\<close>)
next
  case (swarm sev)
  then show ?thesis
    by (cases sev) (simp_all add: blob_counters_le_same)
next
  case (poll env)
  then show ?thesis
    by (simp add: blob_counters_le_same blob_same_counters_poll)
next
  case rehash
  then show ?thesis
    by (auto simp: blob_rehash_def blob_counters_le_def)
qed

lemma blob_counters_le_steps: "blob_step\<^sup>*\<^sup>* b b' \<Longrightarrow> blob_counters_le b b'"
proof (induction rule: rtranclp_induct)
  case (step y z)
  then show ?case
    using blob_counters_le_step [of y z] by (auto simp: blob_counters_le_def)
qed (simp add: blob_counters_le_def)

section \<open>A cancelled send stays silent\<close>

fun is_chunk_of :: "u64 \<Rightarrow> blob_to_swarm \<Rightarrow> bool" where
  "is_chunk_of k (NotifyHandler peer h (FB_FileChunk i bytes)) = (i = k)"
| "is_chunk_of k ev = False"

definition chunks_queued :: "u64 \<Rightarrow> blob_behaviour \<Rightarrow> blob_to_swarm list" where
  "chunks_queued k b = filter (is_chunk_of k) (bb_pending_handler_event b)"

definition send_gone :: "u64 \<Rightarrow> blob_behaviour \<Rightarrow> bool" where
  "send_gone k b \<longleftrightarrow> k < bb_send_counter b \<and> hm_get (bb_pending_send b) k = None
     \<and> hm_get (bb_ongoing_send b) k = None"

definition stays_gone :: "u64 \<Rightarrow> blob_behaviour \<Rightarrow> blob_behaviour \<Rightarrow> bool" where
  "stays_gone k b b' \<longleftrightarrow>
     (send_gone k b \<longrightarrow> send_gone k b' \<and> (\<exists>n. chunks_queued k b' = drop n (chunks_queued k b)))"

lemma stays_gone_refl [simp]: "stays_gone k b b"
  by (auto simp: stays_gone_def intro: exI [of _ 0])

lemma stays_gone_trans: "stays_gone k a b \<Longrightarrow> stays_gone k b c \<Longrightarrow> stays_gone k a c"
  by (auto simp: stays_gone_def)

text \<open>A change that keeps the queue of chunks and forgets sends only.\<close>

lemma stays_goneI:
  assumes "bb_send_counter b' = bb_send_counter b"
    and "hm_get (bb_pending_send b') k = None \<or> hm_get (bb_pending_send b') k = hm_get (bb_pending_send b) k"
    and "hm_get (bb_ongoing_send b') k = None \<or> hm_get (bb_ongoing_send b') k = hm_get (bb_ongoing_send b) k"
    and "chunks_queued k b' = chunks_queued k b"
  shows "stays_gone k b b'"
  using assms by (auto simp: stays_gone_def send_gone_def intro: exI [of _ 0])

lemma stays_gone_basic [simp]:
  "stays_gone k b (blob_emit ev b)"
  "stays_gone k b (snd (blob_cancel_send i b))"
  "stays_gone k b (snd (blob_cancel_recv i b))"
  "stays_gone k b (snd (blob_remove_send_record i b))"
  "stays_gone k b (snd (blob_remove_recv_by_remote_send_id i b))"
  "stays_gone k b (fst (blob_accept_pending_recv env f path i cb b))"
  by (auto simp: blob_op_defs blob_accept_pending_recv_def chunks_queued_def push_back_def Let_def
      intro!: stays_goneI split: option.splits)

lemma stays_gone_progress_recv:
  "blob_progress_ongoing_recv env i content b = Returns b' \<Longrightarrow> stays_gone k b b'"
  by (auto simp: blob_progress_ongoing_recv_def blob_emit_def chunks_queued_def Let_def
      intro!: stays_goneI split: option.splits if_splits sum.splits)

lemma stays_gone_on_disconnect: "blob_tables_wf b \<Longrightarrow> stays_gone k b (blob_on_disconnect info b)"
  by (auto simp: blob_on_disconnect_def chunks_queued_def blob_tables_wf_def hm_get_retain
      intro!: stays_goneI split: option.splits)

lemma stays_gone_fold:
  assumes "\<And>i b. stays_gone k b (f i b)"
  shows "stays_gone k b (fold f js b)"
proof (induction js arbitrary: b)
  case (Cons i js)
  show ?case
    using stays_gone_trans [OF assms [of b i] Cons.IH [of "f i b"]] by simp
qed simp

lemma stays_gone_check_expiry: "stays_gone k b (blob_check_expiry env b)"
proof -
  have "stays_gone k b (blob_expire_pending_send n b)" "stays_gone k b (blob_expire_pending_recv n b)"
    "stays_gone k b (blob_expire_ongoing_send n b)" "stays_gone k b (blob_expire_ongoing_recv n b)" for n b
    by (simp_all add: blob_expire_pending_send_def blob_expire_pending_recv_def
        blob_expire_ongoing_send_def blob_expire_ongoing_recv_def stays_gone_fold)
  then show ?thesis
    unfolding blob_check_expiry_def by (meson stays_gone_trans)
qed

lemma filter_pop: "\<exists>n. filter P q = drop n (filter P (x # q))"
  by (rule exI [of _ "if P x then 1 else 0"]) simp

lemma stays_gone_poll: "stays_gone k b (snd (blob_poll env b))"
proof -
  define b1 where "b1 = blob_tick env b"
  have "stays_gone k b b1"
    using stays_gone_check_expiry [of k b env] stays_gone_refl [of k b]
    by (simp add: b1_def blob_tick_def stays_gone_def send_gone_def chunks_queued_def del: stays_gone_refl)
  moreover have "stays_gone k b1 (snd (blob_poll env b))"
  proof (cases "bb_out_events b1")
    case Nil
    show ?thesis
    proof (cases "bb_pending_handler_event b1")
      case (Cons ev q)
      have "snd (blob_poll env b) = b1\<lparr>bb_pending_handler_event := q\<rparr>"
        using Nil Cons by (simp add: blob_poll_def b1_def [symmetric] Let_def)
      then show ?thesis
        using Cons filter_pop [of "is_chunk_of k" q ev]
        by (auto simp: stays_gone_def send_gone_def chunks_queued_def simp del: filter.simps)
    qed (use Nil in \<open>simp add: blob_poll_def b1_def [symmetric] Let_def\<close>)
  qed (auto simp: blob_poll_def b1_def [symmetric] Let_def chunks_queued_def intro!: stays_goneI)
  ultimately show ?thesis
    by (rule stays_gone_trans)
qed

lemma stays_gone_progress_send:
  assumes "blob_inv b"
  shows "stays_gone k b (blob_progress_ongoing_send env i b)"
proof (cases "hm_get (bb_ongoing_send b) i")
  case (Some v)
  have "os_local_send_id v = i"
    using assms Some by (auto simp: blob_inv_def blob_sends_ok_def)
  with Some show ?thesis
    by (auto simp: stays_gone_def send_gone_def chunks_queued_def push_back_def blob_progress_ongoing_send_def
        blob_notify_def Let_def intro: exI [of _ 0] split: sum.splits)
qed (simp add: blob_progress_ongoing_send_def)

lemma stays_gone_accepted:
  assumes "blob_inv b" and "blob_pending_send_accepted env i b = Returns (r, b')"
  shows "stays_gone k b b'"
proof (cases "hm_get (bb_pending_send b) i")
  case (Some p)
  define v where "v = \<lparr>os_local_send_id = ps_local_send_id p, os_remote = ps_remote p,
      os_bytes_sent = 0, os_bytes_total = ps_bytes_total p, os_file_handle = ps_file p,
      os_file_path = ps_file_path p, os_last_active = be_now env\<rparr>"
  define b1 where "b1 = b\<lparr>bb_pending_send := hm_remove i (bb_pending_send b),
      bb_ongoing_send := hm_insert i v (bb_ongoing_send b)\<rparr>"
  have i: "ps_local_send_id p = i"
    using assms(1) Some by (auto simp: blob_inv_def blob_sends_ok_def)
  have "blob_inv b1"
    unfolding b1_def by (rule blob_inv_move_send [OF assms(1) Some]) (simp add: v_def i)
  then have "stays_gone k b1 (blob_progress_ongoing_send env i b1)"
    by (rule stays_gone_progress_send)
  moreover have "b' = blob_progress_ongoing_send env i b1"
    using assms(2) Some
    by (auto simp: blob_pending_send_accepted_def hm_contains_key_def Let_def b1_def v_def i split: if_splits)
  moreover have "stays_gone k b b1"
    using Some by (auto simp: b1_def stays_gone_def send_gone_def chunks_queued_def intro: exI [of _ 0])
  ultimately show ?thesis
    using stays_gone_trans by blast
qed (use assms in \<open>auto simp: blob_pending_send_accepted_def split: if_splits\<close>)

lemma stays_gone_send_file:
  assumes "blob_no_wrap b" and "blob_send_file env f path peer cb b = Returns (b', rs)"
  shows "stays_gone k b b'"
  using assms word_less_Suc [of "bb_send_counter b" k]
  by (auto simp: blob_send_file_def blob_next_send_id_def stays_gone_def send_gone_def chunks_queued_def
      blob_notify_def push_back_def blob_no_wrap_def Let_def intro: exI [of _ 0] split: if_splits option.splits)

lemma stays_gone_eqs:
  "blob_cancel_send i b = (r, b') \<Longrightarrow> stays_gone k b b'"
  "blob_cancel_recv i b = (r, b') \<Longrightarrow> stays_gone k b b'"
  "blob_accept_pending_recv env f path i cb b = (b', rs) \<Longrightarrow> stays_gone k b b'"
  "blob_remove_recv_by_remote_send_id i b = (o1, b') \<Longrightarrow> stays_gone k b b'"
  by (metis stays_gone_basic(2) snd_conv, metis stays_gone_basic(3) snd_conv,
      metis stays_gone_basic(6) fst_conv, metis stays_gone_basic(5) snd_conv)

lemma stays_gone_emit: "stays_gone k b b' \<Longrightarrow> stays_gone k b (blob_emit ev b')"
  using stays_gone_basic(1) by (rule stays_gone_trans [rotated])

lemma stays_gone_on_handler_event:
  assumes "blob_inv b" and "blob_on_handler_event env peer ev b = Returns b'"
  shows "stays_gone k b b'"
proof (cases ev)
  case (TB_RecvProgressed rid content)
  with assms(2) show ?thesis by (simp add: stays_gone_progress_recv)
next
  case (TB_IncomingFile name rid n)
  with assms(2) show ?thesis
    by (auto simp: blob_on_new_pending_recv_def blob_next_recv_id_def blob_emit_def chunks_queued_def
        intro!: stays_goneI)
next
  case (TB_FileSendAccepted sid)
  from assms(2) [unfolded this] show ?thesis
    by (cases rule: blob_accepted_cases) (use stays_gone_accepted [OF assms(1)] in \<open>auto intro: stays_gone_emit\<close>)
next
  case (TB_SendProgressed sid rtt)
  obtain b1 where "b' = blob_progress_ongoing_send env sid b1" "b1 = b \<or> (\<exists>e. b1 = blob_emit e b)"
    using assms(2) TB_SendProgressed by (auto simp: Let_def split: option.splits)
  with assms(1) show ?thesis
    by (auto intro: stays_gone_progress_send stays_gone_trans [OF stays_gone_basic(1) stays_gone_progress_send])
next
  case (TB_RemoteCancelSend sid)
  with assms(2) show ?thesis
    by (auto intro: stays_gone_trans [OF stays_gone_basic(1) stays_gone_basic(4)])
next
  case (TB_RemoteCancelRecv rid)
  with assms(2) show ?thesis
    by (auto intro: stays_gone_emit stays_gone_eqs dest: stays_gone_eqs split: prod.splits option.splits)
next
  case TB_OutboundNegotiated
  with assms(2) show ?thesis
    by (auto intro!: stays_gone_emit stays_goneI simp: chunks_queued_def)
qed (use assms(2) in auto)

lemma stays_gone_step:
  assumes "blob_inv b" and "blob_step b b'"
  shows "stays_gone k b b'"
  using assms(2)
proof (cases rule: blob_step.cases)
  case (request env ev replies)
  then show ?thesis
    by (cases ev) (auto simp: and_then_Returns_iff stays_gone_send_file intro: stays_gone_eqs
        split: prod.splits bool.splits)
next
  case (connection env peer hev)
  then show ?thesis
    using assms(1) stays_gone_on_handler_event by blast
next
  case (swarm sev)
  then show ?thesis
    using stays_gone_on_disconnect [OF blob_inv_tables [OF assms(1)]] by (cases sev) simp_all
next
  case (poll env)
  then show ?thesis by (simp add: stays_gone_poll)
next
  case rehash
  then show ?thesis
    using blob_rehashD [OF blob_inv_tables [OF assms(1)]]
    by (intro stays_goneI) (simp_all add: chunks_queued_def)
qed

lemma stays_gone_steps: "blob_step\<^sup>*\<^sup>* b b' \<Longrightarrow> blob_inv b \<Longrightarrow> stays_gone k b b'"
proof (induction rule: rtranclp_induct)
  case (step y z)
  then show ?case
    using stays_gone_step [of y z k] stays_gone_trans blob_sys.steps_inv [of b y] by blast
qed simp

end
