(* ===== verification/Blob_Claims.thy ===== *)
theory Blob_Claims
  imports Blob_Safety
begin

text \<open>
  The properties of the blob behaviour that span its operations, each with a witness where it has
  hypotheses. The witnesses use two small peers and an environment whose files answer every call.
\<close>

section \<open>Concrete states for the witnesses\<close>

definition peer_a :: peer_id where "peer_a = PeerId [1]"
definition peer_b :: peer_id where "peer_b = PeerId [2]"

definition demo_env :: blob_env where
  "demo_env = \<lparr>be_now = 100, be_instant = 0, be_metadata = None, be_read = Inr 4,
     be_write = \<lambda>_. Inr 2, be_receiver_alive = \<lambda>_. True\<rparr>"

definition demo_file :: fs_file where
  "demo_file = \<lparr>f_data = [10, 20, 30, 40, 50], f_pos = 0\<rparr>"

definition demo_connected :: blob_behaviour where
  "demo_connected = (blob_behaviour_new blob_config_default 0)
     \<lparr>bb_out_events := [Out_OutboundNegotiated peer_a], bb_connected_peers := [peer_a]\<rparr>"

definition demo_pending :: pending_send where
  "demo_pending = \<lparr>ps_local_send_id = 0, ps_remote = peer_a, ps_file_path = ''/d/f'',
     ps_bytes_total = 5, ps_file = demo_file, ps_timestamp = 100\<rparr>"

definition demo_sending :: blob_behaviour where
  "demo_sending = demo_connected\<lparr>bb_send_counter := 1, bb_pending_send := [(0, demo_pending)],
     bb_pending_handler_event := [NotifyHandler peer_a Any (FB_NewFileSend ''f'' 0 7 5)]\<rparr>"

lemmas demo_defs =
  demo_env_def demo_file_def demo_connected_def demo_pending_def demo_sending_def
  blob_behaviour_new_def blob_behaviour_default_def blob_config_default_def

lemma demo_path: "path_file_name ''/d/f'' = Some ''f''"
  by (simp add: path_file_name_def path_components_def)

lemma demo_connect_step: "blob_step (blob_behaviour_new blob_config_default 0) demo_connected"
  by (rule blob_step.connection [where env = demo_env and peer = peer_a and hev = TB_OutboundNegotiated])
    (simp_all add: blob_no_wrap_def demo_defs blob_emit_def owl_simps List.insert_def)

lemma demo_send_eq:
  "blob_push_event demo_env (In_SendFile demo_file ''/d/f'' peer_a 7) demo_connected = Returns (demo_sending, [])"
  by (simp add: blob_send_file_def blob_next_send_id_def blob_notify_def demo_path owl_simps demo_defs)

lemma demo_send_step: "blob_step demo_connected demo_sending"
  by (rule blob_step.request [OF _ demo_send_eq]) (simp add: blob_no_wrap_def demo_defs)

lemma demo_reach: "blob_step\<^sup>*\<^sup>* (blob_behaviour_new blob_config_default 0) demo_sending"
  using demo_connect_step demo_send_step by (meson rtranclp.simps)

lemma demo_inv: "blob_inv demo_sending"
  using demo_reach by (rule blob_sys.reachable_inv)

section \<open>Consistency\<close>

text \<open>
  C5. In every state the behaviour can reach, by any interleaving of application requests, events
  from connections, swarm events, polls and rehashing of its tables (before a 64-bit counter
  wraps), its books are consistent: table keys are distinct, every record is filed under its own
  id, all ids in use were handed out by the counters, no send is both pending and ongoing, and no
  receive id is used twice.
\<close>

theorem blob_reachable_consistent:
  assumes "blob_step\<^sup>*\<^sup>* (blob_behaviour_new config instant) b"
  shows "blob_tables_wf b \<and> blob_sends_ok b \<and> blob_recvs_ok b"
  using blob_sys.reachable_inv [OF assms] by (simp add: blob_inv_def)

theorem blob_reachable_consistent_witness:
  "blob_tables_wf demo_sending \<and> blob_sends_ok demo_sending \<and> blob_recvs_ok demo_sending
   \<and> hm_get (bb_pending_send demo_sending) 0 = Some demo_pending"
  using blob_reachable_consistent [OF demo_reach] by (simp add: demo_sending_def hm_get_def)

text \<open>
  C26. Ids are unique for the lifetime of the behaviour: if a send request is announced to the
  remote under id \<open>i\<close>, then every send request announced after any further run carries a larger
  id, whatever was cancelled, finished or forgotten in between.
\<close>

theorem blob_send_ids_increase:
  assumes "blob_no_wrap b"
    and "blob_push_event env (In_SendFile f path peer cb) b = Returns (b1, rs)"
    and "bb_pending_handler_event b1 = bb_pending_handler_event b @ [NotifyHandler p h (FB_NewFileSend name i c n)]"
    and "blob_step\<^sup>*\<^sup>* b1 b2"
    and "blob_push_event env' (In_SendFile f' path' peer' cb') b2 = Returns (b3, rs')"
    and "bb_pending_handler_event b3 = bb_pending_handler_event b2 @ [NotifyHandler p' h' (FB_NewFileSend name' i' c' n')]"
  shows "i < i'"
proof -
  have "i = bb_send_counter b" "bb_send_counter b1 = bb_send_counter b + 1"
    using assms(2,3)
    by (auto simp: blob_send_file_def blob_next_send_id_def blob_notify_def push_back_def Let_def
        split: if_splits option.splits)
  moreover have "i' = bb_send_counter b2"
    using assms(5,6)
    by (auto simp: blob_send_file_def blob_next_send_id_def blob_notify_def push_back_def Let_def
        split: if_splits option.splits)
  moreover have "bb_send_counter b1 \<le> bb_send_counter b2"
    using blob_counters_le_steps [OF assms(4)] by (simp add: blob_counters_le_def)
  ultimately show ?thesis
    using word_Suc_less [of "bb_send_counter b"] assms(1) by (simp add: blob_no_wrap_def)
qed

lemma demo_send_again:
  "blob_push_event demo_env (In_SendFile demo_file ''/d/f'' peer_a 8) demo_sending =
     Returns (demo_sending\<lparr>bb_send_counter := 2,
       bb_pending_send := [(0, demo_pending), (1, demo_pending\<lparr>ps_local_send_id := 1\<rparr>)],
       bb_pending_handler_event := [NotifyHandler peer_a Any (FB_NewFileSend ''f'' 0 7 5),
         NotifyHandler peer_a Any (FB_NewFileSend ''f'' 1 8 5)]\<rparr>, [])"
  by (simp add: blob_send_file_def blob_next_send_id_def blob_notify_def demo_path owl_simps demo_defs)

theorem blob_send_ids_increase_witness:
  "blob_push_event demo_env (In_SendFile demo_file ''/d/f'' peer_a 7) demo_connected = Returns (demo_sending, [])
   \<and> bb_pending_handler_event demo_sending = [NotifyHandler peer_a Any (FB_NewFileSend ''f'' 0 7 5)]
   \<and> (\<exists>b3. blob_push_event demo_env (In_SendFile demo_file ''/d/f'' peer_a 8) demo_sending = Returns (b3, [])
        \<and> bb_pending_handler_event b3 = bb_pending_handler_event demo_sending
             @ [NotifyHandler peer_a Any (FB_NewFileSend ''f'' 1 8 5)])
   \<and> (0 :: u64) < 1"
proof -
  have "(0 :: u64) < 1"
    by (rule blob_send_ids_increase [OF _ demo_send_eq _ rtranclp.rtrancl_refl demo_send_again])
      (simp_all add: blob_no_wrap_def demo_defs)
  then show ?thesis
    using demo_send_eq demo_send_again by (simp add: demo_sending_def)
qed

text \<open>
  C20. Cancelling a send is final. When \<open>CancelSend\<close> is answered with \<open>Ok\<close>, the send is in neither
  table, and after any further run it is still in neither and no chunk of it has been queued for
  the remote: the chunks waiting are a rest of those that were waiting when it was cancelled.
\<close>

theorem blob_cancel_send_final:
  assumes "blob_inv b"
    and "blob_push_event env (In_CancelSend k cb) b = Returns (b1, [ReplyCancel cb (Inr ())])"
    and "blob_step\<^sup>*\<^sup>* b1 b2"
  shows "hm_get (bb_pending_send b2) k = None \<and> hm_get (bb_ongoing_send b2) k = None
    \<and> (\<exists>n. chunks_queued k b2 = drop n (chunks_queued k b))"
proof -
  have b1: "b1 = snd (blob_cancel_send k b)" and ok: "fst (blob_cancel_send k b)"
    using assms(2) by (auto split: prod.splits bool.splits)
  have "send_gone k b1" and "chunks_queued k b1 = chunks_queued k b"
    using assms(1) b1 ok
    by (auto simp: blob_cancel_send_def blob_remove_send_record_def blob_notify_def send_gone_def
        chunks_queued_def push_back_def blob_inv_def blob_sends_ok_def split: option.splits)
  moreover have "blob_inv b1"
    using blob_inv_cancel_send [OF assms(1)] b1 by simp
  ultimately show ?thesis
    using stays_gone_steps [OF assms(3), of k] by (auto simp: stays_gone_def send_gone_def)
qed

theorem blob_cancel_send_final_witness:
  "\<exists>b1. blob_push_event demo_env (In_CancelSend 0 9) demo_sending = Returns (b1, [ReplyCancel 9 (Inr ())])
    \<and> hm_get (bb_pending_send b1) 0 = None \<and> hm_get (bb_ongoing_send b1) 0 = None"
proof -
  have "blob_push_event demo_env (In_CancelSend 0 9) demo_sending =
      Returns (snd (blob_cancel_send 0 demo_sending), [ReplyCancel 9 (Inr ())])"
    by (simp add: blob_cancel_send_def blob_remove_send_record_def owl_simps demo_defs)
  with blob_cancel_send_final [OF demo_inv this rtranclp.rtrancl_refl] show ?thesis
    by blast
qed

section \<open>Panics\<close>

text \<open>
  C38. When the behaviour panics on an event from a connection: exactly when the remote accepts a
  send that is already ongoing, that is, accepts it a second time. No other message of a remote
  makes it panic.
\<close>

theorem blob_on_handler_event_panics_iff:
  "blob_on_handler_event env peer ev b = Panics \<longleftrightarrow>
     (\<exists>k v. ev = TB_FileSendAccepted k \<and> hm_get (bb_pending_send b) k = None
        \<and> hm_get (bb_ongoing_send b) k = Some v)"
proof (cases ev)
  case (TB_FileSendAccepted k)
  then show ?thesis
    by (auto simp: and_then_Panics_iff blob_pending_send_accepted_def hm_contains_key_def Let_def
        split: if_splits option.splits sum.splits)
qed (auto simp: Let_def blob_progress_ongoing_recv_def split: option.splits sum.splits prod.splits if_splits)

text \<open>
  When the behaviour panics on a request of the application: a send to a peer that is not
  connected whose caller no longer waits for the answer; a send of a path without a file name; a
  listing of receives while an ongoing receive has a path without a file name.
\<close>

theorem blob_push_event_panics_iff:
  "blob_push_event env ev b = Panics \<longleftrightarrow>
     (\<exists>f path to cb. ev = In_SendFile f path to cb
        \<and> (if hs_contains (bb_connected_peers b) to
           then be_metadata env = None \<and> path_file_name path = None
           else \<not> be_receiver_alive env cb))
     \<or> (\<exists>cb. ev = In_ListRecv cb
          \<and> (\<exists>v \<in> set (hm_values (bb_ongoing_recv b)). path_file_name (or_file_path v) = None))"
proof (cases ev)
  case (In_SendFile f path to cb)
  then show ?thesis
    by (auto simp: blob_send_file_def blob_next_send_id_def Let_def split: option.splits)
next
  case (In_ListRecv cb)
  have "collect_outcomes (map recv_info_of_ongoing vs @ map (\<lambda>v. Returns (recv_info_of_pending v)) ps) = Panics \<longleftrightarrow>
      (\<exists>v \<in> set vs. path_file_name (or_file_path v) = None)" for vs ps
  proof (induction vs)
    case Nil
    then show ?case by (induction ps) (auto simp: and_then_Panics_iff)
  next
    case (Cons v vs)
    then show ?case
      by (cases "path_file_name (or_file_path v)") (auto simp: and_then_Panics_iff recv_info_of_ongoing_def)
  qed
  with In_ListRecv show ?thesis
    by (simp add: and_then_Panics_iff)
qed (auto split: prod.splits bool.splits)

section \<open>Cancelling a receive\<close>

text \<open>
  \<open>CancelRecv\<close> of a pending receive: exactly that record is forgotten, the ongoing receives are
  untouched, its sender is told to stop, \<open>CancelledRecv\<close> is emitted and \<open>Ok\<close> is answered.
\<close>

theorem blob_cancel_pending_recv:
  assumes "hm_get (bb_pending_recv b) i = Some p"
  shows "\<exists>b'. blob_push_event env (In_CancelRecv i cb) b = Returns (b', [ReplyCancel cb (Inr ())])
    \<and> hm_get (bb_pending_recv b') = (hm_get (bb_pending_recv b))(i := None)
    \<and> bb_ongoing_recv b' = bb_ongoing_recv b
    \<and> bb_pending_handler_event b' = bb_pending_handler_event b
        @ [NotifyHandler (pr_remote p) Any (FB_LocalCancelRecv (pr_remote_send_id p))]
    \<and> bb_out_events b' = bb_out_events b @ [Out_CancelledRecv i]"
  using assms
  by (auto simp: blob_cancel_recv_def blob_remove_recv_record_def blob_emit_def blob_notify_def push_back_def)

text \<open>A peer that was offered the file of \<open>demo_sending\<close> under the sender's id 5.\<close>

definition demo_offered :: blob_behaviour where
  "demo_offered = blob_on_new_pending_recv demo_env peer_b ''f'' 5 5 (blob_behaviour_new blob_config_default 0)"

definition demo_receiving :: blob_behaviour where
  "demo_receiving = fst (blob_accept_pending_recv demo_env \<lparr>f_data = [], f_pos = 0\<rparr> ''/d/g'' 0 3 demo_offered)"

lemma demo_offer_step: "blob_step (blob_behaviour_new blob_config_default 0) demo_offered"
  by (rule blob_step.connection [where env = demo_env and peer = peer_b and hev = "TB_IncomingFile ''f'' 5 5"])
    (simp_all add: blob_no_wrap_def demo_offered_def demo_defs)

lemma demo_offered_pending:
  "hm_get (bb_pending_recv demo_offered) 0 = Some \<lparr>pr_local_recv_id = 0, pr_remote_send_id = 5,
     pr_bytes_total = 5, pr_file_name = ''f'', pr_remote = peer_b, pr_timestamp = 100\<rparr>"
  by (simp add: demo_offered_def blob_on_new_pending_recv_def blob_next_recv_id_def blob_emit_def owl_simps demo_defs)

lemma demo_accept_step: "blob_step demo_offered demo_receiving"
proof (rule blob_step.request)
  show "blob_no_wrap demo_offered"
    by (simp add: blob_no_wrap_def demo_offered_def blob_on_new_pending_recv_def blob_next_recv_id_def
        blob_emit_def demo_defs)
  show "blob_push_event demo_env (In_AcceptFile \<lparr>f_data = [], f_pos = 0\<rparr> 0 ''/d/g'' 3) demo_offered =
      Returns (demo_receiving, [])"
    using demo_offered_pending by (simp add: demo_receiving_def blob_accept_pending_recv_def Let_def)
qed

lemma demo_receiving_reach: "blob_step\<^sup>*\<^sup>* (blob_behaviour_new blob_config_default 0) demo_receiving"
  using demo_offer_step demo_accept_step by (meson rtranclp.simps)

lemma demo_receiving_ongoing:
  "hm_get (bb_ongoing_recv demo_receiving) = [5 \<mapsto> \<lparr>or_remote_send_id = 5, or_local_recv_id = 0,
     or_remote = peer_b, or_bytes_received = 0, or_bytes_total = 5,
     or_file_handle = \<lparr>f_data = [], f_pos = 0\<rparr>, or_file_path = ''/d/g/f'', or_last_active = 100\<rparr>]"
  using demo_offered_pending
  by (simp add: demo_receiving_def blob_accept_pending_recv_def blob_notify_def path_push_def fun_eq_iff)
    (simp add: demo_offered_def blob_on_new_pending_recv_def blob_next_recv_id_def blob_emit_def demo_defs)

theorem blob_cancel_pending_recv_witness:
  "\<exists>b'. blob_push_event demo_env (In_CancelRecv 0 4) demo_offered = Returns (b', [ReplyCancel 4 (Inr ())])
    \<and> hm_get (bb_pending_recv b') 0 = None"
  using blob_cancel_pending_recv [OF demo_offered_pending, of demo_env 4] by auto

text \<open>
  C14. \<open>CancelRecv\<close> does not stop an ongoing receive unless the id chosen by the sender happens to
  equal the local one. In every consistent state, if the receive with local id \<open>i\<close> is ongoing and
  the sender calls it \<open>k\<close> with \<open>k \<noteq> i\<close>, the request leaves it running, and drops instead whatever
  receive is filed under \<open>i\<close>; \<open>Ok\<close> is answered exactly when there was such a bystander.
\<close>

theorem blob_cancel_ongoing_recv:
  assumes "blob_inv b" and "hm_get (bb_ongoing_recv b) k = Some v" and "or_local_recv_id v = i" and "k \<noteq> i"
  shows "\<exists>b' r. blob_push_event env (In_CancelRecv i cb) b = Returns (b', [ReplyCancel cb r])
    \<and> hm_get (bb_ongoing_recv b') k = Some v
    \<and> hm_get (bb_ongoing_recv b') i = None
    \<and> (r = Inr () \<longleftrightarrow> hm_get (bb_ongoing_recv b) i \<noteq> None)"
proof -
  have "hm_get (bb_pending_recv b) i = None"
    using blob_inv_ongoing_recvD(3) [OF assms(1,2)] assms(3) by simp
  with assms(2-4) show ?thesis
    by (cases "hm_get (bb_ongoing_recv b) i")
      (auto simp: blob_cancel_recv_def blob_remove_recv_record_def blob_emit_def blob_notify_def)
qed

theorem blob_cancel_ongoing_recv_witness:
  "\<exists>b' r v. blob_push_event demo_env (In_CancelRecv 0 4) demo_receiving = Returns (b', [ReplyCancel 4 r])
    \<and> hm_get (bb_ongoing_recv b') 5 = Some v \<and> r \<noteq> Inr ()"
proof -
  have inv: "blob_inv demo_receiving"
    using demo_receiving_reach by (rule blob_sys.reachable_inv)
  show ?thesis
    using blob_cancel_ongoing_recv [OF inv, of 5 _ 0 demo_env 4] demo_receiving_ongoing by auto
qed

section \<open>Disconnection\<close>

text \<open>
  When the last connection to a peer closes, the peer is no longer listed as connected and every
  record of a transfer with it is dropped from all four tables, while the records of transfers with
  other peers are kept as they are; while another connection to it remains, nothing changes.
\<close>

theorem blob_on_disconnect_purges:
  assumes "blob_tables_wf b"
  shows "(cc_remaining_established info = 0 \<longrightarrow>
      (let b' = blob_on_swarm_event (ConnectionClosed info) b; p = cc_peer_id info in
        set (bb_connected_peers b') = set (bb_connected_peers b) - {p}
        \<and> (\<forall>k v. hm_get (bb_pending_send b') k = Some v \<longleftrightarrow> hm_get (bb_pending_send b) k = Some v \<and> ps_remote v \<noteq> p)
        \<and> (\<forall>k v. hm_get (bb_ongoing_send b') k = Some v \<longleftrightarrow> hm_get (bb_ongoing_send b) k = Some v \<and> os_remote v \<noteq> p)
        \<and> (\<forall>k v. hm_get (bb_pending_recv b') k = Some v \<longleftrightarrow> hm_get (bb_pending_recv b) k = Some v \<and> pr_remote v \<noteq> p)
        \<and> (\<forall>k v. hm_get (bb_ongoing_recv b') k = Some v \<longleftrightarrow> hm_get (bb_ongoing_recv b) k = Some v \<and> or_remote v \<noteq> p)))
    \<and> (cc_remaining_established info > 0 \<longrightarrow> blob_on_swarm_event (ConnectionClosed info) b = b)"
  using assms by (simp add: blob_on_disconnect_def blob_tables_wf_def Let_def)

theorem blob_on_disconnect_purges_witness:
  "hm_get (bb_pending_send (blob_on_swarm_event
      (ConnectionClosed \<lparr>cc_peer_id = peer_a, cc_remaining_established = 0\<rparr>) demo_sending)) 0 = None
   \<and> peer_a \<notin> set (bb_connected_peers (blob_on_swarm_event
      (ConnectionClosed \<lparr>cc_peer_id = peer_a, cc_remaining_established = 0\<rparr>) demo_sending))"
proof -
  have "hm_get (bb_pending_send demo_sending) 0 = Some v \<longrightarrow> ps_remote v = peer_a" for v
    by (auto simp: demo_sending_def demo_pending_def owl_simps)
  then show ?thesis
    using blob_on_disconnect_purges [OF blob_inv_tables [OF demo_inv],
        of "\<lparr>cc_peer_id = peer_a, cc_remaining_established = 0\<rparr>"]
    by (auto simp: Let_def)
qed

section \<open>Polling\<close>

text \<open>
  Polling hands out, in order, first all events for the application and then all commands for
  connection handlers, each once; it answers \<open>Pending\<close> exactly when both queues are empty. The
  queues are those after the expiry check that the first poll of the instant makes.
\<close>

theorem blob_poll_drains:
  "fst (drain (blob_poll env) n b) = take n (blob_queue env b)
   \<and> blob_queue env (snd (drain (blob_poll env) n b)) = drop n (blob_queue env b)
   \<and> (fst (blob_poll env b) = Pending \<longleftrightarrow>
        bb_out_events (blob_tick env b) = [] \<and> bb_pending_handler_event (blob_tick env b) = [])"
  using blob_src.drain_take [of env n b] blob_src.poll_pending_iff [of env b]
  by (simp add: blob_queue_def)

end
