(* ===== verification/Blob_Transfer.thy ===== *)
theory Blob_Transfer
  imports Blob_Claims
begin

text \<open>
  What a transfer does to the bytes. The sender's behaviour, driven by \<open>SendProgressed\<close> events,
  cuts its file into chunks that end with an empty one; the receiver's behaviour, driven by
  \<open>RecvProgressed\<close> events, appends the chunks to its file; together they copy the file.
\<close>

section \<open>Runs of connection events\<close>

fun blob_run_events ::
  "(blob_env \<times> peer_id \<times> blob_to_behaviour) list \<Rightarrow> blob_behaviour \<Rightarrow> blob_behaviour outcome" where
  "blob_run_events [] b = Returns b"
| "blob_run_events ((env, peer, ev) # evs) b =
     and_then (blob_on_handler_event env peer ev b) (blob_run_events evs)"

lemma blob_run_events_append:
  "blob_run_events (xs @ ys) b = and_then (blob_run_events xs b) (blob_run_events ys)"
proof (induction xs arbitrary: b)
  case (Cons x xs)
  obtain env peer ev where "x = (env, peer, ev)" by (cases x)
  then show ?case
    using Cons.IH by (cases "blob_on_handler_event env peer ev b") simp_all
qed simp

fun chunk_bytes :: "blob_to_swarm \<Rightarrow> u8 list" where
  "chunk_bytes (NotifyHandler peer h (FB_FileChunk i bytes)) = bytes"
| "chunk_bytes ev = []"

definition chunk_data :: "u64 \<Rightarrow> blob_behaviour \<Rightarrow> u8 list list" where
  "chunk_data k b = map chunk_bytes (chunks_queued k b)"

lemma chunk_data_emit [simp]: "chunk_data k (blob_emit ev b) = chunk_data k b"
  by (simp add: chunk_data_def chunks_queued_def blob_emit_def)

lemma chunk_data_ongoing [simp]: "chunk_data k (b\<lparr>bb_ongoing_send := m\<rparr>) = chunk_data k b"
  by (simp add: chunk_data_def chunks_queued_def)

lemma chunk_data_notify_chunk [simp]:
  "chunk_data k (blob_notify p (FB_FileChunk k bytes) b) = chunk_data k b @ [bytes]"
  by (simp add: chunk_data_def chunks_queued_def blob_notify_def push_back_def)

lemma ongoing_send_notify [simp]: "bb_ongoing_send (blob_notify p ev b) = bb_ongoing_send b"
  by (simp add: blob_notify_def)

lemma ongoing_send_emit [simp]: "bb_ongoing_send (blob_emit ev b) = bb_ongoing_send b"
  by (simp add: blob_emit_def)

section \<open>The sender\<close>

lemma FILE_CHUNK_SIZE_pos [simp]: "0 < FILE_CHUNK_SIZE"
  by (simp add: FILE_CHUNK_SIZE_def)

lemma progress_send_more:
  assumes v: "hm_get (bb_ongoing_send b) k = Some v" "os_local_send_id v = k"
    and rd: "be_read env = Inr h" and left: "f_pos (os_file_handle v) < length (f_data (os_file_handle v))"
  defines "n \<equiv> file_read_len h FILE_CHUNK_SIZE (os_file_handle v)"
  shows "0 < n" and "n \<le> FILE_CHUNK_SIZE"
    and "n \<le> length (f_data (os_file_handle v)) - f_pos (os_file_handle v)"
    and "chunk_data k (blob_progress_ongoing_send env k b) = chunk_data k b @
      [take n (drop (f_pos (os_file_handle v)) (f_data (os_file_handle v)))]"
    and "hm_get (bb_ongoing_send (blob_progress_ongoing_send env k b)) k =
      Some (v\<lparr>os_last_active := be_now env,
        os_file_handle := (os_file_handle v)\<lparr>f_pos := f_pos (os_file_handle v) + n\<rparr>,
        os_bytes_sent := os_bytes_sent v + of_nat n\<rparr>)"
proof -
  show n: "0 < n"
    using left file_read_len_zero_iff [of FILE_CHUNK_SIZE h "os_file_handle v"] by (simp add: n_def)
  show le: "n \<le> FILE_CHUNK_SIZE" "n \<le> length (f_data (os_file_handle v)) - f_pos (os_file_handle v)"
    using file_read_len_le by (simp_all add: n_def)
  have read: "file_read (be_read env) FILE_CHUNK_SIZE (os_file_handle v) =
      Inr (take n (drop (f_pos (os_file_handle v)) (f_data (os_file_handle v))),
        (os_file_handle v)\<lparr>f_pos := f_pos (os_file_handle v) + n\<rparr>)"
    using rd by (simp add: file_read_def n_def Let_def)
  show "chunk_data k (blob_progress_ongoing_send env k b) = chunk_data k b @
      [take n (drop (f_pos (os_file_handle v)) (f_data (os_file_handle v)))]"
    using v read n left by (simp add: blob_progress_ongoing_send_def Let_def)
  show "hm_get (bb_ongoing_send (blob_progress_ongoing_send env k b)) k =
      Some (v\<lparr>os_last_active := be_now env,
        os_file_handle := (os_file_handle v)\<lparr>f_pos := f_pos (os_file_handle v) + n\<rparr>,
        os_bytes_sent := os_bytes_sent v + of_nat n\<rparr>)"
    using v read n left le by (simp add: blob_progress_ongoing_send_def Let_def min_absorb2)
qed

lemma progress_send_eof:
  assumes "hm_get (bb_ongoing_send b) k = Some v" "os_local_send_id v = k"
    and "be_read env = Inr h" and "length (f_data (os_file_handle v)) \<le> f_pos (os_file_handle v)"
  shows "chunk_data k (blob_progress_ongoing_send env k b) = chunk_data k b @ [[]]"
    and "hm_get (bb_ongoing_send (blob_progress_ongoing_send env k b)) k = None"
  using assms by (simp_all add: blob_progress_ongoing_send_def file_read_def Let_def)

lemma progress_send_done:
  "hm_get (bb_ongoing_send b) k = None \<Longrightarrow> blob_progress_ongoing_send env k b = b"
  by (simp add: blob_progress_ongoing_send_def)

text \<open>The events that acknowledge the chunks of send \<open>k\<close>, one per read.\<close>

definition send_acks :: "u64 \<Rightarrow> (blob_env \<times> peer_id \<times> duration) list \<Rightarrow> (blob_env \<times> peer_id \<times> blob_to_behaviour) list" where
  "send_acks k xs = map (\<lambda>(env, peer, rtt). (env, peer, TB_SendProgressed k rtt)) xs"

lemma run_send_acks_Cons:
  "\<exists>b1. blob_run_events (send_acks k ((env, peer, rtt) # xs)) b =
      blob_run_events (send_acks k xs) (blob_progress_ongoing_send env k b1)
    \<and> bb_ongoing_send b1 = bb_ongoing_send b \<and> chunk_data k b1 = chunk_data k b"
  by (cases "hm_get (bb_ongoing_send b) k") (auto simp: send_acks_def Let_def)

lemma run_send_acks_gone:
  assumes "hm_get (bb_ongoing_send b) k = None"
  shows "blob_run_events (send_acks k xs) b = Returns b"
  using assms by (induction xs) (auto simp: send_acks_def progress_send_done)

lemma run_send_acks_streams:
  assumes "hm_get (bb_ongoing_send b) k = Some v" and "os_local_send_id v = k"
    and "\<forall>(env, _, _) \<in> set xs. \<exists>h. be_read env = Inr h"
    and "f_pos (os_file_handle v) \<le> length (f_data (os_file_handle v))"
    and "length (f_data (os_file_handle v)) - f_pos (os_file_handle v) < length xs"
  shows "\<exists>b' cs. blob_run_events (send_acks k xs) b = Returns b'
    \<and> hm_get (bb_ongoing_send b') k = None \<and> chunk_data k b' = chunk_data k b @ cs @ [[]]
    \<and> concat cs = drop (f_pos (os_file_handle v)) (f_data (os_file_handle v))
    \<and> (\<forall>c \<in> set cs. c \<noteq> [] \<and> length c \<le> FILE_CHUNK_SIZE)"
  using assms
proof (induction xs arbitrary: b v)
  case (Cons x xs)
  obtain env peer rtt where x: "x = (env, peer, rtt)" by (cases x)
  obtain h where h: "be_read env = Inr h"
    using Cons.prems(3) x by auto
  obtain b1 where b1: "blob_run_events (send_acks k (x # xs)) b =
      blob_run_events (send_acks k xs) (blob_progress_ongoing_send env k b1)"
    "bb_ongoing_send b1 = bb_ongoing_send b" "chunk_data k b1 = chunk_data k b"
    using run_send_acks_Cons [of k env peer rtt xs b] x by auto
  have v: "hm_get (bb_ongoing_send b1) k = Some v"
    using b1 Cons.prems(1) by simp
  let ?b2 = "blob_progress_ongoing_send env k b1" and ?f = "os_file_handle v"
  show ?case
  proof (cases "f_pos ?f < length (f_data ?f)")
    case False
    then have "chunk_data k ?b2 = chunk_data k b @ [[]]" "hm_get (bb_ongoing_send ?b2) k = None"
      using progress_send_eof [OF v Cons.prems(2) h] b1(3) by simp_all
    with False show ?thesis
      by (intro exI [of _ ?b2] exI [of _ "[]"]) (simp add: b1(1) run_send_acks_gone)
  next
    case True
    define n where "n = file_read_len h FILE_CHUNK_SIZE ?f"
    note more = progress_send_more [OF v Cons.prems(2) h True, folded n_def]
    define v2 where "v2 = v\<lparr>os_last_active := be_now env, os_file_handle := ?f\<lparr>f_pos := f_pos ?f + n\<rparr>,
        os_bytes_sent := os_bytes_sent v + of_nat n\<rparr>"
    have "\<exists>b' cs. blob_run_events (send_acks k xs) ?b2 = Returns b'
        \<and> hm_get (bb_ongoing_send b') k = None \<and> chunk_data k b' = chunk_data k ?b2 @ cs @ [[]]
        \<and> concat cs = drop (f_pos (os_file_handle v2)) (f_data (os_file_handle v2))
        \<and> (\<forall>c \<in> set cs. c \<noteq> [] \<and> length c \<le> FILE_CHUNK_SIZE)"
      using Cons.prems more(1,3) by (intro Cons.IH) (auto simp: more(5) v2_def)
    then obtain b' cs where b': "blob_run_events (send_acks k xs) ?b2 = Returns b'"
      "hm_get (bb_ongoing_send b') k = None" "chunk_data k b' = chunk_data k ?b2 @ cs @ [[]]"
      "concat cs = drop (f_pos ?f + n) (f_data ?f)" "\<forall>c \<in> set cs. c \<noteq> [] \<and> length c \<le> FILE_CHUNK_SIZE"
      by (auto simp: v2_def)
    moreover have "take n (drop (f_pos ?f) (f_data ?f)) @ drop (f_pos ?f + n) (f_data ?f) = drop (f_pos ?f) (f_data ?f)"
      by (metis add.commute append_take_drop_id drop_drop)
    ultimately show ?thesis
      using more b1 True
      by (intro exI [of _ b'] exI [of _ "take n (drop (f_pos ?f) (f_data ?f)) # cs"]) auto
  qed
qed simp

section \<open>The receiver\<close>

definition writes_progress :: "blob_env \<Rightarrow> bool" where
  "writes_progress env \<longleftrightarrow> (\<forall>i. \<exists>n. be_write env i = Inr (Suc n))"

lemma file_put_Nil: "f_pos f \<le> length (f_data f) \<Longrightarrow> file_put [] f = f"
  by (simp add: file_put_def)

lemma file_put_put: "file_put ys (file_put xs f) = file_put (xs @ ys) f"
  by (cases "f_pos f \<le> length (f_data f)") (auto simp: file_put_def min_def ac_simps)

lemma blob_write_loop_all:
  assumes "\<forall>i. \<exists>n. ans i = Inr (Suc n)" and "cursor < length content"
  shows "blob_write_loop ans i f content cursor = Some (Inr (length content, file_put (drop cursor content) f))"
  using assms(2)
proof (induction "length content - cursor" arbitrary: i f cursor rule: less_induct)
  case less
  obtain m where m: "ans i = Inr (Suc m)"
    using assms(1) by blast
  define n where "n = min (Suc m) (length content - cursor)"
  have n: "0 < n" "n \<le> length content - cursor"
    using less.prems by (auto simp: n_def)
  define f' where "f' = file_put (take n (drop cursor content)) f"
  have wr: "file_write (ans i) (drop cursor content) f = Inr (n, f')"
    using less.prems by (simp add: file_write_def m f'_def n_def min_def)
  have unfold1: "blob_write_loop ans i f content cursor =
      (if cursor + n \<ge> length content then Some (Inr (cursor + n, f'))
       else blob_write_loop ans (Suc i) f' content (cursor + n))"
    by (subst blob_write_loop.simps) (simp add: wr)
  have split: "take n (drop cursor content) @ drop (cursor + n) content = drop cursor content"
    by (metis add.commute append_take_drop_id drop_drop)
  show ?case
  proof (cases "cursor + n \<ge> length content")
    case True
    with n have "cursor + n = length content"
      by linarith
    with split show ?thesis
      by (simp add: unfold1 f'_def)
  next
    case False
    then have "blob_write_loop ans (Suc i) f' content (cursor + n) =
        Some (Inr (length content, file_put (drop (cursor + n) content) f'))"
      using n by (intro less.hyps) auto
    with False split show ?thesis
      by (simp add: unfold1 f'_def file_put_put)
  qed
qed

lemma progress_recv_chunk:
  assumes "hm_get (bb_ongoing_recv b) k = Some v" and "writes_progress env" and "c \<noteq> []"
  shows "\<exists>b'. blob_on_handler_event env peer (TB_RecvProgressed k c) b = Returns b'
    \<and> hm_get (bb_ongoing_recv b') = (hm_get (bb_ongoing_recv b))(k \<mapsto>
         v\<lparr>or_last_active := be_now env, or_file_handle := file_put c (or_file_handle v),
           or_bytes_received := or_bytes_received v + of_nat (length c)\<rparr>)
    \<and> bb_out_events b' = bb_out_events b"
  using assms blob_write_loop_all [of "be_write env" 0 c 0 "or_file_handle v"]
  by (simp add: blob_progress_ongoing_recv_def writes_progress_def Let_def fun_eq_iff)

lemma progress_recv_eof:
  assumes "hm_get (bb_ongoing_recv b) k = Some v"
  shows "\<exists>b'. blob_on_handler_event env peer (TB_RecvProgressed k []) b = Returns b'
    \<and> hm_get (bb_ongoing_recv b') = (hm_get (bb_ongoing_recv b))(k := None)
    \<and> bb_out_events b' = bb_out_events b @
        [if or_bytes_received v = or_bytes_total v
         then Out_RecvProgressed (or_local_recv_id v) (or_bytes_total v) (or_bytes_total v)
         else Out_Error (UnexpectedEOF (or_local_recv_id v))]"
  using assms
  by (auto simp: blob_progress_ongoing_recv_def blob_emit_def push_back_def Let_def fun_eq_iff)

definition recv_chunks :: "u64 \<Rightarrow> (blob_env \<times> peer_id) list \<Rightarrow> u8 list list \<Rightarrow> (blob_env \<times> peer_id \<times> blob_to_behaviour) list" where
  "recv_chunks k xs cs = map2 (\<lambda>(env, peer) c. (env, peer, TB_RecvProgressed k c)) xs cs"

lemma run_recv_chunks:
  assumes "hm_get (bb_ongoing_recv b) k = Some v" and "length xs = length cs"
    and "\<forall>(env, _) \<in> set xs. writes_progress env" and "[] \<notin> set cs"
    and "f_pos (or_file_handle v) = length (f_data (or_file_handle v))"
  shows "\<exists>b' v'. blob_run_events (recv_chunks k xs cs) b = Returns b'
    \<and> hm_get (bb_ongoing_recv b') k = Some v'
    \<and> f_data (or_file_handle v') = f_data (or_file_handle v) @ concat cs
    \<and> or_bytes_received v' = or_bytes_received v + of_nat (length (concat cs))
    \<and> or_bytes_total v' = or_bytes_total v \<and> or_local_recv_id v' = or_local_recv_id v
    \<and> bb_out_events b' = bb_out_events b"
  using assms
proof (induction cs arbitrary: xs b v)
  case (Cons c cs)
  then obtain env peer xs' where xs: "xs = (env, peer) # xs'" "length xs' = length cs" "writes_progress env"
    by (cases xs) auto
  have c: "c \<noteq> []"
    using Cons.prems(4) by auto
  define v1 where "v1 = v\<lparr>or_last_active := be_now env, or_file_handle := file_put c (or_file_handle v),
      or_bytes_received := or_bytes_received v + of_nat (length c)\<rparr>"
  obtain b1 where b1: "blob_on_handler_event env peer (TB_RecvProgressed k c) b = Returns b1"
    "hm_get (bb_ongoing_recv b1) k = Some v1" "bb_out_events b1 = bb_out_events b"
    using progress_recv_chunk [OF Cons.prems(1) xs(3) c, of peer] by (auto simp: v1_def)
  have f1: "or_file_handle v1 = \<lparr>f_data = f_data (or_file_handle v) @ c,
      f_pos = f_pos (or_file_handle v) + length c\<rparr>"
    using Cons.prems(5) by (simp add: v1_def file_put_append)
  have "\<exists>b' v'. blob_run_events (recv_chunks k xs' cs) b1 = Returns b'
    \<and> hm_get (bb_ongoing_recv b') k = Some v'
    \<and> f_data (or_file_handle v') = f_data (or_file_handle v1) @ concat cs
    \<and> or_bytes_received v' = or_bytes_received v1 + of_nat (length (concat cs))
    \<and> or_bytes_total v' = or_bytes_total v1 \<and> or_local_recv_id v' = or_local_recv_id v1
    \<and> bb_out_events b' = bb_out_events b1"
    using Cons.prems xs b1 by (intro Cons.IH) (auto simp: f1)
  then show ?case
    using xs b1 by (auto simp: recv_chunks_def f1) (auto simp: v1_def)
qed (simp add: recv_chunks_def)

section \<open>From acceptance to the last byte\<close>

definition accepted_send :: "blob_env \<Rightarrow> pending_send \<Rightarrow> ongoing_file_send" where
  "accepted_send env p =
     \<lparr>os_local_send_id = ps_local_send_id p, os_remote = ps_remote p, os_bytes_sent = 0,
      os_bytes_total = ps_bytes_total p, os_file_handle = ps_file p, os_file_path = ps_file_path p,
      os_last_active = be_now env\<rparr>"

lemma progress_send_emit:
  "blob_progress_ongoing_send env k (blob_emit ev b) = blob_emit ev (blob_progress_ongoing_send env k b)"
  by (auto simp: blob_progress_ongoing_send_def blob_emit_def blob_notify_def Let_def split: option.splits sum.splits)

text \<open>An acceptance acts like the acknowledgement of an ongoing send that has sent nothing yet.\<close>

lemma accepted_as_ack:
  assumes "blob_inv b" and "hm_get (bb_pending_send b) k = Some p"
  shows "blob_on_handler_event env peer (TB_FileSendAccepted k) b =
    blob_on_handler_event env peer (TB_SendProgressed k rtt)
      (b\<lparr>bb_pending_send := hm_remove k (bb_pending_send b),
         bb_ongoing_send := hm_insert k (accepted_send env p) (bb_ongoing_send b)\<rparr>)"
proof -
  have "ps_local_send_id p = k"
    using assms by (auto simp: blob_inv_def blob_sends_ok_def)
  with assms(2) show ?thesis
    by (simp add: blob_pending_send_accepted_def hm_contains_key_def accepted_send_def progress_send_emit Let_def)
qed

lemma accepted_streams:
  assumes inv: "blob_inv b" and p: "hm_get (bb_pending_send b) k = Some p" and start: "f_pos (ps_file p) = 0"
    and reads: "\<exists>h. be_read env = Inr h" "\<forall>(env, _, _) \<in> set xs. \<exists>h. be_read env = Inr h"
    and enough: "length (f_data (ps_file p)) \<le> length xs"
  shows "\<exists>b' cs. blob_run_events ((env, peer, TB_FileSendAccepted k) # send_acks k xs) b = Returns b'
    \<and> hm_get (bb_ongoing_send b') k = None \<and> chunk_data k b' = chunk_data k b @ cs @ [[]]
    \<and> concat cs = f_data (ps_file p) \<and> (\<forall>c \<in> set cs. c \<noteq> [] \<and> length c \<le> FILE_CHUNK_SIZE)"
proof -
  let ?b1 = "b\<lparr>bb_pending_send := hm_remove k (bb_pending_send b),
      bb_ongoing_send := hm_insert k (accepted_send env p) (bb_ongoing_send b)\<rparr>"
  have k: "ps_local_send_id p = k"
    using inv p by (auto simp: blob_inv_def blob_sends_ok_def)
  have run: "blob_run_events ((env, peer, TB_FileSendAccepted k) # send_acks k xs) b =
      blob_run_events (send_acks k ((env, peer, 0) # xs)) ?b1"
    by (simp add: send_acks_def accepted_as_ack [OF inv p, where rtt = 0] del: blob_on_handler_event.simps)
  have cd: "chunk_data k ?b1 = chunk_data k b"
    by (simp add: chunk_data_def chunks_queued_def)
  show ?thesis
    unfolding run using run_send_acks_streams [of ?b1 k "accepted_send env p" "(env, peer, 0) # xs"] reads enough start k cd
    by (auto simp: accepted_send_def)
qed

section \<open>Properties\<close>

text \<open>
  A remote that accepts a pending send and acknowledges every chunk receives the whole file: if
  the file's reads succeed, then after at most one event per byte the send has left the books, and
  the chunks queued for it since are non-empty pieces of at most 256 KiB whose concatenation is the
  file, followed by one empty chunk that marks the end.
\<close>

theorem blob_send_streams_file:
  assumes "blob_inv b" and "hm_get (bb_pending_send b) k = Some p" and "f_pos (ps_file p) = 0"
    and "\<exists>h. be_read env = Inr h" and "\<forall>(env, _, _) \<in> set xs. \<exists>h. be_read env = Inr h"
    and "length (f_data (ps_file p)) \<le> length xs"
  shows "\<exists>b' cs. blob_run_events ((env, peer, TB_FileSendAccepted k) # send_acks k xs) b = Returns b'
    \<and> hm_get (bb_ongoing_send b') k = None \<and> chunk_data k b' = chunk_data k b @ cs @ [[]]
    \<and> concat cs = f_data (ps_file p) \<and> (\<forall>c \<in> set cs. c \<noteq> [] \<and> length c \<le> FILE_CHUNK_SIZE)"
  using assms by (rule accepted_streams)

lemma demo_sending_facts:
  "hm_get (bb_pending_send demo_sending) 0 = Some demo_pending"
  "ps_file demo_pending = demo_file" "f_pos demo_file = 0" "f_data demo_file = [10, 20, 30, 40, 50]"
  "be_read demo_env = Inr 4" "chunk_data k demo_sending = []"
  by (simp_all add: demo_defs hm_get_def chunk_data_def chunks_queued_def)

theorem blob_send_streams_file_witness:
  "\<exists>b' cs. blob_run_events ((demo_env, peer_a, TB_FileSendAccepted 0)
      # send_acks 0 (replicate 5 (demo_env, peer_a, 1))) demo_sending = Returns b'
    \<and> chunk_data 0 b' = cs @ [[]] \<and> concat cs = [10, 20, 30, 40, 50]"
  using blob_send_streams_file [OF demo_inv demo_sending_facts(1), of demo_env "replicate 5 (demo_env, peer_a, 1)" peer_a]
  by (auto simp: demo_sending_facts)

text \<open>
  A receive ends well exactly when all announced bytes arrived. Non-empty chunks are appended to
  the file in the order of their arrival however the file system splits the writes; the empty chunk
  then closes the receive and reports completion if the number of bytes written is the announced
  one, and an unexpected end of file otherwise.
\<close>

theorem blob_recv_appends_chunks:
  assumes "hm_get (bb_ongoing_recv b) k = Some v" and "length xs = length cs"
    and "\<forall>(env, _) \<in> set xs. writes_progress env" and "[] \<notin> set cs"
    and "f_pos (or_file_handle v) = length (f_data (or_file_handle v))"
  shows "\<exists>b1 v1 b2. blob_run_events (recv_chunks k xs cs) b = Returns b1
    \<and> hm_get (bb_ongoing_recv b1) k = Some v1
    \<and> f_data (or_file_handle v1) = f_data (or_file_handle v) @ concat cs
    \<and> blob_on_handler_event env peer (TB_RecvProgressed k []) b1 = Returns b2
    \<and> hm_get (bb_ongoing_recv b2) k = None
    \<and> bb_out_events b2 = bb_out_events b @
        [if or_bytes_received v + of_nat (length (concat cs)) = or_bytes_total v
         then Out_RecvProgressed (or_local_recv_id v) (or_bytes_total v) (or_bytes_total v)
         else Out_Error (UnexpectedEOF (or_local_recv_id v))]"
proof -
  obtain b1 v1 where run: "blob_run_events (recv_chunks k xs cs) b = Returns b1" "hm_get (bb_ongoing_recv b1) k = Some v1"
    "f_data (or_file_handle v1) = f_data (or_file_handle v) @ concat cs"
    "or_bytes_received v1 = or_bytes_received v + of_nat (length (concat cs))"
    "or_bytes_total v1 = or_bytes_total v" "or_local_recv_id v1 = or_local_recv_id v"
    "bb_out_events b1 = bb_out_events b"
    using run_recv_chunks [OF assms] by blast
  obtain b2 where "blob_on_handler_event env peer (TB_RecvProgressed k []) b1 = Returns b2"
    "hm_get (bb_ongoing_recv b2) = (hm_get (bb_ongoing_recv b1))(k := None)"
    "bb_out_events b2 = bb_out_events b1 @
        [if or_bytes_received v1 = or_bytes_total v1
         then Out_RecvProgressed (or_local_recv_id v1) (or_bytes_total v1) (or_bytes_total v1)
         else Out_Error (UnexpectedEOF (or_local_recv_id v1))]"
    using progress_recv_eof [OF run(2), of env peer] by blast
  with run show ?thesis
    by (intro exI [of _ b1] exI [of _ v1] exI [of _ b2]) simp
qed

definition demo_recv :: ongoing_file_recv where
  "demo_recv = \<lparr>or_remote_send_id = 0, or_local_recv_id = 3, or_remote = peer_b, or_bytes_received = 0,
     or_bytes_total = 5, or_file_handle = \<lparr>f_data = [], f_pos = 0\<rparr>, or_file_path = ''/d/g/f'',
     or_last_active = 100\<rparr>"

definition demo_receiver :: blob_behaviour where
  "demo_receiver = (blob_behaviour_new blob_config_default 0)\<lparr>bb_ongoing_recv := [(0, demo_recv)], bb_recv_counter := 4\<rparr>"

lemma demo_receiver_facts:
  "hm_get (bb_ongoing_recv demo_receiver) 0 = Some demo_recv" "bb_out_events demo_receiver = []"
  "or_file_handle demo_recv = \<lparr>f_data = [], f_pos = 0\<rparr>" "or_bytes_received demo_recv = 0"
  "or_bytes_total demo_recv = 5" "or_local_recv_id demo_recv = 3" "writes_progress demo_env"
  by (simp_all add: demo_receiver_def demo_recv_def hm_get_def demo_defs writes_progress_def)

theorem blob_recv_appends_chunks_witness:
  "\<exists>b1 v1 b2. blob_run_events (recv_chunks 0 [(demo_env, peer_b), (demo_env, peer_b)] [[1, 2, 3], [4, 5]]) demo_receiver
      = Returns b1
    \<and> hm_get (bb_ongoing_recv b1) 0 = Some v1 \<and> f_data (or_file_handle v1) = [1, 2, 3, 4, 5]
    \<and> blob_on_handler_event demo_env peer_b (TB_RecvProgressed 0 []) b1 = Returns b2
    \<and> bb_out_events b2 = [Out_RecvProgressed 3 5 5]"
  using blob_recv_appends_chunks [OF demo_receiver_facts(1), of "[(demo_env, peer_b), (demo_env, peer_b)]"
      "[[1, 2, 3], [4, 5]]" demo_env peer_b]
  by (auto simp: demo_receiver_facts)

text \<open>
  C4. A transfer copies the file. The sender's pending file is accepted and every chunk it then
  queues is delivered, in order, to the receiver, whose file is empty and who was told the length
  of the file: the sender forgets the send, the receiver's file has become the sender's file, and
  the final empty chunk makes the receiver report completion and forget the receive.
\<close>

theorem blob_transfer_copies_file:
  assumes "blob_inv b" and "hm_get (bb_pending_send b) k = Some p" and "f_pos (ps_file p) = 0"
    and "\<exists>h. be_read env = Inr h" and "\<forall>(env, _, _) \<in> set xs. \<exists>h. be_read env = Inr h"
    and "length (f_data (ps_file p)) \<le> length xs"
    and "hm_get (bb_ongoing_recv r) k = Some v" and "or_file_handle v = \<lparr>f_data = [], f_pos = 0\<rparr>"
    and "or_bytes_received v = 0" and "or_bytes_total v = of_nat (length (f_data (ps_file p)))"
  shows "\<exists>b' cs. blob_run_events ((env, peer, TB_FileSendAccepted k) # send_acks k xs) b = Returns b'
    \<and> hm_get (bb_ongoing_send b') k = None \<and> chunk_data k b' = chunk_data k b @ cs @ [[]]
    \<and> (\<forall>ys env' peer'. length ys = length cs \<and> (\<forall>(e, _) \<in> set ys. writes_progress e) \<longrightarrow>
        (\<exists>r1 v1 r2. blob_run_events (recv_chunks k ys cs) r = Returns r1
          \<and> hm_get (bb_ongoing_recv r1) k = Some v1
          \<and> f_data (or_file_handle v1) = f_data (ps_file p)
          \<and> blob_on_handler_event env' peer' (TB_RecvProgressed k []) r1 = Returns r2
          \<and> hm_get (bb_ongoing_recv r2) k = None
          \<and> bb_out_events r2 = bb_out_events r
              @ [Out_RecvProgressed (or_local_recv_id v) (or_bytes_total v) (or_bytes_total v)]))"
proof -
  obtain b' cs where sent: "blob_run_events ((env, peer, TB_FileSendAccepted k) # send_acks k xs) b = Returns b'"
    "hm_get (bb_ongoing_send b') k = None" "chunk_data k b' = chunk_data k b @ cs @ [[]]"
    "concat cs = f_data (ps_file p)" "[] \<notin> set cs"
    using accepted_streams [OF assms(1-6), of peer] by blast
  have "\<exists>r1 v1 r2. blob_run_events (recv_chunks k ys cs) r = Returns r1
      \<and> hm_get (bb_ongoing_recv r1) k = Some v1 \<and> f_data (or_file_handle v1) = f_data (ps_file p)
      \<and> blob_on_handler_event env' peer' (TB_RecvProgressed k []) r1 = Returns r2
      \<and> hm_get (bb_ongoing_recv r2) k = None
      \<and> bb_out_events r2 = bb_out_events r
          @ [Out_RecvProgressed (or_local_recv_id v) (or_bytes_total v) (or_bytes_total v)]"
    if ys: "length ys = length cs" "\<forall>(e, _) \<in> set ys. writes_progress e" for ys env' peer'
  proof -
    obtain r1 v1 where r1: "blob_run_events (recv_chunks k ys cs) r = Returns r1"
      "hm_get (bb_ongoing_recv r1) k = Some v1" "f_data (or_file_handle v1) = f_data (ps_file p)"
      "or_bytes_received v1 = or_bytes_total v1" "or_bytes_total v1 = or_bytes_total v"
      "or_local_recv_id v1 = or_local_recv_id v" "bb_out_events r1 = bb_out_events r"
      using run_recv_chunks [OF assms(7) ys(1,2) sent(5)] assms(8-10) sent(4) by auto
    obtain r2 where "blob_on_handler_event env' peer' (TB_RecvProgressed k []) r1 = Returns r2"
      "hm_get (bb_ongoing_recv r2) k = None"
      "bb_out_events r2 = bb_out_events r1
          @ [Out_RecvProgressed (or_local_recv_id v1) (or_bytes_total v1) (or_bytes_total v1)]"
      using progress_recv_eof [OF r1(2), of env' peer'] r1(4) by auto
    with r1 show ?thesis
      by (intro exI [of _ r1] exI [of _ v1] exI [of _ r2]) simp
  qed
  with sent(1-3) show ?thesis
    by blast
qed

theorem blob_transfer_copies_file_witness:
  "\<exists>b' cs. blob_run_events ((demo_env, peer_a, TB_FileSendAccepted 0)
      # send_acks 0 (replicate 5 (demo_env, peer_a, 1))) demo_sending = Returns b'
    \<and> chunk_data 0 b' = cs @ [[]]
    \<and> (\<exists>r1 v1. blob_run_events (recv_chunks 0 (replicate (length cs) (demo_env, peer_b)) cs) demo_receiver = Returns r1
         \<and> hm_get (bb_ongoing_recv r1) 0 = Some v1
         \<and> f_data (or_file_handle v1) = [10, 20, 30, 40, 50])"
proof -
  have wr: "\<forall>(e, _) \<in> set (replicate n (demo_env, peer_b)). writes_progress e" for n
    by (simp add: demo_receiver_facts)
  obtain b' cs where "blob_run_events ((demo_env, peer_a, TB_FileSendAccepted 0)
      # send_acks 0 (replicate 5 (demo_env, peer_a, 1))) demo_sending = Returns b'"
    "chunk_data 0 b' = cs @ [[]]"
    and recv: "\<And>ys. length ys = length cs \<Longrightarrow> \<forall>(e, _) \<in> set ys. writes_progress e \<Longrightarrow>
      \<exists>r1 v1. blob_run_events (recv_chunks 0 ys cs) demo_receiver = Returns r1
        \<and> hm_get (bb_ongoing_recv r1) 0 = Some v1 \<and> f_data (or_file_handle v1) = [10, 20, 30, 40, 50]"
    using blob_transfer_copies_file [OF demo_inv demo_sending_facts(1), of demo_env
        "replicate 5 (demo_env, peer_a, 1)" demo_receiver demo_recv peer_a]
    by (simp add: demo_sending_facts demo_receiver_facts) blast
  then show ?thesis
    using recv [OF length_replicate wr] by blast
qed

end
