(* ===== verification/Owl_Wire.thy ===== *)
theory Owl_Wire
  imports Owl_Prelude
begin

text \<open>
  The byte level. First the standard library's big-endian integer codecs and an asynchronous
  stream; then the two framing protocols of the workspace:
  \<^item> \<open>owlnest-blob/src/protocol.rs\<close> (\<open>send\<close>, \<open>recv\<close>, \<open>cursor_read\<close>): an 8-byte header whose
    first byte is the message type and whose other seven are the length;
  \<^item> \<open>owlnest-prelude/src/lib.rs\<close>, module \<open>universal\<close> (\<open>send\<close>, \<open>recv\<close>): an 8-byte length.
  In both the receiver answers with the \<open>xxh3_128\<close> digest of what it read and the sender compares
  it with the digest of what it sent. \<open>xxh3_128\<close> is foreign code and a parameter.

  A stream holds the bytes that will arrive before the remote closes its side, the bytes written
  so far and the number of I/O calls made. The environment decides for every call whether it fails
  and how many bytes a \<open>read\<close> or \<open>write\<close> moves. A \<open>read\<close> at the end of the input returns 0,
  which is how a loop of the source can fail to end; the two loops are partial functions whose
  value is \<open>None\<close> when they do not return.
\<close>

section \<open>Big-endian integers\<close>

fun be_bytes :: "nat \<Rightarrow> nat \<Rightarrow> u8 list" where
  "be_bytes 0 x = []"
| "be_bytes (Suc n) x = be_bytes n (x div 256) @ [of_nat (x mod 256)]"

definition from_be :: "u8 list \<Rightarrow> nat" where
  "from_be bs = foldl (\<lambda>a b. a * 256 + unat b) 0 bs"

definition u64_to_be_bytes :: "u64 \<Rightarrow> u8 list" where
  "u64_to_be_bytes w = be_bytes 8 (unat w)"

definition u64_from_be_bytes :: "u8 list \<Rightarrow> u64" where
  "u64_from_be_bytes bs = of_nat (from_be bs)"

definition u128_to_be_bytes :: "u128 \<Rightarrow> u8 list" where
  "u128_to_be_bytes w = be_bytes 16 (unat w)"

definition u128_from_be_bytes :: "u8 list \<Rightarrow> u128" where
  "u128_from_be_bytes bs = of_nat (from_be bs)"

lemma length_be_bytes [simp]: "length (be_bytes n x) = n"
  by (induction n arbitrary: x) auto

lemma from_be_Nil [simp]: "from_be [] = 0"
  by (simp add: from_be_def)

lemma from_be_snoc [simp]: "from_be (bs @ [b]) = from_be bs * 256 + unat b"
  by (simp add: from_be_def)

lemma from_be_zero_Cons [simp]: "from_be (0 # bs) = from_be bs"
  by (simp add: from_be_def)

lemma unat_of_nat_u8: "x < 256 \<Longrightarrow> unat (of_nat x :: u8) = x"
  by (simp add: unat_of_nat take_bit_eq_mod)

lemma from_be_be_bytes: "from_be (be_bytes n x) = x mod 256 ^ n"
proof (induction n arbitrary: x)
  case 0
  then show ?case by simp
next
  case (Suc n)
  have "from_be (be_bytes (Suc n) x) = (x div 256 mod 256 ^ n) * 256 + x mod 256"
    using Suc.IH by (simp add: unat_of_nat_u8)
  also have "\<dots> = x mod (256 * 256 ^ n)"
    by (simp add: mod_mult2_eq)
  finally show ?case by simp
qed

lemma be_bytes_hd:
  "be_bytes (Suc n) x = of_nat (x div 256 ^ n mod 256) # be_bytes n x"
proof (induction n arbitrary: x)
  case 0
  then show ?case by simp
next
  case (Suc n)
  have "be_bytes (Suc (Suc n)) x = be_bytes (Suc n) (x div 256) @ [of_nat (x mod 256)]"
    by simp
  also have "be_bytes (Suc n) (x div 256) = of_nat (x div 256 div 256 ^ n mod 256) # be_bytes n (x div 256)"
    by (rule Suc.IH)
  finally show ?case
    by (simp add: div_mult2_eq)
qed

lemma u128_be_roundtrip [simp]: "u128_from_be_bytes (u128_to_be_bytes w) = w"
proof -
  have "unat w < 2 ^ LENGTH(128)"
    by (rule unsigned_less)
  then show ?thesis
    by (simp add: u128_from_be_bytes_def u128_to_be_bytes_def from_be_be_bytes)
qed

lemma u64_be_roundtrip [simp]: "u64_from_be_bytes (u64_to_be_bytes w) = w"
proof -
  have "unat w < 2 ^ LENGTH(64)"
    by (rule unsigned_less)
  then show ?thesis
    by (simp add: u64_from_be_bytes_def u64_to_be_bytes_def from_be_be_bytes)
qed

lemma length_u64_to_be_bytes [simp]: "length (u64_to_be_bytes w) = 8"
  by (simp add: u64_to_be_bytes_def)

lemma length_u128_to_be_bytes [simp]: "length (u128_to_be_bytes w) = 16"
  by (simp add: u128_to_be_bytes_def)

lemma unat_of_nat_u64: "n < 2 ^ 64 \<Longrightarrow> unat (of_nat n :: u64) = n"
  by (simp add: unat_of_nat take_bit_eq_mod)

section \<open>Asynchronous streams\<close>

record wire =
  w_rx :: "u8 list"
  w_tx :: "u8 list"
  w_ops :: nat

record io_env =
  io_fault :: "nat \<Rightarrow> io_error option"
  io_chunk :: "nat \<Rightarrow> nat"
  io_elapsed :: duration

definition tick :: "wire \<Rightarrow> wire" where
  "tick w = w\<lparr>w_ops := Suc (w_ops w)\<rparr>"

definition write_all :: "io_env \<Rightarrow> u8 list \<Rightarrow> wire \<Rightarrow> io_error + wire" where
  "write_all env bs w =
     (case io_fault env (w_ops w) of
        Some e \<Rightarrow> Inl e
      | None \<Rightarrow> Inr (tick (w\<lparr>w_tx := w_tx w @ bs\<rparr>)))"

definition flush :: "io_env \<Rightarrow> wire \<Rightarrow> io_error + wire" where
  "flush env w =
     (case io_fault env (w_ops w) of Some e \<Rightarrow> Inl e | None \<Rightarrow> Inr (tick w))"

definition read_exact :: "io_env \<Rightarrow> nat \<Rightarrow> wire \<Rightarrow> io_error + u8 list \<times> wire" where
  "read_exact env n w =
     (case io_fault env (w_ops w) of
        Some e \<Rightarrow> Inl e
      | None \<Rightarrow>
          if n \<le> length (w_rx w)
          then Inr (take n (w_rx w), tick (w\<lparr>w_rx := drop n (w_rx w)\<rparr>))
          else Inl (IoError UnexpectedEof [Lit ''unexpected end of file'']))"

text \<open>A \<open>read\<close> into a buffer of \<open>cap\<close> bytes moves at least one byte unless the input has ended.\<close>

definition read_len :: "io_env \<Rightarrow> nat \<Rightarrow> wire \<Rightarrow> nat" where
  "read_len env cap w = min (max 1 (io_chunk env (w_ops w))) (min cap (length (w_rx w)))"

definition read_some :: "io_env \<Rightarrow> nat \<Rightarrow> wire \<Rightarrow> io_error + u8 list \<times> wire" where
  "read_some env cap w =
     (case io_fault env (w_ops w) of
        Some e \<Rightarrow> Inl e
      | None \<Rightarrow>
          (let n = read_len env cap w
           in Inr (take n (w_rx w), tick (w\<lparr>w_rx := drop n (w_rx w)\<rparr>))))"

text \<open>A \<open>write\<close> accepts a prefix, possibly empty, of the buffer.\<close>

definition write_some :: "io_env \<Rightarrow> u8 list \<Rightarrow> wire \<Rightarrow> io_error + nat \<times> wire" where
  "write_some env bs w =
     (case io_fault env (w_ops w) of
        Some e \<Rightarrow> Inl e
      | None \<Rightarrow>
          (let n = min (io_chunk env (w_ops w)) (length bs)
           in Inr (n, tick (w\<lparr>w_tx := w_tx w @ take n bs\<rparr>))))"

definition fault_free :: "io_env \<Rightarrow> bool" where
  "fault_free env \<longleftrightarrow> io_fault env = (\<lambda>_. None)"

definition never_stalls :: "io_env \<Rightarrow> bool" where
  "never_stalls env \<longleftrightarrow> (\<forall>i. 0 < io_chunk env i)"

lemma read_len_le: "read_len env cap w \<le> cap" "read_len env cap w \<le> length (w_rx w)"
  by (simp_all add: read_len_def)

lemma read_len_pos: "0 < cap \<Longrightarrow> w_rx w \<noteq> [] \<Longrightarrow> 0 < read_len env cap w"
  by (simp add: read_len_def)

lemma read_some_ok:
  "fault_free env \<Longrightarrow> read_some env cap w =
     Inr (take (read_len env cap w) (w_rx w),
          w\<lparr>w_rx := drop (read_len env cap w) (w_rx w), w_ops := Suc (w_ops w)\<rparr>)"
  by (simp add: read_some_def fault_free_def tick_def Let_def)

lemmas stream_defs = write_all_def flush_def read_exact_def read_some_def write_some_def tick_def

section \<open>The blob protocol\<close>

definition BLOB_PROTOCOL_NAME :: string where
  "BLOB_PROTOCOL_NAME = ''/owlnest/blob/0.0.1''"

definition blob_header :: "nat \<Rightarrow> u8 \<Rightarrow> u8 list" where
  "blob_header len message_type = (u64_to_be_bytes (of_nat len)) [0 := message_type]"

definition blob_send ::
  "(u8 list \<Rightarrow> u128) \<Rightarrow> io_env \<Rightarrow> wire \<Rightarrow> u8 list \<Rightarrow> u8 \<Rightarrow> io_error + wire \<times> duration" where
  "blob_send xxh3_128 env stream buf message_type =
     (let verf = xxh3_128 buf in
      case write_all env (blob_header (length buf) message_type) stream of
        Inl e \<Rightarrow> Inl e
      | Inr s1 \<Rightarrow>
      (case write_all env buf s1 of
        Inl e \<Rightarrow> Inl e
      | Inr s2 \<Rightarrow>
      (case flush env s2 of
        Inl e \<Rightarrow> Inl e
      | Inr s3 \<Rightarrow>
      (case read_exact env 16 s3 of
        Inl e \<Rightarrow> Inl e
      | Inr (verf_read, s4) \<Rightarrow>
          if u128_from_be_bytes verf_read = verf then Inr (s4, io_elapsed env)
          else Inl (IoError InvalidData
                 [Lit ''Verifier mismatch! expected '', ArgBytes (u128_to_be_bytes verf),
                  Lit '', got '', ArgBytes verf_read])))))"

text \<open>
  The reading loop of \<open>cursor_read\<close>: \<open>buf[cursor..]\<close> has \<open>len - cursor\<close> bytes of room.
\<close>

partial_function (option) blob_read_loop ::
  "io_env \<Rightarrow> wire \<Rightarrow> u8 list \<Rightarrow> nat \<Rightarrow> (io_error + u8 list \<times> wire) option" where
  "blob_read_loop env s acc len =
     (if length acc \<ge> len then Some (Inr (acc, s))
      else case read_some env (len - length acc) s of
        Inl e \<Rightarrow> Some (Inl e)
      | Inr (bs, s') \<Rightarrow> blob_read_loop env s' (acc @ bs) len)"

definition blob_cursor_read ::
  "(u8 list \<Rightarrow> u128) \<Rightarrow> io_env \<Rightarrow> wire \<Rightarrow> nat \<Rightarrow> (io_error + u8 list \<times> wire) option" where
  "blob_cursor_read xxh3_128 env s len =
     (case blob_read_loop env s [] len of
        None \<Rightarrow> None
      | Some (Inl e) \<Rightarrow> Some (Inl e)
      | Some (Inr (buf, s1)) \<Rightarrow>
          (case write_all env (u128_to_be_bytes (xxh3_128 buf)) s1 of
             Inl e \<Rightarrow> Some (Inl e)
           | Inr s2 \<Rightarrow>
               (case flush env s2 of
                  Inl e \<Rightarrow> Some (Inl e)
                | Inr s3 \<Rightarrow> Some (Inr (buf, s3)))))"

definition blob_recv ::
  "(u8 list \<Rightarrow> u128) \<Rightarrow> io_env \<Rightarrow> wire \<Rightarrow> (io_error + wire \<times> u8 list \<times> u8) option" where
  "blob_recv xxh3_128 env stream =
     (case read_exact env 8 stream of
        Inl e \<Rightarrow> Some (Inl e)
      | Inr (header, s1) \<Rightarrow>
          (let message_type = header ! 0;
               bytes_to_read = u64_from_be_bytes (header[0 := 0])
           in if bytes_to_read > push_bit 18 1 + 16
              then Some (Inl (IoError ConnectionAborted [Lit ''Stream too long. Terminating.'']))
              else (case blob_cursor_read xxh3_128 env s1 (unat bytes_to_read) of
                      None \<Rightarrow> None
                    | Some (Inl e) \<Rightarrow> Some (Inl e)
                    | Some (Inr (buf, s2)) \<Rightarrow> Some (Inr (s2, buf, message_type)))))"

section \<open>The universal protocol\<close>

partial_function (option) universal_write_loop ::
  "io_env \<Rightarrow> wire \<Rightarrow> u8 list \<Rightarrow> nat \<Rightarrow> (io_error + wire) option" where
  "universal_write_loop env s msg_bytes cursor =
     (case write_some env (drop cursor msg_bytes) s of
        Inl e \<Rightarrow> Some (Inl e)
      | Inr (n, s') \<Rightarrow>
          if cursor + n \<ge> length msg_bytes then Some (Inr s')
          else universal_write_loop env s' msg_bytes (cursor + n))"

definition universal_send ::
  "(u8 list \<Rightarrow> u128) \<Rightarrow> io_env \<Rightarrow> wire \<Rightarrow> u8 list \<Rightarrow> (io_error + wire \<times> duration) option" where
  "universal_send xxh3_128 env stream msg_bytes =
     (let verf = xxh3_128 msg_bytes in
      case write_all env (u64_to_be_bytes (of_nat (length msg_bytes))) stream of
        Inl e \<Rightarrow> Some (Inl e)
      | Inr s1 \<Rightarrow>
      (case flush env s1 of
        Inl e \<Rightarrow> Some (Inl e)
      | Inr s2 \<Rightarrow>
      (case universal_write_loop env s2 msg_bytes 0 of
        None \<Rightarrow> None
      | Some (Inl e) \<Rightarrow> Some (Inl e)
      | Some (Inr s3) \<Rightarrow>
      (case flush env s3 of
        Inl e \<Rightarrow> Some (Inl e)
      | Inr s4 \<Rightarrow>
      (case read_exact env 16 s4 of
        Inl e \<Rightarrow> Some (Inl e)
      | Inr (verf_read, s5) \<Rightarrow>
          if verf_read = u128_to_be_bytes verf then Some (Inr (s5, io_elapsed env))
          else Some (Inl (IoError InvalidData [Lit ''Verifier mismatch''])))))))"

text \<open>The loop of \<open>recv\<close> reads up to 2048 bytes at a time and tests the length after each read.\<close>

partial_function (option) universal_read_loop ::
  "io_env \<Rightarrow> wire \<Rightarrow> u8 list \<Rightarrow> nat \<Rightarrow> (io_error + u8 list \<times> wire) option" where
  "universal_read_loop env s msg_buf bytes_to_read =
     (case read_some env 2048 s of
        Inl e \<Rightarrow> Some (Inl e)
      | Inr (bs, s') \<Rightarrow>
          if length (msg_buf @ bs) \<ge> bytes_to_read then Some (Inr (msg_buf @ bs, s'))
          else universal_read_loop env s' (msg_buf @ bs) bytes_to_read)"

definition universal_recv ::
  "(u8 list \<Rightarrow> u128) \<Rightarrow> io_env \<Rightarrow> wire \<Rightarrow> (io_error + wire \<times> u8 list) option" where
  "universal_recv xxh3_128 env stream =
     (case read_exact env 8 stream of
        Inl e \<Rightarrow> Some (Inl e)
      | Inr (buf, s1) \<Rightarrow>
          (let bytes_to_read = unat (u64_from_be_bytes buf)
           in if bytes_to_read div 1024 > 128
              then Some (Inl (IoError ConnectionAborted [Lit ''Stream too long. Terminating.'']))
              else (case universal_read_loop env s1 [] bytes_to_read of
                      None \<Rightarrow> None
                    | Some (Inl e) \<Rightarrow> Some (Inl e)
                    | Some (Inr (msg_buf, s2)) \<Rightarrow>
                        (case write_all env (u128_to_be_bytes (xxh3_128 msg_buf)) s2 of
                           Inl e \<Rightarrow> Some (Inl e)
                         | Inr s3 \<Rightarrow>
                             (case flush env s3 of
                                Inl e \<Rightarrow> Some (Inl e)
                              | Inr s4 \<Rightarrow> Some (Inr (s4, msg_buf)))))))"

section \<open>Futures of the universal protocol\<close>

text \<open>
  What the environment of a handler poll decides: the time, and for the boxed \<open>recv\<close> and \<open>send\<close>
  futures whether their I/O is complete. A future yields the result of its call when it is, and
  \<open>Pending\<close> otherwise. A call that does not return is \<open>Pending\<close> for ever here (the futures of the blob
  protocol, in \<open>Blob_Handler\<close>, tell the two apart).
\<close>

record handler_io =
  hio_instant :: nat
  hio_inbound :: "io_env option"
  hio_outbound :: "nat \<Rightarrow> io_env option"

definition poll_universal_recv ::
  "(u8 list \<Rightarrow> u128) \<Rightarrow> io_env option \<Rightarrow> wire \<Rightarrow> (io_error + wire \<times> u8 list) poll" where
  "poll_universal_recv H ans stream =
     (case ans of
        None \<Rightarrow> Pending
      | Some env \<Rightarrow> (case universal_recv H env stream of None \<Rightarrow> Pending | Some r \<Rightarrow> Ready r))"

definition poll_universal_send ::
  "(u8 list \<Rightarrow> u128) \<Rightarrow> io_env option \<Rightarrow> wire \<Rightarrow> u8 list \<Rightarrow> (io_error + wire \<times> duration) poll" where
  "poll_universal_send H ans stream bytes =
     (case ans of
        None \<Rightarrow> Pending
      | Some env \<Rightarrow> (case universal_send H env stream bytes of None \<Rightarrow> Pending | Some r \<Rightarrow> Ready r))"

section \<open>Lemmas on streams and loops\<close>

lemma blob_header_eq:
  "len < 2 ^ 56 \<Longrightarrow> blob_header len mt = mt # be_bytes 7 len"
  unfolding blob_header_def u64_to_be_bytes_def
  by (simp add: unat_of_nat_u64 be_bytes_hd [of 7, simplified])

lemma length_blob_header [simp]: "length (blob_header len mt) = 8"
  by (simp add: blob_header_def)

lemma blob_header_decode:
  assumes "len < 2 ^ 56"
  shows "blob_header len mt ! 0 = mt"
    and "u64_from_be_bytes ((blob_header len mt)[0 := 0]) = of_nat len"
  using assms
  by (simp_all add: blob_header_eq u64_from_be_bytes_def from_be_be_bytes)

text \<open>Enough input: the loop returns exactly the first \<open>len\<close> bytes and leaves the rest.\<close>

lemma blob_read_loop_enough:
  assumes "fault_free env" and "length acc \<le> len" and "len \<le> length acc + length (w_rx s)"
  shows "\<exists>n. blob_read_loop env s acc len =
    Some (Inr (acc @ take (len - length acc) (w_rx s),
      s\<lparr>w_rx := drop (len - length acc) (w_rx s), w_ops := n\<rparr>))"
  using assms
proof (induction "len - length acc" arbitrary: s acc rule: less_induct)
  case less
  show ?case
  proof (cases "len \<le> length acc")
    case True
    with less.prems show ?thesis
      by (intro exI [of _ "w_ops s"]) (simp add: blob_read_loop.simps)
  next
    case False
    define n where "n = read_len env (len - length acc) s"
    define s' where "s' = s\<lparr>w_rx := drop n (w_rx s), w_ops := Suc (w_ops s)\<rparr>"
    have ne: "w_rx s \<noteq> []" "0 < len - length acc"
      using False less.prems by auto
    have n: "0 < n" "n \<le> len - length acc" "n \<le> length (w_rx s)"
      using ne read_len_le [of env "len - length acc" s] read_len_pos [of "len - length acc" s env]
      by (simp_all add: n_def)
    have unfold1: "blob_read_loop env s acc len = blob_read_loop env s' (acc @ take n (w_rx s)) len"
      using False less.prems(1)
      by (subst blob_read_loop.simps) (simp add: read_some_ok n_def s'_def)
    have "\<exists>k. blob_read_loop env s' (acc @ take n (w_rx s)) len =
      Some (Inr ((acc @ take n (w_rx s)) @ take (len - length (acc @ take n (w_rx s))) (w_rx s'),
        s'\<lparr>w_rx := drop (len - length (acc @ take n (w_rx s))) (w_rx s'), w_ops := k\<rparr>))"
      using n False less.prems
      by (intro less.hyps) (auto simp: s'_def)
    moreover have "take n (w_rx s) @ take (len - length acc - n) (drop n (w_rx s)) = take (len - length acc) (w_rx s)"
      using n by (metis le_add_diff_inverse take_add)
    ultimately show ?thesis
      using n unfolding unfold1 by (auto simp: s'_def)
  qed
qed

text \<open>Too little input: after the end every read returns no byte and the loop never returns.\<close>

lemma blob_read_loop_short:
  assumes ff: "fault_free env" and short: "length acc + length (w_rx s) < len"
  shows "blob_read_loop env s acc len = None"
proof (cases "blob_read_loop env s acc len")
  case (Some r)
  have "fault_free env \<and> length acc + length (w_rx s) < len \<longrightarrow> False"
  proof (rule blob_read_loop.raw_induct
      [where P = "\<lambda>env s acc len r. fault_free env \<and> length acc + length (w_rx s) < len \<longrightarrow> False", OF _ Some])
    fix f env s acc len r
    assume IH: "\<And>env s acc len r. f env s acc len = Some r \<Longrightarrow>
        fault_free env \<and> length acc + length (w_rx s) < len \<longrightarrow> False"
      and eq: "(if len \<le> length acc then Some (Inr (acc, s))
        else case read_some env (len - length acc) s of Inl e \<Rightarrow> Some (Inl e)
             | Inr (bs, s') \<Rightarrow> f env s' (acc @ bs) len) = Some r"
    show "fault_free env \<and> length acc + length (w_rx s) < len \<longrightarrow> False"
    proof
      assume h: "fault_free env \<and> length acc + length (w_rx s) < len"
      define n where "n = read_len env (len - length acc) s"
      define s' where "s' = s\<lparr>w_rx := drop n (w_rx s), w_ops := Suc (w_ops s)\<rparr>"
      have "f env s' (acc @ take n (w_rx s)) len = Some r"
        using eq h by (simp add: read_some_ok n_def s'_def)
      then show False
        using IH [of env s' "acc @ take n (w_rx s)" len r] h read_len_le [of env "len - length acc" s]
        by (auto simp: s'_def n_def)
    qed
  qed
  with ff short show ?thesis by simp
qed simp


lemma blob_read_loop_sound:
  assumes "blob_read_loop env s acc len = Some (Inr (buf, s'))" and "length acc \<le> len"
  shows "length buf = len \<and> w_tx s' = w_tx s \<and> acc @ w_rx s = buf @ w_rx s'"
proof -
  have "length acc \<le> len \<longrightarrow> (\<forall>b t. Inr (buf, s') = (Inr (b, t) :: io_error + u8 list \<times> wire) \<longrightarrow>
      length b = len \<and> w_tx t = w_tx s \<and> acc @ w_rx s = b @ w_rx t)"
  proof (rule blob_read_loop.raw_induct [where P = "\<lambda>env s acc len r. length acc \<le> len \<longrightarrow>
      (\<forall>b t. r = Inr (b, t) \<longrightarrow> length b = len \<and> w_tx t = w_tx s \<and> acc @ w_rx s = b @ w_rx t)", OF _ assms(1)])
    fix f env s acc len r
    assume IH: "\<And>env s acc len r. f env s acc len = Some r \<Longrightarrow> length acc \<le> len \<longrightarrow>
        (\<forall>b t. r = Inr (b, t) \<longrightarrow> length b = len \<and> w_tx t = w_tx s \<and> acc @ w_rx s = b @ w_rx t)"
      and eq: "(if len \<le> length acc then Some (Inr (acc, s))
        else case read_some env (len - length acc) s of Inl e \<Rightarrow> Some (Inl e)
             | Inr (bs, s') \<Rightarrow> f env s' (acc @ bs) len) = Some r"
    show "length acc \<le> len \<longrightarrow>
        (\<forall>b t. r = Inr (b, t) \<longrightarrow> length b = len \<and> w_tx t = w_tx s \<and> acc @ w_rx s = b @ w_rx t)"
    proof (intro impI allI)
      fix b t assume le: "length acc \<le> len" and r: "r = Inr (b, t)"
      show "length b = len \<and> w_tx t = w_tx s \<and> acc @ w_rx s = b @ w_rx t"
      proof (cases "len \<le> length acc")
        case True
        with eq le r show ?thesis by simp
      next
        case False
        define n where "n = read_len env (len - length acc) s"
        define u where "u = tick (s\<lparr>w_rx := drop n (w_rx s)\<rparr>)"
        have "f env u (acc @ take n (w_rx s)) len = Some r"
          using eq False r
          by (auto simp: read_some_def n_def u_def Let_def split: option.splits)
        from IH [OF this] r read_len_le [of env "len - length acc" s] False show ?thesis
          by (auto simp: u_def n_def tick_def)
      qed
    qed
  qed
  with assms(2) show ?thesis by simp
qed

lemma blob_send_ok:
  assumes "fault_free env" and "w_rx s = ack @ back" and "length ack = 16"
  shows "blob_send H env s buf mt =
    (if u128_from_be_bytes ack = H buf
     then Inr (\<lparr>w_rx = back, w_tx = w_tx s @ blob_header (length buf) mt @ buf, w_ops = w_ops s + 4\<rparr>,
               io_elapsed env)
     else Inl (IoError InvalidData
            [Lit ''Verifier mismatch! expected '', ArgBytes (u128_to_be_bytes (H buf)),
             Lit '', got '', ArgBytes ack]))"
  using assms
  by (simp add: blob_send_def stream_defs fault_free_def Let_def)

lemma blob_cursor_read_ok:
  assumes "fault_free env" and "w_rx r = buf @ rest"
  shows "\<exists>n. blob_cursor_read H env r (length buf) =
    Some (Inr (buf, r\<lparr>w_rx := rest, w_tx := w_tx r @ u128_to_be_bytes (H buf), w_ops := n\<rparr>))"
proof -
  obtain n where "blob_read_loop env r [] (length buf) = Some (Inr (buf, r\<lparr>w_rx := rest, w_ops := n\<rparr>))"
    using blob_read_loop_enough [OF assms(1), of "[]" "length buf" r] assms(2) by auto
  with assms show ?thesis
    by (auto simp: blob_cursor_read_def write_all_def flush_def fault_free_def tick_def
        intro!: exI [of _ "Suc (Suc n)"])
qed

text \<open>What \<open>recv\<close> does with a well-formed header, by the length it announces.\<close>

lemma blob_recv_header:
  assumes "fault_free env" and "n < 2 ^ 56" and "w_rx r = blob_header n mt @ rest"
  shows "blob_recv H env r =
    (if n > 2 ^ 18 + 16
     then Some (Inl (IoError ConnectionAborted [Lit ''Stream too long. Terminating.'']))
     else case blob_cursor_read H env (tick (r\<lparr>w_rx := rest\<rparr>)) n of
            None \<Rightarrow> None
          | Some (Inl e) \<Rightarrow> Some (Inl e)
          | Some (Inr (buf, s2)) \<Rightarrow> Some (Inr (s2, buf, mt)))"
proof -
  have hd: "read_exact env 8 r = Inr (blob_header n mt, tick (r\<lparr>w_rx := rest\<rparr>))"
    using assms by (simp add: read_exact_def fault_free_def)
  have bound: "(of_nat n :: u64) > push_bit 18 1 + 16 \<longleftrightarrow> n > 2 ^ 18 + 16"
    using assms(2) by (simp add: word_less_nat_alt unat_of_nat_u64 push_bit_eq_mult)
  show ?thesis
    using assms(2) bound unat_of_nat_u64 [of n] blob_header_decode [OF assms(2), of mt]
    by (simp add: blob_recv_def hd Let_def split: option.splits sum.splits)
qed

lemma blob_recv_frame:
  assumes ff: "fault_free env" and len: "length buf \<le> 2 ^ 18 + 16"
    and rx: "w_rx r = blob_header (length buf) mt @ buf @ rest"
  shows "\<exists>r'. blob_recv H env r = Some (Inr (r', buf, mt)) \<and> w_rx r' = rest
    \<and> w_tx r' = w_tx r @ u128_to_be_bytes (H buf)"
proof -
  have "length buf < 2 ^ 56" and "\<not> length buf > 2 ^ 18 + 16"
    using len by simp_all
  moreover obtain n where "blob_cursor_read H env (tick (r\<lparr>w_rx := buf @ rest\<rparr>)) (length buf) =
      Some (Inr (buf, (tick (r\<lparr>w_rx := buf @ rest\<rparr>))\<lparr>w_rx := rest,
        w_tx := w_tx r @ u128_to_be_bytes (H buf), w_ops := n\<rparr>))"
    using blob_cursor_read_ok [OF ff, of "tick (r\<lparr>w_rx := buf @ rest\<rparr>)" buf rest H] by (auto simp: tick_def)
  ultimately show ?thesis
    by (simp only: blob_recv_header [OF ff _ rx]) simp
qed

lemma universal_write_loop_all:
  assumes "fault_free env" and "never_stalls env" and "cursor \<le> length msg"
  shows "\<exists>n. universal_write_loop env s msg cursor =
    Some (Inr (s\<lparr>w_tx := w_tx s @ drop cursor msg, w_ops := n\<rparr>))"
  using assms
proof (induction "length msg - cursor" arbitrary: s cursor rule: less_induct)
  case less
  define k where "k = min (io_chunk env (w_ops s)) (length msg - cursor)"
  define s' where "s' = s\<lparr>w_tx := w_tx s @ take k (drop cursor msg), w_ops := Suc (w_ops s)\<rparr>"
  have unfold1: "universal_write_loop env s msg cursor =
      (if cursor + k \<ge> length msg then Some (Inr s') else universal_write_loop env s' msg (cursor + k))"
    using less.prems(1,3)
    by (subst universal_write_loop.simps) (simp add: write_some_def fault_free_def tick_def Let_def k_def s'_def)
  show ?case
  proof (cases "cursor + k \<ge> length msg")
    case True
    then show ?thesis
      by (auto simp: unfold1 s'_def intro!: exI [of _ "Suc (w_ops s)"])
  next
    case False
    have k: "0 < k" "k \<le> length msg - cursor"
      using False less.prems(2) by (auto simp: k_def never_stalls_def)
    then obtain n where "universal_write_loop env s' msg (cursor + k) =
        Some (Inr (s'\<lparr>w_tx := w_tx s' @ drop (cursor + k) msg, w_ops := n\<rparr>))"
      using less.hyps [of "cursor + k" s'] less.prems False by force
    moreover have "take k (drop cursor msg) @ drop (cursor + k) msg = drop cursor msg"
      by (metis add.commute append_take_drop_id drop_drop)
    ultimately show ?thesis
      using False by (auto simp: unfold1 s'_def)
  qed
qed

lemma universal_read_loop_all:
  assumes "fault_free env" and "length acc + length (w_rx s) = n" and "w_rx s \<noteq> []"
  shows "\<exists>k. universal_read_loop env s acc n = Some (Inr (acc @ w_rx s, s\<lparr>w_rx := [], w_ops := k\<rparr>))"
  using assms
proof (induction "length (w_rx s)" arbitrary: s acc rule: less_induct)
  case less
  define j where "j = read_len env 2048 s"
  define s' where "s' = s\<lparr>w_rx := drop j (w_rx s), w_ops := Suc (w_ops s)\<rparr>"
  have j: "0 < j" "j \<le> length (w_rx s)"
    using less.prems(3) read_len_pos [of 2048 s env] read_len_le [of env 2048 s] by (simp_all add: j_def)
  have unfold1: "universal_read_loop env s acc n =
      (if length (acc @ take j (w_rx s)) \<ge> n then Some (Inr (acc @ take j (w_rx s), s'))
       else universal_read_loop env s' (acc @ take j (w_rx s)) n)"
    using less.prems(1) by (subst universal_read_loop.simps) (simp add: read_some_ok j_def s'_def)
  show ?case
  proof (cases "j = length (w_rx s)")
    case True
    then show ?thesis
      using less.prems(2) by (auto simp: unfold1 s'_def intro!: exI [of _ "Suc (w_ops s)"])
  next
    case False
    then obtain k where "universal_read_loop env s' (acc @ take j (w_rx s)) n =
        Some (Inr ((acc @ take j (w_rx s)) @ w_rx s', s'\<lparr>w_rx := [], w_ops := k\<rparr>))"
      using less.hyps [of s' "acc @ take j (w_rx s)"] less.prems j by (auto simp: s'_def)
    then show ?thesis
      using False j less.prems(2) by (auto simp: unfold1 s'_def)
  qed
qed

lemma universal_send_ok:
  assumes "fault_free env" and "never_stalls env" and "w_rx s = ack @ back" and "length ack = 16"
  shows "\<exists>n. universal_send H env s msg =
    (if ack = u128_to_be_bytes (H msg)
     then Some (Inr (\<lparr>w_rx = back, w_tx = w_tx s @ u64_to_be_bytes (of_nat (length msg)) @ msg, w_ops = n\<rparr>,
                     io_elapsed env))
     else Some (Inl (IoError InvalidData [Lit ''Verifier mismatch''])))"
proof -
  define s2 where "s2 = s\<lparr>w_tx := w_tx s @ u64_to_be_bytes (of_nat (length msg)), w_ops := w_ops s + 2\<rparr>"
  obtain k where "universal_write_loop env s2 msg 0 = Some (Inr (s2\<lparr>w_tx := w_tx s2 @ msg, w_ops := k\<rparr>))"
    using universal_write_loop_all [OF assms(1,2), of 0 msg s2] by auto
  with assms show ?thesis
    by (cases s) (auto simp: universal_send_def stream_defs fault_free_def Let_def s2_def)
qed

lemma universal_recv_frame:
  assumes ff: "fault_free env" and small: "length msg div 1024 \<le> 128" and ne: "msg \<noteq> []"
    and rx: "w_rx r = u64_to_be_bytes (of_nat (length msg)) @ msg"
  shows "\<exists>r'. universal_recv H env r = Some (Inr (r', msg)) \<and> w_rx r' = []
    \<and> w_tx r' = w_tx r @ u128_to_be_bytes (H msg)"
proof -
  define r1 where "r1 = tick (r\<lparr>w_rx := msg\<rparr>)"
  have hd: "read_exact env 8 r = Inr (u64_to_be_bytes (of_nat (length msg)), r1)"
    using ff rx by (simp add: read_exact_def fault_free_def r1_def)
  have len: "unat (of_nat (length msg) :: u64) = length msg"
  proof (rule unat_of_nat_u64)
    have "length msg < 129 * 1024"
      using small div_less_iff_less_mult [of 1024 "length msg" 129] by simp
    then show "length msg < 2 ^ 64"
      by simp
  qed
  obtain k where loop: "universal_read_loop env r1 [] (length msg) = Some (Inr (msg, r1\<lparr>w_rx := [], w_ops := k\<rparr>))"
    using universal_read_loop_all [OF ff, of "[]" r1 "length msg"] ne by (auto simp: r1_def tick_def)
  show ?thesis
    using ff small
    by (simp add: universal_recv_def hd len loop write_all_def flush_def fault_free_def)
       (simp add: tick_def r1_def)
qed

section \<open>Acknowledged links\<close>

text \<open>
  Both protocols give their clients the same thing: a link on which a message is delivered and
  acknowledged before the next one is sent. \<open>exchange\<close> moves one message across: the receiver
  reads the frame, the sender reads the acknowledgement.
\<close>

definition link_exchange ::
  "(io_env \<Rightarrow> wire \<Rightarrow> 'm \<Rightarrow> (io_error + wire) option)
    \<Rightarrow> (io_env \<Rightarrow> wire \<Rightarrow> (io_error + wire \<times> 'm) option) \<Rightarrow> ('m \<Rightarrow> u8 list) \<Rightarrow> ('m \<Rightarrow> u8 list)
    \<Rightarrow> io_env \<Rightarrow> io_env \<Rightarrow> wire \<times> wire \<Rightarrow> 'm \<Rightarrow> ('m \<times> wire \<times> wire) option" where
  "link_exchange send recv frame ack es er sr m =
     (case recv er ((snd sr)\<lparr>w_rx := frame m\<rparr>) of
        Some (Inr (r', m')) \<Rightarrow>
          (case send es ((fst sr)\<lparr>w_rx := ack m'\<rparr>) m of
             Some (Inr s') \<Rightarrow> Some (m', s', r')
           | _ \<Rightarrow> None)
      | _ \<Rightarrow> None)"

fun link_session ::
  "(wire \<times> wire \<Rightarrow> 'm \<Rightarrow> ('m \<times> wire \<times> wire) option) \<Rightarrow> wire \<times> wire \<Rightarrow> 'm list
    \<Rightarrow> ('m list \<times> wire \<times> wire) option" where
  "link_session ex sr [] = Some ([], sr)"
| "link_session ex sr (m # ms) =
     (case ex sr m of
        None \<Rightarrow> None
      | Some (m', sr') \<Rightarrow>
          (case link_session ex sr' ms of None \<Rightarrow> None | Some (out, sr'') \<Rightarrow> Some (m' # out, sr'')))"

locale acknowledged_link =
  fixes send :: "io_env \<Rightarrow> wire \<Rightarrow> 'm \<Rightarrow> (io_error + wire) option"
    and recv :: "io_env \<Rightarrow> wire \<Rightarrow> (io_error + wire \<times> 'm) option"
    and frame :: "'m \<Rightarrow> u8 list"
    and ack :: "'m \<Rightarrow> u8 list"
    and sendable :: "'m \<Rightarrow> bool"
  assumes recv_frame: "fault_free e \<Longrightarrow> sendable m \<Longrightarrow> w_rx r = frame m \<Longrightarrow>
      \<exists>r'. recv e r = Some (Inr (r', m)) \<and> w_rx r' = [] \<and> w_tx r' = w_tx r @ ack m"
    and send_frame: "fault_free e \<Longrightarrow> never_stalls e \<Longrightarrow> sendable m \<Longrightarrow> w_rx s = ack m \<Longrightarrow>
      \<exists>s'. send e s m = Some (Inr s') \<and> w_rx s' = [] \<and> w_tx s' = w_tx s @ frame m"
begin

lemma exchange_one:
  assumes "fault_free es" and "never_stalls es" and "fault_free er" and "sendable m"
  shows "\<exists>s' r'. link_exchange send recv frame ack es er (s, r) m = Some (m, s', r')
    \<and> w_tx s' = w_tx s @ frame m \<and> w_tx r' = w_tx r @ ack m"
proof -
  obtain r' where r': "recv er (r\<lparr>w_rx := frame m\<rparr>) = Some (Inr (r', m))" "w_tx r' = w_tx r @ ack m"
    using recv_frame [OF assms(3,4), of "r\<lparr>w_rx := frame m\<rparr>"] by auto
  obtain s' where "send es (s\<lparr>w_rx := ack m\<rparr>) m = Some (Inr s')" "w_tx s' = w_tx s @ frame m"
    using send_frame [OF assms(1,2,4), of "s\<lparr>w_rx := ack m\<rparr>"] by auto
  with r' show ?thesis
    by (simp add: link_exchange_def)
qed

lemma session_delivers:
  assumes "fault_free es" and "never_stalls es" and "fault_free er" and "list_all sendable ms"
  shows "\<exists>s' r'. link_session (link_exchange send recv frame ack es er) (s, r) ms = Some (ms, s', r')
    \<and> w_tx s' = w_tx s @ concat (map frame ms) \<and> w_tx r' = w_tx r @ concat (map ack ms)"
  using assms(4)
proof (induction ms arbitrary: s r)
  case (Cons m ms)
  obtain s1 r1 where one: "link_exchange send recv frame ack es er (s, r) m = Some (m, s1, r1)"
    "w_tx s1 = w_tx s @ frame m" "w_tx r1 = w_tx r @ ack m"
    using exchange_one [OF assms(1-3), of m s r] Cons.prems by auto
  moreover obtain s2 r2 where "link_session (link_exchange send recv frame ack es er) (s1, r1) ms = Some (ms, s2, r2)"
    "w_tx s2 = w_tx s1 @ concat (map frame ms)" "w_tx r2 = w_tx r1 @ concat (map ack ms)"
    using Cons.IH [of s1 r1] Cons.prems by auto
  ultimately show ?case
    by simp
qed simp

end

definition blob_link_send ::
  "(u8 list \<Rightarrow> u128) \<Rightarrow> io_env \<Rightarrow> wire \<Rightarrow> u8 list \<times> u8 \<Rightarrow> (io_error + wire) option" where
  "blob_link_send H env s m = Some (map_sum id fst (blob_send H env s (fst m) (snd m)))"

definition universal_link_send ::
  "(u8 list \<Rightarrow> u128) \<Rightarrow> io_env \<Rightarrow> wire \<Rightarrow> u8 list \<Rightarrow> (io_error + wire) option" where
  "universal_link_send H env s m = map_option (map_sum id fst) (universal_send H env s m)"

interpretation blob_link: acknowledged_link
  "blob_link_send H" "blob_recv H" "\<lambda>m. blob_header (length (fst m)) (snd m) @ fst m"
  "\<lambda>m. u128_to_be_bytes (H (fst m))" "\<lambda>m. length (fst m) \<le> 2 ^ 18 + 16"
  for H :: "u8 list \<Rightarrow> u128"
proof (unfold_locales, goal_cases)
  case (1 e m r)
  then show ?case
    using blob_recv_frame [of e "fst m" r "snd m" "[]" H] by simp
next
  case (2 e m s)
  then show ?case
    using blob_send_ok [of e s "u128_to_be_bytes (H (fst m))" "[]" H "fst m" "snd m"]
    by (simp add: blob_link_send_def)
qed

interpretation universal_link: acknowledged_link
  "universal_link_send H" "universal_recv H" "\<lambda>m. u64_to_be_bytes (of_nat (length m)) @ m"
  "\<lambda>m. u128_to_be_bytes (H m)" "\<lambda>m. m \<noteq> [] \<and> length m div 1024 \<le> 128"
  for H :: "u8 list \<Rightarrow> u128"
proof (unfold_locales, goal_cases)
  case (1 e m r)
  then show ?case
    using universal_recv_frame [of e m r H] by simp
next
  case (2 e m s)
  then show ?case
    using universal_send_ok [of e s "u128_to_be_bytes (H m)" "[]" H m]
    by (auto simp: universal_link_send_def)
qed

section \<open>Properties of the framing protocols\<close>

text \<open>An environment without faults in which every call moves at most two bytes.\<close>

definition quiet_env :: io_env where
  "quiet_env = \<lparr>io_fault = \<lambda>_. None, io_chunk = \<lambda>_. 2, io_elapsed = 7\<rparr>"

lemma quiet_env_ok [simp]: "fault_free quiet_env" "never_stalls quiet_env" "io_elapsed quiet_env = 7"
  by (simp_all add: quiet_env_def fault_free_def never_stalls_def)

definition quiet_io :: handler_io where
  "quiet_io = \<lparr>hio_instant = 0, hio_inbound = Some quiet_env, hio_outbound = \<lambda>_. Some quiet_env\<rparr>"

text \<open>
  C25. The blob protocol is a faithful exchange. For a payload of at most \<open>2^18 + 16\<close> bytes and any
  message type, on streams without faults: \<open>recv\<close>, given the bytes that \<open>send\<close> writes, returns
  exactly that payload and type, leaves what follows unread and writes the digest; and \<open>send\<close>,
  given the bytes that \<open>recv\<close> writes, succeeds. This holds however the transport splits the reads.
\<close>

theorem blob_exchange_ok:
  assumes "fault_free es" and "fault_free er" and "length buf \<le> 2 ^ 18 + 16"
    and "w_rx r = blob_header (length buf) mt @ buf @ rest"
    and "w_rx s = u128_to_be_bytes (H buf) @ back"
  shows "\<exists>r' s'. blob_recv H er r = Some (Inr (r', buf, mt))
    \<and> w_rx r' = rest \<and> w_tx r' = w_tx r @ u128_to_be_bytes (H buf)
    \<and> blob_send H es s buf mt = Inr (s', io_elapsed es)
    \<and> w_rx s' = back \<and> w_tx s' = w_tx s @ blob_header (length buf) mt @ buf"
  using blob_recv_frame [OF assms(2-4), of H] blob_send_ok [OF assms(1,5), of H buf mt] by auto

theorem blob_exchange_ok_witness:
  "\<exists>r' s'. blob_recv (\<lambda>b. of_nat (length b)) quiet_env
      \<lparr>w_rx = blob_header 3 4 @ [1, 2, 3] @ [9], w_tx = [], w_ops = 0\<rparr> = Some (Inr (r', [1, 2, 3], 4))
    \<and> w_rx r' = [9] \<and> w_tx r' = u128_to_be_bytes 3
    \<and> blob_send (\<lambda>b. of_nat (length b)) quiet_env
      \<lparr>w_rx = u128_to_be_bytes 3, w_tx = [], w_ops = 0\<rparr> [1, 2, 3] 4 = Inr (s', 7)
    \<and> w_rx s' = [] \<and> w_tx s' = blob_header 3 4 @ [1, 2, 3]"
  using blob_exchange_ok [of quiet_env quiet_env "[1, 2, 3]"
      "\<lparr>w_rx = blob_header 3 4 @ [1, 2, 3] @ [9], w_tx = [], w_ops = 0\<rparr>" 4 "[9]"
      "\<lparr>w_rx = u128_to_be_bytes 3, w_tx = [], w_ops = 0\<rparr>" "\<lambda>b. of_nat (length b)" "[]"]
  by (simp add: numeral_3_eq_3)

text \<open>
  C27. What \<open>recv\<close> of the blob protocol returns, whatever arrives and whatever faults occur: the
  payload is at most \<open>2^18 + 16\<close> bytes long, it is exactly the bytes that follow the 8-byte header,
  nothing beyond it is consumed, and the digest of exactly these bytes was written back.
\<close>

theorem blob_recv_sound:
  assumes "blob_recv H env r = Some (Inr (r', buf, mt))"
  shows "length buf \<le> 2 ^ 18 + 16 \<and> w_tx r' = w_tx r @ u128_to_be_bytes (H buf)
    \<and> (\<exists>header. length header = 8 \<and> header ! 0 = mt
        \<and> length buf = unat (u64_from_be_bytes (header[0 := 0]))
        \<and> w_rx r = header @ buf @ w_rx r')"
proof -
  obtain header s1 where hd: "read_exact env 8 r = Inr (header, s1)"
    using assms by (auto simp: blob_recv_def split: sum.splits)
  then have s1: "w_rx r = header @ w_rx s1" "length header = 8" "w_tx s1 = w_tx r"
    by (auto simp: read_exact_def tick_def split: option.splits if_splits)
  define n where "n = unat (u64_from_be_bytes (header[0 := 0]))"
  have small: "n \<le> 2 ^ 18 + 16" and mt: "mt = header ! 0"
    and rd: "blob_cursor_read H env s1 n = Some (Inr (buf, r'))"
    using assms
    by (auto simp: blob_recv_def hd n_def Let_def not_less word_le_nat_alt push_bit_eq_mult
        split: if_splits option.splits sum.splits)
  obtain s2 where loop: "blob_read_loop env s1 [] n = Some (Inr (buf, s2))"
    and ack: "w_tx r' = w_tx s2 @ u128_to_be_bytes (H buf)" "w_rx r' = w_rx s2"
    using rd by (auto simp: blob_cursor_read_def write_all_def flush_def tick_def
        split: option.splits sum.splits)
  from blob_read_loop_sound [OF loop] s1 ack small mt show ?thesis
    by (intro conjI exI [of _ header]) (simp_all add: n_def)
qed

theorem blob_recv_sound_witness:
  "\<exists>r'. blob_recv (\<lambda>b. of_nat (length b)) quiet_env
      \<lparr>w_rx = blob_header 2 1 @ [5, 6], w_tx = [], w_ops = 0\<rparr> = Some (Inr (r', [5, 6], 1))
    \<and> length [5, 6 :: u8] \<le> 2 ^ 18 + 16 \<and> w_tx r' = u128_to_be_bytes 2"
proof -
  obtain r' where r': "blob_recv (\<lambda>b. of_nat (length b)) quiet_env
      \<lparr>w_rx = blob_header 2 1 @ [5, 6], w_tx = [], w_ops = 0\<rparr> = Some (Inr (r', [5, 6], 1))"
    using blob_recv_frame [of quiet_env "[5, 6]"
        "\<lparr>w_rx = blob_header 2 1 @ [5, 6], w_tx = [], w_ops = 0\<rparr>" 1 "[]" "\<lambda>b. of_nat (length b)"]
    by (auto simp: numeral_2_eq_2)
  with blob_recv_sound [OF r'] show ?thesis
    by simp
qed

text \<open>
  C28. Refusal and non-return of \<open>recv\<close>. A header that announces more than \<open>2^18 + 16\<close> bytes is
  refused with \<open>ConnectionAborted\<close>. A header that announces an admissible length on a stream that
  ends before that many bytes arrived makes the loop of \<open>cursor_read\<close> spin on empty reads: \<open>recv\<close>
  never returns, not even with an error.
\<close>

theorem blob_recv_refuses_or_spins:
  assumes "fault_free env" and "n < 2 ^ 56" and "w_rx r = blob_header n mt @ rest"
  shows "(n > 2 ^ 18 + 16 \<longrightarrow> blob_recv H env r =
            Some (Inl (IoError ConnectionAborted [Lit ''Stream too long. Terminating.''])))
    \<and> (n \<le> 2 ^ 18 + 16 \<and> length rest < n \<longrightarrow> blob_recv H env r = None)"
  using blob_read_loop_short [OF assms(1), of "[]" "tick (r\<lparr>w_rx := rest\<rparr>)" n]
  by (simp add: blob_recv_header [OF assms] blob_cursor_read_def tick_def)

theorem blob_recv_refuses_or_spins_witness:
  "blob_recv (\<lambda>_. 0) quiet_env \<lparr>w_rx = blob_header 300000 4 @ [], w_tx = [], w_ops = 0\<rparr> =
     Some (Inl (IoError ConnectionAborted [Lit ''Stream too long. Terminating.'']))
   \<and> blob_recv (\<lambda>_. 0) quiet_env \<lparr>w_rx = blob_header 3 4 @ [1], w_tx = [], w_ops = 0\<rparr> = None"
  using blob_recv_refuses_or_spins [of quiet_env 300000
      "\<lparr>w_rx = blob_header 300000 4 @ [], w_tx = [], w_ops = 0\<rparr>" 4 "[]" "\<lambda>_. 0"]
    blob_recv_refuses_or_spins [of quiet_env 3
      "\<lparr>w_rx = blob_header 3 4 @ [1], w_tx = [], w_ops = 0\<rparr>" 4 "[1]" "\<lambda>_. 0"]
  by simp

text \<open>
  C29. The universal protocol (messaging, advertise) delivers every sequence of messages in order:
  non-empty messages with \<open>length / 1024 \<le> 128\<close>, sent one after the other over streams without
  faults whose writes always make progress, arrive as they were sent, and the sender's output is
  the concatenation of the frames.
\<close>

theorem universal_session_delivers:
  assumes "fault_free es" and "never_stalls es" and "fault_free er"
    and "list_all (\<lambda>m. m \<noteq> [] \<and> length m div 1024 \<le> 128) ms"
  shows "\<exists>s' r'. link_session (link_exchange (universal_link_send H) (universal_recv H)
        (\<lambda>m. u64_to_be_bytes (of_nat (length m)) @ m) (\<lambda>m. u128_to_be_bytes (H m)) es er) (s, r) ms
      = Some (ms, s', r')
    \<and> w_tx s' = w_tx s @ concat (map (\<lambda>m. u64_to_be_bytes (of_nat (length m)) @ m) ms)
    \<and> w_tx r' = w_tx r @ concat (map (\<lambda>m. u128_to_be_bytes (H m)) ms)"
  using assms by (rule universal_link.session_delivers)

theorem universal_session_delivers_witness:
  "\<exists>s' r'. link_session (link_exchange (universal_link_send (\<lambda>_. 0)) (universal_recv (\<lambda>_. 0))
        (\<lambda>m. u64_to_be_bytes (of_nat (length m)) @ m) (\<lambda>m. u128_to_be_bytes 0) quiet_env quiet_env)
        (\<lparr>w_rx = [], w_tx = [], w_ops = 0\<rparr>, \<lparr>w_rx = [], w_tx = [], w_ops = 0\<rparr>) [[1, 2, 3], [4]]
      = Some ([[1, 2, 3], [4]], s', r')"
  using universal_session_delivers [of quiet_env quiet_env "[[1, 2, 3], [4]]" "\<lambda>_. 0"
      "\<lparr>w_rx = [], w_tx = [], w_ops = 0\<rparr>" "\<lparr>w_rx = [], w_tx = [], w_ops = 0\<rparr>"]
  by auto

end
