(* ===== verification/Blob_Handler.thy ===== *)
theory Blob_Handler
  imports Owl_Wire Blob_Types
begin

text \<open>
  \<open>owlnest-blob/src/handler.rs\<close>: the connection handler of the blob protocol. It turns commands of
  the behaviour into framed messages on an outbound stream, one at a time, and frames read from an
  inbound stream into events for the behaviour.

  The message structs are generated by \<open>prost\<close> from \<open>messages.proto\<close>; their binary encoding is
  foreign code and enters as the parameter \<open>codec\<close>. A boxed future is the call it will make
  (\<open>recv\<close> on a stream, or \<open>send\<close> of bytes on a stream); polling it yields the result of that call
  when the environment says that its I/O is complete, and \<open>Pending\<close> otherwise, in particular for
  ever when the call does not return.
\<close>

section \<open>Messages\<close>

datatype blob_message =
    MsgIncomingFile u64 u64 string
  | MsgAcceptFile u64
  | MsgCancelSend u64
  | MsgCancelRecv u64
  | MsgFileChunk u64 "u8 list"

datatype blob_message_kind = KIncomingFile | KAcceptFile | KCancelSend | KCancelRecv | KFileChunk

fun blob_kind :: "blob_message \<Rightarrow> blob_message_kind" where
  "blob_kind (MsgIncomingFile _ _ _) = KIncomingFile"
| "blob_kind (MsgAcceptFile _) = KAcceptFile"
| "blob_kind (MsgCancelSend _) = KCancelSend"
| "blob_kind (MsgCancelRecv _) = KCancelRecv"
| "blob_kind (MsgFileChunk _ _) = KFileChunk"

record blob_codec =
  encode_to_vec :: "blob_message \<Rightarrow> u8 list"
  decode_msg :: "blob_message_kind \<Rightarrow> u8 list \<Rightarrow> string + blob_message"

text \<open>The documented behaviour of \<open>prost\<close>: decoding what was encoded gives the message back.\<close>

definition prost_roundtrip :: "blob_codec \<Rightarrow> bool" where
  "prost_roundtrip codec \<longleftrightarrow> (\<forall>m. decode_msg codec (blob_kind m) (encode_to_vec codec m) = Inr m)"

text \<open>The overhead of a chunk: two tags, a varint of at most 10 bytes and one of at most 4.\<close>

definition prost_chunk_overhead :: "blob_codec \<Rightarrow> bool" where
  "prost_chunk_overhead codec \<longleftrightarrow>
     (\<forall>i bytes. length bytes \<le> 2 ^ 18 \<longrightarrow> length (encode_to_vec codec (MsgFileChunk i bytes)) \<le> length bytes + 16)"

fun blob_event_of_message :: "blob_message \<Rightarrow> blob_to_behaviour" where
  "blob_event_of_message (MsgIncomingFile remote_send_id bytes_total file_name) =
     TB_IncomingFile file_name remote_send_id bytes_total"
| "blob_event_of_message (MsgAcceptFile local_send_id) = TB_FileSendAccepted local_send_id"
| "blob_event_of_message (MsgCancelSend remote_send_id) = TB_RemoteCancelRecv remote_send_id"
| "blob_event_of_message (MsgCancelRecv local_send_id) = TB_RemoteCancelSend local_send_id"
| "blob_event_of_message (MsgFileChunk remote_send_id content) = TB_RecvProgressed remote_send_id content"

section \<open>State\<close>

datatype blob_send_type =
    ControlSend "callback option" u64
  | ControlRecv "callback option"
  | CancelMsg
  | FileSend u64

datatype blob_outbound_state =
    OpenStream
  | Idle wire
  | Busy wire "u8 list" u8 blob_send_type nat

record blob_handler =
  bh_state :: handler_state
  bh_pending_in_events :: "blob_from_behaviour list"
  bh_pending_out_events :: "blob_to_behaviour list"
  bh_timeout :: duration
  bh_inbound :: "wire option"
  bh_outbound :: "blob_outbound_state option"

type_synonym blob_poll_result = "(string, blob_to_behaviour) connection_handler_event"

definition blob_handler_new :: "blob_config \<Rightarrow> blob_handler" where
  "blob_handler_new config =
     \<lparr>bh_state = Active, bh_pending_in_events = [], bh_pending_out_events = [],
      bh_timeout = unat (bc_timeout_ms config), bh_inbound = None, bh_outbound = None\<rparr>"

definition blob_listen_protocol :: "blob_handler \<Rightarrow> string" where
  "blob_listen_protocol h = BLOB_PROTOCOL_NAME"

definition blob_on_behaviour_event :: "blob_from_behaviour \<Rightarrow> blob_handler \<Rightarrow> blob_handler" where
  "blob_on_behaviour_event ev h =
     h\<lparr>bh_pending_in_events := push_back (bh_pending_in_events h) ev\<rparr>"

definition blob_keep_alive :: "blob_handler \<Rightarrow> bool" where
  "blob_keep_alive h = True"

definition blob_push_out :: "blob_to_behaviour \<Rightarrow> blob_handler \<Rightarrow> blob_handler" where
  "blob_push_out ev h = h\<lparr>bh_pending_out_events := push_back (bh_pending_out_events h) ev\<rparr>"

section \<open>Futures\<close>

text \<open>
  The loop of \<open>recv\<close> spins once the stream has ended in the middle of a frame: every read is answered
  at once with no bytes, so the poll itself never returns.
\<close>

definition poll_recv ::
  "(u8 list \<Rightarrow> u128) \<Rightarrow> io_env option \<Rightarrow> wire \<Rightarrow> (io_error + wire \<times> u8 list \<times> u8) poll outcome" where
  "poll_recv H ans stream =
     (case ans of
        None \<Rightarrow> Returns Pending
      | Some env \<Rightarrow> (case blob_recv H env stream of None \<Rightarrow> Hangs | Some r \<Rightarrow> Returns (Ready r)))"

definition poll_send ::
  "(u8 list \<Rightarrow> u128) \<Rightarrow> io_env option \<Rightarrow> wire \<Rightarrow> u8 list \<Rightarrow> u8 \<Rightarrow> (io_error + wire \<times> duration) poll" where
  "poll_send H ans stream bytes message_type =
     (case ans of
        None \<Rightarrow> Pending
      | Some env \<Rightarrow> Ready (blob_send H env stream bytes message_type))"

section \<open>Inbound\<close>

definition blob_decode_event :: "blob_codec \<Rightarrow> u8 list \<Rightarrow> u8 \<Rightarrow> string + blob_to_behaviour" where
  "blob_decode_event codec bytes message_type =
     (if message_type = 0 then map_sum id blob_event_of_message (decode_msg codec KIncomingFile bytes)
      else if message_type = 1 then map_sum id blob_event_of_message (decode_msg codec KAcceptFile bytes)
      else if message_type = 2 then map_sum id blob_event_of_message (decode_msg codec KCancelSend bytes)
      else if message_type = 3 then map_sum id blob_event_of_message (decode_msg codec KCancelRecv bytes)
      else if message_type = 4 then map_sum id blob_event_of_message (decode_msg codec KFileChunk bytes)
      else Inr (TB_Error (IO [Lit ''Unexpected header value''])))"

definition blob_on_message ::
  "blob_codec \<Rightarrow> u8 list \<Rightarrow> u8 \<Rightarrow> blob_handler \<Rightarrow> (string + unit) \<times> blob_handler" where
  "blob_on_message codec bytes message_type h =
     (case blob_decode_event codec bytes message_type of
        Inl e \<Rightarrow> (Inl e, h)
      | Inr ev \<Rightarrow> (Inr (), blob_push_out ev h))"

definition blob_poll_inbound ::
  "(u8 list \<Rightarrow> u128) \<Rightarrow> blob_codec \<Rightarrow> handler_io \<Rightarrow> blob_handler
    \<Rightarrow> (blob_poll_result option \<times> blob_handler) outcome" where
  "blob_poll_inbound H codec env h =
     (case bh_inbound h of
        None \<Rightarrow> Returns (None, h)
      | Some stream \<Rightarrow>
          and_then (poll_recv H (hio_inbound env) stream) (\<lambda>r.
           case r of
             Pending \<Rightarrow> Returns (None, h)
           | Ready (Inl e) \<Rightarrow>
               Returns (Some (NotifyBehaviour (TB_Error (IO (Lit ''IO Error: '' # io_debug e)))), h\<lparr>bh_inbound := None\<rparr>)
           | Ready (Inr (stream', bytes, message_type)) \<Rightarrow>
               (case blob_on_message codec bytes message_type (h\<lparr>bh_inbound := Some stream'\<rparr>) of
                  (Inr _, h') \<Rightarrow> Returns (None, h')
                | (Inl e, h') \<Rightarrow>
                    if length bytes < 20 then Panics
                    else Returns (None, blob_push_out (TB_Error (UnrecognizedMessage
                           [Lit ''Unrecognized message('', ArgNat (unat message_type), Lit ''): '', ArgPad 20 e,
                            Lit '', '', ArgUtf8Lossy (take 20 bytes)])) h'))))"

section \<open>Outbound\<close>

fun blob_outgoing :: "blob_from_behaviour \<Rightarrow> blob_message \<times> blob_send_type \<times> u8" where
  "blob_outgoing (FB_NewFileSend file_name local_send_id cb bytes_total) =
     (MsgIncomingFile local_send_id bytes_total file_name, ControlSend (Some cb) local_send_id, 0)"
| "blob_outgoing (FB_AcceptFile remote_send_id cb) =
     (MsgAcceptFile remote_send_id, ControlRecv (Some cb), 1)"
| "blob_outgoing (FB_LocalCancelSend local_send_id) = (MsgCancelSend local_send_id, CancelMsg, 2)"
| "blob_outgoing (FB_LocalCancelRecv remote_send_id) = (MsgCancelRecv remote_send_id, CancelMsg, 3)"
| "blob_outgoing (FB_FileChunk local_send_id bytes_to_send) =
     (MsgFileChunk local_send_id bytes_to_send, FileSend local_send_id, 4)"

definition blob_progress_outbound ::
  "blob_codec \<Rightarrow> nat \<Rightarrow> blob_from_behaviour \<Rightarrow> wire \<Rightarrow> blob_handler \<Rightarrow> blob_handler" where
  "blob_progress_outbound codec instant ev stream h =
     (case blob_outgoing ev of
        (message, send_type, message_type) \<Rightarrow>
          h\<lparr>bh_outbound := Some (Busy stream (encode_to_vec codec message) message_type send_type
                                   (instant + bh_timeout h))\<rparr>)"

text \<open>The \<open>match send_type\<close> after a message went through; \<open>callback.unwrap()\<close> may panic.\<close>

fun blob_sent :: "blob_send_type \<Rightarrow> duration \<Rightarrow> blob_handler \<Rightarrow> (blob_handler \<times> blob_reply list) outcome" where
  "blob_sent (ControlSend cb local_send_id) rtt h =
     (case cb of
        None \<Rightarrow> Panics
      | Some c \<Rightarrow> Returns (blob_push_out (TB_FileSendPending local_send_id) h, [ReplySend c (Inr local_send_id)]))"
| "blob_sent (ControlRecv cb) rtt h =
     (case cb of None \<Rightarrow> Panics | Some c \<Rightarrow> Returns (h, [ReplyRecv c (Inr rtt)]))"
| "blob_sent (FileSend i) rtt h = Returns (blob_push_out (TB_SendProgressed i rtt) h, [])"
| "blob_sent CancelMsg rtt h = Returns (h, [])"

definition blob_outbound_weight :: "blob_handler \<Rightarrow> nat" where
  "blob_outbound_weight h =
     2 * length (bh_pending_in_events h)
       + (case bh_outbound h of Some (Busy _ _ _ _ _) \<Rightarrow> 1 | _ \<Rightarrow> 0)"

lemma blob_sent_fields:
  "blob_sent st rtt h = Returns (h', rs) \<Longrightarrow>
     bh_pending_in_events h' = bh_pending_in_events h \<and> bh_outbound h' = bh_outbound h
     \<and> bh_timeout h' = bh_timeout h \<and> bh_state h' = bh_state h \<and> bh_inbound h' = bh_inbound h"
  by (cases "(st, rtt, h)" rule: blob_sent.cases) (auto simp: blob_push_out_def split: option.splits)

text \<open>\<open>poll_outbound\<close>: the loop; the counter numbers the polls of send tasks.\<close>

function blob_poll_outbound ::
  "(u8 list \<Rightarrow> u128) \<Rightarrow> blob_codec \<Rightarrow> handler_io \<Rightarrow> nat \<Rightarrow> blob_handler
    \<Rightarrow> (blob_poll_result option \<times> blob_handler \<times> blob_reply list) outcome" where
  "blob_poll_outbound H codec env i h =
     (case bh_outbound h of
        Some (Busy stream bytes message_type send_type deadline) \<Rightarrow>
          (case poll_send H (hio_outbound env i) stream bytes message_type of
             Pending \<Rightarrow>
               if hio_instant env \<ge> deadline
               then Returns (Some (NotifyBehaviour (TB_Error (IO [Lit ''Timeout'']))), h\<lparr>bh_outbound := None\<rparr>, [])
               else Returns (None, h, [])
           | Ready (Inl e) \<Rightarrow>
               Returns (Some (NotifyBehaviour (TB_Error (IO (io_display e)))), h\<lparr>bh_outbound := None\<rparr>, [])
           | Ready (Inr (stream', rtt)) \<Rightarrow>
               and_then (blob_sent send_type rtt (h\<lparr>bh_outbound := Some (Idle stream')\<rparr>)) (\<lambda>(h', rs).
                 and_then (blob_poll_outbound H codec env (Suc i) h') (\<lambda>(r, h'', rs').
                   Returns (r, h'', rs @ rs'))))
      | Some (Idle stream) \<Rightarrow>
          (case bh_pending_in_events h of
             [] \<Rightarrow> Returns (None, h, [])
           | ev # evs \<Rightarrow>
               blob_poll_outbound H codec env i
                 (blob_progress_outbound codec (hio_instant env) ev stream (h\<lparr>bh_pending_in_events := evs\<rparr>)))
      | Some OpenStream \<Rightarrow> Returns (None, h, [])
      | None \<Rightarrow> Returns (Some (OutboundSubstreamRequest BLOB_PROTOCOL_NAME), h\<lparr>bh_outbound := Some OpenStream\<rparr>, []))"
  by pat_completeness auto
termination
  by (relation "measure (\<lambda>(_, _, _, _, h). blob_outbound_weight h)")
    (auto simp: blob_progress_outbound_def blob_outbound_weight_def dest!: blob_sent_fields split: prod.splits)

declare blob_poll_outbound.simps [simp del]

definition blob_handler_poll ::
  "(u8 list \<Rightarrow> u128) \<Rightarrow> blob_codec \<Rightarrow> handler_io \<Rightarrow> blob_handler
    \<Rightarrow> (blob_poll_result poll \<times> blob_handler \<times> blob_reply list) outcome" where
  "blob_handler_poll H codec env h =
     (case bh_state h of
        Inactive True \<Rightarrow> Returns (Pending, h, [])
      | Inactive False \<Rightarrow> Returns (Ready (NotifyBehaviour TB_Unsupported), h\<lparr>bh_state := Inactive True\<rparr>, [])
      | Active \<Rightarrow>
          and_then (blob_poll_inbound H codec env h) (\<lambda>r.
            case r of
              (Some ev, h1) \<Rightarrow> Returns (Ready ev, h1, [])
            | (None, h1) \<Rightarrow>
                and_then (blob_poll_outbound H codec env 0 h1) (\<lambda>r.
                  case r of
                    (Some ev, h2, rs) \<Rightarrow> Returns (Ready ev, h2, rs)
                  | (None, h2, rs) \<Rightarrow>
                      (case pop_front (bh_pending_out_events h2) of
                         Some (ev, q) \<Rightarrow> Returns (Ready (NotifyBehaviour ev), h2\<lparr>bh_pending_out_events := q\<rparr>, rs)
                       | None \<Rightarrow> Returns (Pending, h2, rs)))))"

section \<open>Connection events\<close>

definition blob_on_dial_upgrade_error :: "stream_upgrade_error \<Rightarrow> blob_handler \<Rightarrow> blob_handler" where
  "blob_on_dial_upgrade_error e h =
     (let h' = h\<lparr>bh_outbound := None\<rparr>
      in case e of
           NegotiationFailed \<Rightarrow> h'\<lparr>bh_state := Inactive False\<rparr>
         | _ \<Rightarrow> h')"

fun blob_on_connection_event :: "wire connection_event \<Rightarrow> blob_handler \<Rightarrow> blob_handler outcome" where
  "blob_on_connection_event (FullyNegotiatedInbound stream) h =
     Returns (blob_push_out TB_InboundNegotiated (h\<lparr>bh_inbound := Some stream\<rparr>))"
| "blob_on_connection_event (FullyNegotiatedOutbound stream) h =
     Returns (blob_push_out TB_OutboundNegotiated (h\<lparr>bh_outbound := Some (Idle stream)\<rparr>))"
| "blob_on_connection_event (DialUpgradeError e) h = Returns (blob_on_dial_upgrade_error e h)"
| "blob_on_connection_event LocalProtocolsChange h = Returns h"
| "blob_on_connection_event RemoteProtocolsChange h = Returns h"
| "blob_on_connection_event AddressChange h = Panics"
| "blob_on_connection_event ListenUpgradeError h = Panics"

section \<open>Callbacks are present\<close>

fun blob_send_type_ok :: "blob_send_type \<Rightarrow> bool" where
  "blob_send_type_ok (ControlSend cb _) = (cb \<noteq> None)"
| "blob_send_type_ok (ControlRecv cb) = (cb \<noteq> None)"
| "blob_send_type_ok CancelMsg = True"
| "blob_send_type_ok (FileSend _) = True"

fun blob_outbound_ok :: "blob_outbound_state option \<Rightarrow> bool" where
  "blob_outbound_ok (Some (Busy _ _ _ st _)) = blob_send_type_ok st"
| "blob_outbound_ok _ = True"

lemma blob_outgoing_ok: "blob_outgoing ev = (m, st, mt) \<Longrightarrow> blob_send_type_ok st"
  by (cases ev) auto

lemma blob_sent_returns: "blob_send_type_ok st \<Longrightarrow> \<exists>h' rs. blob_sent st rtt h = Returns (h', rs)"
  by (cases "(st, rtt, h)" rule: blob_sent.cases) auto

lemma blob_progress_outbound_ok: "blob_outbound_ok (bh_outbound (blob_progress_outbound codec t ev stream h))"
  by (cases "blob_outgoing ev") (auto simp: blob_progress_outbound_def intro: blob_outgoing_ok)

lemma blob_poll_outbound_returns:
  assumes "blob_outbound_ok (bh_outbound h)"
  shows "\<exists>r h' rs. blob_poll_outbound H codec env i h = Returns (r, h', rs) \<and> blob_outbound_ok (bh_outbound h')"
  using assms
proof (induction "blob_outbound_weight h" arbitrary: h i rule: less_induct)
  case less
  show ?case
  proof (cases "bh_outbound h")
    case None
    then show ?thesis by (subst blob_poll_outbound.simps) simp
  next
    case (Some ob)
    show ?thesis
    proof (cases ob)
      case OpenStream
      with Some show ?thesis by (subst blob_poll_outbound.simps) simp
    next
      case (Idle stream)
      show ?thesis
      proof (cases "bh_pending_in_events h")
        case Nil
        with Some Idle show ?thesis by (subst blob_poll_outbound.simps) simp
      next
        case (Cons ev evs)
        let ?h1 = "blob_progress_outbound codec (hio_instant env) ev stream (h\<lparr>bh_pending_in_events := evs\<rparr>)"
        have "blob_outbound_weight ?h1 < blob_outbound_weight h"
          using Some Idle Cons
          by (cases "blob_outgoing ev") (simp add: blob_outbound_weight_def blob_progress_outbound_def)
        from less.hyps [OF this blob_progress_outbound_ok] show ?thesis
          using Some Idle Cons by (subst blob_poll_outbound.simps) simp
      qed
    next
      case (Busy stream bytes mt st deadline)
      show ?thesis
      proof (cases "poll_send H (hio_outbound env i) stream bytes mt")
        case Pending
        then show ?thesis
          using Some Busy less.prems by (subst blob_poll_outbound.simps) simp
      next
        case (Ready r)
        show ?thesis
        proof (cases r)
          case (Inl e)
          then show ?thesis
            using Some Busy Ready by (subst blob_poll_outbound.simps) simp
        next
          case (Inr x)
          obtain stream' rtt where x: "x = (stream', rtt)" by (cases x)
          obtain h' rs where sent: "blob_sent st rtt (h\<lparr>bh_outbound := Some (Idle stream')\<rparr>) = Returns (h', rs)"
            using blob_sent_returns [of st rtt] less.prems Some Busy by fastforce
          have h': "blob_outbound_weight h' < blob_outbound_weight h" "blob_outbound_ok (bh_outbound h')"
            using blob_sent_fields [OF sent] Some Busy by (simp_all add: blob_outbound_weight_def)
          from less.hyps [OF h', of "Suc i"] show ?thesis
            using Some Busy Ready Inr x sent by (subst blob_poll_outbound.simps) auto
        qed
      qed
    qed
  qed
qed

end
