(* ===== verification/Blob_Link.thy ===== *)
theory Blob_Link
  imports Blob_Handler Blob_Behaviour
begin

text \<open>
  Two blob connection handlers joined by a stream. What one behaviour commands arrives as the
  mirrored event at the other behaviour, in order; the commander's handler answers the callbacks
  and reports progress. Also: when a handler panics, and what it does with a peer that does not
  speak the protocol.
\<close>

section \<open>Frames of commands\<close>

fun blob_mirror :: "blob_from_behaviour \<Rightarrow> blob_to_behaviour" where
  "blob_mirror (FB_NewFileSend name i cb n) = TB_IncomingFile name i n"
| "blob_mirror (FB_FileChunk i bytes) = TB_RecvProgressed i bytes"
| "blob_mirror (FB_AcceptFile i cb) = TB_FileSendAccepted i"
| "blob_mirror (FB_LocalCancelSend i) = TB_RemoteCancelRecv i"
| "blob_mirror (FB_LocalCancelRecv i) = TB_RemoteCancelSend i"

definition cmd_bytes :: "blob_codec \<Rightarrow> blob_from_behaviour \<Rightarrow> u8 list" where
  "cmd_bytes codec ev = encode_to_vec codec (fst (blob_outgoing ev))"

definition cmd_type :: "blob_from_behaviour \<Rightarrow> u8" where
  "cmd_type ev = snd (snd (blob_outgoing ev))"

definition cmd_frame :: "blob_codec \<Rightarrow> blob_from_behaviour \<Rightarrow> u8 list" where
  "cmd_frame codec ev = blob_header (length (cmd_bytes codec ev)) (cmd_type ev) @ cmd_bytes codec ev"

definition cmd_ack :: "(u8 list \<Rightarrow> u128) \<Rightarrow> blob_codec \<Rightarrow> blob_from_behaviour \<Rightarrow> u8 list" where
  "cmd_ack H codec ev = u128_to_be_bytes (H (cmd_bytes codec ev))"

fun sent_events :: "duration \<Rightarrow> blob_from_behaviour \<Rightarrow> blob_to_behaviour list" where
  "sent_events rtt (FB_NewFileSend name i cb n) = [TB_FileSendPending i]"
| "sent_events rtt (FB_FileChunk i bytes) = [TB_SendProgressed i rtt]"
| "sent_events rtt ev = []"

fun sent_replies :: "duration \<Rightarrow> blob_from_behaviour \<Rightarrow> blob_reply list" where
  "sent_replies rtt (FB_NewFileSend name i cb n) = [ReplySend cb (Inr i)]"
| "sent_replies rtt (FB_AcceptFile i cb) = [ReplyRecv cb (Inr rtt)]"
| "sent_replies rtt ev = []"

lemma blob_on_message_mirror:
  assumes "prost_roundtrip codec"
  shows "blob_on_message codec (cmd_bytes codec ev) (cmd_type ev) h = (Inr (), blob_push_out (blob_mirror ev) h)"
proof -
  have "decode_msg codec (blob_kind m) (encode_to_vec codec m) = Inr m" for m
    using assms by (simp add: prost_roundtrip_def)
  from this [of "fst (blob_outgoing ev)"] show ?thesis
    by (cases ev) (simp_all add: blob_on_message_def blob_decode_event_def cmd_bytes_def cmd_type_def)
qed

lemma blob_poll_inbound_frame:
  assumes "prost_roundtrip codec" and "fault_free er" and "length (cmd_bytes codec ev) \<le> 2 ^ 18 + 16"
    and "bh_inbound h = Some r" and "w_rx r = cmd_frame codec ev @ rest" and "hio_inbound env = Some er"
  shows "\<exists>r'. blob_poll_inbound H codec env h = Returns (None, blob_push_out (blob_mirror ev) (h\<lparr>bh_inbound := Some r'\<rparr>))
    \<and> w_rx r' = rest \<and> w_tx r' = w_tx r @ cmd_ack H codec ev"
proof -
  obtain r' where "blob_recv H er r = Some (Inr (r', cmd_bytes codec ev, cmd_type ev))" "w_rx r' = rest"
    "w_tx r' = w_tx r @ cmd_ack H codec ev"
    using blob_recv_frame [OF assms(2,3), of r "cmd_type ev" rest H] assms(5)
    by (auto simp: cmd_frame_def cmd_ack_def)
  then show ?thesis
    using assms(4,6) by (auto simp: blob_poll_inbound_def poll_recv_def blob_on_message_mirror [OF assms(1)])
qed

lemma blob_poll_inbound_panics:
  "blob_poll_inbound H codec env h = Panics \<longleftrightarrow> (\<exists>stream er stream' bytes mt e.
      bh_inbound h = Some stream \<and> hio_inbound env = Some er
      \<and> blob_recv H er stream = Some (Inr (stream', bytes, mt))
      \<and> blob_decode_event codec bytes mt = Inl e \<and> length bytes < 20)"
proof (cases "bh_inbound h"; cases "hio_inbound env")
  fix stream er assume 1: "bh_inbound h = Some stream" "hio_inbound env = Some er"
  then show ?thesis
    by (cases "blob_recv H er stream") (auto simp: blob_poll_inbound_def poll_recv_def blob_on_message_def
        split: sum.splits prod.splits)
qed (auto simp: blob_poll_inbound_def poll_recv_def)

lemma blob_poll_inbound_outbound:
  "blob_poll_inbound H codec env h = Returns (r, h1) \<Longrightarrow> bh_outbound h1 = bh_outbound h"
  by (cases "poll_recv H (hio_inbound env) (the (bh_inbound h))")
    (auto simp: blob_poll_inbound_def blob_on_message_def blob_push_out_def
      split: option.splits poll.splits sum.splits prod.splits if_splits)

fun poll_inbound_n ::
  "(u8 list \<Rightarrow> u128) \<Rightarrow> blob_codec \<Rightarrow> handler_io \<Rightarrow> nat \<Rightarrow> blob_handler \<Rightarrow> blob_handler outcome" where
  "poll_inbound_n H codec env 0 h = Returns h"
| "poll_inbound_n H codec env (Suc n) h =
     and_then (blob_poll_inbound H codec env h) (\<lambda>(_, h'). poll_inbound_n H codec env n h')"

lemma poll_inbound_frames:
  assumes "prost_roundtrip codec" and "fault_free er" and "hio_inbound env = Some er"
    and "\<forall>ev \<in> set evs. length (cmd_bytes codec ev) \<le> 2 ^ 18 + 16"
    and "bh_inbound h = Some r" and "w_rx r = concat (map (cmd_frame codec) evs)"
  shows "\<exists>h' r'. poll_inbound_n H codec env (length evs) h = Returns h' \<and> bh_inbound h' = Some r'
    \<and> bh_pending_out_events h' = bh_pending_out_events h @ map blob_mirror evs
    \<and> w_tx r' = w_tx r @ concat (map (cmd_ack H codec) evs)"
  using assms(4-6)
proof (induction evs arbitrary: h r)
  case (Cons ev evs)
  obtain r1 where r1: "blob_poll_inbound H codec env h =
      Returns (None, blob_push_out (blob_mirror ev) (h\<lparr>bh_inbound := Some r1\<rparr>))"
    "w_rx r1 = concat (map (cmd_frame codec) evs)" "w_tx r1 = w_tx r @ cmd_ack H codec ev"
    using blob_poll_inbound_frame [OF assms(1,2) _ Cons.prems(2), of ev "concat (map (cmd_frame codec) evs)" env H]
      Cons.prems assms(3) by auto
  let ?h1 = "blob_push_out (blob_mirror ev) (h\<lparr>bh_inbound := Some r1\<rparr>)"
  have "bh_inbound ?h1 = Some r1" "bh_pending_out_events ?h1 = bh_pending_out_events h @ [blob_mirror ev]"
    by (simp_all add: blob_push_out_def push_back_def)
  with Cons.IH [of ?h1 r1] Cons.prems(1) r1 show ?case
    by auto
qed simp

section \<open>The commanding side\<close>

lemma blob_sent_cmd:
  "blob_outgoing ev = (m, st, mt) \<Longrightarrow>
     blob_sent st rtt h = Returns (h\<lparr>bh_pending_out_events := bh_pending_out_events h @ sent_events rtt ev\<rparr>,
       sent_replies rtt ev)"
  by (cases ev) (auto simp: blob_push_out_def push_back_def)

lemma poll_outbound_cmd:
  assumes ff: "fault_free e" and env: "hio_outbound env = (\<lambda>_. Some e)"
    and h: "bh_outbound h = Some (Idle s)" "bh_pending_in_events h = ev # evs"
    and rx: "w_rx s = cmd_ack H codec ev @ rest"
  shows "\<exists>s'. w_rx s' = rest \<and> w_tx s' = w_tx s @ cmd_frame codec ev
    \<and> blob_poll_outbound H codec env i h =
        and_then (blob_poll_outbound H codec env (Suc i)
          (h\<lparr>bh_pending_in_events := evs, bh_outbound := Some (Idle s'),
             bh_pending_out_events := bh_pending_out_events h @ sent_events (io_elapsed e) ev\<rparr>))
        (\<lambda>(r, h', rs). Returns (r, h', sent_replies (io_elapsed e) ev @ rs))"
proof -
  obtain m st mt where out: "blob_outgoing ev = (m, st, mt)" by (cases "blob_outgoing ev")
  define s' where "s' = \<lparr>w_rx = rest, w_tx = w_tx s @ cmd_frame codec ev, w_ops = w_ops s + 4\<rparr>"
  define t where "t = hio_instant env + bh_timeout h"
  have bytes: "cmd_bytes codec ev = encode_to_vec codec m" "cmd_type ev = mt"
    using out by (simp_all add: cmd_bytes_def cmd_type_def)
  have send: "blob_send H e s (encode_to_vec codec m) mt = Inr (s', io_elapsed e)"
    using blob_send_ok [OF ff, of s "cmd_ack H codec ev" rest H "encode_to_vec codec m" mt] rx
    by (simp add: cmd_ack_def s'_def cmd_frame_def bytes)
  have "blob_poll_outbound H codec env i h = blob_poll_outbound H codec env i
      (h\<lparr>bh_pending_in_events := evs, bh_outbound := Some (Busy s (encode_to_vec codec m) mt st t)\<rparr>)"
    using h out by (subst blob_poll_outbound.simps) (simp add: blob_progress_outbound_def t_def)
  also have "\<dots> = and_then (blob_poll_outbound H codec env (Suc i)
          (h\<lparr>bh_pending_in_events := evs, bh_outbound := Some (Idle s'),
             bh_pending_out_events := bh_pending_out_events h @ sent_events (io_elapsed e) ev\<rparr>))
        (\<lambda>(r, h', rs). Returns (r, h', sent_replies (io_elapsed e) ev @ rs))"
    by (subst blob_poll_outbound.simps) (simp add: poll_send_def env send blob_sent_cmd [OF out])
  finally show ?thesis
    by (intro exI [of _ s']) (simp add: s'_def)
qed

lemma poll_outbound_flushes:
  assumes "fault_free e" and "hio_outbound env = (\<lambda>_. Some e)"
    and "bh_outbound h = Some (Idle s)" and "bh_pending_in_events h = evs"
    and "w_rx s = concat (map (cmd_ack H codec) evs)"
  shows "\<exists>h' s'. blob_poll_outbound H codec env i h =
      Returns (None, h', concat (map (sent_replies (io_elapsed e)) evs))
    \<and> bh_outbound h' = Some (Idle s') \<and> bh_pending_in_events h' = []
    \<and> bh_pending_out_events h' = bh_pending_out_events h @ concat (map (sent_events (io_elapsed e)) evs)
    \<and> w_tx s' = w_tx s @ concat (map (cmd_frame codec) evs)"
  using assms(3-5)
proof (induction evs arbitrary: h s i)
  case Nil
  then show ?case
    by (subst blob_poll_outbound.simps) simp
next
  case (Cons ev evs)
  obtain s1 where s1: "w_rx s1 = concat (map (cmd_ack H codec) evs)" "w_tx s1 = w_tx s @ cmd_frame codec ev"
    and eq: "blob_poll_outbound H codec env i h =
        and_then (blob_poll_outbound H codec env (Suc i)
          (h\<lparr>bh_pending_in_events := evs, bh_outbound := Some (Idle s1),
             bh_pending_out_events := bh_pending_out_events h @ sent_events (io_elapsed e) ev\<rparr>))
        (\<lambda>(r, h', rs). Returns (r, h', sent_replies (io_elapsed e) ev @ rs))"
    using poll_outbound_cmd [OF assms(1,2) Cons.prems(1,2), of H codec "concat (map (cmd_ack H codec) evs)" i]
      Cons.prems(3) by auto
  let ?h1 = "h\<lparr>bh_pending_in_events := evs, bh_outbound := Some (Idle s1),
             bh_pending_out_events := bh_pending_out_events h @ sent_events (io_elapsed e) ev\<rparr>"
  show ?case
    using Cons.IH [of ?h1 s1 "Suc i"] s1 by (auto simp: eq)
qed

section \<open>A concrete codec for the witnesses\<close>

fun demo_encode :: "blob_message \<Rightarrow> u8 list" where
  "demo_encode (MsgIncomingFile i n name) =
     u64_to_be_bytes i @ u64_to_be_bytes n @ map (\<lambda>c. of_nat (of_char c)) name"
| "demo_encode (MsgAcceptFile i) = u64_to_be_bytes i"
| "demo_encode (MsgCancelSend i) = u64_to_be_bytes i"
| "demo_encode (MsgCancelRecv i) = u64_to_be_bytes i"
| "demo_encode (MsgFileChunk i bytes) = u64_to_be_bytes i @ bytes"

fun demo_decode :: "blob_message_kind \<Rightarrow> u8 list \<Rightarrow> string + blob_message" where
  "demo_decode KIncomingFile bs =
     (if length bs < 16 then Inl ''short''
      else Inr (MsgIncomingFile (u64_from_be_bytes (take 8 bs)) (u64_from_be_bytes (take 8 (drop 8 bs)))
             (map (\<lambda>w. char_of (unat w)) (drop 16 bs))))"
| "demo_decode KAcceptFile bs = (if length bs < 8 then Inl ''short'' else Inr (MsgAcceptFile (u64_from_be_bytes bs)))"
| "demo_decode KCancelSend bs = (if length bs < 8 then Inl ''short'' else Inr (MsgCancelSend (u64_from_be_bytes bs)))"
| "demo_decode KCancelRecv bs = (if length bs < 8 then Inl ''short'' else Inr (MsgCancelRecv (u64_from_be_bytes bs)))"
| "demo_decode KFileChunk bs =
     (if length bs < 8 then Inl ''short''
      else Inr (MsgFileChunk (u64_from_be_bytes (take 8 bs)) (drop 8 bs)))"

definition demo_codec :: blob_codec where
  "demo_codec = \<lparr>encode_to_vec = demo_encode, decode_msg = demo_decode\<rparr>"

lemma char_byte_roundtrip: "char_of (unat (of_nat (of_char c) :: u8)) = c"
proof -
  have "unat (of_nat (of_char c) :: u8) = of_char c"
    by (rule unat_of_nat_u8) simp
  then show ?thesis by simp
qed

lemma demo_codec_ok: "prost_roundtrip demo_codec" "prost_chunk_overhead demo_codec"
proof -
  have "demo_decode (blob_kind m) (demo_encode m) = Inr m" for m
    by (cases m) (simp_all add: comp_def char_byte_roundtrip)
  then show "prost_roundtrip demo_codec" "prost_chunk_overhead demo_codec"
    by (simp_all add: prost_roundtrip_def prost_chunk_overhead_def demo_codec_def)
qed

section \<open>Properties\<close>

text \<open>
  C21. Commands arrive as mirrored events. Two handlers of the blob protocol are joined by streams
  without faults, each reading what the other writes. If every encoded command fits into a frame,
  one poll of the commanding handler's outbound side sends all its queued commands in order, empties
  the queue, answers the callbacks and reports each acknowledged request and chunk; and as many
  polls of the receiving handler's inbound side queue, in the same order, the event that mirrors
  each command: a new send becomes an incoming file, a chunk becomes received bytes, an acceptance
  an accepted send, and a cancelled send (receive) a receive (send) cancelled by the remote.
\<close>

theorem blob_handlers_link:
  assumes "prost_roundtrip codec" and "fault_free es" and "fault_free er"
    and "hio_outbound ea = (\<lambda>_. Some es)" and "hio_inbound eb = Some er"
    and "bh_outbound a = Some (Idle s)" and "bh_pending_in_events a = evs"
    and "\<forall>ev \<in> set evs. length (cmd_bytes codec ev) \<le> 2 ^ 18 + 16"
    and "bh_inbound b = Some r"
    and "w_rx r = concat (map (cmd_frame codec) evs)" and "w_rx s = concat (map (cmd_ack H codec) evs)"
  shows "\<exists>a' s' b' r'. blob_poll_outbound H codec ea 0 a = Returns (None, a', concat (map (sent_replies (io_elapsed es)) evs))
    \<and> bh_outbound a' = Some (Idle s') \<and> bh_pending_in_events a' = []
    \<and> bh_pending_out_events a' = bh_pending_out_events a @ concat (map (sent_events (io_elapsed es)) evs)
    \<and> w_tx s' = w_tx s @ w_rx r
    \<and> poll_inbound_n H codec eb (length evs) b = Returns b' \<and> bh_inbound b' = Some r'
    \<and> bh_pending_out_events b' = bh_pending_out_events b @ map blob_mirror evs
    \<and> w_tx r' = w_tx r @ w_rx s"
proof -
  obtain a' s' where "blob_poll_outbound H codec ea 0 a = Returns (None, a', concat (map (sent_replies (io_elapsed es)) evs))"
    "bh_outbound a' = Some (Idle s')" "bh_pending_in_events a' = []"
    "bh_pending_out_events a' = bh_pending_out_events a @ concat (map (sent_events (io_elapsed es)) evs)"
    "w_tx s' = w_tx s @ w_rx r"
    using poll_outbound_flushes [OF assms(2,4,6,7,11), of 0] assms(10) by auto
  moreover obtain b' r' where "poll_inbound_n H codec eb (length evs) b = Returns b'" "bh_inbound b' = Some r'"
    "bh_pending_out_events b' = bh_pending_out_events b @ map blob_mirror evs" "w_tx r' = w_tx r @ w_rx s"
    using poll_inbound_frames [OF assms(1,3,5,8,9,10), of H] assms(11) by auto
  ultimately show ?thesis
    by blast
qed

definition demo_cmds :: "blob_from_behaviour list" where
  "demo_cmds = [FB_NewFileSend ''f'' 0 7 5, FB_LocalCancelRecv 2]"

theorem blob_handlers_link_witness:
  "\<exists>a' s' b' r'. blob_poll_outbound (\<lambda>_. 0) demo_codec quiet_io 0
      ((blob_handler_new blob_config_default)\<lparr>bh_pending_in_events := demo_cmds,
         bh_outbound := Some (Idle \<lparr>w_rx = concat (map (cmd_ack (\<lambda>_. 0) demo_codec) demo_cmds), w_tx = [], w_ops = 0\<rparr>)\<rparr>)
      = Returns (None, a', [ReplySend 7 (Inr 0)])
    \<and> bh_outbound a' = Some (Idle s') \<and> bh_pending_out_events a' = [TB_FileSendPending 0]
    \<and> poll_inbound_n (\<lambda>_. 0) demo_codec quiet_io 2 ((blob_handler_new blob_config_default)
         \<lparr>bh_inbound := Some \<lparr>w_rx = concat (map (cmd_frame demo_codec) demo_cmds), w_tx = [], w_ops = 0\<rparr>\<rparr>) = Returns b'
    \<and> bh_pending_out_events b' = [TB_IncomingFile ''f'' 0 5, TB_RemoteCancelSend 2]"
proof -
  have "length demo_cmds = 2" "bh_pending_out_events (blob_handler_new c) = []" for c
    by (simp_all add: demo_cmds_def blob_handler_new_def)
  moreover have "\<forall>ev \<in> set demo_cmds. length (cmd_bytes demo_codec ev) \<le> 2 ^ 18 + 16"
    by (simp add: demo_cmds_def cmd_bytes_def demo_codec_def)
  moreover have "map blob_mirror demo_cmds = [TB_IncomingFile ''f'' 0 5, TB_RemoteCancelSend 2]"
    "concat (map (sent_replies 7) demo_cmds) = [ReplySend 7 (Inr 0)]"
    "concat (map (sent_events 7) demo_cmds) = [TB_FileSendPending 0]"
    by (simp_all add: demo_cmds_def)
  ultimately show ?thesis
    using blob_handlers_link [OF demo_codec_ok(1) quiet_env_ok(1) quiet_env_ok(1), of quiet_io quiet_io
        "(blob_handler_new blob_config_default)\<lparr>bh_pending_in_events := demo_cmds,
           bh_outbound := Some (Idle \<lparr>w_rx = concat (map (cmd_ack (\<lambda>_. 0) demo_codec) demo_cmds), w_tx = [], w_ops = 0\<rparr>)\<rparr>"
        "\<lparr>w_rx = concat (map (cmd_ack (\<lambda>_. 0) demo_codec) demo_cmds), w_tx = [], w_ops = 0\<rparr>" demo_cmds
        "(blob_handler_new blob_config_default)
           \<lparr>bh_inbound := Some \<lparr>w_rx = concat (map (cmd_frame demo_codec) demo_cmds), w_tx = [], w_ops = 0\<rparr>\<rparr>"
        "\<lparr>w_rx = concat (map (cmd_frame demo_codec) demo_cmds), w_tx = [], w_ops = 0\<rparr>" "\<lambda>_. 0"]
    by (auto simp: quiet_io_def)
qed

text \<open>
  Every chunk a behaviour reads from a file fits into a frame: with the at most 16 bytes the
  message encoding adds, a chunk of at most \<open>FILE_CHUNK_SIZE\<close> bytes stays within the limit of
  \<open>recv\<close>, and the receiving handler turns the frame into the received bytes.
\<close>

theorem blob_chunk_fits_frame:
  assumes "prost_roundtrip codec" and "prost_chunk_overhead codec" and "length bytes \<le> FILE_CHUNK_SIZE"
    and "fault_free er" and "hio_inbound env = Some er" and "bh_inbound h = Some r"
    and "w_rx r = cmd_frame codec (FB_FileChunk i bytes) @ rest"
  shows "\<exists>h'. blob_poll_inbound H codec env h = Returns (None, h')
    \<and> bh_pending_out_events h' = bh_pending_out_events h @ [TB_RecvProgressed i bytes]"
proof -
  have small: "length bytes \<le> 2 ^ 18"
    using assms(3) by (simp add: FILE_CHUNK_SIZE_def push_bit_eq_mult)
  with assms(2) have "length (encode_to_vec codec (MsgFileChunk i bytes)) \<le> length bytes + 16"
    by (simp add: prost_chunk_overhead_def)
  with small have "length (cmd_bytes codec (FB_FileChunk i bytes)) \<le> 2 ^ 18 + 16"
    by (simp add: cmd_bytes_def)
  then show ?thesis
    using blob_poll_inbound_frame [OF assms(1,4) _ assms(6,7,5), of H] by (auto simp: blob_push_out_def push_back_def)
qed

theorem blob_chunk_fits_frame_witness:
  "\<exists>h'. blob_poll_inbound (\<lambda>_. 0) demo_codec quiet_io ((blob_handler_new blob_config_default)
      \<lparr>bh_inbound := Some \<lparr>w_rx = cmd_frame demo_codec (FB_FileChunk 3 [1, 2]) @ [], w_tx = [], w_ops = 0\<rparr>\<rparr>) = Returns (None, h')
    \<and> bh_pending_out_events h' = [TB_RecvProgressed 3 [1, 2]]"
  using blob_chunk_fits_frame [OF demo_codec_ok, of "[1, 2]" quiet_env quiet_io "(blob_handler_new blob_config_default)
      \<lparr>bh_inbound := Some \<lparr>w_rx = cmd_frame demo_codec (FB_FileChunk 3 [1, 2]) @ [], w_tx = [], w_ops = 0\<rparr>\<rparr>"
      "\<lparr>w_rx = cmd_frame demo_codec (FB_FileChunk 3 [1, 2]) @ [], w_tx = [], w_ops = 0\<rparr>" 3 "[]" "\<lambda>_. 0"]
  by (simp add: quiet_io_def FILE_CHUNK_SIZE_def push_bit_eq_mult blob_handler_new_def)

text \<open>
  A peer that ends its stream in the middle of a frame blocks the poll of the handler, and with it the
  task of the connection.
\<close>

lemma blob_handler_poll_spins:
  assumes "bh_state h = Active" "bh_inbound h = Some stream" "hio_inbound env = Some er" "blob_recv H er stream = None"
  shows "blob_handler_poll H codec env h = Hangs"
  using assms by (simp add: blob_handler_poll_def blob_poll_inbound_def poll_recv_def)

text \<open>
  C35. When a connection handler panics while polled, given that callbacks are present in the message
  it is sending (which every operation of the handler maintains): exactly when a frame of one of the
  five known types arrives whose payload cannot be decoded and is shorter than 20 bytes.
\<close>

theorem blob_handler_poll_panics_iff:
  assumes "blob_outbound_ok (bh_outbound h)"
  shows "blob_handler_poll H codec env h = Panics \<longleftrightarrow>
    bh_state h = Active \<and> (\<exists>stream er stream' bytes mt e.
      bh_inbound h = Some stream \<and> hio_inbound env = Some er
      \<and> blob_recv H er stream = Some (Inr (stream', bytes, mt))
      \<and> blob_decode_event codec bytes mt = Inl e \<and> length bytes < 20)"
proof -
  have "blob_poll_outbound H codec env 0 h1 \<noteq> Panics" if "blob_poll_inbound H codec env h = Returns (r, h1)" for r h1
    using blob_poll_outbound_returns [of h1 H codec env 0] blob_poll_inbound_outbound [OF that] assms by auto
  then show ?thesis
    unfolding blob_poll_inbound_panics [symmetric]
    by (auto simp: blob_handler_poll_def and_then_Panics_iff split: handler_state.splits bool.splits option.splits)
qed

definition demo_bad_handler :: blob_handler where
  "demo_bad_handler = (blob_handler_new blob_config_default)
     \<lparr>bh_inbound := Some \<lparr>w_rx = blob_header 1 1 @ [9] @ [], w_tx = [], w_ops = 0\<rparr>\<rparr>"

theorem blob_handler_poll_panics_iff_witness:
  "blob_handler_poll (\<lambda>_. 0) demo_codec quiet_io demo_bad_handler = Panics"
proof -
  obtain r' where r': "blob_recv (\<lambda>_. 0) quiet_env \<lparr>w_rx = blob_header 1 1 @ [9] @ [], w_tx = [], w_ops = 0\<rparr> = Some (Inr (r', [9], 1))"
    using blob_recv_frame [of quiet_env "[9]" "\<lparr>w_rx = blob_header 1 1 @ [9] @ [], w_tx = [], w_ops = 0\<rparr>" 1 "[]" "\<lambda>_. 0"]
    by auto
  have "blob_outbound_ok (bh_outbound demo_bad_handler)"
    by (simp add: demo_bad_handler_def blob_handler_new_def)
  moreover have "blob_decode_event demo_codec [9] 1 = Inl ''short''"
    by (simp add: blob_decode_event_def demo_codec_def)
  ultimately show ?thesis
    using r' blob_handler_poll_panics_iff [of demo_bad_handler "\<lambda>_. 0" demo_codec quiet_io]
    by (fastforce simp: demo_bad_handler_def quiet_io_def blob_handler_new_def)
qed

text \<open>
  A peer that does not speak the protocol is reported once. After a failed negotiation the next
  poll reports \<open>Unsupported\<close>; from then on every poll is pending, whatever commands the behaviour
  still queues, and the callbacks those commands carry are never answered.
\<close>

theorem blob_handler_unsupported_once:
  assumes "blob_on_connection_event (DialUpgradeError NegotiationFailed) h = Returns h0"
  shows "\<exists>h1. blob_handler_poll H codec env h0 = Returns (Ready (NotifyBehaviour TB_Unsupported), h1, [])
    \<and> (\<forall>evs env'. blob_handler_poll H codec env' (fold blob_on_behaviour_event evs h1) =
          Returns (Pending, fold blob_on_behaviour_event evs h1, []))"
proof -
  have "bh_state (fold blob_on_behaviour_event evs g) = bh_state g" for evs g
    by (induction evs arbitrary: g) (simp_all add: blob_on_behaviour_event_def)
  then show ?thesis
    using assms by (auto simp: blob_on_dial_upgrade_error_def blob_handler_poll_def)
qed

theorem blob_handler_unsupported_once_witness:
  "\<exists>h0 h1. blob_on_connection_event (DialUpgradeError NegotiationFailed) (blob_handler_new blob_config_default) = Returns h0
    \<and> blob_handler_poll (\<lambda>_. 0) demo_codec quiet_io h0 = Returns (Ready (NotifyBehaviour TB_Unsupported), h1, [])
    \<and> blob_handler_poll (\<lambda>_. 0) demo_codec quiet_io (blob_on_behaviour_event (FB_LocalCancelSend 1) h1)
        = Returns (Pending, blob_on_behaviour_event (FB_LocalCancelSend 1) h1, [])"
proof -
  obtain h0 where h0: "blob_on_connection_event (DialUpgradeError NegotiationFailed) (blob_handler_new blob_config_default) = Returns h0"
    by simp
  obtain h1 where h1: "blob_handler_poll (\<lambda>_. 0) demo_codec quiet_io h0 = Returns (Ready (NotifyBehaviour TB_Unsupported), h1, [])"
    "\<forall>evs env'. blob_handler_poll (\<lambda>_. 0) demo_codec env' (fold blob_on_behaviour_event evs h1) =
       Returns (Pending, fold blob_on_behaviour_event evs h1, [])"
    using blob_handler_unsupported_once [OF h0] by blast
  from h1(2) [THEN spec, of "[FB_LocalCancelSend 1]"] h0 h1(1) show ?thesis
    by (intro exI [of _ h0] exI [of _ h1]) simp
qed

end
