(* ===== verification/Blob_Network.thy ===== *)
theory Blob_Network
  imports Blob_Protocol Blob_Transfer Blob_Link
begin

text \<open>
  Two peers that run the blob behaviour over one connection. A node is a behaviour, the commands its
  connection handler has not sent yet, the events the handler has not delivered yet, and a ghost
  log of the files it was asked to send. Handlers deliver a command as its mirrored event
  (\<open>Blob_Link\<close>); a command or its acknowledgement may be lost, and either side may lose the
  connection. Every step of the two nodes is a step, or none, of the protocol of each transfer
  (\<open>Blob_Protocol\<close>).
\<close>

section \<open>Nodes and steps\<close>

record blob_node =
  nd_b :: blob_behaviour
  nd_out :: "blob_from_behaviour list"
  nd_in :: "blob_to_behaviour list"
  nd_files :: "(u64 \<times> u8 list) list"

datatype side = West | East

fun other :: "side \<Rightarrow> side" where
  "other West = East"
| "other East = West"

type_synonym blob_net = "side \<Rightarrow> blob_node"

text \<open>What \<open>Handle::send_file\<close> and \<open>Handle::recv_file\<close> pass on: a freshly opened or created file.\<close>

fun request_ok :: "blob_in_event \<Rightarrow> bool" where
  "request_ok (In_SendFile f path to cb) = (f_pos f = 0)"
| "request_ok (In_AcceptFile f i path cb) = (f = \<lparr>f_data = [], f_pos = 0\<rparr>)"
| "request_ok ev = True"

fun log_request :: "blob_in_event \<Rightarrow> u64 \<Rightarrow> (u64 \<times> u8 list) list \<Rightarrow> (u64 \<times> u8 list) list" where
  "log_request (In_SendFile f path to cb) k log = (k, f_data f) # log"
| "log_request ev k log = log"

fun to_handler :: "peer_id \<Rightarrow> blob_to_swarm \<Rightarrow> blob_from_behaviour list" where
  "to_handler p (NotifyHandler q h ev) = (if q = p then [ev] else [])"
| "to_handler p ev = []"

fun is_report :: "blob_to_behaviour \<Rightarrow> bool" where
  "is_report (TB_Error e) = True"
| "is_report TB_InboundNegotiated = True"
| "is_report TB_OutboundNegotiated = True"
| "is_report TB_Unsupported = True"
| "is_report ev = False"

definition node_polled :: "peer_id \<Rightarrow> blob_env \<Rightarrow> blob_node \<Rightarrow> blob_node" where
  "node_polled p env nd =
     (case blob_poll env (nd_b nd) of
        (r, b) \<Rightarrow> nd\<lparr>nd_b := b, nd_out := nd_out nd @ (case r of Ready ev \<Rightarrow> to_handler p ev | Pending \<Rightarrow> [])\<rparr>)"

definition node_closed :: "peer_id \<Rightarrow> blob_node \<Rightarrow> blob_node" where
  "node_closed p nd =
     nd\<lparr>nd_b := blob_on_swarm_event (ConnectionClosed \<lparr>cc_peer_id = p, cc_remaining_established = 0\<rparr>) (nd_b nd),
        nd_out := [], nd_in := []\<rparr>"

text \<open>A step of one node; \<open>p\<close> is the peer at the other end.\<close>

inductive node_step :: "peer_id \<Rightarrow> blob_node \<Rightarrow> blob_node \<Rightarrow> bool" for p where
  request: "blob_no_wrap (nd_b nd) \<Longrightarrow> request_ok ev \<Longrightarrow> blob_push_event env ev (nd_b nd) = Returns (b, rs)
    \<Longrightarrow> node_step p nd (nd\<lparr>nd_b := b, nd_files := log_request ev (bb_send_counter (nd_b nd)) (nd_files nd)\<rparr>)"
| poll: "node_step p nd (node_polled p env nd)"
| handle: "nd_in nd = ev # evs \<Longrightarrow> blob_no_wrap (nd_b nd) \<Longrightarrow> blob_on_handler_event env p ev (nd_b nd) = Returns b
    \<Longrightarrow> node_step p nd (nd\<lparr>nd_b := b, nd_in := evs\<rparr>)"
| report: "is_report ev \<Longrightarrow> blob_on_handler_event env p ev (nd_b nd) = Returns b \<Longrightarrow> node_step p nd (nd\<lparr>nd_b := b\<rparr>)"
| close: "node_step p nd (node_closed p nd)"
| swarm: "node_step p nd (nd\<lparr>nd_b := blob_on_swarm_event ev (nd_b nd)\<rparr>)"
| rehash: "blob_rehash (nd_b nd) b \<Longrightarrow> node_step p nd (nd\<lparr>nd_b := b\<rparr>)"

text \<open>
  A step of the network: of one node, or the handler of one side takes its next command and sends
  it. Either the command is lost, or it arrives but its acknowledgement does not, or both arrive.
\<close>

inductive net_step :: "(side \<Rightarrow> peer_id) \<Rightarrow> blob_net \<Rightarrow> blob_net \<Rightarrow> bool" for pid where
  local: "node_step (pid (other X)) (n X) nd \<Longrightarrow> net_step pid n (n(X := nd))"
| transmit: "nd_out (n X) = c # cs \<Longrightarrow>
    arr = [] \<and> ack = [] \<or> arr = [blob_mirror c] \<and> ack \<in> {[], sent_events rtt c}
    \<Longrightarrow> net_step pid n (n(X := (n X)\<lparr>nd_out := cs, nd_in := nd_in (n X) @ ack\<rparr>,
          other X := (n (other X))\<lparr>nd_in := nd_in (n (other X)) @ arr\<rparr>))"

definition node_init :: "blob_config \<Rightarrow> nat \<Rightarrow> blob_node" where
  "node_init config instant =
     \<lparr>nd_b = blob_behaviour_new config instant, nd_out = [], nd_in = [], nd_files = []\<rparr>"

definition net_init :: "blob_config \<Rightarrow> nat \<Rightarrow> blob_net" where
  "net_init config instant = (\<lambda>_. node_init config instant)"

section \<open>The view of one transfer\<close>

fun cmd_msg :: "u64 \<Rightarrow> blob_from_behaviour \<Rightarrow> xmsg list" where
  "cmd_msg k (FB_NewFileSend name i cb n) = (if i = k then [XOffer n] else [])"
| "cmd_msg k (FB_FileChunk i c) = (if i = k then [XChunk c] else [])"
| "cmd_msg k ev = []"

fun ev_msg :: "u64 \<Rightarrow> blob_to_behaviour \<Rightarrow> xmsg list" where
  "ev_msg k (TB_IncomingFile name i n) = (if i = k then [XOffer n] else [])"
| "ev_msg k (TB_RecvProgressed i c) = (if i = k then [XChunk c] else [])"
| "ev_msg k ev = []"

fun ev_ack :: "u64 \<Rightarrow> blob_to_behaviour \<Rightarrow> xack list" where
  "ev_ack k (TB_FileSendAccepted i) = (if i = k then [XAccepted] else [])"
| "ev_ack k (TB_SendProgressed i rtt) = (if i = k then [XProgress] else [])"
| "ev_ack k ev = []"

fun cmd_accepts :: "u64 \<Rightarrow> blob_from_behaviour \<Rightarrow> nat" where
  "cmd_accepts k (FB_AcceptFile i cb) = (if i = k then 1 else 0)"
| "cmd_accepts k ev = 0"

definition cmds :: "peer_id \<Rightarrow> blob_behaviour \<Rightarrow> blob_from_behaviour list" where
  "cmds p b = concat (map (to_handler p) (bb_pending_handler_event b))"

definition wire_cmds :: "peer_id \<Rightarrow> blob_node \<Rightarrow> blob_from_behaviour list" where
  "wire_cmds p nd = nd_out nd @ cmds p (nd_b nd)"

definition msgs :: "u64 \<Rightarrow> blob_from_behaviour list \<Rightarrow> xmsg list" where
  "msgs k cs = concat (map (cmd_msg k) cs)"

definition accepts :: "u64 \<Rightarrow> blob_from_behaviour list \<Rightarrow> nat" where
  "accepts k cs = sum_list (map (cmd_accepts k) cs)"

definition offers :: "u64 \<Rightarrow> blob_behaviour \<Rightarrow> u64 \<rightharpoonup> u64" where
  "offers k b = (\<lambda>i. case hm_get (bb_pending_recv b) i of
     Some v \<Rightarrow> if pr_remote_send_id v = k then Some (pr_bytes_total v) else None | None \<Rightarrow> None)"

definition receiving :: "u64 \<Rightarrow> blob_behaviour \<Rightarrow> (u64 \<times> u64 \<times> fs_file) option" where
  "receiving k b = map_option (\<lambda>v. (or_bytes_received v, or_bytes_total v, or_file_handle v)) (hm_get (bb_ongoing_recv b) k)"

text \<open>The transfer with the sender's id \<open>k\<close>, from the node \<open>s\<close> (peer \<open>q\<close>) to the node \<open>r\<close> (peer \<open>p\<close>).\<close>

definition transfer :: "peer_id \<Rightarrow> peer_id \<Rightarrow> u64 \<Rightarrow> blob_node \<Rightarrow> blob_node \<Rightarrow> xfer" where
  "transfer p q k s r =
     \<lparr>xf_file = map_of (nd_files s) k,
      xf_pending = map_option ps_file (hm_get (bb_pending_send (nd_b s)) k),
      xf_sending = map_option os_file_handle (hm_get (bb_ongoing_send (nd_b s)) k),
      xf_up = msgs k (wire_cmds p s),
      xf_acks = concat (map (ev_ack k) (nd_in s)),
      xf_arrived = concat (map (ev_msg k) (nd_in r)),
      xf_offers = offers k (nd_b r),
      xf_recv = receiving k (nd_b r),
      xf_accepts = accepts k (wire_cmds q r)\<rparr>"

lemma msgs_simps [simp]: "msgs k [] = []" "msgs k (c # cs) = cmd_msg k c @ msgs k cs" "msgs k (xs @ ys) = msgs k xs @ msgs k ys"
  by (simp_all add: msgs_def)

lemma accepts_simps [simp]:
  "accepts k [] = 0" "accepts k (c # cs) = cmd_accepts k c + accepts k cs" "accepts k (xs @ ys) = accepts k xs + accepts k ys"
  by (simp_all add: accepts_def)

lemma cmds_notify [simp]: "cmds p (blob_notify q ev b) = cmds p b @ (if q = p then [ev] else [])"
  by (simp add: cmds_def blob_notify_def push_back_def)

lemma cmds_same [simp]:
  "cmds p (blob_emit ev b) = cmds p b" "cmds p (b\<lparr>bb_ongoing_send := m1\<rparr>) = cmds p b" "cmds p (b\<lparr>bb_pending_send := m2\<rparr>) = cmds p b"
  "cmds p (b\<lparr>bb_ongoing_recv := m3\<rparr>) = cmds p b" "cmds p (b\<lparr>bb_pending_recv := m4\<rparr>) = cmds p b"
  "cmds p (b\<lparr>bb_connected_peers := m5\<rparr>) = cmds p b" "cmds p (b\<lparr>bb_send_counter := c\<rparr>) = cmds p b"
  "cmds p (b\<lparr>bb_recv_counter := c'\<rparr>) = cmds p b" "cmds p (b\<lparr>bb_expiry_deadline := d\<rparr>) = cmds p b"
  "cmds p (b\<lparr>bb_out_events := q\<rparr>) = cmds p b"
  by (simp_all add: cmds_def blob_emit_def)

section \<open>Operations that only forget\<close>

text \<open>Records may disappear, and nothing that matters to a transfer is sent.\<close>

definition blob_forgets :: "blob_behaviour \<Rightarrow> blob_behaviour \<Rightarrow> bool" where
  "blob_forgets b b' \<longleftrightarrow>
     hm_get (bb_pending_send b') \<subseteq>\<^sub>m hm_get (bb_pending_send b) \<and> hm_get (bb_ongoing_send b') \<subseteq>\<^sub>m hm_get (bb_ongoing_send b)
     \<and> hm_get (bb_pending_recv b') \<subseteq>\<^sub>m hm_get (bb_pending_recv b) \<and> hm_get (bb_ongoing_recv b') \<subseteq>\<^sub>m hm_get (bb_ongoing_recv b)
     \<and> bb_send_counter b' = bb_send_counter b
     \<and> (\<forall>p k. msgs k (cmds p b') = msgs k (cmds p b) \<and> accepts k (cmds p b') = accepts k (cmds p b))"

lemma blob_forgets_refl [simp]: "blob_forgets b b"
  by (simp add: blob_forgets_def)

lemma blob_forgets_trans: "blob_forgets a b \<Longrightarrow> blob_forgets b c \<Longrightarrow> blob_forgets a c"
  by (auto simp: blob_forgets_def intro: map_le_trans)

lemma blob_forgets_remove:
  "blob_forgets b (b\<lparr>bb_pending_send := hm_remove i (bb_pending_send b)\<rparr>)"
  "blob_forgets b (b\<lparr>bb_ongoing_send := hm_remove i (bb_ongoing_send b)\<rparr>)"
  "blob_forgets b (b\<lparr>bb_pending_recv := hm_remove i (bb_pending_recv b)\<rparr>)"
  "blob_forgets b (b\<lparr>bb_ongoing_recv := hm_remove i (bb_ongoing_recv b)\<rparr>)"
  by (simp_all add: blob_forgets_def)

lemma blob_forgets_emit: "blob_forgets b b' \<Longrightarrow> blob_forgets b (blob_emit ev b')"
  by (simp add: blob_forgets_def) (simp add: blob_emit_def)

lemma blob_forgets_notify:
  "blob_forgets b b' \<Longrightarrow> blob_forgets b (blob_notify q (FB_LocalCancelSend i) b')"
  "blob_forgets b b' \<Longrightarrow> blob_forgets b (blob_notify q (FB_LocalCancelRecv i) b')"
  by (simp_all add: blob_forgets_def) (simp_all add: blob_notify_def)

lemma blob_forgets_basic [simp]:
  "blob_forgets b (blob_emit ev b)"
  "blob_forgets b (snd (blob_cancel_send i b))"
  "blob_forgets b (snd (blob_cancel_recv i b))"
  "blob_forgets b (snd (blob_remove_send_record i b))"
  "blob_forgets b (snd (blob_remove_recv_by_remote_send_id i b))"
  by (simp_all add: blob_cancel_send_def blob_cancel_recv_def blob_remove_send_record_def blob_remove_recv_record_def
      blob_remove_recv_by_remote_send_id_def blob_forgets_remove blob_forgets_emit blob_forgets_notify split: option.splits)

lemma blob_forgets_eqs:
  "blob_cancel_send k b = (r, b') \<Longrightarrow> blob_forgets b b'"
  "blob_cancel_recv k b = (r, b') \<Longrightarrow> blob_forgets b b'"
  "blob_remove_recv_by_remote_send_id k b = (o1, b') \<Longrightarrow> blob_forgets b b'"
  by (metis blob_forgets_basic(2) snd_conv, metis blob_forgets_basic(3) snd_conv, metis blob_forgets_basic(5) snd_conv)

lemma blob_forgets_fold:
  assumes "\<And>i b. blob_forgets b (f i b)"
  shows "blob_forgets b (fold f js b)"
proof (induction js arbitrary: b)
  case (Cons i js)
  show ?case
    using blob_forgets_trans [OF assms [of b i] Cons.IH [of "f i b"]] by simp
qed simp

lemma blob_forgets_tick: "blob_forgets b (blob_tick env b)"
proof -
  have "blob_forgets b (blob_expire_pending_send n b)" "blob_forgets b (blob_expire_pending_recv n b)"
    "blob_forgets b (blob_expire_ongoing_send n b)" "blob_forgets b (blob_expire_ongoing_recv n b)" for n b
    by (simp_all add: blob_expire_pending_send_def blob_expire_pending_recv_def
        blob_expire_ongoing_send_def blob_expire_ongoing_recv_def blob_forgets_fold)
  then have "blob_forgets b (blob_check_expiry env b)"
    unfolding blob_check_expiry_def by (meson blob_forgets_trans)
  then show ?thesis
    by (auto simp: blob_tick_def blob_forgets_def)
qed

lemma blob_forgets_on_disconnect: "blob_tables_wf b \<Longrightarrow> blob_forgets b (blob_on_disconnect info b)"
  by (auto simp: blob_on_disconnect_def blob_forgets_def blob_tables_wf_def hm_retain_map_le)

lemma blob_forgets_swarm: "blob_tables_wf b \<Longrightarrow> blob_forgets b (blob_on_swarm_event ev b)"
  by (cases ev) (simp_all add: blob_forgets_on_disconnect)

lemma blob_forgets_rehash: "blob_tables_wf b \<Longrightarrow> blob_rehash b b' \<Longrightarrow> blob_forgets b b'"
  by (simp add: blob_forgets_def blob_rehashD cmds_def)

lemma blob_forgets_report:
  "is_report ev \<Longrightarrow> blob_on_handler_event env p ev b = Returns b' \<Longrightarrow> blob_forgets b b'"
  by (cases ev) (auto simp: blob_forgets_def blob_emit_def cmds_def)

lemma map_le_lookup: "m' \<subseteq>\<^sub>m m \<Longrightarrow> m' k \<in> {None, m k}"
  by (cases "m' k") (auto simp: map_le_def dom_def)

lemma offers_map_le: "hm_get (bb_pending_recv b') \<subseteq>\<^sub>m hm_get (bb_pending_recv b) \<Longrightarrow> offers k b' \<subseteq>\<^sub>m offers k b"
  unfolding map_le_def
proof (intro ballI)
  fix i assume le: "\<forall>a\<in>dom (hm_get (bb_pending_recv b')). hm_get (bb_pending_recv b') a = hm_get (bb_pending_recv b) a"
    and "i \<in> dom (offers k b')"
  then have "i \<in> dom (hm_get (bb_pending_recv b'))"
    by (auto simp: offers_def split: option.splits)
  with le show "offers k b' i = offers k b i"
    by (simp add: offers_def)
qed

lemma transfer_forgets_sender:
  assumes "blob_forgets (nd_b s) b"
  shows "xfer_step (transfer p q k s r) (transfer p q k (s\<lparr>nd_b := b\<rparr>) r)"
proof (rule xfer_step.forget)
  let ?p = "map_option ps_file (hm_get (bb_pending_send b) k)" and ?s = "map_option os_file_handle (hm_get (bb_ongoing_send b) k)"
  have "hm_get (bb_pending_send b) k \<in> {None, hm_get (bb_pending_send (nd_b s)) k}"
    "hm_get (bb_ongoing_send b) k \<in> {None, hm_get (bb_ongoing_send (nd_b s)) k}"
    using assms by (intro map_le_lookup; simp add: blob_forgets_def)+
  then have "?p \<in> {None, xf_pending (transfer p q k s r)}" "?s \<in> {None, xf_sending (transfer p q k s r)}"
    by (auto simp: transfer_def)
  from xfer_forgetsI [OF this map_le_refl, of "xf_recv (transfer p q k s r)"] assms
  show "xfer_forgets (transfer p q k s r) (transfer p q k (s\<lparr>nd_b := b\<rparr>) r)"
    by (simp add: transfer_def wire_cmds_def blob_forgets_def)
qed

lemma transfer_forgets_receiver:
  assumes "blob_forgets (nd_b r) b"
  shows "xfer_step (transfer p q k s r) (transfer p q k s (r\<lparr>nd_b := b\<rparr>))"
proof (rule xfer_step.forget)
  have "hm_get (bb_ongoing_recv b) k \<in> {None, hm_get (bb_ongoing_recv (nd_b r)) k}"
    using assms by (intro map_le_lookup) (simp add: blob_forgets_def)
  then have "receiving k b \<in> {None, xf_recv (transfer p q k s r)}" "offers k b \<subseteq>\<^sub>m xf_offers (transfer p q k s r)"
    using assms by (auto simp: transfer_def receiving_def blob_forgets_def intro: offers_map_le)
  from xfer_forgetsI [OF _ _ this(2,1), of "xf_pending (transfer p q k s r)" "xf_sending (transfer p q k s r)"] assms
  show "xfer_forgets (transfer p q k s r) (transfer p q k s (r\<lparr>nd_b := b\<rparr>))"
    by (simp add: transfer_def wire_cmds_def blob_forgets_def)
qed

section \<open>Steps of the sender\<close>

definition node_inv :: "peer_id \<Rightarrow> blob_node \<Rightarrow> bool" where
  "node_inv p nd \<longleftrightarrow> blob_inv (nd_b nd)
     \<and> (\<forall>k. bb_send_counter (nd_b nd) \<le> k \<longrightarrow> map_of (nd_files nd) k = None)
     \<and> (\<forall>i v. hm_get (bb_pending_recv (nd_b nd)) i = Some v \<longrightarrow> pr_remote v = p)
     \<and> (\<forall>i v. hm_get (bb_ongoing_recv (nd_b nd)) i = Some v \<longrightarrow> or_remote v = p)"

lemma transfer_send_file:
  assumes "node_inv p0 s" "blob_send_file env f path to cb (nd_b s) = Returns (b, rs)" "f_pos f = 0"
  shows "xfer_step\<^sup>*\<^sup>* (transfer p q k s r)
    (transfer p q k (s\<lparr>nd_b := b, nd_files := (bb_send_counter (nd_b s), f_data f) # nd_files s\<rparr>) r)"
proof (cases "k = bb_send_counter (nd_b s)")
  case False
  then have "transfer p q k (s\<lparr>nd_b := b, nd_files := (bb_send_counter (nd_b s), f_data f) # nd_files s\<rparr>) r = transfer p q k s r"
    using assms(2)
    by (auto simp: transfer_def wire_cmds_def blob_send_file_def blob_next_send_id_def Let_def split: if_splits option.splits)
      (auto simp: blob_notify_def)
  then show ?thesis by simp
next
  case True
  let ?x = "transfer p q k s r" and ?D = "f_data f"
  have f: "f = \<lparr>f_data = ?D, f_pos = 0\<rparr>"
    using assms(3) by simp
  have fresh: "map_of (nd_files s) k = None" "hm_get (bb_pending_send (nd_b s)) k = None" "hm_get (bb_ongoing_send (nd_b s)) k = None"
    using assms(1) True blob_inv_def blob_sends_ok_def node_inv_def by (auto simp: node_inv_def) (metis not_Some_eq order_less_irrefl)+
  obtain pend ms where pend: "pend \<in> {None, Some f}" "ms \<in> {[], [XOffer (of_nat (length ?D))]}"
    "map_option ps_file (hm_get (bb_pending_send b) k) = pend" "hm_get (bb_ongoing_send b) k = None"
    "msgs k (cmds p b) = msgs k (cmds p (nd_b s)) @ ms"
    using assms(2) fresh True
    by (cases "to = p"; auto simp: blob_send_file_def blob_next_send_id_def Let_def split: if_splits option.splits;
        auto simp: blob_notify_def)
  have "xfer_step ?x (?x\<lparr>xf_file := Some ?D, xf_pending := pend, xf_up := xf_up ?x @ ms\<rparr>)"
    using pend(1,2) f fresh(1) by (intro xfer_step.ask) (auto simp: transfer_def)
  moreover have "?x\<lparr>xf_file := Some ?D, xf_pending := pend, xf_up := xf_up ?x @ ms\<rparr> =
      transfer p q k (s\<lparr>nd_b := b, nd_files := (bb_send_counter (nd_b s), ?D) # nd_files s\<rparr>) r"
    using pend(3-5) fresh True by (simp add: transfer_def wire_cmds_def)
  ultimately show ?thesis by auto
qed

text \<open>A change of the node that leaves its part as a sender of \<open>k\<close> as it is.\<close>

definition same_sending :: "u64 \<Rightarrow> blob_behaviour \<Rightarrow> blob_behaviour \<Rightarrow> bool" where
  "same_sending k b b' \<longleftrightarrow> hm_get (bb_pending_send b') k = hm_get (bb_pending_send b) k
     \<and> hm_get (bb_ongoing_send b') k = hm_get (bb_ongoing_send b) k \<and> (\<forall>p. msgs k (cmds p b') = msgs k (cmds p b))"

lemma same_sending_refl [simp]: "same_sending k b b"
  by (simp add: same_sending_def)

lemma same_sending_emit [simp]: "same_sending k b (blob_emit ev b') = same_sending k b b'"
  by (simp add: same_sending_def) (simp add: blob_emit_def)

lemma same_sending_trans: "same_sending k a b \<Longrightarrow> same_sending k b c \<Longrightarrow> same_sending k a c"
  by (simp add: same_sending_def)

lemma transfer_same_sending:
  "same_sending k (nd_b s) b \<Longrightarrow> concat (map (ev_ack k) evs) = concat (map (ev_ack k) (nd_in s)) \<Longrightarrow>
    transfer p q k (s\<lparr>nd_b := b, nd_in := evs\<rparr>) r = transfer p q k s r"
  by (simp add: transfer_def wire_cmds_def same_sending_def)

lemma same_sending_accept: "same_sending k b (fst (blob_accept_pending_recv env f path i cb b))"
  by (auto simp: blob_accept_pending_recv_def same_sending_def Let_def split: option.splits) (auto simp: blob_notify_def)

lemma same_sending_progress_recv: "blob_progress_ongoing_recv env i c b = Returns b' \<Longrightarrow> same_sending k b b'"
  by (auto simp: blob_progress_ongoing_recv_def Let_def split: option.splits if_splits sum.splits)
    (auto simp: same_sending_def)

lemma same_sending_new_recv: "same_sending k b (blob_on_new_pending_recv env p name i n b)"
  by (simp add: blob_on_new_pending_recv_def blob_next_recv_id_def) (simp add: same_sending_def)

lemma same_sending_progress_other:
  "blob_inv b \<Longrightarrow> i \<noteq> k \<Longrightarrow> same_sending k b (blob_progress_ongoing_send env i b)"
  by (auto simp: same_sending_def blob_progress_ongoing_send_def Let_def blob_inv_def blob_sends_ok_def
      split: option.splits sum.splits) (auto simp: blob_notify_def)

text \<open>Reading a chunk at the node is reading a chunk in the protocol.\<close>

lemma transfer_progress:
  assumes "blob_inv b"
  shows "\<exists>here. transfer p q k (s\<lparr>nd_b := blob_progress_ongoing_send env k b\<rparr>) r =
    xfer_read (be_read env) here (transfer p q k (s\<lparr>nd_b := b\<rparr>) r)"
proof (cases "hm_get (bb_ongoing_send b) k")
  case None
  then show ?thesis
    by (simp add: blob_progress_ongoing_send_def xfer_read_def transfer_def)
next
  case (Some v)
  have v: "os_local_send_id v = k"
    using assms Some by (simp add: blob_inv_def blob_sends_ok_def)
  show ?thesis
  proof (cases "file_read (be_read env) FILE_CHUNK_SIZE (os_file_handle v)")
    case (Inl e)
    then show ?thesis
      using Some by (simp add: blob_progress_ongoing_send_def xfer_read_def transfer_def wire_cmds_def Let_def)
  next
    case (Inr y)
    obtain buf fh where y: "y = (buf, fh)" by (cases y)
    show ?thesis
      using Some Inr y v
      by (intro exI [of _ "os_remote v = p"])
        (auto simp: blob_progress_ongoing_send_def xfer_read_def transfer_def wire_cmds_def Let_def, auto simp: blob_notify_def)
  qed
qed


lemma transfer_accepted:
  assumes "blob_inv (nd_b s)" "nd_in s = TB_FileSendAccepted i # evs"
    and "blob_on_handler_event env p0 (TB_FileSendAccepted i) (nd_b s) = Returns b"
  shows "xfer_step\<^sup>*\<^sup>* (transfer p q k s r) (transfer p q k (s\<lparr>nd_b := b, nd_in := evs\<rparr>) r)"
proof (cases "hm_get (bb_pending_send (nd_b s)) i")
  case None
  then have "b = nd_b s"
    using assms(3) by (auto simp: blob_pending_send_accepted_def split: if_splits)
  with None assms(2) xfer_step.accepted_late [of "transfer p q k s r" "concat (map (ev_ack k) evs)"] show ?thesis
    by (cases "i = k") (auto simp: transfer_def wire_cmds_def)
next
  case (Some v)
  have v: "ps_local_send_id v = i"
    using assms(1) Some by (simp add: blob_inv_def blob_sends_ok_def)
  define w where "w = \<lparr>os_local_send_id = i, os_remote = ps_remote v, os_bytes_sent = 0,
      os_bytes_total = ps_bytes_total v, os_file_handle = ps_file v, os_file_path = ps_file_path v,
      os_last_active = be_now env\<rparr>"
  define b1 where "b1 = (nd_b s)\<lparr>bb_pending_send := hm_remove i (bb_pending_send (nd_b s)),
      bb_ongoing_send := hm_insert i w (bb_ongoing_send (nd_b s))\<rparr>"
  have b: "b = blob_emit (Out_SendProgressed i 0 (ps_bytes_total v)) (blob_progress_ongoing_send env i b1)"
    using assms(3) Some v
    by (auto simp: blob_pending_send_accepted_def hm_contains_key_def b1_def w_def Let_def split: if_splits)
  have inv: "blob_inv b1"
    unfolding b1_def by (rule blob_inv_move_send [OF assms(1) Some]) (simp add: w_def)
  show ?thesis
  proof (cases "i = k")
    case False
    have "same_sending k (nd_b s) b1"
      using False by (simp add: same_sending_def b1_def)
    then have "same_sending k (nd_b s) b"
      using same_sending_trans [OF _ same_sending_progress_other [OF inv False, of env]] by (simp add: b)
    then show ?thesis
      using transfer_same_sending [of k s b evs p q r] assms(2) False by simp
  next
    case True
    let ?s = "s\<lparr>nd_in := evs\<rparr>" and ?x = "transfer p q k s r"
    obtain here where "transfer p q k (?s\<lparr>nd_b := blob_progress_ongoing_send env k b1\<rparr>) r =
        xfer_read (be_read env) here (transfer p q k (?s\<lparr>nd_b := b1\<rparr>) r)"
      using transfer_progress [OF inv] by blast
    moreover have "transfer p q k (?s\<lparr>nd_b := b1\<rparr>) r =
        ?x\<lparr>xf_acks := concat (map (ev_ack k) evs), xf_pending := None, xf_sending := Some (ps_file v)\<rparr>"
      using True by (simp add: transfer_def wire_cmds_def b1_def w_def)
    moreover have "transfer p q k (s\<lparr>nd_b := b, nd_in := evs\<rparr>) r = transfer p q k (?s\<lparr>nd_b := blob_progress_ongoing_send env k b1\<rparr>) r"
      using True by (simp add: transfer_def wire_cmds_def b) (simp add: blob_emit_def)
    moreover have "xf_acks ?x = XAccepted # concat (map (ev_ack k) evs)" "xf_pending ?x = Some (ps_file v)"
      using assms(2) Some True by (simp_all add: transfer_def)
    ultimately show ?thesis
      using xfer_step.accepted [of ?x "concat (map (ev_ack k) evs)" "ps_file v" "be_read env" here] by auto
  qed
qed

lemma transfer_progressed:
  assumes "blob_inv (nd_b s)" "nd_in s = TB_SendProgressed i rtt # evs"
    and "blob_on_handler_event env p0 (TB_SendProgressed i rtt) (nd_b s) = Returns b"
  shows "xfer_step\<^sup>*\<^sup>* (transfer p q k s r) (transfer p q k (s\<lparr>nd_b := b, nd_in := evs\<rparr>) r)"
proof -
  obtain b1 where b1: "b = blob_progress_ongoing_send env i b1" "b1 = nd_b s \<or> (\<exists>e. b1 = blob_emit e (nd_b s))"
    using assms(3) by (auto simp: Let_def split: option.splits)
  then have inv: "blob_inv b1" and same: "same_sending k (nd_b s) b1"
    using assms(1) by auto
  show ?thesis
  proof (cases "i = k")
    case False
    have "same_sending k (nd_b s) b"
      using same_sending_trans [OF same same_sending_progress_other [OF inv False, of env]] by (simp add: b1(1))
    then show ?thesis
      using transfer_same_sending [of k s b evs p q r] assms(2) False by simp
  next
    case True
    let ?s = "s\<lparr>nd_in := evs\<rparr>" and ?x = "transfer p q k s r"
    obtain here where "transfer p q k (?s\<lparr>nd_b := blob_progress_ongoing_send env k b1\<rparr>) r =
        xfer_read (be_read env) here (transfer p q k (?s\<lparr>nd_b := b1\<rparr>) r)"
      using transfer_progress [OF inv] by blast
    moreover have "transfer p q k (?s\<lparr>nd_b := b1\<rparr>) r = ?x\<lparr>xf_acks := concat (map (ev_ack k) evs)\<rparr>"
      using same by (simp add: transfer_def wire_cmds_def same_sending_def)
    moreover have "transfer p q k (s\<lparr>nd_b := b, nd_in := evs\<rparr>) r = transfer p q k (?s\<lparr>nd_b := blob_progress_ongoing_send env k b1\<rparr>) r"
      using True by (simp add: transfer_def wire_cmds_def b1(1))
    moreover have "xf_acks ?x = XProgress # concat (map (ev_ack k) evs)"
      using assms(2) True by (simp add: transfer_def)
    ultimately show ?thesis
      using xfer_step.progressed [of ?x "concat (map (ev_ack k) evs)" "be_read env" here] by auto
  qed
qed


lemma polled_forgets: "node_polled p env nd = (let b = blob_tick env (nd_b nd) in
    case bb_out_events b of
      _ # q \<Rightarrow> nd\<lparr>nd_b := b\<lparr>bb_out_events := q\<rparr>\<rparr>
    | [] \<Rightarrow> (case bb_pending_handler_event b of
        ev # q \<Rightarrow> nd\<lparr>nd_b := b\<lparr>bb_pending_handler_event := q\<rparr>, nd_out := nd_out nd @ to_handler p ev\<rparr>
      | [] \<Rightarrow> nd\<lparr>nd_b := b\<rparr>))"
  by (auto simp: node_polled_def blob_poll_def Let_def split: list.splits)

lemma transfer_polled_sender: "xfer_step (transfer p q k s r) (transfer p q k (node_polled p env s) r)"
proof -
  have "transfer p q k (node_polled p env s) r = transfer p q k (s\<lparr>nd_b := blob_tick env (nd_b s)\<rparr>) r"
    by (auto simp: polled_forgets transfer_def wire_cmds_def Let_def split: list.splits) (simp add: cmds_def)
  then show ?thesis
    using transfer_forgets_sender [OF blob_forgets_tick] by simp
qed

lemma transfer_closed_sender:
  assumes "node_inv p0 s"
  shows "xfer_step\<^sup>*\<^sup>* (transfer p q k s r) (transfer p q k (node_closed p1 s) r)"
proof -
  define b where "b = blob_on_swarm_event (ConnectionClosed \<lparr>cc_peer_id = p1, cc_remaining_established = 0\<rparr>) (nd_b s)"
  have "blob_forgets (nd_b s) b"
    unfolding b_def using assms by (intro blob_forgets_swarm blob_inv_tables) (simp add: node_inv_def)
  then have "xfer_step (transfer p q k s r) (transfer p q k (s\<lparr>nd_b := b\<rparr>) r)"
    by (rule transfer_forgets_sender)
  moreover have "xfer_step (transfer p q k (s\<lparr>nd_b := b\<rparr>) r) (transfer p q k (node_closed p1 s) r)"
    using xfer_step.sender_reset [of "transfer p q k (s\<lparr>nd_b := b\<rparr>) r" "length (msgs k (nd_out s))"]
    by (simp add: transfer_def wire_cmds_def node_closed_def b_def)
  ultimately show ?thesis
    by auto
qed

lemma transfer_forgets_handled:
  assumes "blob_forgets (nd_b s) b" "ev_ack k ev = []" "nd_in s = ev # evs"
  shows "xfer_step\<^sup>*\<^sup>* (transfer p q k s r) (transfer p q k (s\<lparr>nd_b := b, nd_in := evs\<rparr>) r)"
proof -
  have "transfer p q k (s\<lparr>nd_b := b, nd_in := evs\<rparr>) r = transfer p q k (s\<lparr>nd_b := b\<rparr>) r"
    using assms(2,3) by (simp add: transfer_def wire_cmds_def)
  then show ?thesis
    using transfer_forgets_sender [OF assms(1), of p q k r] by auto
qed

text \<open>Events of a connection that neither move a send on nor bring anything of a receive.\<close>

fun is_idle_event :: "blob_to_behaviour \<Rightarrow> bool" where
  "is_idle_event (TB_RecvProgressed i c) = False"
| "is_idle_event (TB_IncomingFile name i n) = False"
| "is_idle_event (TB_FileSendAccepted i) = False"
| "is_idle_event (TB_SendProgressed i rtt) = False"
| "is_idle_event ev = True"

lemma blob_forgets_idle:
  assumes "is_idle_event ev" "blob_on_handler_event env p ev b = Returns b'"
  shows "blob_forgets b b'"
proof (cases ev)
  case (TB_RemoteCancelSend i)
  with assms(2) show ?thesis
    by (auto intro: blob_forgets_trans [OF blob_forgets_basic(1) blob_forgets_basic(4)])
next
  case (TB_RemoteCancelRecv i)
  with assms(2) show ?thesis
    by (auto intro: blob_forgets_emit blob_forgets_eqs split: prod.splits option.splits)
qed (use assms blob_forgets_report [OF _ assms(2)] in auto)

lemma idle_silent: "is_idle_event ev \<Longrightarrow> ev_ack k ev = [] \<and> ev_msg k ev = []"
  by (cases ev) auto

lemma transfer_handled_sender:
  assumes "node_inv p s" "nd_in s = ev # evs" "blob_on_handler_event env p ev (nd_b s) = Returns b"
  shows "xfer_step\<^sup>*\<^sup>* (transfer p q k s r) (transfer p q k (s\<lparr>nd_b := b, nd_in := evs\<rparr>) r)"
proof -
  have inv: "blob_inv (nd_b s)"
    using assms(1) by (simp add: node_inv_def)
  show ?thesis
  proof (cases ev)
    case (TB_RecvProgressed i c)
    with assms(2,3) have "transfer p q k (s\<lparr>nd_b := b, nd_in := evs\<rparr>) r = transfer p q k s r"
      by (intro transfer_same_sending) (simp_all add: same_sending_progress_recv)
    then show ?thesis by simp
  next
    case (TB_IncomingFile name i n)
    with assms(2,3) have "transfer p q k (s\<lparr>nd_b := b, nd_in := evs\<rparr>) r = transfer p q k s r"
      by (intro transfer_same_sending) (auto simp: same_sending_new_recv)
    then show ?thesis by simp
  next
    case (TB_FileSendAccepted i)
    with assms show ?thesis by (intro transfer_accepted [OF inv]) auto
  next
    case (TB_SendProgressed i rtt)
    with assms show ?thesis by (intro transfer_progressed [OF inv]) auto
  qed (use assms(2,3) blob_forgets_idle [OF _ assms(3)] idle_silent in
      \<open>auto intro!: transfer_forgets_handled\<close>)
qed

lemma transfer_request_sender:
  assumes "node_inv p s" "request_ok ev" "blob_push_event env ev (nd_b s) = Returns (b, rs)"
  shows "xfer_step\<^sup>*\<^sup>* (transfer p q k s r)
    (transfer p q k (s\<lparr>nd_b := b, nd_files := log_request ev (bb_send_counter (nd_b s)) (nd_files s)\<rparr>) r)"
proof (cases ev)
  case (In_SendFile f path to cb)
  with assms transfer_send_file show ?thesis by fastforce
next
  case (In_AcceptFile f i path cb)
  with assms(3) have "same_sending k (nd_b s) b"
    using same_sending_accept [of k "nd_b s" env f path i cb] by simp
  then show ?thesis
    using transfer_same_sending [of k s b "nd_in s" p q r] In_AcceptFile by simp
next
  case (In_CancelRecv i cb)
  with assms(3) have "blob_forgets (nd_b s) b"
    by (auto intro: blob_forgets_eqs split: prod.splits bool.splits)
  then show ?thesis
    using transfer_forgets_sender In_CancelRecv by fastforce
next
  case (In_CancelSend i cb)
  with assms(3) have "blob_forgets (nd_b s) b"
    by (auto intro: blob_forgets_eqs split: prod.splits bool.splits)
  then show ?thesis
    using transfer_forgets_sender In_CancelSend by fastforce
qed (use assms(3) in \<open>auto simp: and_then_Returns_iff\<close>)

lemma transfer_step_sender:
  assumes "node_inv p s" "node_step p s s'"
  shows "xfer_step\<^sup>*\<^sup>* (transfer p q k s r) (transfer p q k s' r)"
  using assms(2)
proof (cases rule: node_step.cases)
  case (request ev env b rs)
  with assms(1) transfer_request_sender show ?thesis by blast
next
  case (poll env)
  then show ?thesis using transfer_polled_sender by blast
next
  case (handle ev evs env b)
  with assms(1) transfer_handled_sender show ?thesis by blast
next
  case (report ev env b)
  with blob_forgets_report transfer_forgets_sender show ?thesis by blast
next
  case close
  with assms(1) transfer_closed_sender show ?thesis by blast
next
  case (swarm ev)
  moreover have "blob_forgets (nd_b s) (blob_on_swarm_event ev (nd_b s))"
    using assms(1) by (intro blob_forgets_swarm blob_inv_tables) (simp add: node_inv_def)
  ultimately show ?thesis using transfer_forgets_sender by blast
next
  case (rehash b)
  moreover from this have "blob_forgets (nd_b s) b"
    using assms(1) by (intro blob_forgets_rehash blob_inv_tables) (simp_all add: node_inv_def)
  ultimately show ?thesis using transfer_forgets_sender by blast
qed

section \<open>Steps of the receiver\<close>

definition same_receiving :: "u64 \<Rightarrow> blob_behaviour \<Rightarrow> blob_behaviour \<Rightarrow> bool" where
  "same_receiving k b b' \<longleftrightarrow> offers k b' = offers k b \<and> receiving k b' = receiving k b
     \<and> (\<forall>p. accepts k (cmds p b') = accepts k (cmds p b))"

lemma same_receiving_refl [simp]: "same_receiving k b b"
  by (simp add: same_receiving_def)

lemma offers_same [simp]:
  "offers k (blob_emit ev b) = offers k b" "offers k (b\<lparr>bb_ongoing_recv := m3\<rparr>) = offers k b"
  "offers k (b\<lparr>bb_ongoing_send := m1\<rparr>) = offers k b" "offers k (b\<lparr>bb_pending_send := m2\<rparr>) = offers k b"
  "offers k (b\<lparr>bb_recv_counter := c\<rparr>) = offers k b" "offers k (b\<lparr>bb_send_counter := c\<rparr>) = offers k b"
  "offers k (blob_notify p cmd b) = offers k b"
  "offers k (b\<lparr>bb_out_events := q\<rparr>) = offers k b" "offers k (b\<lparr>bb_pending_handler_event := q'\<rparr>) = offers k b"
  by (simp_all add: offers_def blob_emit_def blob_notify_def)

lemma receiving_same [simp]:
  "receiving k (blob_emit ev b) = receiving k b" "receiving k (b\<lparr>bb_pending_recv := m4\<rparr>) = receiving k b"
  "receiving k (b\<lparr>bb_ongoing_send := m1\<rparr>) = receiving k b" "receiving k (b\<lparr>bb_pending_send := m2\<rparr>) = receiving k b"
  "receiving k (b\<lparr>bb_recv_counter := c\<rparr>) = receiving k b" "receiving k (b\<lparr>bb_send_counter := c\<rparr>) = receiving k b"
  "receiving k (blob_notify p cmd b) = receiving k b"
  "receiving k (b\<lparr>bb_out_events := q\<rparr>) = receiving k b" "receiving k (b\<lparr>bb_pending_handler_event := q'\<rparr>) = receiving k b"
  by (simp_all add: receiving_def blob_emit_def blob_notify_def)

lemma receiving_update [simp]:
  "receiving k (b\<lparr>bb_ongoing_recv := hm_insert i v m\<rparr>) =
     (if i = k then Some (or_bytes_received v, or_bytes_total v, or_file_handle v) else receiving k (b\<lparr>bb_ongoing_recv := m\<rparr>))"
  "receiving k (b\<lparr>bb_ongoing_recv := hm_remove i m\<rparr>) = (if i = k then None else receiving k (b\<lparr>bb_ongoing_recv := m\<rparr>))"
  by (auto simp: receiving_def)

lemma receiving_self [simp]: "bb_ongoing_recv b = m \<Longrightarrow> receiving k (b\<lparr>bb_ongoing_recv := m\<rparr>) = receiving k b"
  by (simp add: receiving_def)

lemma same_receiving_emit [simp]: "same_receiving k b (blob_emit ev b') = same_receiving k b b'"
  by (simp add: same_receiving_def)

lemma transfer_same_receiving:
  "same_receiving k (nd_b r) b \<Longrightarrow> concat (map (ev_msg k) evs) = concat (map (ev_msg k) (nd_in r)) \<Longrightarrow>
    transfer p q k s (r\<lparr>nd_b := b, nd_in := evs, nd_files := log\<rparr>) = transfer p q k s r"
  by (simp add: transfer_def wire_cmds_def same_receiving_def)

lemma same_receiving_send_file: "blob_send_file env f path to cb b = Returns (b', rs) \<Longrightarrow> same_receiving k b b'"
  by (auto simp: blob_send_file_def blob_next_send_id_def same_receiving_def Let_def split: if_splits option.splits)

lemma same_receiving_progress: "same_receiving k b (blob_progress_ongoing_send env i b)"
  by (auto simp: same_receiving_def blob_progress_ongoing_send_def Let_def split: option.splits sum.splits)

lemma same_receiving_trans: "same_receiving k a b \<Longrightarrow> same_receiving k b c \<Longrightarrow> same_receiving k a c"
  by (simp add: same_receiving_def)

lemma same_receiving_accepted:
  assumes "blob_on_handler_event env p (TB_FileSendAccepted i) b = Returns b'"
  shows "same_receiving k b b'"
proof -
  have "same_receiving k b (blob_progress_ongoing_send env j (b\<lparr>bb_pending_send := m1, bb_ongoing_send := m2\<rparr>))" for j m1 m2
    by (rule same_receiving_trans [OF _ same_receiving_progress]) (simp add: same_receiving_def)
  with assms show ?thesis
    by (auto simp: blob_pending_send_accepted_def Let_def split: if_splits option.splits)
qed

definition write_outcome :: "u8 list \<Rightarrow> nat \<Rightarrow> fs_file \<Rightarrow> io_error + nat \<times> fs_file \<Rightarrow> bool" where
  "write_outcome content cursor f y \<longleftrightarrow> cursor < length content \<longrightarrow>
     (\<forall>c' f'. y = Inr (c', f') \<longrightarrow> c' = length content \<and> f' = file_put (drop cursor content) f)"

lemma write_loop_outcome:
  assumes "blob_write_loop ans i f content cursor = Some y"
  shows "write_outcome content cursor f y"
proof (rule blob_write_loop.raw_induct [where P = "\<lambda>_ _ f content cursor. write_outcome content cursor f", OF _ assms], goal_cases)
  case (1 loop ans i f content cursor y)
  show ?case
    unfolding write_outcome_def
  proof (intro impI allI)
    fix c' f' assume less: "cursor < length content" and y: "y = Inr (c', f')"
    obtain n f1 where w: "file_write (ans i) (drop cursor content) f = Inr (n, f1)"
      using 1(2) y by (cases "file_write (ans i) (drop cursor content) f") auto
    then obtain m where m: "ans i = Inr m" "n = min m (length (drop cursor content))"
      "f1 = (if m = 0 then f else file_put (take m (drop cursor content)) f)"
      using less by (cases "ans i") (auto simp: file_write_def)
    then have n: "n \<le> length content - cursor"
      and f1: "n \<noteq> 0 \<Longrightarrow> f1 = file_put (take n (drop cursor content)) f" "n = 0 \<Longrightarrow> f1 = f"
      using less by (auto simp: min_def split: if_splits)
    have split: "take n (drop cursor content) @ drop (cursor + n) content = drop cursor content"
      by (metis add.commute append_take_drop_id drop_drop)
    show "c' = length content \<and> f' = file_put (drop cursor content) f"
    proof (cases "cursor + n \<ge> length content")
      case True
      with n less have "cursor + n = length content" "n \<noteq> 0" by auto
      with True 1(2) y w f1(1) split show ?thesis by simp
    next
      case False
      with 1(2) w have "loop ans (Suc i) f1 content (cursor + n) = Some y" by simp
      from 1(1) [OF this] False y
      have "c' = length content \<and> f' = file_put (drop (cursor + n) content) f1" by (simp add: write_outcome_def)
      with f1 split show ?thesis by (cases "n = 0") (simp_all add: file_put_put)
    qed
  qed
qed

lemma write_loop_success:
  "blob_write_loop ans i f content cursor = Some (Inr (c', f')) \<Longrightarrow> cursor < length content \<Longrightarrow>
    c' = length content \<and> f' = file_put (drop cursor content) f"
  using write_loop_outcome unfolding write_outcome_def by blast

lemma transfer_recv_progressed:
  assumes "nd_in r = TB_RecvProgressed i c # evs" "blob_progress_ongoing_recv env i c (nd_b r) = Returns b"
  shows "xfer_step\<^sup>*\<^sup>* (transfer p q k s r) (transfer p q k s (r\<lparr>nd_b := b, nd_in := evs\<rparr>))"
proof (cases "i = k")
  case False
  have "same_receiving k (nd_b r) b"
    using assms(2) False
    by (auto simp: blob_progress_ongoing_recv_def same_receiving_def Let_def split: option.splits if_splits sum.splits)
  then show ?thesis
    using transfer_same_receiving [of k r b evs p q s "nd_files r"] assms(1) False by simp
next
  case True
  let ?x = "transfer p q k s r" and ?ms = "concat (map (ev_msg k) evs)"
  have arr: "xf_arrived ?x = XChunk c # ?ms"
    using assms(1) True by (simp add: transfer_def)
  have rest: "offers k b = offers k (nd_b r)" "accepts k (cmds q' b) = accepts k (cmds q' (nd_b r))" for q'
    using assms(2) by (auto simp: blob_progress_ongoing_recv_def Let_def split: option.splits if_splits sum.splits)
  consider (gone) "receiving k b = None"
    | (kept) r0 t f where "c \<noteq> []" "receiving k (nd_b r) = Some (r0, t, f)"
        "receiving k b = Some (r0 + of_nat (length c), t, file_put c f)"
  proof (cases "receiving k b")
    case (Some y)
    with assms(2) True obtain v where v: "hm_get (bb_ongoing_recv (nd_b r)) k = Some v"
      by (auto simp: blob_progress_ongoing_recv_def receiving_def split: option.splits)
    moreover from this assms(2) True Some have "c \<noteq> []"
      by (auto simp: blob_progress_ongoing_recv_def Let_def split: if_splits)
    moreover from this calculation assms(2) True Some obtain n fh where
      "blob_write_loop (be_write env) 0 (or_file_handle v) c 0 = Some (Inr (n, fh))"
      "y = (or_bytes_received v + of_nat n, or_bytes_total v, fh)"
      by (auto simp: blob_progress_ongoing_recv_def Let_def split: option.splits if_splits sum.splits)
    ultimately show thesis
      using that(2) Some write_loop_success [of "be_write env" 0 "or_file_handle v" c 0 n fh]
      by (auto simp: receiving_def)
  qed (rule that)
  then show ?thesis
  proof cases
    case gone
    then have "?x\<lparr>xf_arrived := ?ms, xf_recv := None\<rparr> = transfer p q k s (r\<lparr>nd_b := b, nd_in := evs\<rparr>)"
      using rest by (simp add: transfer_def wire_cmds_def)
    then show ?thesis using xfer_step.dropped [OF arr] by auto
  next
    case (kept r0 t f)
    then have "?x\<lparr>xf_arrived := ?ms, xf_recv := Some (r0 + of_nat (length c), t, file_put c f)\<rparr> =
        transfer p q k s (r\<lparr>nd_b := b, nd_in := evs\<rparr>)"
      using rest by (simp add: transfer_def wire_cmds_def)
    moreover have "xf_recv ?x = Some (r0, t, f)"
      using kept(2) by (simp add: transfer_def)
    ultimately show ?thesis using xfer_step.stored [OF arr kept(1)] by auto
  qed
qed


lemma transfer_incoming:
  assumes "node_inv p0 r" "nd_in r = TB_IncomingFile name i n # evs"
  shows "xfer_step\<^sup>*\<^sup>* (transfer p q k s r)
    (transfer p q k s (r\<lparr>nd_b := blob_on_new_pending_recv env p0 name i n (nd_b r), nd_in := evs\<rparr>))"
proof -
  let ?b = "blob_on_new_pending_recv env p0 name i n (nd_b r)" and ?j = "bb_recv_counter (nd_b r)"
  have fresh: "hm_get (bb_pending_recv (nd_b r)) ?j = None"
    using assms(1) blob_inv_pending_recvD(2) [of "nd_b r" ?j] by (cases "hm_get (bb_pending_recv (nd_b r)) ?j") (auto simp: node_inv_def)
  have b: "offers k ?b = (if i = k then (offers k (nd_b r))(?j \<mapsto> n) else offers k (nd_b r))"
    "receiving k ?b = receiving k (nd_b r)" "accepts k (cmds q' ?b) = accepts k (cmds q' (nd_b r))" for q'
    using fresh by (auto simp: blob_on_new_pending_recv_def blob_next_recv_id_def Let_def) (auto simp: offers_def fun_eq_iff)
  show ?thesis
  proof (cases "i = k")
    case False
    with b have "same_receiving k (nd_b r) ?b" by (simp add: same_receiving_def)
    then show ?thesis
      using transfer_same_receiving [of k r ?b evs p q s "nd_files r"] assms(2) False by simp
  next
    case True
    let ?x = "transfer p q k s r" and ?ms = "concat (map (ev_msg k) evs)"
    have "xfer_step ?x (?x\<lparr>xf_arrived := ?ms, xf_offers := (xf_offers ?x)(?j \<mapsto> n)\<rparr>)"
      using fresh assms(2) True by (intro xfer_step.offered) (simp_all add: transfer_def offers_def)
    moreover have "?x\<lparr>xf_arrived := ?ms, xf_offers := (xf_offers ?x)(?j \<mapsto> n)\<rparr> =
        transfer p q k s (r\<lparr>nd_b := ?b, nd_in := evs\<rparr>)"
      using b True by (simp add: transfer_def wire_cmds_def)
    ultimately show ?thesis by auto
  qed
qed

lemma transfer_accept_file:
  assumes "blob_accept_pending_recv env \<lparr>f_data = [], f_pos = 0\<rparr> path i cb (nd_b r) = (b, rs)"
  shows "xfer_step\<^sup>*\<^sup>* (transfer p q k s r) (transfer p q k s (r\<lparr>nd_b := b\<rparr>))"
proof (cases "hm_get (bb_pending_recv (nd_b r)) i")
  case None
  with assms show ?thesis by (auto simp: blob_accept_pending_recv_def)
next
  case (Some v)
  show ?thesis
  proof (cases "pr_remote_send_id v = k")
    case False
    with assms Some have "same_receiving k (nd_b r) b"
      by (auto simp: blob_accept_pending_recv_def same_receiving_def Let_def) (auto simp: offers_def fun_eq_iff)
    then show ?thesis
      using transfer_same_receiving [of k r b "nd_in r" p q s "nd_files r"] by simp
  next
    case True
    let ?x = "transfer p q k s r" and ?n = "if pr_remote v = q then 1 else 0 :: nat"
    let ?x' = "?x\<lparr>xf_offers := (xf_offers ?x)(i := None), xf_recv := Some (0, pr_bytes_total v, \<lparr>f_data = [], f_pos = 0\<rparr>),
        xf_accepts := xf_accepts ?x + ?n\<rparr>"
    have "xfer_step ?x ?x'"
      using Some True by (intro xfer_step.accept) (simp_all add: transfer_def offers_def)
    moreover have "offers k b = (offers k (nd_b r))(i := None)"
      "receiving k b = Some (0, pr_bytes_total v, \<lparr>f_data = [], f_pos = 0\<rparr>)" "accepts k (cmds q b) = accepts k (cmds q (nd_b r)) + ?n"
      using assms Some True by (auto simp: blob_accept_pending_recv_def Let_def) (auto simp: offers_def fun_eq_iff)
    then have "?x' = transfer p q k s (r\<lparr>nd_b := b\<rparr>)"
      by (simp add: transfer_def wire_cmds_def)
    ultimately show ?thesis by auto
  qed
qed

lemma transfer_polled_receiver: "xfer_step (transfer p q k s r) (transfer p q k s (node_polled q env r))"
proof -
  have "transfer p q k s (node_polled q env r) = transfer p q k s (r\<lparr>nd_b := blob_tick env (nd_b r)\<rparr>)"
    by (auto simp: polled_forgets transfer_def wire_cmds_def Let_def split: list.splits) (simp add: cmds_def)
  then show ?thesis
    using transfer_forgets_receiver [OF blob_forgets_tick] by simp
qed

lemma transfer_closed_receiver:
  assumes "node_inv q r"
  shows "xfer_step (transfer p q k s r) (transfer p q k s (node_closed q r))"
proof -
  define b where "b = blob_on_swarm_event (ConnectionClosed \<lparr>cc_peer_id = q, cc_remaining_established = 0\<rparr>) (nd_b r)"
  have wf: "blob_tables_wf (nd_b r)"
    using assms by (intro blob_inv_tables) (simp add: node_inv_def)
  have "hm_get (bb_pending_recv b) i = None" "hm_get (bb_ongoing_recv b) i = None" for i
    using assms wf by (auto simp: b_def blob_on_disconnect_def node_inv_def blob_tables_wf_def hm_get_retain split: option.splits)
  then have "offers k b = Map.empty" "receiving k b = None"
    by (simp_all add: offers_def receiving_def)
  moreover have "cmds q b = cmds q (nd_b r)"
    by (simp add: b_def blob_on_disconnect_def)
  ultimately have "(transfer p q k s r)\<lparr>xf_arrived := [], xf_offers := Map.empty, xf_recv := None,
      xf_accepts := accepts k (cmds q (nd_b r))\<rparr> = transfer p q k s (node_closed q r)"
    by (simp add: transfer_def wire_cmds_def node_closed_def b_def)
  moreover have "accepts k (cmds q (nd_b r)) \<le> xf_accepts (transfer p q k s r)"
    by (simp add: transfer_def wire_cmds_def)
  ultimately show ?thesis
    using xfer_step.receiver_reset by metis
qed

lemma transfer_handled_receiver:
  assumes "node_inv q r" "nd_in r = ev # evs" "blob_on_handler_event env q ev (nd_b r) = Returns b"
  shows "xfer_step\<^sup>*\<^sup>* (transfer p q k s r) (transfer p q k s (r\<lparr>nd_b := b, nd_in := evs\<rparr>))"
proof -
  have same: ?thesis if "same_receiving k (nd_b r) b" "ev_msg k ev = []"
    using transfer_same_receiving [OF that(1), of evs p q s "nd_files r"] assms(2) that(2) by simp
  show ?thesis
  proof (cases ev)
    case (TB_RecvProgressed i c)
    with assms transfer_recv_progressed show ?thesis by fastforce
  next
    case (TB_IncomingFile name i n)
    with assms transfer_incoming show ?thesis by fastforce
  next
    case (TB_FileSendAccepted i)
    with assms(3) show ?thesis by (intro same) (auto intro: same_receiving_accepted)
  next
    case (TB_SendProgressed i rtt)
    obtain b1 where "b = blob_progress_ongoing_send env i b1" "b1 = nd_b r \<or> (\<exists>e. b1 = blob_emit e (nd_b r))"
      using assms(3) TB_SendProgressed by (auto simp: Let_def split: option.splits)
    then show ?thesis
      using TB_SendProgressed by (intro same) (auto intro: same_receiving_trans [OF _ same_receiving_progress])
  qed (use assms(2) idle_silent [of ev k] blob_forgets_idle [OF _ assms(3)]
      transfer_forgets_receiver [of r b p q k s] transfer_def wire_cmds_def in \<open>auto simp: transfer_def wire_cmds_def\<close>)
qed


lemma transfer_request_receiver:
  assumes "request_ok ev" "blob_push_event env ev (nd_b r) = Returns (b, rs)"
  shows "xfer_step\<^sup>*\<^sup>* (transfer p q k s r) (transfer p q k s (r\<lparr>nd_b := b, nd_files := log\<rparr>))"
proof -
  have log: "transfer p q k s (r\<lparr>nd_b := b, nd_files := log\<rparr>) = transfer p q k s (r\<lparr>nd_b := b\<rparr>)"
    by (simp add: transfer_def wire_cmds_def)
  show ?thesis
  proof (cases ev)
    case (In_SendFile f path to cb)
    with assms(2) have "same_receiving k (nd_b r) b"
      by (auto intro: same_receiving_send_file)
    then show ?thesis
      using transfer_same_receiving [of k r b "nd_in r" p q s log] by simp
  next
    case (In_AcceptFile f i path cb)
    with assms transfer_accept_file show ?thesis unfolding log by fastforce
  next
    case (In_CancelRecv i cb)
    with assms(2) have "blob_forgets (nd_b r) b"
      by (auto intro: blob_forgets_eqs split: prod.splits bool.splits)
    then show ?thesis
      unfolding log using transfer_forgets_receiver by blast
  next
    case (In_CancelSend i cb)
    with assms(2) have "blob_forgets (nd_b r) b"
      by (auto intro: blob_forgets_eqs split: prod.splits bool.splits)
    then show ?thesis
      unfolding log using transfer_forgets_receiver by blast
  qed (use assms(2) log in \<open>auto simp: and_then_Returns_iff\<close>)
qed

lemma transfer_step_receiver:
  assumes "node_inv q r" "node_step q r r'"
  shows "xfer_step\<^sup>*\<^sup>* (transfer p q k s r) (transfer p q k s r')"
  using assms(2)
proof (cases rule: node_step.cases)
  case (request ev env b rs)
  with transfer_request_receiver show ?thesis by blast
next
  case (poll env)
  then show ?thesis using transfer_polled_receiver by blast
next
  case (handle ev evs env b)
  with assms(1) transfer_handled_receiver show ?thesis by blast
next
  case (report ev env b)
  with blob_forgets_report transfer_forgets_receiver show ?thesis by blast
next
  case close
  with assms(1) transfer_closed_receiver show ?thesis by blast
next
  case (swarm ev)
  moreover have "blob_forgets (nd_b r) (blob_on_swarm_event ev (nd_b r))"
    using assms(1) by (intro blob_forgets_swarm blob_inv_tables) (simp add: node_inv_def)
  ultimately show ?thesis using transfer_forgets_receiver by blast
next
  case (rehash b)
  moreover from this have "blob_forgets (nd_b r) b"
    using assms(1) by (intro blob_forgets_rehash blob_inv_tables) (simp_all add: node_inv_def)
  ultimately show ?thesis using transfer_forgets_receiver by blast
qed

end
