(* ===== verification/Blob_Agreement.thy ===== *)
theory Blob_Agreement
  imports Blob_Network "HOL-Library.Code_Target_Nat"
begin

text \<open>
  What two peers can rely on when they exchange files. The steps of both nodes keep their invariants
  and refine the protocol of every transfer, so its invariant holds for every send id in either
  direction, whatever the order in which the nodes, their handlers and the applications act.
\<close>

section \<open>Every node keeps its invariant\<close>

lemma node_step_blob_step: "node_step p s s' \<Longrightarrow> blob_inv (nd_b s) \<Longrightarrow> blob_inv (nd_b s')"
proof (induction rule: node_step.induct)
  case (poll nd env)
  then show ?case
    using blob_inv_poll [of "nd_b nd" env] by (cases "blob_poll env (nd_b nd)") (simp add: node_polled_def)
next
  case (report ev env nd b)
  then show ?case
    using blob_inv_tables [of "nd_b nd"] blob_inv_connected [of "nd_b nd"]
    by (cases ev) (auto simp: blob_tables_wf_def)
qed (auto simp: node_closed_def intro: blob_inv_push_event blob_inv_on_handler_event blob_inv_on_swarm_event blob_inv_rehash
    blob_inv_on_disconnect)

text \<open>Receives come from the peer at the other end, and ids of sends are below the counter.\<close>

definition node_books :: "peer_id \<Rightarrow> blob_behaviour \<Rightarrow> bool" where
  "node_books p b \<longleftrightarrow> (\<forall>i v. hm_get (bb_pending_recv b) i = Some v \<longrightarrow> pr_remote v = p)
     \<and> (\<forall>i v. hm_get (bb_ongoing_recv b) i = Some v \<longrightarrow> or_remote v = p)"

lemma node_books_forgets:
  assumes "blob_forgets b b'" "node_books p b"
  shows "node_books p b'"
proof -
  have "hm_get (bb_pending_recv b') i \<in> {None, hm_get (bb_pending_recv b) i}"
    "hm_get (bb_ongoing_recv b') i \<in> {None, hm_get (bb_ongoing_recv b) i}" for i
    using assms(1) by (intro map_le_lookup; simp add: blob_forgets_def)+
  with assms(2) show ?thesis
    unfolding node_books_def by (metis insertE singletonD option.distinct(1))
qed


lemma node_books_progress_send: "node_books p (blob_progress_ongoing_send env i b) = node_books p b"
  by (auto simp: node_books_def blob_progress_ongoing_send_def blob_notify_def Let_def split: option.splits sum.splits)

lemma node_books_handler:
  assumes "blob_on_handler_event env p ev b = Returns b'" "node_books p b"
  shows "node_books p b'"
proof (cases "is_idle_event ev")
  case True
  with assms blob_forgets_idle node_books_forgets show ?thesis by blast
next
  case False
  have same: "node_books p (blob_emit e b1) = node_books p b1"
    "node_books p (b1\<lparr>bb_pending_send := m1, bb_ongoing_send := m2\<rparr>) = node_books p b1" for e b1 m1 m2
    by (simp_all add: node_books_def blob_emit_def)
  show ?thesis
  proof (cases ev)
    case (TB_RecvProgressed i c)
    with assms show ?thesis
      by (auto simp: blob_progress_ongoing_recv_def node_books_def blob_emit_def Let_def
          split: option.splits if_splits sum.splits)
  next
    case (TB_IncomingFile name i n)
    with assms show ?thesis
      by (auto simp: blob_on_new_pending_recv_def blob_next_recv_id_def same) (auto simp: node_books_def)
  next
    case (TB_FileSendAccepted i)
    with assms show ?thesis
      by (auto simp: blob_pending_send_accepted_def Let_def same node_books_progress_send split: if_splits option.splits)
  next
    case (TB_SendProgressed i rtt)
    with assms show ?thesis
      by (auto simp: Let_def same node_books_progress_send split: option.splits)
  qed (use False in auto)
qed

lemma node_books_request:
  assumes "blob_push_event env ev b = Returns (b', rs)" "node_books p b"
  shows "node_books p b'"
proof (cases ev)
  case (In_SendFile f path to cb)
  with assms show ?thesis
    by (auto simp: blob_send_file_def blob_next_send_id_def node_books_def blob_notify_def Let_def split: if_splits option.splits)
next
  case (In_AcceptFile f i path cb)
  with assms show ?thesis
    by (auto simp: blob_accept_pending_recv_def node_books_def blob_notify_def Let_def split: option.splits if_splits)
next
  case (In_CancelRecv i cb)
  with assms show ?thesis
    by (auto intro: node_books_forgets blob_forgets_eqs split: prod.splits bool.splits)
next
  case (In_CancelSend i cb)
  with assms show ?thesis
    by (auto intro: node_books_forgets blob_forgets_eqs split: prod.splits bool.splits)
qed (use assms in \<open>auto simp: and_then_Returns_iff\<close>)

lemma node_books_step: "node_step p s s' \<Longrightarrow> blob_inv (nd_b s) \<Longrightarrow> node_books p (nd_b s) \<Longrightarrow> node_books p (nd_b s')"
proof (induction rule: node_step.induct)
  case (poll nd env)
  have "node_books p (blob_tick env (nd_b nd))"
    using poll(2) by (rule node_books_forgets [OF blob_forgets_tick])
  then show ?case
    by (auto simp: polled_forgets Let_def node_books_def split: list.splits)
next
  case (close nd)
  then show ?case
    using node_books_forgets [OF blob_forgets_on_disconnect [OF blob_inv_tables]] by (simp add: node_closed_def)
next
  case (swarm nd ev)
  then show ?case
    using node_books_forgets [OF blob_forgets_swarm [OF blob_inv_tables]] by simp
next
  case (rehash nd b)
  then show ?case
    using node_books_forgets [OF blob_forgets_rehash [OF blob_inv_tables]] by simp
qed (auto intro: node_books_request node_books_handler)

text \<open>The log names no id that has not been handed out.\<close>

definition log_ok :: "blob_node \<Rightarrow> bool" where
  "log_ok nd \<longleftrightarrow> (\<forall>k. bb_send_counter (nd_b nd) \<le> k \<longrightarrow> map_of (nd_files nd) k = None)"

lemma node_inv_alt: "node_inv p nd \<longleftrightarrow> blob_inv (nd_b nd) \<and> log_ok nd \<and> node_books p (nd_b nd)"
  by (auto simp: node_inv_def log_ok_def node_books_def)

lemma log_ok_step: "node_step p s s' \<Longrightarrow> blob_inv (nd_b s) \<Longrightarrow> log_ok s \<Longrightarrow> log_ok s'"
proof (induction rule: node_step.induct)
  case (request nd ev env b rs)
  show ?case
  proof (cases ev)
    case (In_SendFile f path to cb)
    let ?c = "bb_send_counter (nd_b nd)"
    have b: "bb_send_counter b = ?c + 1"
      using request(3) In_SendFile
      by (auto simp: blob_send_file_def blob_next_send_id_def blob_notify_def Let_def split: if_splits option.splits)
    have "?c < ?c + 1"
      using request(1) word_Suc_less by (simp add: blob_no_wrap_def)
    then have "k \<noteq> ?c \<and> ?c \<le> k" if "?c + 1 \<le> k" for k
      using that by auto
    with request(5) b In_SendFile show ?thesis
      by (auto simp: log_ok_def)
  next
    case (In_AcceptFile f i path cb)
    with request blob_same_counters_eqs show ?thesis
      by (auto simp: log_ok_def blob_same_counters_def)
  qed (use request blob_same_counters_eqs in
      \<open>auto simp: log_ok_def blob_same_counters_def and_then_Returns_iff split: prod.splits bool.splits\<close>)
next
  case (poll nd env)
  then show ?case
    using blob_same_counters_poll [of "nd_b nd" env]
    by (cases "blob_poll env (nd_b nd)") (simp add: node_polled_def log_ok_def blob_same_counters_def)
next
  case (handle nd ev evs env b)
  have "blob_counters_le (nd_b nd) b"
    using handle(2,3) by (auto intro: blob_counters_le_step blob_step.connection)
  with handle(5) show ?case
    by (auto simp: log_ok_def blob_counters_le_def)
next
  case (report ev env nd b)
  then show ?case
    using blob_forgets_report [OF report(1,2)] by (simp add: log_ok_def blob_forgets_def)
next
  case (close nd)
  then show ?case
    using blob_forgets_on_disconnect [OF blob_inv_tables] by (simp add: node_closed_def log_ok_def blob_forgets_def)
next
  case (swarm nd ev)
  then show ?case
    using blob_forgets_swarm [OF blob_inv_tables] by (simp add: log_ok_def blob_forgets_def)
next
  case (rehash nd b)
  then show ?case
    using blob_forgets_rehash [OF blob_inv_tables] by (simp add: log_ok_def blob_forgets_def)
qed

lemma node_inv_step: "node_inv p s \<Longrightarrow> node_step p s s' \<Longrightarrow> node_inv p s'"
  unfolding node_inv_alt by (auto intro: node_step_blob_step node_books_step log_ok_step)


section \<open>The network refines the protocol of every transfer\<close>

definition net_transfer :: "(side \<Rightarrow> peer_id) \<Rightarrow> blob_net \<Rightarrow> side \<Rightarrow> u64 \<Rightarrow> xfer" where
  "net_transfer pid n X k = transfer (pid (other X)) (pid X) k (n X) (n (other X))"

definition net_inv :: "(side \<Rightarrow> peer_id) \<Rightarrow> blob_net \<Rightarrow> bool" where
  "net_inv pid n \<longleftrightarrow> (\<forall>X. node_inv (pid (other X)) (n X)) \<and> (\<forall>X k. xfer_inv (net_transfer pid n X k))"

lemma other_other [simp]: "other (other X) = X" "other X \<noteq> X" "X \<noteq> other X"
  by (cases X; simp)+

lemma side_cases: "Y = X \<or> Y = other X"
  by (cases X; cases Y) simp_all

lemma ev_msg_mirror: "ev_msg k (blob_mirror c) = cmd_msg k c"
  by (cases c) auto

lemma ev_ack_mirror: "ev_ack k (blob_mirror c) = replicate (cmd_accepts k c) XAccepted"
  by (cases c) auto

lemma ev_ack_sent: "concat (map (ev_ack k) (sent_events rtt c)) = concat (map acks_of (cmd_msg k c))"
  by (cases c) auto

lemma ev_msg_sent: "concat (map (ev_msg k) (sent_events rtt c)) = []"
  by (cases c) auto

lemma cmd_msg_cases: "cmd_msg k c = [] \<or> (\<exists>m. cmd_msg k c = [m] \<and> cmd_accepts k c = 0)"
  by (cases c) auto

lemma cmd_accepts_cases: "cmd_accepts k c = 0 \<or> cmd_accepts k c = 1 \<and> cmd_msg k c = []"
  by (cases c) auto

lemma transfer_transmit_forward:
  assumes "nd_out s = c # cs" "arr = [] \<and> ack = [] \<or> arr = [blob_mirror c] \<and> ack \<in> {[], sent_events rtt c}"
  shows "xfer_step\<^sup>*\<^sup>* (transfer p q k s r)
    (transfer p q k (s\<lparr>nd_out := cs, nd_in := nd_in s @ ack\<rparr>) (r\<lparr>nd_in := nd_in r @ arr\<rparr>))" (is "xfer_step\<^sup>*\<^sup>* ?x ?x'")
proof -
  have x': "?x' = ?x\<lparr>xf_up := msgs k cs @ msgs k (cmds p (nd_b s)), xf_arrived := xf_arrived ?x @ concat (map (ev_msg k) arr),
      xf_acks := xf_acks ?x @ concat (map (ev_ack k) ack)\<rparr>"
    by (simp add: transfer_def wire_cmds_def)
  consider "cmd_msg k c = []" | m where "cmd_msg k c = [m]"
    using cmd_msg_cases by blast
  then show ?thesis
  proof cases
    case 1
    then have "concat (map (ev_msg k) arr) = []" "concat (map (ev_ack k) ack) = []"
      using assms(2) ev_msg_mirror [of k c] ev_ack_sent [of k rtt c] by auto
    then have "?x' = ?x"
      using 1 assms(1) by (simp only: x') (simp add: transfer_def wire_cmds_def)
    then show ?thesis by simp
  next
    case 2
    have "xf_up ?x = m # (msgs k cs @ msgs k (cmds p (nd_b s)))"
      using 2 assms(1) by (simp add: transfer_def wire_cmds_def)
    moreover have "concat (map (ev_msg k) arr) = [] \<and> concat (map (ev_ack k) ack) = []
        \<or> concat (map (ev_msg k) arr) = [m] \<and> concat (map (ev_ack k) ack) \<in> {[], acks_of m}"
      using assms(2) 2 ev_msg_mirror [of k c] ev_ack_sent [of k rtt c] by auto
    ultimately show ?thesis
      unfolding x' by (blast intro: xfer_step.transmit)
  qed
qed

lemma transfer_transmit_backward:
  assumes "nd_out r = c # cs" "arr = [] \<and> ack = [] \<or> arr = [blob_mirror c] \<and> ack \<in> {[], sent_events rtt c}"
  shows "xfer_step\<^sup>*\<^sup>* (transfer p q k s r)
    (transfer p q k (s\<lparr>nd_in := nd_in s @ arr\<rparr>) (r\<lparr>nd_out := cs, nd_in := nd_in r @ ack\<rparr>))" (is "xfer_step\<^sup>*\<^sup>* ?x ?x'")
proof -
  have "concat (map (ev_msg k) ack) = []"
    using assms(2) ev_msg_sent [of k rtt c] by auto
  then have x': "?x' = ?x\<lparr>xf_accepts := accepts k cs + accepts k (cmds q (nd_b r)),
      xf_acks := xf_acks ?x @ concat (map (ev_ack k) arr)\<rparr>"
    by (simp add: transfer_def wire_cmds_def)
  consider "cmd_accepts k c = 0" | "cmd_accepts k c = 1"
    using cmd_accepts_cases [of k c] by auto
  then show ?thesis
  proof cases
    case 1
    then have "concat (map (ev_ack k) arr) = []"
      using assms(2) ev_ack_mirror [of k c] by auto
    then have "?x' = ?x"
      using 1 assms(1) by (simp only: x') (simp add: transfer_def wire_cmds_def)
    then show ?thesis by simp
  next
    case 2
    have "xf_accepts ?x = Suc (accepts k cs + accepts k (cmds q (nd_b r)))"
      using 2 assms(1) by (simp add: transfer_def wire_cmds_def)
    moreover have "concat (map (ev_ack k) arr) \<in> {[], [XAccepted]}"
      using assms(2) 2 ev_ack_mirror [of k c] by auto
    ultimately show ?thesis
      unfolding x' by (blast intro: xfer_step.transmit_accept)
  qed
qed

theorem net_refines_transfer:
  assumes "\<forall>X. node_inv (pid (other X)) (n X)" "net_step pid n n'"
  shows "xfer_step\<^sup>*\<^sup>* (net_transfer pid n Y k) (net_transfer pid n' Y k)"
  using assms(2)
proof (cases rule: net_step.cases)
  case (local X nd)
  have inv: "node_inv (pid (other X)) (n X)"
    using assms(1) by blast
  consider "Y = X" | "Y = other X"
    using side_cases by blast
  then show ?thesis
  proof cases
    case 1
    then show ?thesis
      using transfer_step_sender [OF inv local(2)] local(1) by (simp add: net_transfer_def)
  next
    case 2
    then show ?thesis
      using transfer_step_receiver [OF inv local(2)] local(1) by (simp add: net_transfer_def)
  qed
next
  case (transmit X c cs arr ack rtt)
  consider "Y = X" | "Y = other X"
    using side_cases by blast
  then show ?thesis
  proof cases
    case 1
    then show ?thesis
      using transfer_transmit_forward [OF transmit(2,3)] transmit(1) by (simp add: net_transfer_def)
  next
    case 2
    then show ?thesis
      using transfer_transmit_backward [OF transmit(2,3)] transmit(1) by (simp add: net_transfer_def)
  qed
qed

lemma node_inv_queues [simp]: "node_inv p (nd\<lparr>nd_out := o1, nd_in := i1\<rparr>) = node_inv p nd" "node_inv p (nd\<lparr>nd_in := i1\<rparr>) = node_inv p nd"
  "node_inv p (nd\<lparr>nd_out := o1\<rparr>) = node_inv p nd"
  by (simp_all add: node_inv_def)

lemma net_inv_step: "net_inv pid n \<Longrightarrow> net_step pid n n' \<Longrightarrow> net_inv pid n'"
proof -
  assume inv: "net_inv pid n" and step: "net_step pid n n'"
  have nodes: "\<forall>X. node_inv (pid (other X)) (n X)"
    using inv by (simp add: net_inv_def)
  have "\<forall>Y k. xfer_inv (net_transfer pid n' Y k)"
    using inv net_refines_transfer [OF nodes step] xfer_sys.steps_inv unfolding net_inv_def by blast
  moreover have "\<forall>Y. node_inv (pid (other Y)) (n' Y)"
    using step
  proof (cases rule: net_step.cases)
    case (local X nd)
    then show ?thesis using nodes node_inv_step by (auto simp: fun_upd_def)
  next
    case (transmit X c cs arr ack rtt)
    have "node_inv (pid (other X)) (n X)" "node_inv (pid X) (n (other X))"
      using nodes [THEN spec, of X] nodes [THEN spec, of "other X"] by simp_all
    then show ?thesis
      unfolding transmit(1) using nodes by simp
  qed
  ultimately show ?thesis
    by (simp add: net_inv_def)
qed

lemma net_inv_init: "net_inv pid (net_init config instant)"
proof -
  have "net_transfer pid (net_init config instant) X k = xfer_init" for X k
    by (simp add: net_transfer_def net_init_def transfer_def node_init_def blob_behaviour_new_def blob_behaviour_default_def
        wire_cmds_def cmds_def offers_def receiving_def xfer_init_def)
  then show ?thesis
    using blob_inv_new
    by (auto simp: net_inv_def node_inv_def net_init_def node_init_def) (simp_all add: blob_behaviour_new_def blob_behaviour_default_def)
qed

interpretation net_sys: invariant_system "net_init config instant" "net_step pid" "net_inv pid" for config instant pid
  by unfold_locales (auto intro: net_inv_init net_inv_step)


section \<open>A scheduler\<close>

text \<open>Runs of the network given by a list of actions, to evaluate concrete exchanges.\<close>

datatype net_action =
    ActRequest side blob_in_event
  | ActPoll side
  | ActHandle side
  | ActTransmit side
  | ActReport side blob_to_behaviour
  | ActClose side

fun nd_at :: "side \<Rightarrow> blob_node \<times> blob_node \<Rightarrow> blob_node" where
  "nd_at West (w, e) = w"
| "nd_at East (w, e) = e"

fun nd_put :: "side \<Rightarrow> blob_node \<Rightarrow> blob_node \<times> blob_node \<Rightarrow> blob_node \<times> blob_node" where
  "nd_put West nd (w, e) = (nd, e)"
| "nd_put East nd (w, e) = (w, nd)"

definition net_of :: "blob_node \<times> blob_node \<Rightarrow> blob_net" where
  "net_of s = (\<lambda>X. nd_at X s)"

fun net_do :: "(side \<Rightarrow> peer_id) \<Rightarrow> blob_env \<Rightarrow> duration \<Rightarrow> net_action \<Rightarrow> blob_node \<times> blob_node \<Rightarrow> (blob_node \<times> blob_node) option" where
  "net_do pid env rtt (ActRequest X ev) s =
     (let nd = nd_at X s in
      if blob_no_wrap (nd_b nd) \<and> request_ok ev
      then (case blob_push_event env ev (nd_b nd) of
              Returns (b, _) \<Rightarrow>
                Some (nd_put X (nd\<lparr>nd_b := b, nd_files := log_request ev (bb_send_counter (nd_b nd)) (nd_files nd)\<rparr>) s)
            | _ \<Rightarrow> None)
      else None)"
| "net_do pid env rtt (ActPoll X) s = Some (nd_put X (node_polled (pid (other X)) env (nd_at X s)) s)"
| "net_do pid env rtt (ActHandle X) s =
     (let nd = nd_at X s in
      case nd_in nd of
        [] \<Rightarrow> None
      | ev # evs \<Rightarrow>
          if blob_no_wrap (nd_b nd)
          then (case blob_on_handler_event env (pid (other X)) ev (nd_b nd) of
                  Returns b \<Rightarrow> Some (nd_put X (nd\<lparr>nd_b := b, nd_in := evs\<rparr>) s)
                | _ \<Rightarrow> None)
          else None)"
| "net_do pid env rtt (ActTransmit X) s =
     (let nd = nd_at X s; nd' = nd_at (other X) s in
      case nd_out nd of
        [] \<Rightarrow> None
      | c # cs \<Rightarrow>
          Some (nd_put (other X) (nd'\<lparr>nd_in := nd_in nd' @ [blob_mirror c]\<rparr>)
                 (nd_put X (nd\<lparr>nd_out := cs, nd_in := nd_in nd @ sent_events rtt c\<rparr>) s)))"
| "net_do pid env rtt (ActReport X ev) s =
     (let nd = nd_at X s in
      if is_report ev
      then (case blob_on_handler_event env (pid (other X)) ev (nd_b nd) of
              Returns b \<Rightarrow> Some (nd_put X (nd\<lparr>nd_b := b\<rparr>) s)
            | _ \<Rightarrow> None)
      else None)"
| "net_do pid env rtt (ActClose X) s = Some (nd_put X (node_closed (pid (other X)) (nd_at X s)) s)"

fun net_run :: "(side \<Rightarrow> peer_id) \<Rightarrow> blob_env \<Rightarrow> duration \<Rightarrow> net_action list \<Rightarrow> blob_node \<times> blob_node \<Rightarrow> (blob_node \<times> blob_node) option" where
  "net_run pid env rtt [] s = Some s"
| "net_run pid env rtt (a # as) s = (case net_do pid env rtt a s of None \<Rightarrow> None | Some s' \<Rightarrow> net_run pid env rtt as s')"

lemma net_of_put [simp]: "net_of (nd_put X nd s) = (net_of s)(X := nd)"
  by (cases s; cases X) (auto simp: net_of_def fun_eq_iff split: side.splits, (metis nd_at.simps side.exhaust)+)

lemma net_of_at [simp]: "net_of s X = nd_at X s"
  by (simp add: net_of_def)

lemma net_do_step:
  assumes "net_do pid env rtt a s = Some s'"
  shows "net_step pid (net_of s) (net_of s')"
proof (cases a)
  case (ActRequest X ev)
  with assms show ?thesis
    by (auto simp: Let_def intro!: net_step.local node_step.request split: if_splits outcome.splits)
next
  case (ActPoll X)
  with assms show ?thesis by (auto intro!: net_step.local node_step.poll)
next
  case (ActHandle X)
  with assms show ?thesis
    by (auto simp: Let_def intro!: net_step.local node_step.handle split: list.splits if_splits outcome.splits)
next
  case (ActTransmit X)
  with assms obtain c cs where c: "nd_out (net_of s X) = c # cs"
    and s': "net_of s' = (net_of s)(X := (net_of s X)\<lparr>nd_out := cs, nd_in := nd_in (net_of s X) @ sent_events rtt c\<rparr>,
          other X := (net_of s (other X))\<lparr>nd_in := nd_in (net_of s (other X)) @ [blob_mirror c]\<rparr>)"
    by (auto simp: Let_def split: list.splits)
  show ?thesis
    unfolding s' by (rule net_step.transmit [where n = "net_of s" and X = X and c = c and cs = cs and rtt = rtt]) (simp_all add: c [simplified])
next
  case (ActReport X ev)
  with assms show ?thesis
    by (auto simp: Let_def intro!: net_step.local node_step.report split: if_splits outcome.splits)
next
  case (ActClose X)
  with assms show ?thesis by (auto intro!: net_step.local node_step.close)
qed

lemma net_run_steps: "net_run pid env rtt as s = Some s' \<Longrightarrow> (net_step pid)\<^sup>*\<^sup>* (net_of s) (net_of s')"
proof (induction as arbitrary: s)
  case (Cons a as)
  then obtain s1 where "net_do pid env rtt a s = Some s1" "net_run pid env rtt as s1 = Some s'"
    by (auto split: option.splits)
  with Cons.IH net_do_step show ?case
    by (meson converse_rtranclp_into_rtranclp)
qed simp

section \<open>Properties\<close>

lemma net_transfer_recv:
  assumes "hm_get (bb_ongoing_recv (nd_b (n (other X)))) k = Some v"
  shows "xf_recv (net_transfer pid n X k) = Some (or_bytes_received v, or_bytes_total v, or_file_handle v)"
  using assms by (simp add: net_transfer_def transfer_def receiving_def)

lemma net_inv_receiving:
  assumes "net_inv pid n" "hm_get (bb_ongoing_recv (nd_b (n (other X)))) k = Some v"
  shows "\<exists>D. map_of (nd_files (n X)) k = Some D
    \<and> recv_ok D (xf_flow (net_transfer pid n X k)) (or_bytes_received v) (or_bytes_total v) (or_file_handle v)"
proof -
  have inv: "xfer_inv (net_transfer pid n X k)"
    using assms(1) by (simp add: net_inv_def)
  then obtain D where D: "xf_file (net_transfer pid n X k) = Some D"
    using xfer_inv_busy net_transfer_recv [of n X k v pid] assms(2) by fastforce
  then have "map_of (nd_files (n X)) k = Some D"
    by (simp add: net_transfer_def transfer_def)
  then show ?thesis
    using xfer_inv_Some(6) [OF inv D] net_transfer_recv [of n X k v pid] assms(2) by (auto simp: xf_data_ok_def)
qed

definition demo_pid :: "side \<Rightarrow> peer_id" where
  "demo_pid X = (case X of West \<Rightarrow> peer_a | East \<Rightarrow> peer_b)"

definition demo_exchange :: "net_action list" where
  "demo_exchange =
     [ActReport West TB_OutboundNegotiated, ActReport East TB_OutboundNegotiated,
      ActRequest West (In_SendFile demo_file ''/d/f'' peer_b 7), ActPoll West, ActPoll West, ActTransmit West,
      ActHandle East, ActHandle West,
      ActRequest East (In_AcceptFile \<lparr>f_data = [], f_pos = 0\<rparr> 0 ''/e'' 8), ActPoll East, ActPoll East, ActPoll East, ActTransmit East,
      ActHandle West, ActPoll West, ActPoll West, ActTransmit West, ActHandle East,
      ActHandle West, ActPoll West, ActPoll West, ActTransmit West, ActHandle East,
      ActHandle West, ActPoll West, ActPoll West, ActTransmit West]"

definition demo_received :: ongoing_file_recv where
  "demo_received = \<lparr>or_remote_send_id = 0, or_local_recv_id = 0, or_remote = peer_a, or_bytes_received = 5,
     or_bytes_total = 5, or_file_handle = \<lparr>f_data = [10, 20, 30, 40, 50], f_pos = 5\<rparr>, or_file_path = ''/e/f'',
     or_last_active = 100\<rparr>"


declare blob_write_loop.simps [code]

lemma demo_exchange_eq:
  "map_option (\<lambda>s. (hm_get (bb_ongoing_recv (nd_b (snd s))) 0, nd_in (snd s), nd_files (fst s)))
     (net_run demo_pid demo_env 0 demo_exchange (node_init blob_config_default 0, node_init blob_config_default 0)) =
   Some (Some demo_received, [TB_RecvProgressed 0 []], [(0, f_data demo_file)])"
  by code_simp

lemma panics_on_acceptance:
  assumes "blob_on_handler_event env p ev b = Panics"
  shows "\<exists>k. ev = TB_FileSendAccepted k \<and> hm_get (bb_ongoing_send b) k \<noteq> None"
proof (cases ev)
  case (TB_FileSendAccepted k)
  with assms show ?thesis
    by (auto simp: and_then_Panics_iff blob_pending_send_accepted_def hm_contains_key_def Let_def
        split: if_splits option.splits sum.splits)
qed (use assms in \<open>auto simp: Let_def blob_progress_ongoing_recv_def split: option.splits sum.splits prod.splits if_splits\<close>)

lemma net_of_init: "net_of (node_init config instant, node_init config instant) = net_init config instant"
proof
  fix X show "net_of (node_init config instant, node_init config instant) X = net_init config instant X"
    by (cases X) (simp_all add: net_init_def)
qed

lemma demo_exchange_reaches:
  obtains n where "(net_step demo_pid)\<^sup>*\<^sup>* (net_init blob_config_default 0) n"
    "hm_get (bb_ongoing_recv (nd_b (n (other West)))) 0 = Some demo_received"
    "nd_in (n (other West)) = [TB_RecvProgressed 0 []]" "map_of (nd_files (n West)) 0 = Some (f_data demo_file)"
proof -
  obtain w e where run: "net_run demo_pid demo_env 0 demo_exchange (node_init blob_config_default 0, node_init blob_config_default 0) = Some (w, e)"
    and s: "hm_get (bb_ongoing_recv (nd_b e)) 0 = Some demo_received" "nd_in e = [TB_RecvProgressed 0 []]"
      "nd_files w = [(0, f_data demo_file)]"
    using demo_exchange_eq by auto
  show thesis
    by (rule that [of "net_of (w, e)"]) (use net_run_steps [OF run] s in \<open>simp_all add: net_of_init\<close>)
qed

text \<open>
  C1. Two peers exchange files over one connection, in any order of requests, polls, transmissions
  and deliveries, with any number of transfers in both directions, cancellations, expired
  requests, failing reads and writes, lost commands or acknowledgements, and lost connections. At any moment
  the file of an ongoing receive holds a prefix of the file its sender was asked to send under
  that id, the announced size is the size of that file and the count of received bytes is exact.
\<close>

theorem net_receives_prefix:
  assumes "(net_step pid)\<^sup>*\<^sup>* (net_init config instant) n"
    and "hm_get (bb_ongoing_recv (nd_b (n (other X)))) k = Some v"
  shows "\<exists>D. map_of (nd_files (n X)) k = Some D \<and> prefix (f_data (or_file_handle v)) D
    \<and> or_bytes_total v = of_nat (length D) \<and> or_bytes_received v = of_nat (length (f_data (or_file_handle v)))"
proof -
  have "net_inv pid n"
    using assms(1) by (rule net_sys.reachable_inv)
  from net_inv_receiving [of pid n X k v, OF this assms(2)] show ?thesis
    unfolding recv_ok_def using append_prefixD by blast
qed

theorem net_receives_prefix_witness:
  "\<exists>n. (net_step demo_pid)\<^sup>*\<^sup>* (net_init blob_config_default 0) n
    \<and> hm_get (bb_ongoing_recv (nd_b (n East))) 0 = Some demo_received
    \<and> (\<exists>D. map_of (nd_files (n West)) 0 = Some D \<and> prefix [10, 20, 30, 40, 50] D)"
proof -
  obtain n where n: "(net_step demo_pid)\<^sup>*\<^sup>* (net_init blob_config_default 0) n"
    "hm_get (bb_ongoing_recv (nd_b (n (other West)))) 0 = Some demo_received"
    by (rule demo_exchange_reaches)
  from n net_receives_prefix [of demo_pid blob_config_default 0 n West 0 demo_received, OF n] show ?thesis
    by (auto simp: demo_received_def)
qed

text \<open>
  C2. When the empty chunk that ends a transfer reaches the behaviour of a peer that still has the
  receive, its file is exactly the file the sender was asked to send, and the behaviour
  reports the receive as complete; it never reports an unexpected end of file.
\<close>

theorem net_completion_exact:
  assumes "(net_step pid)\<^sup>*\<^sup>* (net_init config instant) n"
    and "hm_get (bb_ongoing_recv (nd_b (n (other X)))) k = Some v"
    and "nd_in (n (other X)) = TB_RecvProgressed k [] # evs"
  shows "map_of (nd_files (n X)) k = Some (f_data (or_file_handle v))
    \<and> (\<exists>b. blob_on_handler_event env p (TB_RecvProgressed k []) (nd_b (n (other X))) = Returns b
        \<and> bb_out_events b = bb_out_events (nd_b (n (other X))) @
            [Out_RecvProgressed (or_local_recv_id v) (or_bytes_total v) (or_bytes_total v)])"
proof -
  have inv: "net_inv pid n"
    using assms(1) by (rule net_sys.reachable_inv)
  obtain D where D: "map_of (nd_files (n X)) k = Some D"
    and ok: "recv_ok D (xf_flow (net_transfer pid n X k)) (or_bytes_received v) (or_bytes_total v) (or_file_handle v)"
    using net_inv_receiving [of pid n X k v, OF inv assms(2)] by blast
  have "\<exists>zs. xf_flow (net_transfer pid n X k) = [] @ [] # zs"
    using assms(3) by (simp add: xf_flow_def net_transfer_def transfer_def)
  with ok have data: "f_data (or_file_handle v) = D"
    unfolding recv_ok_def by (metis append_Nil2 concat.simps(1))
  moreover have "or_bytes_received v = or_bytes_total v"
    using ok data by (simp add: recv_ok_def)
  ultimately show ?thesis
    using D progress_recv_eof [OF assms(2), of env p] by auto
qed

theorem net_completion_exact_witness:
  "\<exists>n b. (net_step demo_pid)\<^sup>*\<^sup>* (net_init blob_config_default 0) n
    \<and> map_of (nd_files (n West)) 0 = Some [10, 20, 30, 40, 50]
    \<and> blob_on_handler_event demo_env peer_a (TB_RecvProgressed 0 []) (nd_b (n East)) = Returns b
    \<and> last (bb_out_events b) = Out_RecvProgressed 0 5 5"
proof -
  obtain n where n: "(net_step demo_pid)\<^sup>*\<^sup>* (net_init blob_config_default 0) n"
    "hm_get (bb_ongoing_recv (nd_b (n (other West)))) 0 = Some demo_received"
    "nd_in (n (other West)) = [TB_RecvProgressed 0 []]"
    by (rule demo_exchange_reaches)
  from n net_completion_exact [of demo_pid blob_config_default 0 n West 0 demo_received "[]" demo_env peer_a, OF n]
  show ?thesis
    by (auto simp: demo_received_def)
qed

text \<open>
  C36. Between two peers that run this code no event of the connection makes either behaviour panic:
  the acceptance of an ongoing send, on which \<open>pending_send_accepted\<close> would panic, never arrives.
\<close>

theorem net_never_panics:
  assumes "(net_step pid)\<^sup>*\<^sup>* (net_init config instant) n" and "nd_in (n X) = ev # evs"
  shows "blob_on_handler_event env p ev (nd_b (n X)) \<noteq> Panics"
proof
  assume "blob_on_handler_event env p ev (nd_b (n X)) = Panics"
  then obtain k where ev: "ev = TB_FileSendAccepted k" and v: "hm_get (bb_ongoing_send (nd_b (n X))) k \<noteq> None"
    using panics_on_acceptance by blast
  have "xfer_inv (net_transfer pid n X k)"
    using net_sys.reachable_inv [OF assms(1)] by (simp add: net_inv_def)
  moreover have acks: "XAccepted \<in> set (xf_acks (net_transfer pid n X k))"
    using assms(2) ev by (simp add: net_transfer_def transfer_def)
  then obtain D where "xf_file (net_transfer pid n X k) = Some D"
    using xfer_inv_busy calculation by fastforce
  ultimately have "xf_sending (net_transfer pid n X k) = None"
    using xfer_inv_Some(5) acks by (auto simp: xf_start_ok_def xf_unsent_def)
  with v show False
    by (simp add: net_transfer_def transfer_def)
qed

theorem net_never_panics_witness:
  "\<exists>n. (net_step demo_pid)\<^sup>*\<^sup>* (net_init blob_config_default 0) n \<and> nd_in (n East) = [TB_RecvProgressed 0 []]
    \<and> blob_on_handler_event demo_env peer_a (TB_RecvProgressed 0 []) (nd_b (n East)) \<noteq> Panics"
proof -
  obtain n where n: "(net_step demo_pid)\<^sup>*\<^sup>* (net_init blob_config_default 0) n" "nd_in (n (other West)) = [TB_RecvProgressed 0 []]"
    by (rule demo_exchange_reaches)
  from n net_never_panics [OF n(1), of "other West" "TB_RecvProgressed 0 []" "[]" demo_env peer_a] show ?thesis
    by auto
qed


section \<open>A third peer\<close>

text \<open>
  C37. The agreement of two peers does not extend to three, because receives are filed under the id
  the sender chose and nothing compares the sender. A chunk with the id of an ongoing receive
  is written into its file whichever peer it came from; and when the application accepts a
  file that another peer offers under the same id, the ongoing receive is gone without any event.
\<close>

theorem blob_recv_ids_collide:
  assumes "blob_inv b" and "hm_get (bb_ongoing_recv b) k = Some v" and "writes_progress env" and "c \<noteq> []"
  shows "(\<exists>b' v'. blob_on_handler_event env p (TB_RecvProgressed k c) b = Returns b'
      \<and> hm_get (bb_ongoing_recv b') k = Some v' \<and> or_remote v' = or_remote v
      \<and> or_file_handle v' = file_put c (or_file_handle v))
    \<and> (\<forall>i w f path cb. hm_get (bb_pending_recv b) i = Some w \<and> pr_remote_send_id w = k \<longrightarrow>
        (let b' = fst (blob_accept_pending_recv env f path i cb b)
         in (\<forall>k' v'. hm_get (bb_ongoing_recv b') k' = Some v' \<longrightarrow> or_local_recv_id v' \<noteq> or_local_recv_id v)
            \<and> bb_out_events b' = bb_out_events b))"
proof (intro conjI allI impI)
  show "\<exists>b' v'. blob_on_handler_event env p (TB_RecvProgressed k c) b = Returns b'
      \<and> hm_get (bb_ongoing_recv b') k = Some v' \<and> or_remote v' = or_remote v
      \<and> or_file_handle v' = file_put c (or_file_handle v)"
    using progress_recv_chunk [OF assms(2-4), of p] by auto
next
  fix i w f path cb assume w: "hm_get (bb_pending_recv b) i = Some w \<and> pr_remote_send_id w = k"
  note v = blob_inv_ongoing_recvD [OF assms(1,2)]
  have "or_local_recv_id v \<noteq> i"
    using v(3) w by auto
  with v(4) w show "let b' = fst (blob_accept_pending_recv env f path i cb b)
       in (\<forall>k' v'. hm_get (bb_ongoing_recv b') k' = Some v' \<longrightarrow> or_local_recv_id v' \<noteq> or_local_recv_id v)
          \<and> bb_out_events b' = bb_out_events b"
    by (auto simp: blob_accept_pending_recv_def blob_notify_def Let_def)
qed

definition demo_two_senders :: blob_behaviour where
  "demo_two_senders = demo_receiver\<lparr>bb_pending_recv := [(1, \<lparr>pr_local_recv_id = 1, pr_remote_send_id = 0,
     pr_bytes_total = 2, pr_file_name = ''g'', pr_remote = peer_a, pr_timestamp = 100\<rparr>)]\<rparr>"

lemma demo_two_senders_facts:
  "blob_inv demo_two_senders" "hm_get (bb_ongoing_recv demo_two_senders) 0 = Some demo_recv"
  "bb_out_events demo_two_senders = []"
  by (auto simp: demo_two_senders_def demo_receiver_def demo_recv_def blob_inv_defs hm_get_def hm_wf_def demo_defs
      split: if_splits)

theorem blob_recv_ids_collide_witness:
  "(\<exists>b' v'. blob_on_handler_event demo_env peer_a (TB_RecvProgressed 0 [6, 6]) demo_two_senders = Returns b'
      \<and> hm_get (bb_ongoing_recv b') 0 = Some v' \<and> or_remote v' = peer_b \<and> f_data (or_file_handle v') = [6, 6])
    \<and> \<not> (\<exists>k' v'. hm_get (bb_ongoing_recv (fst (blob_accept_pending_recv demo_env demo_file ''/h'' 1 4 demo_two_senders))) k' = Some v'
        \<and> or_local_recv_id v' = 3)"
proof -
  have pend: "\<exists>w. hm_get (bb_pending_recv demo_two_senders) 1 = Some w \<and> pr_remote_send_id w = 0"
    by (simp add: demo_two_senders_def hm_get_def)
  have "or_remote demo_recv = peer_b"
    by (simp add: demo_recv_def)
  then show ?thesis
    using blob_recv_ids_collide [OF demo_two_senders_facts(1,2) demo_receiver_facts(7), of "[6, 6]" peer_a] pend
    by (fastforce simp: demo_receiver_facts file_put_def Let_def)
qed

end
