(* ===== verification/Messaging.thy ===== *)
theory Messaging
  imports Owl_Wire
begin

text \<open>
  \<open>owlnest-messaging\<close>: the behaviour (\<open>behaviour.rs\<close>), the connection handler (\<open>handler.rs\<close>), the
  data types (\<open>lib.rs\<close>, \<open>message.rs\<close>, \<open>error.rs\<close>, \<open>config.rs\<close>) and the in-memory message store of
  the application (\<open>owlnest/src/net/p2p/protocols/messaging.rs\<close>). The JSON encoding of a message
  (\<open>serde_json\<close>) is foreign code and enters as the parameter \<open>json\<close>.
\<close>

section \<open>Data\<close>

record message =
  m_time :: u128
  m_from :: peer_id
  m_to :: peer_id
  m_msg :: string

definition message_new :: "u128 \<Rightarrow> peer_id \<Rightarrow> peer_id \<Rightarrow> string \<Rightarrow> message" where
  "message_new now_ms from to msg = \<lparr>m_time = now_ms, m_from = from, m_to = to, m_msg = msg\<rparr>"

record json_codec =
  json_to_vec :: "message \<Rightarrow> u8 list"
  json_from_slice :: "u8 list \<Rightarrow> string + message"

text \<open>What the code relies on: parsing a serialized message gives it back, and JSON is never empty.\<close>

definition json_roundtrip :: "json_codec \<Rightarrow> bool" where
  "json_roundtrip json \<longleftrightarrow> (\<forall>m. json_from_slice json (json_to_vec json m) = Inr m \<and> json_to_vec json m \<noteq> [])"

definition message_as_bytes :: "json_codec \<Rightarrow> message \<Rightarrow> u8 list" where
  "message_as_bytes json m = json_to_vec json m"

datatype msg_store_kind = Volatile

record msg_config =
  mc_timeout_ms :: u64
  mc_store :: msg_store_kind

definition msg_config_default :: msg_config where
  "msg_config_default = \<lparr>mc_timeout_ms = 30 * 1000, mc_store = Volatile\<rparr>"

definition msg_config_new :: msg_config where
  "msg_config_new = msg_config_default"

definition msg_config_with_timeout :: "msg_config \<Rightarrow> u64 \<Rightarrow> msg_config" where
  "msg_config_with_timeout c ms = c\<lparr>mc_timeout_ms := ms\<rparr>"

datatype msg_error = MsgUnrecognized rust_text | MsgIO rust_text | MsgChannel

fun msg_error_fmt :: "msg_error \<Rightarrow> rust_text" where
  "msg_error_fmt (MsgUnrecognized t) = t"
| "msg_error_fmt (MsgIO t) = t"
| "msg_error_fmt MsgChannel = [Lit ''Callback channel closed unexpectedly'']"

datatype msg_send_error = MsgConnectionClosed | MsgVerifierMismatch | MsgPeerNotFound peer_id | MsgTimeout

fun msg_send_error_fmt :: "msg_send_error \<Rightarrow> rust_text" where
  "msg_send_error_fmt MsgConnectionClosed = [Lit ''Connection Closed'']"
| "msg_send_error_fmt MsgVerifierMismatch = [Lit ''Message verifier mismatch'']"
| "msg_send_error_fmt MsgTimeout = [Lit ''Message timed out'']"
| "msg_send_error_fmt (MsgPeerNotFound peer) = [Lit ''Peer '', ArgPeer peer, Lit '' not connected'']"

datatype msg_in_event =
    Msg_SendMessage peer_id message callback
  | Msg_ListConnected callback

datatype msg_out_event =
    MsgOut_IncomingMessage peer_id message
  | MsgOut_Error msg_error
  | MsgOut_InboundNegotiated peer_id
  | MsgOut_OutboundNegotiated peer_id
  | MsgOut_Unsupported peer_id

datatype msg_from_behaviour = PostMessage message callback

datatype msg_to_behaviour =
    MTB_IncomingMessage "u8 list"
  | MTB_Error msg_error
  | MTB_InboundNegotiated
  | MTB_OutboundNegotiated
  | MTB_Unsupported

datatype msg_reply =
    MsgReplySend callback "msg_send_error + duration"
  | MsgReplyConnected callback "peer_id list"

section \<open>Behaviour\<close>

type_synonym msg_to_swarm = "(msg_out_event, msg_from_behaviour) to_swarm"

record msg_behaviour =
  mb_config :: msg_config
  mb_out_events :: "msg_out_event list"
  mb_in_events :: "msg_in_event list"
  mb_connected_peers :: "peer_id hash_set"

definition msg_behaviour_new :: "msg_config \<Rightarrow> msg_behaviour" where
  "msg_behaviour_new config =
     \<lparr>mb_config = config, mb_out_events = [], mb_in_events = [], mb_connected_peers = []\<rparr>"

definition msg_push_event :: "msg_in_event \<Rightarrow> msg_behaviour \<Rightarrow> msg_behaviour" where
  "msg_push_event ev b = b\<lparr>mb_in_events := push_back (mb_in_events b) ev\<rparr>"

definition msg_emit :: "msg_out_event \<Rightarrow> msg_behaviour \<Rightarrow> msg_behaviour" where
  "msg_emit ev b = b\<lparr>mb_out_events := push_back (mb_out_events b) ev\<rparr>"

definition msg_on_disconnect :: "connection_closed \<Rightarrow> msg_behaviour \<Rightarrow> msg_behaviour" where
  "msg_on_disconnect info b =
     (if cc_remaining_established info < 1
      then b\<lparr>mb_connected_peers := hs_remove (cc_peer_id info) (mb_connected_peers b)\<rparr> else b)"

fun msg_on_swarm_event :: "from_swarm \<Rightarrow> msg_behaviour \<Rightarrow> msg_behaviour" where
  "msg_on_swarm_event (ConnectionClosed info) b = msg_on_disconnect info b"
| "msg_on_swarm_event (OtherFromSwarm _) b = b"

fun msg_on_handler_event ::
  "json_codec \<Rightarrow> msg_to_behaviour \<Rightarrow> peer_id \<Rightarrow> msg_behaviour \<Rightarrow> msg_behaviour" where
  "msg_on_handler_event json (MTB_IncomingMessage bytes) peer b =
     (case json_from_slice json bytes of
        Inr msg \<Rightarrow> msg_emit (MsgOut_IncomingMessage (m_from msg) msg) b
      | Inl e \<Rightarrow> msg_emit (MsgOut_Error (MsgUnrecognized
                   [Lit ''Unrecognized message: '', ArgForeign e, Lit '', raw data: '', ArgUtf8Lossy bytes])) b)"
| "msg_on_handler_event json (MTB_Error e) peer b = msg_emit (MsgOut_Error e) b"
| "msg_on_handler_event json MTB_InboundNegotiated peer b = msg_emit (MsgOut_InboundNegotiated peer) b"
| "msg_on_handler_event json MTB_OutboundNegotiated peer b =
     (let b' = msg_emit (MsgOut_OutboundNegotiated peer) b
      in b'\<lparr>mb_connected_peers := hs_insert peer (mb_connected_peers b')\<rparr>)"
| "msg_on_handler_event json MTB_Unsupported peer b = msg_emit (MsgOut_Unsupported peer) b"

text \<open>\<open>handle_in_events\<close>: requests are answered until one has to be passed on to a handler.\<close>

fun msg_handle_in_events ::
  "peer_id hash_set \<Rightarrow> msg_in_event list \<Rightarrow> msg_to_swarm option \<times> msg_in_event list \<times> msg_reply list" where
  "msg_handle_in_events peers [] = (None, [], [])"
| "msg_handle_in_events peers (Msg_SendMessage peer message cb # evs) =
     (if hs_contains peers peer
      then (Some (NotifyHandler peer Any (PostMessage message cb)), evs, [])
      else (let (r, evs', rs) = msg_handle_in_events peers evs
            in (r, evs', MsgReplySend cb (Inl (MsgPeerNotFound peer)) # rs)))"
| "msg_handle_in_events peers (Msg_ListConnected cb # evs) =
     (let (r, evs', rs) = msg_handle_in_events peers evs
      in (r, evs', MsgReplyConnected cb peers # rs))"

definition msg_poll :: "msg_behaviour \<Rightarrow> msg_to_swarm poll \<times> msg_behaviour \<times> msg_reply list" where
  "msg_poll b =
     (case pop_front (mb_out_events b) of
        Some (ev, q) \<Rightarrow> (Ready (GenerateEvent ev), b\<lparr>mb_out_events := q\<rparr>, [])
      | None \<Rightarrow>
          (case msg_handle_in_events (mb_connected_peers b) (mb_in_events b) of
             (Some ev, evs, rs) \<Rightarrow> (Ready ev, b\<lparr>mb_in_events := evs\<rparr>, rs)
           | (None, evs, rs) \<Rightarrow> (Pending, b\<lparr>mb_in_events := evs\<rparr>, rs)))"

section \<open>Connection handler\<close>

definition MSG_PROTOCOL_NAME :: string where
  "MSG_PROTOCOL_NAME = ''/owlnest/messaging/0.0.1''"

datatype msg_outbound_state =
    MsgOpenStream
  | MsgIdle wire
  | MsgBusy wire "u8 list" callback nat

record msg_handler =
  mh_state :: handler_state
  mh_pending_in_events :: "msg_from_behaviour list"
  mh_pending_out_events :: "msg_to_behaviour list"
  mh_timeout :: duration
  mh_inbound :: "wire option"
  mh_outbound :: "msg_outbound_state option"

type_synonym msg_poll_result = "(string, msg_to_behaviour) connection_handler_event"

definition msg_handler_new :: "msg_config \<Rightarrow> msg_handler" where
  "msg_handler_new config =
     \<lparr>mh_state = Active, mh_pending_in_events = [], mh_pending_out_events = [],
      mh_timeout = unat (mc_timeout_ms config), mh_inbound = None, mh_outbound = None\<rparr>"

definition msg_listen_protocol :: "msg_handler \<Rightarrow> string" where
  "msg_listen_protocol h = MSG_PROTOCOL_NAME"

definition msg_on_behaviour_event :: "msg_from_behaviour \<Rightarrow> msg_handler \<Rightarrow> msg_handler" where
  "msg_on_behaviour_event ev h = h\<lparr>mh_pending_in_events := push_back (mh_pending_in_events h) ev\<rparr>"

definition msg_keep_alive :: "msg_handler \<Rightarrow> bool" where
  "msg_keep_alive h = True"

definition msg_push_out :: "msg_to_behaviour \<Rightarrow> msg_handler \<Rightarrow> msg_handler" where
  "msg_push_out ev h = h\<lparr>mh_pending_out_events := push_back (mh_pending_out_events h) ev\<rparr>"

definition msg_on_dial_upgrade_error :: "stream_upgrade_error \<Rightarrow> msg_handler \<Rightarrow> msg_handler" where
  "msg_on_dial_upgrade_error e h =
     (let h' = h\<lparr>mh_outbound := None\<rparr>
      in case e of NegotiationFailed \<Rightarrow> h'\<lparr>mh_state := Inactive False\<rparr> | _ \<Rightarrow> h')"

fun msg_on_connection_event :: "wire connection_event \<Rightarrow> msg_handler \<Rightarrow> msg_handler outcome" where
  "msg_on_connection_event (FullyNegotiatedInbound stream) h =
     Returns (msg_push_out MTB_InboundNegotiated (h\<lparr>mh_inbound := Some stream\<rparr>))"
| "msg_on_connection_event (FullyNegotiatedOutbound stream) h =
     Returns (msg_push_out MTB_OutboundNegotiated (h\<lparr>mh_outbound := Some (MsgIdle stream)\<rparr>))"
| "msg_on_connection_event AddressChange h = Returns h"
| "msg_on_connection_event (DialUpgradeError e) h = Returns (msg_on_dial_upgrade_error e h)"
| "msg_on_connection_event LocalProtocolsChange h = Returns h"
| "msg_on_connection_event RemoteProtocolsChange h = Returns h"
| "msg_on_connection_event ListenUpgradeError h = Panics"

definition msg_poll_inbound ::
  "(u8 list \<Rightarrow> u128) \<Rightarrow> handler_io \<Rightarrow> msg_handler \<Rightarrow> msg_poll_result option \<times> msg_handler" where
  "msg_poll_inbound H env h =
     (case mh_inbound h of
        None \<Rightarrow> (None, h)
      | Some stream \<Rightarrow>
          (case poll_universal_recv H (hio_inbound env) stream of
             Pending \<Rightarrow> (None, h)
           | Ready (Inr (stream', bytes)) \<Rightarrow>
               (Some (NotifyBehaviour (MTB_IncomingMessage bytes)), h\<lparr>mh_inbound := Some stream'\<rparr>)
           | Ready (Inl e) \<Rightarrow>
               (None, (msg_push_out (MTB_Error (MsgIO (Lit ''IO Error: '' # io_debug e))) h)\<lparr>mh_inbound := None\<rparr>)))"

definition msg_progress_in_events ::
  "json_codec \<Rightarrow> nat \<Rightarrow> msg_from_behaviour \<Rightarrow> wire \<Rightarrow> msg_handler \<Rightarrow> msg_handler" where
  "msg_progress_in_events json instant ev stream h =
     (case ev of PostMessage msg cb \<Rightarrow>
        h\<lparr>mh_outbound := Some (MsgBusy stream (message_as_bytes json msg) cb (instant + mh_timeout h))\<rparr>)"

text \<open>
  \<open>poll_outbound\<close>. One turn of its loop either leaves the loop with a result or goes on with a changed
  handler; the counter numbers the polls of send tasks.
\<close>

datatype msg_turn =
    MsgBreak "msg_poll_result option" msg_handler "msg_reply list"
  | MsgNext nat msg_handler "msg_reply list"

definition msg_outbound_turn ::
  "(u8 list \<Rightarrow> u128) \<Rightarrow> json_codec \<Rightarrow> handler_io \<Rightarrow> nat \<Rightarrow> msg_handler \<Rightarrow> msg_turn" where
  "msg_outbound_turn H json env i h =
     (case mh_outbound h of
        Some (MsgBusy stream bytes cb deadline) \<Rightarrow>
          (case poll_universal_send H (hio_outbound env i) stream bytes of
             Pending \<Rightarrow>
               if hio_instant env \<ge> deadline
               then MsgBreak None (h\<lparr>mh_outbound := None\<rparr>) [MsgReplySend cb (Inl MsgTimeout)]
               else MsgBreak None h []
           | Ready (Inl e) \<Rightarrow>
               MsgBreak (Some (NotifyBehaviour (MTB_Error (MsgIO (io_display e))))) (h\<lparr>mh_outbound := None\<rparr>) []
           | Ready (Inr (stream', rtt)) \<Rightarrow>
               MsgNext (Suc i) (h\<lparr>mh_outbound := Some (MsgIdle stream')\<rparr>) [MsgReplySend cb (Inr rtt)])
      | Some (MsgIdle stream) \<Rightarrow>
          (case mh_pending_in_events h of
             [] \<Rightarrow> MsgBreak None h []
           | ev # evs \<Rightarrow>
               MsgNext i (msg_progress_in_events json (hio_instant env) ev stream (h\<lparr>mh_pending_in_events := evs\<rparr>)) [])
      | Some MsgOpenStream \<Rightarrow> MsgBreak None h []
      | None \<Rightarrow>
          MsgBreak (Some (OutboundSubstreamRequest MSG_PROTOCOL_NAME)) (h\<lparr>mh_outbound := Some MsgOpenStream\<rparr>) [])"

definition msg_turns_left :: "msg_handler \<Rightarrow> nat" where
  "msg_turns_left h = 2 * length (mh_pending_in_events h) + (case mh_outbound h of Some (MsgBusy _ _ _ _) \<Rightarrow> 1 | _ \<Rightarrow> 0)"

lemma msg_outbound_turn_decreases:
  "msg_outbound_turn H json env i h = MsgNext j h' rs \<Longrightarrow> msg_turns_left h' < msg_turns_left h"
  by (auto simp: msg_outbound_turn_def msg_turns_left_def msg_progress_in_events_def
      split: option.splits msg_outbound_state.splits poll.splits sum.splits list.splits if_splits msg_from_behaviour.splits)

function msg_poll_outbound ::
  "(u8 list \<Rightarrow> u128) \<Rightarrow> json_codec \<Rightarrow> handler_io \<Rightarrow> nat \<Rightarrow> msg_handler
    \<Rightarrow> msg_poll_result option \<times> msg_handler \<times> msg_reply list" where
  "msg_poll_outbound H json env i h =
     (case msg_outbound_turn H json env i h of
        MsgBreak r h' rs \<Rightarrow> (r, h', rs)
      | MsgNext j h' rs \<Rightarrow>
          (let (r, h'', rs') = msg_poll_outbound H json env j h' in (r, h'', rs @ rs')))"
  by pat_completeness auto
termination
  by (relation "measure (\<lambda>(_, _, _, _, h). msg_turns_left h)") (simp_all add: msg_outbound_turn_decreases)

declare msg_poll_outbound.simps [simp del]

text \<open>The loop unfolded, for evaluation.\<close>

lemma msg_poll_outbound_eq:
  "msg_poll_outbound H json env i h =
     (case mh_outbound h of
        Some (MsgBusy stream bytes cb deadline) \<Rightarrow>
          (case poll_universal_send H (hio_outbound env i) stream bytes of
             Pending \<Rightarrow>
               if hio_instant env \<ge> deadline
               then (None, h\<lparr>mh_outbound := None\<rparr>, [MsgReplySend cb (Inl MsgTimeout)])
               else (None, h, [])
           | Ready (Inl e) \<Rightarrow>
               (Some (NotifyBehaviour (MTB_Error (MsgIO (io_display e)))), h\<lparr>mh_outbound := None\<rparr>, [])
           | Ready (Inr (stream', rtt)) \<Rightarrow>
               (let (r, h', rs) = msg_poll_outbound H json env (Suc i) (h\<lparr>mh_outbound := Some (MsgIdle stream')\<rparr>)
                in (r, h', MsgReplySend cb (Inr rtt) # rs)))
      | Some (MsgIdle stream) \<Rightarrow>
          (case mh_pending_in_events h of
             [] \<Rightarrow> (None, h, [])
           | ev # evs \<Rightarrow>
               msg_poll_outbound H json env i
                 (msg_progress_in_events json (hio_instant env) ev stream (h\<lparr>mh_pending_in_events := evs\<rparr>)))
      | Some MsgOpenStream \<Rightarrow> (None, h, [])
      | None \<Rightarrow> (Some (OutboundSubstreamRequest MSG_PROTOCOL_NAME), h\<lparr>mh_outbound := Some MsgOpenStream\<rparr>, []))"
  by (subst msg_poll_outbound.simps)
    (auto simp: msg_outbound_turn_def split: option.split msg_outbound_state.split poll.split sum.split list.split)

definition msg_handler_poll ::
  "(u8 list \<Rightarrow> u128) \<Rightarrow> json_codec \<Rightarrow> handler_io \<Rightarrow> msg_handler
    \<Rightarrow> msg_poll_result poll \<times> msg_handler \<times> msg_reply list" where
  "msg_handler_poll H json env h =
     (case mh_state h of
        Inactive True \<Rightarrow> (Pending, h, [])
      | Inactive False \<Rightarrow> (Ready (NotifyBehaviour MTB_Unsupported), h\<lparr>mh_state := Inactive True\<rparr>, [])
      | Active \<Rightarrow>
          (case msg_poll_inbound H env h of
             (Some ev, h1) \<Rightarrow> (Ready ev, h1, [])
           | (None, h1) \<Rightarrow>
               (case msg_poll_outbound H json env 0 h1 of
                  (Some ev, h2, rs) \<Rightarrow> (Ready ev, h2, rs)
                | (None, h2, rs) \<Rightarrow>
                    (case pop_front (mh_pending_out_events h2) of
                       Some (ev, q) \<Rightarrow> (Ready (NotifyBehaviour ev), h2\<lparr>mh_pending_out_events := q\<rparr>, rs)
                     | None \<Rightarrow> (Pending, h2, rs)))))"

section \<open>The in-memory message store\<close>

type_synonym msg_store = "(peer_id, message list) hash_map"

definition mstore_insert_empty_record :: "peer_id \<Rightarrow> msg_store \<Rightarrow> msg_store" where
  "mstore_insert_empty_record peer s = (if hm_get s peer = None then hm_insert peer [] s else s)"

definition mstore_get_messages :: "msg_store \<Rightarrow> peer_id \<Rightarrow> message list option" where
  "mstore_get_messages s peer = hm_get s peer"

definition mstore_push_message :: "peer_id \<Rightarrow> message \<Rightarrow> msg_store \<Rightarrow> msg_store" where
  "mstore_push_message remote m s =
     (case hm_get s remote of
        None \<Rightarrow> hm_insert remote [m] s
      | Some ms \<Rightarrow> hm_insert remote (ms @ [m]) s)"

definition mstore_list_all_peers :: "msg_store \<Rightarrow> peer_id list" where
  "mstore_list_all_peers s = map fst s"

definition mstore_clear_message :: "peer_id option \<Rightarrow> msg_store \<Rightarrow> msg_store" where
  "mstore_clear_message sel s =
     (case sel of
        None \<Rightarrow> map (\<lambda>(k, _). (k, [])) s
      | Some peer \<Rightarrow> (case hm_get s peer of None \<Rightarrow> s | Some _ \<Rightarrow> hm_insert peer [] s))"

definition mstore_empty_store :: "msg_store \<Rightarrow> msg_store" where
  "mstore_empty_store s = []"

lemma hm_get_clear_all: "hm_get (map (\<lambda>(k, _). (k, [])) s) k = map_option (\<lambda>_. []) (hm_get s k)"
  by (induction s) (auto simp: hm_get_def)

interpretation mstore: resettable_history mstore_get_messages mstore_push_message mstore_clear_message
  by unfold_locales
    (auto simp: mstore_get_messages_def mstore_push_message_def mstore_clear_message_def hm_get_clear_all
      split: option.splits)

text \<open>
  The task spawned by \<open>Handle::new\<close>: every incoming message the behaviour reports is appended to
  the history of the sender named in the report; other events are ignored.
\<close>

fun msg_store_listener :: "msg_out_event \<Rightarrow> msg_store \<Rightarrow> msg_store" where
  "msg_store_listener (MsgOut_IncomingMessage from msg) s = mstore_push_message from msg s"
| "msg_store_listener ev s = s"

section \<open>The behaviour as a source of events\<close>

text \<open>What the queued requests become: a command for a handler, or an answer.\<close>

fun msg_forward :: "peer_id hash_set \<Rightarrow> msg_in_event \<Rightarrow> msg_to_swarm list" where
  "msg_forward peers (Msg_SendMessage peer m cb) =
     (if hs_contains peers peer then [NotifyHandler peer Any (PostMessage m cb)] else [])"
| "msg_forward peers (Msg_ListConnected cb) = []"

fun msg_answer :: "peer_id hash_set \<Rightarrow> msg_in_event \<Rightarrow> msg_reply list" where
  "msg_answer peers (Msg_SendMessage peer m cb) =
     (if hs_contains peers peer then [] else [MsgReplySend cb (Inl (MsgPeerNotFound peer))])"
| "msg_answer peers (Msg_ListConnected cb) = [MsgReplyConnected cb peers]"

definition msg_poll_log :: "msg_behaviour \<times> msg_reply list \<Rightarrow> msg_to_swarm poll \<times> msg_behaviour \<times> msg_reply list" where
  "msg_poll_log bl = (case msg_poll (fst bl) of (p, b', rs) \<Rightarrow> (p, b', snd bl @ rs))"

definition msg_queue :: "msg_behaviour \<times> msg_reply list \<Rightarrow> msg_to_swarm list" where
  "msg_queue bl = map GenerateEvent (mb_out_events (fst bl))
     @ concat (map (msg_forward (mb_connected_peers (fst bl))) (mb_in_events (fst bl)))"

definition msg_owed :: "msg_behaviour \<times> msg_reply list \<Rightarrow> msg_reply list" where
  "msg_owed bl = snd bl @ concat (map (msg_answer (mb_connected_peers (fst bl))) (mb_in_events (fst bl)))"

lemma msg_handle_in_events_None:
  "msg_handle_in_events peers evs = (None, evs', rs) \<Longrightarrow>
     evs' = [] \<and> concat (map (msg_forward peers) evs) = [] \<and> rs = concat (map (msg_answer peers) evs)"
  by (induction peers evs arbitrary: evs' rs rule: msg_handle_in_events.induct) (auto split: if_splits prod.splits)

lemma msg_handle_in_events_Some:
  "msg_handle_in_events peers evs = (Some ev, evs', rs) \<Longrightarrow>
     concat (map (msg_forward peers) evs) = ev # concat (map (msg_forward peers) evs')
     \<and> concat (map (msg_answer peers) evs) = rs @ concat (map (msg_answer peers) evs')"
  by (induction peers evs arbitrary: evs' rs rule: msg_handle_in_events.induct) (auto split: if_splits prod.splits)

interpretation msg_src: event_source msg_poll_log msg_queue
proof (unfold_locales, goal_cases)
  case (1 bl)
  then have "mb_out_events (fst bl) = []" by (simp add: msg_queue_def)
  obtain r evs rs where h: "msg_handle_in_events (mb_connected_peers (fst bl)) (mb_in_events (fst bl)) = (r, evs, rs)"
    by (cases "msg_handle_in_events (mb_connected_peers (fst bl)) (mb_in_events (fst bl))")
  then have "r = None"
    using 1 msg_handle_in_events_Some by (cases r) (fastforce simp: msg_queue_def)+
  with h 1 show ?case
    by (auto simp: msg_poll_log_def msg_poll_def msg_queue_def dest!: msg_handle_in_events_None)
next
  case (2 bl e es)
  obtain r evs rs where h: "msg_handle_in_events (mb_connected_peers (fst bl)) (mb_in_events (fst bl)) = (r, evs, rs)"
    by (cases "msg_handle_in_events (mb_connected_peers (fst bl)) (mb_in_events (fst bl))")
  show ?case
  proof (cases "mb_out_events (fst bl)")
    case (Cons ev q)
    with 2 show ?thesis by (auto simp: msg_poll_log_def msg_poll_def msg_queue_def)
  next
    case Nil
    have "r \<noteq> None"
    proof
      assume "r = None"
      with h have "concat (map (msg_forward (mb_connected_peers (fst bl))) (mb_in_events (fst bl))) = []"
        by (auto dest!: msg_handle_in_events_None)
      with 2 Nil show False
        by (simp add: msg_queue_def)
    qed
    then obtain ev where "r = Some ev" by auto
    with Nil 2 h msg_handle_in_events_Some [of _ _ ev evs rs] show ?thesis
      by (auto simp: msg_poll_log_def msg_poll_def msg_queue_def)
  qed
qed

lemma msg_owed_poll: "msg_owed (snd (msg_poll_log bl)) = msg_owed bl"
proof (cases "mb_out_events (fst bl)")
  case Nil
  obtain r evs rs where h: "msg_handle_in_events (mb_connected_peers (fst bl)) (mb_in_events (fst bl)) = (r, evs, rs)"
    by (cases "msg_handle_in_events (mb_connected_peers (fst bl)) (mb_in_events (fst bl))")
  with Nil show ?thesis
    by (cases r) (auto simp: msg_poll_log_def msg_poll_def msg_owed_def
        dest!: msg_handle_in_events_None msg_handle_in_events_Some)
qed (simp add: msg_poll_log_def msg_poll_def msg_owed_def)

lemma msg_owed_drain: "msg_owed (snd (drain msg_poll_log n bl)) = msg_owed bl"
proof (induction n arbitrary: bl)
  case (Suc n)
  obtain p bl' where p: "msg_poll_log bl = (p, bl')" by (cases "msg_poll_log bl")
  with msg_owed_poll [of bl] Suc.IH [of bl'] show ?case
    by (cases p) (auto split: prod.splits)
qed simp

section \<open>Properties\<close>

text \<open>
  C22. Every request to the messaging behaviour is served exactly once. Polled until it is pending,
  the behaviour hands out its queued events and then one command per queued message to a connected
  peer, in the order of the requests; every other request is answered through its callback, a
  message to an unconnected peer with \<open>PeerNotFound\<close>; and no request is left.
\<close>

theorem msg_requests_served_once:
  "case drain msg_poll_log (Suc (length (msg_queue (b, [])))) (b, []) of
     (evs, b', replies) \<Rightarrow>
       evs = map GenerateEvent (mb_out_events b) @ concat (map (msg_forward (mb_connected_peers b)) (mb_in_events b))
       \<and> replies = concat (map (msg_answer (mb_connected_peers b)) (mb_in_events b))
       \<and> mb_in_events b' = [] \<and> mb_out_events b' = []"
proof -
  let ?n = "Suc (length (msg_queue (b, [])))"
  obtain evs b' replies where d: "drain msg_poll_log ?n (b, []) = (evs, b', replies)"
    by (cases "drain msg_poll_log ?n (b, [])")
  have evs: "evs = msg_queue (b, [])" and q: "msg_queue (b', replies) = []"
    using msg_src.drain_take [of ?n "(b, [])"] d by simp_all
  obtain bl where bl: "fst (msg_poll_log bl) = Pending" "(b', replies) = snd (msg_poll_log bl)"
    using msg_src.drain_pending [of "(b, [])" ?n] d by auto
  have ins: "mb_in_events b' = []"
    using bl by (auto simp: msg_poll_log_def msg_poll_def dest!: msg_handle_in_events_None
        split: prod.splits option.splits)
  moreover have "replies = concat (map (msg_answer (mb_connected_peers b)) (mb_in_events b))"
    using msg_owed_drain [of ?n "(b, [])"] d ins by (simp add: msg_owed_def)
  ultimately show ?thesis
    using evs q d by (simp add: msg_queue_def)
qed

text \<open>A concrete codec that carries the message with both peers abbreviated to their first byte.\<close>

definition tiny_message :: message where
  "tiny_message = \<lparr>m_time = 1, m_from = PeerId [1], m_to = PeerId [2], m_msg = ''hi''\<rparr>"

fun peer_bytes :: "peer_id \<Rightarrow> u8 list" where
  "peer_bytes (PeerId bs) = bs"

definition demo_to_vec :: "message \<Rightarrow> u8 list" where
  "demo_to_vec m = u64_to_be_bytes (of_nat (length (peer_bytes (m_from m)))) @ u128_to_be_bytes (m_time m)
     @ concat (map (\<lambda>b. [1, b]) (peer_bytes (m_from m))) @ concat (map (\<lambda>b. [2, b]) (peer_bytes (m_to m)))
     @ concat (map (\<lambda>c. [3, of_nat (of_char c)]) (m_msg m))"

fun demo_split :: "u8 list \<Rightarrow> u8 list \<times> u8 list \<times> string" where
  "demo_split (t # b # bs) =
     (let (f, r, m) = demo_split bs
      in if t = 1 then (b # f, r, m) else if t = 2 then (f, b # r, m) else (f, r, char_of (unat b) # m))"
| "demo_split bs = ([], [], [])"

definition demo_from_slice :: "u8 list \<Rightarrow> string + message" where
  "demo_from_slice bs =
     (case demo_split (drop 24 bs) of (f, r, m) \<Rightarrow>
        Inr \<lparr>m_time = u128_from_be_bytes (take 16 (drop 8 bs)), m_from = PeerId f, m_to = PeerId r, m_msg = m\<rparr>)"

definition demo_json :: json_codec where
  "demo_json = \<lparr>json_to_vec = demo_to_vec, json_from_slice = demo_from_slice\<rparr>"

lemma demo_split_msg: "demo_split (concat (map (\<lambda>c. [3, of_nat (of_char c)]) m)) = ([], [], m)"
proof (induction m)
  case (Cons c m)
  have "char_of (unat (of_nat (of_char c) :: u8)) = c"
    by (simp add: unat_of_nat_u8)
  with Cons show ?case by simp
qed simp

lemma demo_split_all:
  "demo_split (concat (map (\<lambda>b. [1, b]) f) @ concat (map (\<lambda>b. [2, b]) r)
     @ concat (map (\<lambda>c. [3, of_nat (of_char c)]) m)) = (f, r, m)"
proof (induction f)
  case Nil
  show ?case by (induction r) (simp_all add: demo_split_msg)
qed simp

lemma demo_json_ok: "json_roundtrip demo_json"
proof -
  have "demo_from_slice (demo_to_vec m) = Inr m" for m
    by (cases "m_from m"; cases "m_to m"; cases m)
      (simp add: demo_from_slice_def demo_to_vec_def demo_split_all)
  moreover have "demo_to_vec m \<noteq> []" for m
    by (auto simp: demo_to_vec_def simp flip: length_greater_0_conv)
  ultimately show ?thesis
    by (simp add: json_roundtrip_def demo_json_def)
qed

definition msg_arrivals :: "json_codec \<Rightarrow> (peer_id \<times> message) list \<Rightarrow> msg_out_event list" where
  "msg_arrivals json xs = mb_out_events (fold (\<lambda>(peer, m). msg_on_handler_event json
     (MTB_IncomingMessage (message_as_bytes json m)) peer) xs (msg_behaviour_new msg_config_default))"

lemma msg_arrivals_eq:
  assumes "json_roundtrip json"
  shows "msg_arrivals json xs = map (\<lambda>(_, m). MsgOut_IncomingMessage (m_from m) m) xs"
proof -
  have "mb_out_events (fold (\<lambda>(peer, m). msg_on_handler_event json (MTB_IncomingMessage (message_as_bytes json m)) peer) xs b) =
      mb_out_events b @ map (\<lambda>(_, m). MsgOut_IncomingMessage (m_from m) m) xs" for b
    using assms
    by (induction xs arbitrary: b)
      (auto simp: json_roundtrip_def message_as_bytes_def msg_emit_def push_back_def)
  then show ?thesis
    by (simp add: msg_arrivals_def msg_behaviour_new_def)
qed

text \<open>
  C40. The message history is a faithful log, keyed by the sender a message \<^emph>\<open>claims\<close>: after any
  sequence of messages delivered by any connections, the history of a peer holds exactly the
  messages that name it as their sender, in the order of arrival. The connection a message came
  over plays no part.
\<close>

theorem msg_history_by_claimed_sender:
  assumes "json_roundtrip json"
  shows "mstore_get_messages (fold msg_store_listener (msg_arrivals json xs) []) p =
    (if filter (\<lambda>m. m_from m = p) (map snd xs) = [] then None
     else Some (filter (\<lambda>m. m_from m = p) (map snd xs)))"
proof -
  have "fold msg_store_listener (map (\<lambda>(_, m). MsgOut_IncomingMessage (m_from m) m) xs) s =
      fold (\<lambda>(k, m). mstore_push_message k m) (map (\<lambda>(_, m). (m_from m, m)) xs) s" for s
    by (induction xs arbitrary: s) auto
  moreover have "log_of p (map (\<lambda>(_, m). (m_from m, m)) xs) = filter (\<lambda>m. m_from m = p) (map snd xs)"
    by (induction xs) (auto simp: log_of_def)
  ultimately show ?thesis
    using mstore.history_fold [of "map (\<lambda>(_, m). (m_from m, m)) xs" "[]" p]
    by (simp add: msg_arrivals_eq [OF assms] mstore_get_messages_def)
qed

theorem msg_history_by_claimed_sender_witness:
  "mstore_get_messages (fold msg_store_listener (msg_arrivals demo_json [(PeerId [9], tiny_message)]) []) (PeerId [1])
    = Some [tiny_message]"
  using msg_history_by_claimed_sender [OF demo_json_ok, of "[(PeerId [9], tiny_message)]" "PeerId [1]"]
  by (simp add: tiny_message_def)

end
