(* ===== verification/Advertise.thy ===== *)
theory Advertise
  imports Owl_Wire
begin

text \<open>
  \<open>owlnest-advertise\<close>: a peer can ask another to advertise it, and can ask for the list of peers
  another one advertises. The behaviour (\<open>behaviour.rs\<close>), the connection handler (\<open>handler.rs\<close>) and
  the data types (\<open>lib.rs\<close>, \<open>config.rs\<close>). The JSON encoding of a packet is the parameter \<open>json\<close>.
\<close>

section \<open>Data\<close>

record adv_config =
  ac_timeout_ms :: u64
  ac_max_advertise_capacity :: nat

definition adv_config_default :: adv_config where
  "adv_config_default = \<lparr>ac_timeout_ms = 30 * 1000, ac_max_advertise_capacity = 32\<rparr>"

definition adv_config_new :: adv_config where
  "adv_config_new = adv_config_default"

definition adv_config_with_timeout :: "adv_config \<Rightarrow> u64 \<Rightarrow> adv_config" where
  "adv_config_with_timeout c ms = c\<lparr>ac_timeout_ms := ms\<rparr>"

datatype adv_error =
    AdvConnectionClosed
  | AdvVerifierMismatch
  | AdvNotProviding peer_id
  | AdvTimeout
  | AdvUnrecognizedMessage rust_text
  | AdvIO rust_text
  | AdvChannel

fun adv_error_fmt :: "adv_error \<Rightarrow> rust_text" where
  "adv_error_fmt AdvConnectionClosed = [Lit ''Connection Closed'']"
| "adv_error_fmt AdvVerifierMismatch = [Lit ''Message verifier mismatch'']"
| "adv_error_fmt AdvTimeout = [Lit ''Message timed out'']"
| "adv_error_fmt (AdvNotProviding peer) = [Lit ''Peer '', ArgPeer peer, Lit '' is not providing'']"
| "adv_error_fmt (AdvUnrecognizedMessage msg) = msg"
| "adv_error_fmt (AdvIO msg) = msg"
| "adv_error_fmt AdvChannel = [Lit ''Callback channel closed unexpectedly'']"

datatype adv_out_event =
    AdvOut_QueryAnswered peer_id "peer_id list option"
  | AdvOut_RemoteAdvertisementResult peer_id "unit + unit"
  | AdvOut_ProviderState bool
  | AdvOut_AdvertisedPeerChanged peer_id bool
  | AdvOut_Error adv_error

datatype adv_in_event =
    Adv_SetProviderState bool callback
  | Adv_GetProviderState callback
  | Adv_QueryAdvertisedPeer peer_id
  | Adv_SetRemoteAdvertisement peer_id bool callback
  | Adv_RemoveAdvertised peer_id
  | Adv_ClearAdvertised
  | Adv_ListAdvertised callback
  | Adv_ListConnected callback

datatype adv_from_behaviour =
    FQueryAdvertisedPeer
  | FAnswerAdvertisedPeer "peer_id list option"
  | FSetAdvertiseSelf bool

datatype adv_to_behaviour =
    ATB_IncomingQuery
  | ATB_QueryAnswered "peer_id list option"
  | ATB_IncomingAdvertiseReq bool
  | ATB_Error adv_error
  | ATB_InboundNegotiated
  | ATB_OutboundNegotiated

datatype adv_packet =
    PkAdvertiseSelf bool
  | PkQueryAdvertisedPeer
  | PkAnswerAdvertisedPeer "peer_id list option"

fun adv_event_of_packet :: "adv_packet \<Rightarrow> adv_to_behaviour" where
  "adv_event_of_packet (PkAdvertiseSelf b) = ATB_IncomingAdvertiseReq b"
| "adv_event_of_packet PkQueryAdvertisedPeer = ATB_IncomingQuery"
| "adv_event_of_packet (PkAnswerAdvertisedPeer result) = ATB_QueryAnswered result"

record packet_codec =
  pk_to_vec :: "adv_packet \<Rightarrow> u8 list"
  pk_from_slice :: "u8 list \<Rightarrow> string + adv_packet"

text \<open>What the code relies on: parsing a serialized packet gives it back, and JSON is never empty.\<close>

definition packet_roundtrip :: "packet_codec \<Rightarrow> bool" where
  "packet_roundtrip json \<longleftrightarrow> (\<forall>p. pk_from_slice json (pk_to_vec json p) = Inr p \<and> pk_to_vec json p \<noteq> [])"

definition adv_packet_as_bytes :: "packet_codec \<Rightarrow> adv_packet \<Rightarrow> u8 list" where
  "adv_packet_as_bytes json p = pk_to_vec json p"

datatype adv_reply =
    AdvReplyState callback bool
  | AdvReplyUnit callback
  | AdvReplyPeers callback "peer_id list"

section \<open>Behaviour\<close>

type_synonym adv_to_swarm = "(adv_out_event, adv_from_behaviour) to_swarm"

record adv_behaviour =
  ab_config :: adv_config
  ab_pending_out_events :: "adv_out_event list"
  ab_in_events :: "adv_in_event list"
  ab_advertised_peers :: "peer_id hash_set"
  ab_pending_query_answer :: "peer_id list"
  ab_connected_peers :: "peer_id hash_set"
  ab_is_providing :: bool

definition adv_behaviour_new :: "adv_config \<Rightarrow> adv_behaviour" where
  "adv_behaviour_new config =
     \<lparr>ab_config = config, ab_pending_out_events = [], ab_in_events = [], ab_advertised_peers = [],
      ab_pending_query_answer = [], ab_connected_peers = [], ab_is_providing = False\<rparr>"

definition adv_push_event :: "adv_in_event \<Rightarrow> adv_behaviour \<Rightarrow> adv_behaviour" where
  "adv_push_event ev b = b\<lparr>ab_in_events := push_back (ab_in_events b) ev\<rparr>"

definition adv_is_advertising :: "adv_behaviour \<Rightarrow> peer_id \<Rightarrow> bool" where
  "adv_is_advertising b peer = hs_contains (ab_advertised_peers b) peer"

definition adv_set_provider_status :: "bool \<Rightarrow> adv_behaviour \<Rightarrow> adv_behaviour" where
  "adv_set_provider_status status b = b\<lparr>ab_is_providing := status\<rparr>"

definition adv_get_provider_status :: "adv_behaviour \<Rightarrow> bool" where
  "adv_get_provider_status b = ab_is_providing b"

definition adv_remove_advertised :: "peer_id \<Rightarrow> adv_behaviour \<Rightarrow> bool \<times> adv_behaviour" where
  "adv_remove_advertised peer b =
     (hs_contains (ab_advertised_peers b) peer,
      b\<lparr>ab_advertised_peers := hs_remove peer (ab_advertised_peers b)\<rparr>)"

definition adv_clear_advertised :: "adv_behaviour \<Rightarrow> adv_behaviour" where
  "adv_clear_advertised b = b\<lparr>ab_advertised_peers := []\<rparr>"

definition adv_new_pending_query :: "peer_id \<Rightarrow> adv_behaviour \<Rightarrow> adv_behaviour" where
  "adv_new_pending_query peer b =
     b\<lparr>ab_pending_query_answer := push_back (ab_pending_query_answer b) peer\<rparr>"

definition adv_emit :: "adv_out_event \<Rightarrow> adv_behaviour \<Rightarrow> adv_behaviour" where
  "adv_emit ev b = b\<lparr>ab_pending_out_events := push_back (ab_pending_out_events b) ev\<rparr>"

fun adv_on_handler_event :: "peer_id \<Rightarrow> adv_to_behaviour \<Rightarrow> adv_behaviour \<Rightarrow> adv_behaviour" where
  "adv_on_handler_event peer ATB_IncomingQuery b =
     b\<lparr>ab_pending_query_answer := push_back (ab_pending_query_answer b) peer\<rparr>"
| "adv_on_handler_event peer (ATB_IncomingAdvertiseReq req) b =
     (if req
      then if length (ab_advertised_peers b) \<le> ac_max_advertise_capacity (ab_config b)
           then b\<lparr>ab_advertised_peers := hs_insert peer (ab_advertised_peers b)\<rparr> else b
      else b\<lparr>ab_advertised_peers := hs_remove peer (ab_advertised_peers b)\<rparr>)"
| "adv_on_handler_event peer (ATB_QueryAnswered result) b = adv_emit (AdvOut_QueryAnswered peer result) b"
| "adv_on_handler_event peer (ATB_Error e) b = adv_emit (AdvOut_Error e) b"
| "adv_on_handler_event peer ATB_InboundNegotiated b = b"
| "adv_on_handler_event peer ATB_OutboundNegotiated b =
     b\<lparr>ab_connected_peers := hs_insert peer (ab_connected_peers b)\<rparr>"

text \<open>\<open>handle_in_event\<close>: the loop over the queued requests; it stops at the first that yields an event.\<close>

fun adv_handle_loop ::
  "adv_in_event list \<Rightarrow> adv_behaviour \<Rightarrow> adv_to_swarm option \<times> adv_behaviour \<times> adv_reply list" where
  "adv_handle_loop [] b = (None, b\<lparr>ab_in_events := []\<rparr>, [])"
| "adv_handle_loop (Adv_QueryAdvertisedPeer peer # evs) b =
     (if hs_contains (ab_connected_peers b) peer
      then (Some (NotifyHandler peer Any FQueryAdvertisedPeer), b\<lparr>ab_in_events := evs\<rparr>, [])
      else adv_handle_loop evs (adv_emit (AdvOut_Error (AdvNotProviding peer)) b))"
| "adv_handle_loop (Adv_GetProviderState cb # evs) b =
     (Some (GenerateEvent (AdvOut_ProviderState (ab_is_providing b))), b\<lparr>ab_in_events := evs\<rparr>,
      [AdvReplyState cb (ab_is_providing b)])"
| "adv_handle_loop (Adv_SetRemoteAdvertisement remote state cb # evs) b =
     (Some (NotifyHandler remote Any (FSetAdvertiseSelf state)), b\<lparr>ab_in_events := evs\<rparr>, [AdvReplyUnit cb])"
| "adv_handle_loop (Adv_SetProviderState target_state cb # evs) b =
     (Some (GenerateEvent (AdvOut_ProviderState target_state)),
      adv_set_provider_status target_state (b\<lparr>ab_in_events := evs\<rparr>), [AdvReplyState cb target_state])"
| "adv_handle_loop (Adv_RemoveAdvertised peer # evs) b =
     (let (result, b') = adv_remove_advertised peer b
      in (Some (GenerateEvent (AdvOut_AdvertisedPeerChanged peer result)), b'\<lparr>ab_in_events := evs\<rparr>, []))"
| "adv_handle_loop (Adv_ListAdvertised cb # evs) b =
     (let (r, b', rs) = adv_handle_loop evs b in (r, b', AdvReplyPeers cb (ab_advertised_peers b) # rs))"
| "adv_handle_loop (Adv_ClearAdvertised # evs) b = adv_handle_loop evs (adv_clear_advertised b)"
| "adv_handle_loop (Adv_ListConnected cb # evs) b =
     (let (r, b', rs) = adv_handle_loop evs b in (r, b', AdvReplyPeers cb (ab_connected_peers b) # rs))"

definition adv_handle_in_event :: "adv_behaviour \<Rightarrow> adv_to_swarm option \<times> adv_behaviour \<times> adv_reply list" where
  "adv_handle_in_event b = adv_handle_loop (ab_in_events b) b"

definition adv_poll :: "adv_behaviour \<Rightarrow> adv_to_swarm poll \<times> adv_behaviour \<times> adv_reply list" where
  "adv_poll b =
     (case pop_front (ab_pending_query_answer b) of
        Some (peer, q) \<Rightarrow>
          (Ready (NotifyHandler peer Any (FAnswerAdvertisedPeer
             (if ab_is_providing b then Some (ab_advertised_peers b) else None))),
           b\<lparr>ab_pending_query_answer := q\<rparr>, [])
      | None \<Rightarrow>
          (case adv_handle_in_event b of
             (Some ev, b', rs) \<Rightarrow> (Ready ev, b', rs)
           | (None, b', rs) \<Rightarrow>
               (case pop_front (ab_pending_out_events b') of
                  Some (ev, q) \<Rightarrow> (Ready (GenerateEvent ev), b'\<lparr>ab_pending_out_events := q\<rparr>, rs)
                | None \<Rightarrow> (Pending, b', rs))))"

fun adv_on_swarm_event :: "from_swarm \<Rightarrow> adv_behaviour \<Rightarrow> adv_behaviour" where
  "adv_on_swarm_event (ConnectionClosed closed) b =
     (if cc_remaining_established closed < 1
      then b\<lparr>ab_advertised_peers := hs_remove (cc_peer_id closed) (ab_advertised_peers b),
             ab_connected_peers := hs_remove (cc_peer_id closed) (ab_connected_peers b)\<rparr>
      else b)"
| "adv_on_swarm_event (OtherFromSwarm _) b = b"

section \<open>Connection handler\<close>

definition ADV_PROTOCOL_NAME :: string where
  "ADV_PROTOCOL_NAME = ''/owlnest/advertise/0.0.1''"

datatype adv_outbound_state =
    AdvOpenStream
  | AdvIdle wire
  | AdvBusy wire "u8 list" nat

record adv_handler =
  ah_state :: handler_state
  ah_pending_in_events :: "adv_from_behaviour list"
  ah_pending_out_events :: "adv_to_behaviour list"
  ah_timeout :: duration
  ah_inbound :: "wire option"
  ah_outbound :: "adv_outbound_state option"

definition adv_handler_new :: adv_handler where
  "adv_handler_new =
     \<lparr>ah_state = Active, ah_pending_in_events = [], ah_pending_out_events = [],
      ah_timeout = 20 * 1000, ah_inbound = None, ah_outbound = None\<rparr>"

definition adv_listen_protocol :: "adv_handler \<Rightarrow> string" where
  "adv_listen_protocol h = ADV_PROTOCOL_NAME"

definition adv_on_behaviour_event :: "adv_from_behaviour \<Rightarrow> adv_handler \<Rightarrow> adv_handler" where
  "adv_on_behaviour_event ev h = h\<lparr>ah_pending_in_events := push_back (ah_pending_in_events h) ev\<rparr>"

definition adv_keep_alive :: "adv_handler \<Rightarrow> bool" where
  "adv_keep_alive h = True"

definition adv_push_out :: "adv_to_behaviour \<Rightarrow> adv_handler \<Rightarrow> adv_handler" where
  "adv_push_out ev h = h\<lparr>ah_pending_out_events := push_back (ah_pending_out_events h) ev\<rparr>"

definition adv_poll_inbound ::
  "(u8 list \<Rightarrow> u128) \<Rightarrow> packet_codec \<Rightarrow> handler_io \<Rightarrow> adv_handler \<Rightarrow> adv_handler" where
  "adv_poll_inbound H json env h =
     (case ah_inbound h of
        None \<Rightarrow> h
      | Some stream \<Rightarrow>
          (case poll_universal_recv H (hio_inbound env) stream of
             Pending \<Rightarrow> h
           | Ready (Inl e) \<Rightarrow>
               (adv_push_out (ATB_Error (AdvIO (Lit ''IO Error: '' # io_debug e))) h)\<lparr>ah_inbound := None\<rparr>
           | Ready (Inr (stream', bytes)) \<Rightarrow>
               (let h' = h\<lparr>ah_inbound := Some stream'\<rparr>
                in case pk_from_slice json bytes of
                     Inr packet \<Rightarrow> adv_push_out (adv_event_of_packet packet) h'
                   | Inl e \<Rightarrow> adv_push_out (ATB_Error (AdvUnrecognizedMessage
                       [Lit ''Unrecognized message: '', ArgForeign e, Lit '', raw data: '', ArgUtf8Lossy bytes])) h')))"

fun adv_packet_of_cmd :: "adv_from_behaviour \<Rightarrow> adv_packet" where
  "adv_packet_of_cmd FQueryAdvertisedPeer = PkQueryAdvertisedPeer"
| "adv_packet_of_cmd (FAnswerAdvertisedPeer result) = PkAnswerAdvertisedPeer result"
| "adv_packet_of_cmd (FSetAdvertiseSelf state) = PkAdvertiseSelf state"

definition adv_outbound_weight :: "adv_handler \<Rightarrow> nat" where
  "adv_outbound_weight h = 2 * length (ah_pending_in_events h)
     + (case ah_outbound h of Some (AdvBusy _ _ _) \<Rightarrow> 1 | _ \<Rightarrow> 0)"

function adv_poll_outbound ::
  "(u8 list \<Rightarrow> u128) \<Rightarrow> packet_codec \<Rightarrow> handler_io \<Rightarrow> nat \<Rightarrow> adv_handler
    \<Rightarrow> (string, adv_to_behaviour) connection_handler_event option \<times> adv_handler" where
  "adv_poll_outbound H json env i h =
     (case ah_outbound h of
        Some (AdvBusy stream bytes deadline) \<Rightarrow>
          (case poll_universal_send H (hio_outbound env i) stream bytes of
             Pending \<Rightarrow>
               if hio_instant env \<ge> deadline
               then adv_poll_outbound H json env (Suc i)
                      (adv_push_out (ATB_Error AdvTimeout) (h\<lparr>ah_outbound := None\<rparr>))
               else (None, h)
           | Ready (Inr (stream', rtt)) \<Rightarrow>
               adv_poll_outbound H json env (Suc i) (h\<lparr>ah_outbound := Some (AdvIdle stream')\<rparr>)
           | Ready (Inl e) \<Rightarrow>
               adv_poll_outbound H json env (Suc i)
                 (adv_push_out (ATB_Error (AdvIO (Lit ''IO Error: '' # io_debug e))) (h\<lparr>ah_outbound := None\<rparr>)))
      | Some (AdvIdle stream) \<Rightarrow>
          (case ah_pending_in_events h of
             [] \<Rightarrow> (None, h)
           | ev # evs \<Rightarrow>
               adv_poll_outbound H json env i
                 (h\<lparr>ah_pending_in_events := evs,
                    ah_outbound := Some (AdvBusy stream (adv_packet_as_bytes json (adv_packet_of_cmd ev))
                                           (hio_instant env + ah_timeout h))\<rparr>))
      | Some AdvOpenStream \<Rightarrow> (None, h)
      | None \<Rightarrow> (Some (OutboundSubstreamRequest ADV_PROTOCOL_NAME), h\<lparr>ah_outbound := Some AdvOpenStream\<rparr>))"
  by pat_completeness auto
termination
  by (relation "measure (\<lambda>(_, _, _, _, h). adv_outbound_weight h)")
    (auto simp: adv_outbound_weight_def adv_push_out_def)

declare adv_poll_outbound.simps [simp del]

definition adv_handler_poll ::
  "(u8 list \<Rightarrow> u128) \<Rightarrow> packet_codec \<Rightarrow> handler_io \<Rightarrow> adv_handler
    \<Rightarrow> (string, adv_to_behaviour) connection_handler_event poll \<times> adv_handler" where
  "adv_handler_poll H json env h0 =
     (if ah_state h0 = Inactive True then (Pending, h0)
      else
        (let h = (if ah_state h0 = Inactive False then h0\<lparr>ah_state := Inactive True\<rparr> else h0);
             h1 = adv_poll_inbound H json env h
         in case adv_poll_outbound H json env 0 h1 of
              (Some ev, h2) \<Rightarrow> (Ready ev, h2)
            | (None, h2) \<Rightarrow>
                (case pop_front (ah_pending_out_events h2) of
                   Some (ev, q) \<Rightarrow> (Ready (NotifyBehaviour ev), h2\<lparr>ah_pending_out_events := q\<rparr>)
                 | None \<Rightarrow> (Pending, h2))))"

definition adv_on_dial_upgrade_error :: "stream_upgrade_error \<Rightarrow> adv_handler \<Rightarrow> adv_handler" where
  "adv_on_dial_upgrade_error e h =
     (let h' = h\<lparr>ah_outbound := None\<rparr>
      in case e of NegotiationFailed \<Rightarrow> h'\<lparr>ah_state := Inactive False\<rparr> | _ \<Rightarrow> h')"

fun adv_on_connection_event :: "wire connection_event \<Rightarrow> adv_handler \<Rightarrow> adv_handler outcome" where
  "adv_on_connection_event (FullyNegotiatedInbound stream) h =
     Returns (adv_push_out ATB_InboundNegotiated (h\<lparr>ah_inbound := Some stream\<rparr>))"
| "adv_on_connection_event (FullyNegotiatedOutbound stream) h =
     Returns (adv_push_out ATB_OutboundNegotiated (h\<lparr>ah_outbound := Some (AdvIdle stream)\<rparr>))"
| "adv_on_connection_event (DialUpgradeError e) h = Returns (adv_on_dial_upgrade_error e h)"
| "adv_on_connection_event LocalProtocolsChange h = Returns h"
| "adv_on_connection_event RemoteProtocolsChange h = Returns h"
| "adv_on_connection_event AddressChange h = Panics"
| "adv_on_connection_event ListenUpgradeError h = Panics"

end
