(* ===== verification/Advertise_Claims.thy ===== *)
theory Advertise_Claims
  imports Advertise
begin

text \<open>
  Properties of the advertise protocol: the bound on advertised peers in every reachable state and
  that it is attained, who may see the list, delivery of packets between two handlers, and the
  handling of peers that do not speak the protocol.
\<close>

section \<open>Reachable states\<close>

inductive adv_step :: "adv_behaviour \<Rightarrow> adv_behaviour \<Rightarrow> bool" where
  request: "adv_step b (adv_push_event ev b)"
| connection: "adv_step b (adv_on_handler_event peer hev b)"
| swarm: "adv_step b (adv_on_swarm_event sev b)"
| poll: "adv_poll b = (r, b', replies) \<Longrightarrow> adv_step b b'"
| set_provider: "adv_step b (adv_set_provider_status st b)"
| remove_peer: "adv_step b (snd (adv_remove_advertised peer b))"
| clear_peers: "adv_step b (adv_clear_advertised b)"
| query: "adv_step b (adv_new_pending_query peer b)"

definition adv_inv :: "adv_config \<Rightarrow> adv_behaviour \<Rightarrow> bool" where
  "adv_inv c b \<longleftrightarrow> ab_config b = c \<and> hs_wf (ab_advertised_peers b) \<and> hs_wf (ab_connected_peers b)
     \<and> length (ab_advertised_peers b) \<le> Suc (ac_max_advertise_capacity c)"

lemma adv_inv_simps [simp]:
  "adv_inv c (b\<lparr>ab_in_events := evs\<rparr>) = adv_inv c b"
  "adv_inv c (b\<lparr>ab_pending_out_events := q\<rparr>) = adv_inv c b"
  "adv_inv c (b\<lparr>ab_pending_query_answer := pq\<rparr>) = adv_inv c b"
  "adv_inv c (b\<lparr>ab_is_providing := st\<rparr>) = adv_inv c b"
  "adv_inv c (adv_emit ev b) = adv_inv c b"
  by (simp_all add: adv_inv_def adv_emit_def)

lemma adv_inv_remove:
  "adv_inv c b \<Longrightarrow> adv_inv c (b\<lparr>ab_advertised_peers := hs_remove peer (ab_advertised_peers b)\<rparr>)"
  using length_hs_remove_le [of peer "ab_advertised_peers b"] by (simp add: adv_inv_def)

lemma adv_inv_clear: "adv_inv c b \<Longrightarrow> adv_inv c (adv_clear_advertised b)"
  by (simp add: adv_inv_def adv_clear_advertised_def)

lemma adv_inv_insert:
  "adv_inv c b \<Longrightarrow> length (ab_advertised_peers b) \<le> ac_max_advertise_capacity c \<Longrightarrow>
     adv_inv c (b\<lparr>ab_advertised_peers := hs_insert peer (ab_advertised_peers b)\<rparr>)"
  by (simp add: adv_inv_def length_hs_insert)

lemma adv_inv_handle_loop:
  "adv_inv c b \<Longrightarrow> adv_handle_loop evs b = (r, b', rs) \<Longrightarrow> adv_inv c b'"
  by (induction evs b arbitrary: r b' rs rule: adv_handle_loop.induct)
    (auto simp: adv_inv_remove adv_inv_clear adv_set_provider_status_def adv_remove_advertised_def Let_def
      split: if_splits prod.splits)

lemma adv_inv_poll: "adv_inv c b \<Longrightarrow> adv_poll b = (r, b', rs) \<Longrightarrow> adv_inv c b'"
  by (auto simp: adv_poll_def adv_handle_in_event_def dest: adv_inv_handle_loop
      split: option.splits prod.splits)

lemma adv_inv_on_handler_event:
  assumes "adv_inv c b"
  shows "adv_inv c (adv_on_handler_event peer ev b)"
proof (cases ev)
  case (ATB_IncomingAdvertiseReq req)
  have "ab_config b = c"
    using assms by (simp add: adv_inv_def)
  with ATB_IncomingAdvertiseReq assms show ?thesis
    by (simp add: adv_inv_remove adv_inv_insert)
next
  case ATB_OutboundNegotiated
  with assms show ?thesis by (simp add: adv_inv_def)
qed (use assms in simp_all)

lemma adv_inv_on_swarm_event: "adv_inv c b \<Longrightarrow> adv_inv c (adv_on_swarm_event ev b)"
proof (cases ev)
  case (ConnectionClosed info)
  assume "adv_inv c b"
  from adv_inv_remove [OF this, of "cc_peer_id info"] ConnectionClosed show ?thesis
    using \<open>adv_inv c b\<close> by (simp add: adv_inv_def)
qed simp

lemma adv_inv_step: "adv_inv c b \<Longrightarrow> adv_step b b' \<Longrightarrow> adv_inv c b'"
  by (erule adv_step.cases)
    (auto simp: adv_push_event_def adv_set_provider_status_def adv_remove_advertised_def adv_new_pending_query_def
      adv_inv_on_handler_event adv_inv_on_swarm_event adv_inv_remove adv_inv_clear dest: adv_inv_poll)

interpretation adv_sys: invariant_system "adv_behaviour_new c" adv_step "adv_inv c" for c
proof
  show "adv_inv c (adv_behaviour_new c)"
    by (simp add: adv_inv_def adv_behaviour_new_def)
qed (rule adv_inv_step)

text \<open>
  C30. In every reachable state the advertise behaviour advertises distinct peers and at most one
  more than \<open>max_advertise_capacity\<close>.
\<close>

theorem adv_capacity_bound:
  assumes "adv_step\<^sup>*\<^sup>* (adv_behaviour_new c) b"
  shows "distinct (ab_advertised_peers b) \<and> length (ab_advertised_peers b) \<le> Suc (ac_max_advertise_capacity c)"
  using adv_sys.reachable_inv [OF assms] by (simp add: adv_inv_def hs_wf_def)

theorem adv_capacity_bound_witness:
  "length (ab_advertised_peers (adv_on_handler_event (PeerId [1]) (ATB_IncomingAdvertiseReq True)
      (adv_behaviour_new adv_config_default))) \<le> 33"
proof -
  have "adv_step\<^sup>*\<^sup>* (adv_behaviour_new adv_config_default)
      (adv_on_handler_event (PeerId [1]) (ATB_IncomingAdvertiseReq True) (adv_behaviour_new adv_config_default))"
    by (rule r_into_rtranclp) (rule adv_step.connection)
  from adv_capacity_bound [OF this] show ?thesis
    by (simp add: adv_config_default_def)
qed

text \<open>
  The bound is attained: \<open>max_advertise_capacity + 1\<close> distinct peers that ask to be advertised
  are all advertised, and the next peer that asks is refused.
\<close>

theorem adv_capacity_one_more:
  assumes "distinct ps" and "length ps = Suc (ac_max_advertise_capacity c)" and "p \<notin> set ps"
  defines "b \<equiv> fold (\<lambda>peer. adv_on_handler_event peer (ATB_IncomingAdvertiseReq True)) ps (adv_behaviour_new c)"
  shows "set (ab_advertised_peers b) = set ps \<and> length (ab_advertised_peers b) = Suc (ac_max_advertise_capacity c)
    \<and> adv_on_handler_event p (ATB_IncomingAdvertiseReq True) b = b"
proof -
  have fill: "ab_advertised_peers (fold (\<lambda>peer. adv_on_handler_event peer (ATB_IncomingAdvertiseReq True)) qs b0) =
        rev qs @ ab_advertised_peers b0
      \<and> ab_config (fold (\<lambda>peer. adv_on_handler_event peer (ATB_IncomingAdvertiseReq True)) qs b0) = ab_config b0"
    if "distinct qs" "set qs \<inter> set (ab_advertised_peers b0) = {}"
      "length qs + length (ab_advertised_peers b0) \<le> Suc (ac_max_advertise_capacity (ab_config b0))" for qs b0
    using that
  proof (induction qs arbitrary: b0)
    case (Cons q qs)
    define b1 where "b1 = adv_on_handler_event q (ATB_IncomingAdvertiseReq True) b0"
    have b1: "ab_advertised_peers b1 = q # ab_advertised_peers b0" "ab_config b1 = ab_config b0"
      using Cons.prems by (simp_all add: b1_def hs_insert_def)
    then have "set qs \<inter> set (ab_advertised_peers b1) = {}"
      "length qs + length (ab_advertised_peers b1) \<le> Suc (ac_max_advertise_capacity (ab_config b1))"
      using Cons.prems by auto
    with Cons.IH [of b1] Cons.prems(1) b1 show ?case
      by (simp add: b1_def [symmetric] del: adv_on_handler_event.simps)
  qed simp
  have "ab_advertised_peers b = rev ps \<and> ab_config b = c"
    using fill [of ps "adv_behaviour_new c"] assms(1,2) by (simp add: b_def adv_behaviour_new_def)
  then show ?thesis
    using assms(2) by simp
qed

theorem adv_capacity_one_more_witness:
  "set (ab_advertised_peers (fold (\<lambda>peer. adv_on_handler_event peer (ATB_IncomingAdvertiseReq True))
      [PeerId [1], PeerId [2]] (adv_behaviour_new \<lparr>ac_timeout_ms = 0, ac_max_advertise_capacity = 1\<rparr>)))
    = {PeerId [1], PeerId [2]}"
  using adv_capacity_one_more [of "[PeerId [1], PeerId [2]]" "\<lparr>ac_timeout_ms = 0, ac_max_advertise_capacity = 1\<rparr>" "PeerId [3]"]
  by simp

section \<open>Who sees the list\<close>

lemma adv_handle_loop_no_answer:
  "adv_handle_loop evs b = (Some (NotifyHandler p h (FAnswerAdvertisedPeer ans)), b', rs) \<Longrightarrow> False"
  by (induction evs b arbitrary: b' rs rule: adv_handle_loop.induct) (auto simp: Let_def split: if_splits prod.splits)

text \<open>
  The list of advertised peers leaves the behaviour only as an answer: whenever a poll hands a
  connection an answer, it goes to the peer that has waited longest for one, it carries the current
  list exactly when the behaviour is a provider and nothing otherwise, and that query is done.
\<close>

theorem adv_answers_gated:
  assumes "adv_poll b = (Ready (NotifyHandler p h (FAnswerAdvertisedPeer ans)), b', rs)"
  shows "ab_pending_query_answer b = p # ab_pending_query_answer b'
    \<and> ans = (if ab_is_providing b then Some (ab_advertised_peers b) else None)"
  using assms
  by (cases "ab_pending_query_answer b")
    (auto simp: adv_poll_def adv_handle_in_event_def dest!: adv_handle_loop_no_answer
      split: prod.splits option.splits if_splits)

theorem adv_answers_gated_witness:
  "\<exists>b'. adv_poll ((adv_behaviour_new adv_config_default)\<lparr>ab_pending_query_answer := [PeerId [5]], ab_advertised_peers := [PeerId [6]]\<rparr>)
      = (Ready (NotifyHandler (PeerId [5]) Any (FAnswerAdvertisedPeer None)), b', [])
    \<and> ab_pending_query_answer b' = []"
proof -
  have eq: "adv_poll ((adv_behaviour_new adv_config_default)\<lparr>ab_pending_query_answer := [PeerId [5]], ab_advertised_peers := [PeerId [6]]\<rparr>)
      = (Ready (NotifyHandler (PeerId [5]) Any (FAnswerAdvertisedPeer None)),
         (adv_behaviour_new adv_config_default)\<lparr>ab_pending_query_answer := [], ab_advertised_peers := [PeerId [6]]\<rparr>, [])"
    by (simp add: adv_poll_def adv_behaviour_new_def)
  from adv_answers_gated [OF eq] eq show ?thesis by simp
qed

section \<open>Packets between handlers\<close>

lemma adv_outbound_one:
  assumes "fault_free e" and "never_stalls e" and "hio_outbound env = (\<lambda>_. Some e)"
    and "ah_outbound h = Some (AdvIdle s)" and "ah_pending_in_events h = [cmd]"
    and "bytes = adv_packet_as_bytes json (adv_packet_of_cmd cmd)" and "w_rx s = u128_to_be_bytes (H bytes)"
  shows "\<exists>h' s'. adv_poll_outbound H json env i h = (None, h') \<and> ah_outbound h' = Some (AdvIdle s')
    \<and> ah_pending_in_events h' = [] \<and> ah_pending_out_events h' = ah_pending_out_events h
    \<and> w_tx s' = w_tx s @ u64_to_be_bytes (of_nat (length bytes)) @ bytes"
proof -
  obtain n where send: "universal_send H e s bytes =
      Some (Inr (\<lparr>w_rx = [], w_tx = w_tx s @ u64_to_be_bytes (of_nat (length bytes)) @ bytes, w_ops = n\<rparr>, io_elapsed e))"
    using universal_send_ok [OF assms(1,2), of s "u128_to_be_bytes (H bytes)" "[]" H bytes] assms(7) by auto
  define s' where "s' = \<lparr>w_rx = [], w_tx = w_tx s @ u64_to_be_bytes (of_nat (length bytes)) @ bytes, w_ops = n\<rparr>"
  define h1 where "h1 = h\<lparr>ah_pending_in_events := [], ah_outbound := Some (AdvBusy s bytes (hio_instant env + ah_timeout h))\<rparr>"
  define h2 where "h2 = h1\<lparr>ah_outbound := Some (AdvIdle s')\<rparr>"
  have 1: "adv_poll_outbound H json env i h = adv_poll_outbound H json env i h1"
    using assms(4-6) by (subst adv_poll_outbound.simps) (simp add: h1_def)
  have 2: "adv_poll_outbound H json env (Suc i) h2 = (None, h2)"
    by (subst adv_poll_outbound.simps) (simp add: h2_def h1_def)
  have "adv_poll_outbound H json env i h1 = (None, h2)"
    using assms(3) send 2
    by (subst adv_poll_outbound.simps) (simp add: poll_universal_send_def h2_def h1_def s'_def)
  with 1 show ?thesis
    by (simp add: h2_def h1_def s'_def)
qed

text \<open>
  C23. A query is answered across the network. A provider's behaviour that has just received a query
  answers it at its next poll with its list; the command for the answer, sent by the provider's
  handler over a stream without faults, is read by the asking peer's handler as the answer, and the
  asking peer's behaviour then reports the provider's list under the provider's name.
\<close>

theorem adv_query_answered:
  assumes "packet_roundtrip json" and "ab_pending_query_answer p = []"
    and "bytes = adv_packet_as_bytes json (PkAnswerAdvertisedPeer (if ab_is_providing p then Some (ab_advertised_peers p) else None))"
    and "length bytes div 1024 \<le> 128"
    and "fault_free es" and "never_stalls es" and "hio_outbound ea = (\<lambda>_. Some es)"
    and "ah_outbound a = Some (AdvIdle s)" and "ah_pending_in_events a = []" and "w_rx s = u128_to_be_bytes (H bytes)"
    and "fault_free er" and "hio_inbound eb = Some er" and "ah_inbound h = Some r"
    and "w_rx r = u64_to_be_bytes (of_nat (length bytes)) @ bytes"
  shows "\<exists>p' cmd a' s'. adv_poll (adv_on_handler_event asker ATB_IncomingQuery p) = (Ready (NotifyHandler asker Any cmd), p', [])
    \<and> adv_poll_outbound H json ea 0 (adv_on_behaviour_event cmd a) = (None, a')
    \<and> ah_outbound a' = Some (AdvIdle s') \<and> w_tx s' = w_tx s @ w_rx r
    \<and> ah_pending_out_events (adv_poll_inbound H json eb h) = ah_pending_out_events h
        @ [ATB_QueryAnswered (if ab_is_providing p then Some (ab_advertised_peers p) else None)]
    \<and> ab_pending_out_events (adv_on_handler_event provider
         (ATB_QueryAnswered (if ab_is_providing p then Some (ab_advertised_peers p) else None)) q)
       = ab_pending_out_events q
        @ [AdvOut_QueryAnswered provider (if ab_is_providing p then Some (ab_advertised_peers p) else None)]"
proof -
  let ?ans = "if ab_is_providing p then Some (ab_advertised_peers p) else None"
  have json: "pk_from_slice json bytes = Inr (PkAnswerAdvertisedPeer ?ans)" "bytes \<noteq> []"
    using assms(1,3) by (simp_all add: packet_roundtrip_def adv_packet_as_bytes_def)
  have "adv_poll (adv_on_handler_event asker ATB_IncomingQuery p) =
      (Ready (NotifyHandler asker Any (FAnswerAdvertisedPeer ?ans)), p, [])"
    using assms(2) by (simp add: adv_poll_def push_back_def)
  moreover obtain a' s' where "adv_poll_outbound H json ea 0 (adv_on_behaviour_event (FAnswerAdvertisedPeer ?ans) a) = (None, a')"
    "ah_outbound a' = Some (AdvIdle s')" "w_tx s' = w_tx s @ w_rx r"
    using adv_outbound_one [OF assms(5-7), of "adv_on_behaviour_event (FAnswerAdvertisedPeer ?ans) a" s
        "FAnswerAdvertisedPeer ?ans" bytes json H 0] assms(3,8-10,14)
    by (auto simp: adv_on_behaviour_event_def push_back_def)
  moreover obtain r' where "universal_recv H er r = Some (Inr (r', bytes))"
    using universal_recv_frame [OF assms(11,4) json(2) assms(14), of H] by blast
  then have "ah_pending_out_events (adv_poll_inbound H json eb h) = ah_pending_out_events h @ [ATB_QueryAnswered ?ans]"
    using assms(12,13) json(1)
    by (simp add: adv_poll_inbound_def poll_universal_recv_def adv_push_out_def push_back_def)
  ultimately show ?thesis
    by (simp add: adv_emit_def push_back_def)
qed

text \<open>A concrete packet codec.\<close>

fun enc_peers :: "peer_id list \<Rightarrow> u8 list" where
  "enc_peers [] = [2]"
| "enc_peers (PeerId bs # ps) = concat (map (\<lambda>b. [1, b]) bs) @ 0 # enc_peers ps"

fun dec_peers :: "u8 list \<Rightarrow> u8 list \<Rightarrow> peer_id list" where
  "dec_peers acc (t # bs) =
     (if t = 0 then PeerId acc # dec_peers [] bs
      else if t = 1 then (case bs of [] \<Rightarrow> [] | b # bs' \<Rightarrow> dec_peers (acc @ [b]) bs')
      else [])"
| "dec_peers acc [] = []"

lemma dec_enc_bytes: "dec_peers acc (concat (map (\<lambda>b. [1, b]) bs) @ rest) = dec_peers (acc @ bs) rest"
  by (induction bs arbitrary: acc) simp_all

lemma dec_enc_peers: "dec_peers [] (enc_peers ps) = ps"
  by (induction ps rule: enc_peers.induct) (simp_all add: dec_enc_bytes)

fun demo_pk_to_vec :: "adv_packet \<Rightarrow> u8 list" where
  "demo_pk_to_vec (PkAdvertiseSelf b) = [if b then 1 else 0]"
| "demo_pk_to_vec PkQueryAdvertisedPeer = [2]"
| "demo_pk_to_vec (PkAnswerAdvertisedPeer None) = [3]"
| "demo_pk_to_vec (PkAnswerAdvertisedPeer (Some ps)) = 4 # enc_peers ps"

fun demo_pk_from_slice :: "u8 list \<Rightarrow> string + adv_packet" where
  "demo_pk_from_slice [] = Inl ''empty''"
| "demo_pk_from_slice (t # bs) =
     (if t = 0 then Inr (PkAdvertiseSelf False) else if t = 1 then Inr (PkAdvertiseSelf True)
      else if t = 2 then Inr PkQueryAdvertisedPeer else if t = 3 then Inr (PkAnswerAdvertisedPeer None)
      else Inr (PkAnswerAdvertisedPeer (Some (dec_peers [] bs))))"

definition demo_packets :: packet_codec where
  "demo_packets = \<lparr>pk_to_vec = demo_pk_to_vec, pk_from_slice = demo_pk_from_slice\<rparr>"

lemma demo_packets_ok: "packet_roundtrip demo_packets"
proof -
  have "demo_pk_from_slice (demo_pk_to_vec p) = Inr p \<and> demo_pk_to_vec p \<noteq> []" for p
    by (cases p rule: demo_pk_to_vec.cases) (simp_all add: dec_enc_peers)
  then show ?thesis
    by (simp add: packet_roundtrip_def demo_packets_def)
qed

theorem adv_query_answered_witness:
  "let p = (adv_behaviour_new adv_config_default)\<lparr>ab_is_providing := True, ab_advertised_peers := [PeerId [6]]\<rparr>;
       bytes = adv_packet_as_bytes demo_packets (PkAnswerAdvertisedPeer (Some [PeerId [6]]));
       r = \<lparr>w_rx = u64_to_be_bytes (of_nat (length bytes)) @ bytes, w_tx = [], w_ops = 0\<rparr>
   in \<exists>p' cmd. adv_poll (adv_on_handler_event (PeerId [5]) ATB_IncomingQuery p) = (Ready (NotifyHandler (PeerId [5]) Any cmd), p', [])
    \<and> ah_pending_out_events (adv_poll_inbound (\<lambda>_. 0) demo_packets quiet_io (adv_handler_new\<lparr>ah_inbound := Some r\<rparr>))
        = [ATB_QueryAnswered (Some [PeerId [6]])]"
proof -
  let ?p = "(adv_behaviour_new adv_config_default)\<lparr>ab_is_providing := True, ab_advertised_peers := [PeerId [6]]\<rparr>"
  let ?bytes = "adv_packet_as_bytes demo_packets (PkAnswerAdvertisedPeer (Some [PeerId [6]]))"
  let ?r = "\<lparr>w_rx = u64_to_be_bytes (of_nat (length ?bytes)) @ ?bytes, w_tx = [], w_ops = 0\<rparr>"
  let ?s = "\<lparr>w_rx = u128_to_be_bytes 0, w_tx = [], w_ops = 0\<rparr>"
  have "length ?bytes div 1024 \<le> 128"
    by (simp add: adv_packet_as_bytes_def demo_packets_def)
  then show ?thesis
    using adv_query_answered [OF demo_packets_ok, of ?p ?bytes quiet_env quiet_io
        "adv_handler_new\<lparr>ah_outbound := Some (AdvIdle ?s)\<rparr>" ?s "\<lambda>_. 0" quiet_env quiet_io
        "adv_handler_new\<lparr>ah_inbound := Some ?r\<rparr>" ?r "PeerId [5]" "PeerId [7]" "adv_behaviour_new adv_config_default"]
    by (auto simp: Let_def quiet_io_def adv_handler_new_def adv_behaviour_new_def)
qed

text \<open>
  A peer that does not speak the protocol is never reported. After a failed negotiation, and
  before an inbound stream exists, the next poll asks for the outbound stream once more; after that
  every poll is pending for ever, so the behaviour is not told and queued commands stay unsent.
\<close>

theorem adv_handler_unsupported_silent:
  assumes "adv_on_connection_event (DialUpgradeError NegotiationFailed) h = Returns h0" and "ah_inbound h = None"
  shows "\<exists>h1. adv_handler_poll H json env h0 = (Ready (OutboundSubstreamRequest ADV_PROTOCOL_NAME), h1)
    \<and> (\<forall>evs env'. adv_handler_poll H json env' (fold adv_on_behaviour_event evs h1) =
         (Pending, fold adv_on_behaviour_event evs h1))"
proof -
  have h0: "ah_outbound h0 = None" "ah_state h0 = Inactive False" "ah_inbound h0 = None"
    using assms by (auto simp: adv_on_dial_upgrade_error_def)
  have "adv_handler_poll H json env h0 = (Ready (OutboundSubstreamRequest ADV_PROTOCOL_NAME),
      h0\<lparr>ah_state := Inactive True, ah_outbound := Some AdvOpenStream\<rparr>)"
    using h0 by (simp add: adv_handler_poll_def adv_poll_inbound_def) (subst adv_poll_outbound.simps, simp)
  moreover have "ah_state (fold adv_on_behaviour_event evs g) = ah_state g" for evs g
    by (induction evs arbitrary: g) (simp_all add: adv_on_behaviour_event_def)
  ultimately show ?thesis
    by (simp add: adv_handler_poll_def)
qed

theorem adv_handler_unsupported_silent_witness:
  "\<exists>h0 h1. adv_on_connection_event (DialUpgradeError NegotiationFailed) adv_handler_new = Returns h0
    \<and> adv_handler_poll (\<lambda>_. 0) demo_packets quiet_io h0 = (Ready (OutboundSubstreamRequest ADV_PROTOCOL_NAME), h1)"
proof -
  obtain h0 where h0: "adv_on_connection_event (DialUpgradeError NegotiationFailed) adv_handler_new = Returns h0"
    by simp
  show ?thesis
    using adv_handler_unsupported_silent [OF h0, of "\<lambda>_. 0" demo_packets quiet_io] h0
    by (auto simp: adv_handler_new_def)
qed

end
