(* ===== verification/Select.thy ===== *)
theory Select
  imports Blob_Handler Blob_Behaviour Messaging Advertise_Claims
begin

text \<open>
  The composed behaviour of the swarm: the macros \<open>behaviour_select!\<close> and
  \<open>connection_handler_select!\<close> of \<open>owlnest-macro\<close>, and their use in
  \<open>owlnest/src/net/p2p/swarm/behaviour.rs\<close>.

  A macro repeats each piece of code once per field. Here a combinator handles the first field and
  leaves the others to the second argument, so a struct of \<open>n\<close> fields is an \<open>n\<close>-fold pair and
  the generated enums are \<open>n\<close>-fold sums: \<open>Inl\<close> is the variant of the first field. The fields of
  the swarm are messaging, advertise and blob, in this order, and the libp2p behaviours, which
  appear as one last, arbitrary field.
\<close>

section \<open>behaviour\_select\<close>

text \<open>A denial boxes its cause, which is known by what it displays.\<close>

datatype connection_denied = ConnectionDenied string

text \<open>\<open>handle_pending_inbound_connection\<close>: every field must agree (\<open>?\<close> stops at the first refusal).\<close>

definition sel_pending_inbound ::
  "('a \<Rightarrow> (connection_denied + unit) \<times> 'a) \<Rightarrow> ('b \<Rightarrow> (connection_denied + unit) \<times> 'b)
    \<Rightarrow> 'a \<times> 'b \<Rightarrow> (connection_denied + unit) \<times> 'a \<times> 'b" where
  "sel_pending_inbound f g = (\<lambda>(a, b).
     case f a of
       (Inl e, a') \<Rightarrow> (Inl e, a', b)
     | (Inr _, a') \<Rightarrow> (case g b of (r, b') \<Rightarrow> (r, a', b')))"

text \<open>
  \<open>handle_established_inbound_connection\<close> and \<open>handle_established_outbound_connection\<close>: the
  composed handler has one handler per field.
\<close>

definition sel_established ::
  "('a \<Rightarrow> (connection_denied + 'h) \<times> 'a) \<Rightarrow> ('b \<Rightarrow> (connection_denied + 'k) \<times> 'b)
    \<Rightarrow> 'a \<times> 'b \<Rightarrow> (connection_denied + 'h \<times> 'k) \<times> 'a \<times> 'b" where
  "sel_established f g = (\<lambda>(a, b).
     case f a of
       (Inl e, a') \<Rightarrow> (Inl e, a', b)
     | (Inr h, a') \<Rightarrow>
         (case g b of
            (Inl e, b') \<Rightarrow> (Inl e, a', b')
          | (Inr k, b') \<Rightarrow> (Inr (h, k), a', b')))"

definition sel_established_outbound ::
  "('a \<Rightarrow> (connection_denied + 'h) \<times> 'a) \<Rightarrow> ('b \<Rightarrow> (connection_denied + 'k) \<times> 'b)
    \<Rightarrow> 'a \<times> 'b \<Rightarrow> (connection_denied + 'h \<times> 'k) \<times> 'a \<times> 'b" where
  "sel_established_outbound f g = sel_established f g"

text \<open>\<open>handle_pending_outbound_connection\<close>: the addresses of all fields are combined.\<close>

definition sel_pending_outbound ::
  "('a \<Rightarrow> (connection_denied + multiaddr list) \<times> 'a) \<Rightarrow> ('b \<Rightarrow> (connection_denied + multiaddr list) \<times> 'b)
    \<Rightarrow> 'a \<times> 'b \<Rightarrow> (connection_denied + multiaddr list) \<times> 'a \<times> 'b" where
  "sel_pending_outbound f g = (\<lambda>(a, b).
     case f a of
       (Inl e, a') \<Rightarrow> (Inl e, a', b)
     | (Inr xs, a') \<Rightarrow>
         (case g b of
            (Inl e, b') \<Rightarrow> (Inl e, a', b')
          | (Inr ys, b') \<Rightarrow> (Inr (xs @ ys), a', b')))"

text \<open>\<open>on_connection_handler_event\<close>: an event goes to the field whose variant it carries.\<close>

fun sel_on_handler_event ::
  "('t \<Rightarrow> 'a \<Rightarrow> 'a outcome) \<Rightarrow> ('u \<Rightarrow> 'b \<Rightarrow> 'b outcome) \<Rightarrow> 't + 'u \<Rightarrow> 'a \<times> 'b \<Rightarrow> ('a \<times> 'b) outcome" where
  "sel_on_handler_event f g (Inl ev) (a, b) = and_then (f ev a) (\<lambda>a'. Returns (a', b))"
| "sel_on_handler_event f g (Inr ev) (a, b) = and_then (g ev b) (\<lambda>b'. Returns (a, b'))"

text \<open>\<open>poll\<close>: the fields are polled in order; the first event is tagged and returned.\<close>

definition sel_poll ::
  "('a \<Rightarrow> ('o, 'f) to_swarm poll \<times> 'a) \<Rightarrow> ('b \<Rightarrow> ('p, 'g) to_swarm poll \<times> 'b)
    \<Rightarrow> 'a \<times> 'b \<Rightarrow> ('o + 'p, 'f + 'g) to_swarm poll \<times> 'a \<times> 'b" where
  "sel_poll f g = (\<lambda>(a, b).
     case f a of
       (Ready ev, a') \<Rightarrow> (Ready (map_to_swarm Inl Inl ev), a', b)
     | (Pending, a') \<Rightarrow>
         (case g b of
            (Ready ev, b') \<Rightarrow> (Ready (map_to_swarm Inr Inr ev), a', b')
          | (Pending, b') \<Rightarrow> (Pending, a', b')))"

text \<open>\<open>on_swarm_event\<close>: every field sees the event.\<close>

definition sel_on_swarm_event ::
  "(from_swarm \<Rightarrow> 'a \<Rightarrow> 'a) \<Rightarrow> (from_swarm \<Rightarrow> 'b \<Rightarrow> 'b) \<Rightarrow> from_swarm \<Rightarrow> 'a \<times> 'b \<Rightarrow> 'a \<times> 'b" where
  "sel_on_swarm_event f g ev = (\<lambda>(a, b). (f ev a, g ev b))"

section \<open>connection\_handler\_select\<close>

text \<open>
  Events of a composed connection: negotiated streams carry the variant of their protocol, outbound
  ones also that of the request's open info.
\<close>

datatype 'e dial_error = DialTimeout | DialApply 'e | DialNegotiationFailed | DialIo io_error

datatype ('s, 'i, 'e) select_event =
    SelInbound 's
  | SelOutbound 's 'i
  | SelAddressChange
  | SelDialError "'e dial_error" 'i
  | SelListenError 'e
  | SelLocalProtocolsChange
  | SelRemoteProtocolsChange

text \<open>\<open>connection_keep_alive\<close>: the maximum of the answers, \<open>true\<close> for a struct without fields.\<close>

definition sel_keep_alive :: "bool list \<Rightarrow> bool" where
  "sel_keep_alive answers = (if answers = [] then True else list_ex (\<lambda>x. x) answers)"

text \<open>
  \<open>poll\<close>: the first notification or stream request, tagged; the last arm of the match discards
  every other event and goes on with the next field.
\<close>

definition sel_handler_poll ::
  "('a \<Rightarrow> (('p, 't) connection_handler_event poll \<times> 'a) outcome)
    \<Rightarrow> ('b \<Rightarrow> (('q, 'u) connection_handler_event poll \<times> 'b) outcome)
    \<Rightarrow> 'a \<times> 'b \<Rightarrow> (('p + 'q, 't + 'u) connection_handler_event poll \<times> 'a \<times> 'b) outcome" where
  "sel_handler_poll f g = (\<lambda>(a, b).
     and_then (f a) (\<lambda>(r, a').
       case r of
         Ready (NotifyBehaviour ev) \<Rightarrow> Returns (Ready (NotifyBehaviour (Inl ev)), a', b)
       | Ready (OutboundSubstreamRequest protocol) \<Rightarrow> Returns (Ready (OutboundSubstreamRequest (Inl protocol)), a', b)
       | _ \<Rightarrow>
           and_then (g b) (\<lambda>(r, b').
             case r of
               Ready (NotifyBehaviour ev) \<Rightarrow> Returns (Ready (NotifyBehaviour (Inr ev)), a', b')
             | Ready (OutboundSubstreamRequest protocol) \<Rightarrow>
                 Returns (Ready (OutboundSubstreamRequest (Inr protocol)), a', b')
             | _ \<Rightarrow> Returns (Pending, a', b'))))"

fun sel_on_behaviour_event :: "('f \<Rightarrow> 'a \<Rightarrow> 'a) \<Rightarrow> ('g \<Rightarrow> 'b \<Rightarrow> 'b) \<Rightarrow> 'f + 'g \<Rightarrow> 'a \<times> 'b \<Rightarrow> 'a \<times> 'b" where
  "sel_on_behaviour_event f g (Inl ev) (a, b) = (f ev a, b)"
| "sel_on_behaviour_event f g (Inr ev) (a, b) = (a, g ev b)"

text \<open>
  The transpositions: \<open>transpose_full_outbound\<close> panics when the variants of protocol and info
  differ, \<open>transpose_upgr_error\<close> when those of an upgrade error and the info do.
\<close>

fun transpose_full_outbound :: "'s + 'r \<Rightarrow> 'i + 'j \<Rightarrow> ('s \<times> 'i + 'r \<times> 'j) outcome" where
  "transpose_full_outbound (Inl protocol) (Inl info) = Returns (Inl (protocol, info))"
| "transpose_full_outbound (Inr protocol) (Inr info) = Returns (Inr (protocol, info))"
| "transpose_full_outbound _ _ = Panics"

fun transpose_upgr_error ::
  "('e + 'd) dial_error \<Rightarrow> 'i + 'j \<Rightarrow> ('e dial_error \<times> 'i + 'd dial_error \<times> 'j) outcome" where
  "transpose_upgr_error (DialApply (Inl e)) (Inl info) = Returns (Inl (DialApply e, info))"
| "transpose_upgr_error (DialApply (Inr e)) (Inr info) = Returns (Inr (DialApply e, info))"
| "transpose_upgr_error (DialApply _) _ = Panics"
| "transpose_upgr_error DialTimeout (Inl info) = Returns (Inl (DialTimeout, info))"
| "transpose_upgr_error DialTimeout (Inr info) = Returns (Inr (DialTimeout, info))"
| "transpose_upgr_error DialNegotiationFailed (Inl info) = Returns (Inl (DialNegotiationFailed, info))"
| "transpose_upgr_error DialNegotiationFailed (Inr info) = Returns (Inr (DialNegotiationFailed, info))"
| "transpose_upgr_error (DialIo e) (Inl info) = Returns (Inl (DialIo e, info))"
| "transpose_upgr_error (DialIo e) (Inr info) = Returns (Inr (DialIo e, info))"

text \<open>
  \<open>generate_substream_protocol\<close> offers the upgrades of all fields together and keeps their open infos
  in one struct; \<open>transpose_full_inbound\<close> gives the negotiated field its own info back.
\<close>

definition generate_substream_protocol :: "'u \<times> 'i \<Rightarrow> 'v \<times> 'j \<Rightarrow> ('u \<times> 'v) \<times> 'i \<times> 'j" where
  "generate_substream_protocol first others = ((fst first, fst others), snd first, snd others)"

fun transpose_full_inbound :: "'s + 'r \<Rightarrow> 'i \<times> 'j \<Rightarrow> 's \<times> 'i + 'r \<times> 'j" where
  "transpose_full_inbound (Inl protocol) (info, _) = Inl (protocol, info)"
| "transpose_full_inbound (Inr protocol) (_, info) = Inr (protocol, info)"

text \<open>\<open>generate_error_select_enum\<close>: an error of the composition displays as the error of its field.\<close>

fun sel_error_fmt :: "('e \<Rightarrow> rust_text) \<Rightarrow> ('d \<Rightarrow> rust_text) \<Rightarrow> 'e + 'd \<Rightarrow> rust_text" where
  "sel_error_fmt f g (Inl e) = f e"
| "sel_error_fmt f g (Inr e) = g e"

definition sel_both :: "('a \<Rightarrow> 'a outcome) \<Rightarrow> ('b \<Rightarrow> 'b outcome) \<Rightarrow> 'a \<times> 'b \<Rightarrow> ('a \<times> 'b) outcome" where
  "sel_both f g = (\<lambda>(a, b). and_then (f a) (\<lambda>a'. and_then (g b) (\<lambda>b'. Returns (a', b'))))"

definition sel_one :: "('x \<Rightarrow> 'a \<Rightarrow> 'a outcome) \<Rightarrow> ('y \<Rightarrow> 'b \<Rightarrow> 'b outcome) \<Rightarrow> 'x + 'y \<Rightarrow> 'a \<times> 'b \<Rightarrow> ('a \<times> 'b) outcome" where
  "sel_one f g ev = sel_on_handler_event f g ev"

text \<open>\<open>on_listen_upgrade_error\<close>: the field whose upgrade failed is told.\<close>

definition sel_on_listen_upgrade_error ::
  "(('s, 'i, 'e) select_event \<Rightarrow> 'a \<Rightarrow> 'a outcome) \<Rightarrow> (('r, 'j, 'd) select_event \<Rightarrow> 'b \<Rightarrow> 'b outcome)
    \<Rightarrow> 'e + 'd \<Rightarrow> 'a \<times> 'b \<Rightarrow> ('a \<times> 'b) outcome" where
  "sel_on_listen_upgrade_error f g error h = sel_one (\<lambda>e. f (SelListenError e)) (\<lambda>e. g (SelListenError e)) error h"

fun sel_on_connection_event ::
  "(('s, 'i, 'e) select_event \<Rightarrow> 'a \<Rightarrow> 'a outcome) \<Rightarrow> (('r, 'j, 'd) select_event \<Rightarrow> 'b \<Rightarrow> 'b outcome)
    \<Rightarrow> ('s + 'r, 'i + 'j, 'e + 'd) select_event \<Rightarrow> 'a \<times> 'b \<Rightarrow> ('a \<times> 'b) outcome" where
  "sel_on_connection_event f g (SelOutbound protocol info) h =
     and_then (transpose_full_outbound protocol info) (\<lambda>inner.
       sel_one (\<lambda>(s, i). f (SelOutbound s i)) (\<lambda>(s, i). g (SelOutbound s i)) inner h)"
| "sel_on_connection_event f g (SelInbound protocol) h =
     sel_one (\<lambda>s. f (SelInbound s)) (\<lambda>s. g (SelInbound s)) protocol h"
| "sel_on_connection_event f g SelAddressChange h = sel_both (f SelAddressChange) (g SelAddressChange) h"
| "sel_on_connection_event f g (SelDialError e info) h =
     and_then (transpose_upgr_error e info) (\<lambda>inner.
       sel_one (\<lambda>(e, i). f (SelDialError e i)) (\<lambda>(e, i). g (SelDialError e i)) inner h)"
| "sel_on_connection_event f g (SelListenError e) h =
     sel_on_listen_upgrade_error f g e h"
| "sel_on_connection_event f g SelLocalProtocolsChange h = sel_both (f SelLocalProtocolsChange) (g SelLocalProtocolsChange) h"
| "sel_on_connection_event f g SelRemoteProtocolsChange h = sel_both (f SelRemoteProtocolsChange) (g SelRemoteProtocolsChange) h"

section \<open>Upgrades\<close>

text \<open>
  \<open>UpgradeInfoIterSelect::next\<close>: the protocols of the first field, whose iterator is dropped when
  it is exhausted, then those of the others.
\<close>

definition sel_info_next ::
  "('r \<Rightarrow> 'q option \<times> 'r) \<Rightarrow> 'p list option \<times> 'r \<Rightarrow> ('p + 'q) option \<times> 'p list option \<times> 'r" where
  "sel_info_next g = (\<lambda>(it, r).
     case it of
       Some ps \<Rightarrow>
         (case pop_front ps of
            Some (p, ps') \<Rightarrow> (Some (Inl p), Some ps', r)
          | None \<Rightarrow> (case g r of (q, r') \<Rightarrow> (map_option Inr q, None, r')))
     | None \<Rightarrow> (case g r of (q, r') \<Rightarrow> (map_option Inr q, None, r')))"

text \<open>\<open>UpgradeInfoSelect::as_ref\<close>, alike for inbound and outbound: the name of the variant's protocol.\<close>

fun sel_info_as_ref :: "('p \<Rightarrow> string) \<Rightarrow> ('q \<Rightarrow> string) \<Rightarrow> 'p + 'q \<Rightarrow> string" where
  "sel_info_as_ref f g (Inl inner) = f inner"
| "sel_info_as_ref f g (Inr inner) = g inner"

text \<open>\<open>protocol_info\<close> of an outbound upgrade: the first protocol of the variant's upgrade.\<close>

fun sel_outbound_protocol_info :: "('u \<Rightarrow> 'p outcome) \<Rightarrow> ('v \<Rightarrow> 'q outcome) \<Rightarrow> 'u + 'v \<Rightarrow> ('p + 'q) outcome" where
  "sel_outbound_protocol_info f g (Inl inner) = and_then (f inner) (\<lambda>p. Returns (Inl p))"
| "sel_outbound_protocol_info f g (Inr inner) = and_then (g inner) (\<lambda>q. Returns (Inr q))"

text \<open>\<open>upgrade_inbound\<close>: the field named by the negotiated protocol upgrades the stream.\<close>

fun sel_upgrade_inbound :: "('s \<Rightarrow> 'p \<Rightarrow> 'x) \<Rightarrow> ('s \<Rightarrow> 'q \<Rightarrow> 'y) \<Rightarrow> 's \<Rightarrow> 'p + 'q \<Rightarrow> 'x + 'y" where
  "sel_upgrade_inbound f g sock (Inl info) = Inl (f sock info)"
| "sel_upgrade_inbound f g sock (Inr info) = Inr (g sock info)"

text \<open>\<open>upgrade_outbound\<close>: the upgrade itself names a field, which has to be that of the protocol.\<close>

fun sel_upgrade_outbound ::
  "('u \<Rightarrow> 's \<Rightarrow> 'p \<Rightarrow> 'x outcome) \<Rightarrow> ('v \<Rightarrow> 's \<Rightarrow> 'q \<Rightarrow> 'y outcome) \<Rightarrow> 'u + 'v \<Rightarrow> 's \<Rightarrow> 'p + 'q \<Rightarrow> ('x + 'y) outcome" where
  "sel_upgrade_outbound f g (Inl inner) sock (Inl info) = and_then (f inner sock info) (\<lambda>x. Returns (Inl x))"
| "sel_upgrade_outbound f g (Inr inner) sock (Inr info) = and_then (g inner sock info) (\<lambda>y. Returns (Inr y))"
| "sel_upgrade_outbound f g _ sock _ = Panics"

text \<open>\<open>FutureSelect::poll\<close>: the result of the field's upgrade, stream or error, gets its variant.\<close>

fun sel_future_poll ::
  "('x \<Rightarrow> ('e + 's) poll \<times> 'x) \<Rightarrow> ('y \<Rightarrow> ('d + 'r) poll \<times> 'y) \<Rightarrow> 'x + 'y \<Rightarrow> (('e + 'd) + ('s + 'r)) poll \<times> ('x + 'y)" where
  "sel_future_poll f g (Inl inner) =
     (case f inner of
        (Pending, inner') \<Rightarrow> (Pending, Inl inner')
      | (Ready (Inr stream), inner') \<Rightarrow> (Ready (Inr (Inl stream)), Inl inner')
      | (Ready (Inl e), inner') \<Rightarrow> (Ready (Inl (Inl e)), Inl inner'))"
| "sel_future_poll f g (Inr inner) =
     (case g inner of
        (Pending, inner') \<Rightarrow> (Pending, Inr inner')
      | (Ready (Inr stream), inner') \<Rightarrow> (Ready (Inr (Inr stream)), Inr inner')
      | (Ready (Inl e), inner') \<Rightarrow> (Ready (Inl (Inr e)), Inr inner'))"

section \<open>The swarm's behaviour\<close>

text \<open>Answers given through callbacks while polling are collected beside the state.\<close>

definition adv_poll_log :: "adv_behaviour \<times> adv_reply list \<Rightarrow> adv_to_swarm poll \<times> adv_behaviour \<times> adv_reply list" where
  "adv_poll_log = (\<lambda>(b, log). case adv_poll b of (r, b', rs) \<Rightarrow> (r, b', log @ rs))"

type_synonym 'r owl_behaviour =
  "(msg_behaviour \<times> msg_reply list) \<times> (adv_behaviour \<times> adv_reply list) \<times> blob_behaviour \<times> 'r"

definition owl_behaviour_new :: "msg_config \<Rightarrow> adv_config \<Rightarrow> nat \<Rightarrow> blob_config \<Rightarrow> 'r \<Rightarrow> 'r owl_behaviour" where
  "owl_behaviour_new mc ac instant bc rest =
     ((msg_behaviour_new mc, []), (adv_behaviour_new ac, []), blob_behaviour_new bc instant, rest)"

definition owl_poll ::
  "blob_env \<Rightarrow> ('r \<Rightarrow> ('o, 'f) to_swarm poll \<times> 'r) \<Rightarrow> 'r owl_behaviour
    \<Rightarrow> (msg_out_event + adv_out_event + blob_out_event + 'o,
        msg_from_behaviour + adv_from_behaviour + blob_from_behaviour + 'f) to_swarm poll \<times> 'r owl_behaviour" where
  "owl_poll env rest = sel_poll msg_poll_log (sel_poll adv_poll_log (sel_poll (blob_poll env) rest))"

definition owl_on_swarm_event :: "(from_swarm \<Rightarrow> 'r \<Rightarrow> 'r) \<Rightarrow> from_swarm \<Rightarrow> 'r owl_behaviour \<Rightarrow> 'r owl_behaviour" where
  "owl_on_swarm_event rest =
     sel_on_swarm_event (\<lambda>ev (b, log). (msg_on_swarm_event ev b, log))
       (sel_on_swarm_event (\<lambda>ev (b, log). (adv_on_swarm_event ev b, log))
         (sel_on_swarm_event blob_on_swarm_event rest))"

definition owl_on_handler_event ::
  "json_codec \<Rightarrow> blob_env \<Rightarrow> (peer_id \<Rightarrow> 't \<Rightarrow> 'r \<Rightarrow> 'r outcome) \<Rightarrow> peer_id
    \<Rightarrow> msg_to_behaviour + adv_to_behaviour + blob_to_behaviour + 't \<Rightarrow> 'r owl_behaviour \<Rightarrow> 'r owl_behaviour outcome" where
  "owl_on_handler_event json env rest peer =
     sel_on_handler_event (\<lambda>ev (b, log). Returns (msg_on_handler_event json ev peer b, log))
       (sel_on_handler_event (\<lambda>ev (b, log). Returns (adv_on_handler_event peer ev b, log))
         (sel_on_handler_event (\<lambda>ev b. blob_on_handler_event env peer ev b) (rest peer)))"

text \<open>The three protocols accept every connection and start a new handler for it.\<close>

definition msg_established :: "msg_behaviour \<times> msg_reply list \<Rightarrow> (connection_denied + msg_handler) \<times> msg_behaviour \<times> msg_reply list" where
  "msg_established = (\<lambda>(b, log). (Inr (msg_handler_new (mb_config b)), b, log))"

definition adv_established :: "adv_behaviour \<times> adv_reply list \<Rightarrow> (connection_denied + adv_handler) \<times> adv_behaviour \<times> adv_reply list" where
  "adv_established = (\<lambda>(b, log). (Inr adv_handler_new, b, log))"

definition blob_established :: "blob_behaviour \<Rightarrow> (connection_denied + blob_handler) \<times> blob_behaviour" where
  "blob_established b = (Inr (blob_handler_new (bb_config b)), b)"

definition owl_established ::
  "('r \<Rightarrow> (connection_denied + 'k) \<times> 'r) \<Rightarrow> 'r owl_behaviour
    \<Rightarrow> (connection_denied + msg_handler \<times> adv_handler \<times> blob_handler \<times> 'k) \<times> 'r owl_behaviour" where
  "owl_established rest = sel_established msg_established (sel_established adv_established (sel_established blob_established rest))"

section \<open>The composed handler\<close>

type_synonym 'k owl_handler =
  "(msg_handler \<times> msg_reply list) \<times> adv_handler \<times> (blob_handler \<times> blob_reply list) \<times> 'k"

record owl_io =
  oi_messaging :: handler_io
  oi_advertise :: handler_io
  oi_blob :: handler_io

record owl_codecs =
  oc_messaging :: json_codec
  oc_advertise :: packet_codec
  oc_blob :: blob_codec

definition owl_handler_poll ::
  "(u8 list \<Rightarrow> u128) \<Rightarrow> owl_codecs \<Rightarrow> owl_io \<Rightarrow> ('k \<Rightarrow> (('p, 't) connection_handler_event poll \<times> 'k) outcome)
    \<Rightarrow> 'k owl_handler
    \<Rightarrow> ((string + string + string + 'p, msg_to_behaviour + adv_to_behaviour + blob_to_behaviour + 't)
         connection_handler_event poll \<times> 'k owl_handler) outcome" where
  "owl_handler_poll H cs io rest =
     sel_handler_poll
       (\<lambda>(h, log). case msg_handler_poll H (oc_messaging cs) (oi_messaging io) h of
          (r, h', rs) \<Rightarrow> Returns (r, h', log @ rs))
       (sel_handler_poll
         (\<lambda>h. Returns (adv_handler_poll H (oc_advertise cs) (oi_advertise io) h))
         (sel_handler_poll
           (\<lambda>(h, log). and_then (blob_handler_poll H (oc_blob cs) (oi_blob io) h) (\<lambda>(r, h', rs).
              Returns (r, h', log @ rs)))
           rest))"

definition owl_on_behaviour_event ::
  "('f \<Rightarrow> 'k \<Rightarrow> 'k) \<Rightarrow> msg_from_behaviour + adv_from_behaviour + blob_from_behaviour + 'f \<Rightarrow> 'k owl_handler \<Rightarrow> 'k owl_handler" where
  "owl_on_behaviour_event rest =
     sel_on_behaviour_event (\<lambda>ev (h, log). (msg_on_behaviour_event ev h, log))
       (sel_on_behaviour_event adv_on_behaviour_event
         (sel_on_behaviour_event (\<lambda>ev (h, log). (blob_on_behaviour_event ev h, log)) rest))"

text \<open>
  What the composed handler hands to a field with a \<open>ReadyUpgrade\<close>, whose open info is the unit
  value and whose upgrade cannot fail.
\<close>

fun own_dial_error :: "string dial_error \<Rightarrow> stream_upgrade_error" where
  "own_dial_error DialTimeout = UpgradeTimeout"
| "own_dial_error (DialApply e) = UpgradeApply e"
| "own_dial_error DialNegotiationFailed = NegotiationFailed"
| "own_dial_error (DialIo e) = UpgradeIo e"

fun own_event :: "(wire, unit, string) select_event \<Rightarrow> wire connection_event" where
  "own_event (SelInbound s) = FullyNegotiatedInbound s"
| "own_event (SelOutbound s _) = FullyNegotiatedOutbound s"
| "own_event SelAddressChange = AddressChange"
| "own_event (SelDialError e _) = DialUpgradeError (own_dial_error e)"
| "own_event (SelListenError _) = ListenUpgradeError"
| "own_event SelLocalProtocolsChange = LocalProtocolsChange"
| "own_event SelRemoteProtocolsChange = RemoteProtocolsChange"

definition owl_on_connection_event ::
  "(('s, 'i, 'e) select_event \<Rightarrow> 'k \<Rightarrow> 'k outcome)
    \<Rightarrow> (wire + wire + wire + 's, unit + unit + unit + 'i, string + string + string + 'e) select_event
    \<Rightarrow> 'k owl_handler \<Rightarrow> 'k owl_handler outcome" where
  "owl_on_connection_event rest =
     sel_on_connection_event
       (\<lambda>ev (h, log). and_then (msg_on_connection_event (own_event ev) h) (\<lambda>h'. Returns (h', log)))
       (sel_on_connection_event (\<lambda>ev h. adv_on_connection_event (own_event ev) h)
         (sel_on_connection_event
           (\<lambda>ev (h, log). and_then (blob_on_connection_event (own_event ev) h) (\<lambda>h'. Returns (h', log))) rest))"

definition owl_keep_alive :: "('k \<Rightarrow> bool list) \<Rightarrow> 'k owl_handler \<Rightarrow> bool" where
  "owl_keep_alive rest = (\<lambda>((m, _), a, (b, _), k).
     sel_keep_alive (msg_keep_alive m # adv_keep_alive a # blob_keep_alive b # rest k))"

text \<open>
  \<open>listen_protocol\<close>: the iterators of all fields. A field with a \<open>ReadyUpgrade\<close> has one protocol.
\<close>

type_synonym 'q owl_protocols = "string list option \<times> string list option \<times> string list option \<times> 'q"

definition owl_protocol_info :: "'q \<Rightarrow> 'k owl_handler \<Rightarrow> 'q owl_protocols" where
  "owl_protocol_info rest = (\<lambda>((m, _), a, (b, _), _).
     (Some [msg_listen_protocol m], Some [adv_listen_protocol a], Some [blob_listen_protocol b], rest))"

definition owl_info_next :: "('q \<Rightarrow> 'p option \<times> 'q) \<Rightarrow> 'q owl_protocols \<Rightarrow> (string + string + string + 'p) option \<times> 'q owl_protocols" where
  "owl_info_next rest = sel_info_next (sel_info_next (sel_info_next rest))"

end
