(* ===== verification/Select_Claims.thy ===== *)
theory Select_Claims
  imports Select
begin

text \<open>
  What the composition of the protocols guarantees: the composed behaviour hands out the events of
  its fields in the order of the fields, commands and events never cross from one protocol to
  another, and which events of connections it loses or dies of.
\<close>

section \<open>Composed sources of events\<close>

text \<open>Two sources of events polled in order form a source; its queue is the first, then the second.\<close>

locale two_sources =
  first: event_source f qf + second: event_source g qg
  for f :: "'a \<Rightarrow> ('o, 'f) to_swarm poll \<times> 'a" and qf
    and g :: "'b \<Rightarrow> ('p, 'g) to_swarm poll \<times> 'b" and qg
begin

lemma sel_poll_pending:
  "qf a = [] \<Longrightarrow> qg b = [] \<Longrightarrow> \<exists>a' b'. sel_poll f g (a, b) = (Pending, a', b') \<and> qf a' = [] \<and> qg b' = []"
  using first.poll_empty [of a] second.poll_empty [of b]
  by (cases "f a"; cases "g b") (simp add: sel_poll_def)

lemma sel_poll_first:
  "qf a = e # es \<Longrightarrow> \<exists>a'. sel_poll f g (a, b) = (Ready (map_to_swarm Inl Inl e), a', b) \<and> qf a' = es"
  using first.poll_head [of a e es] by (cases "f a") (simp add: sel_poll_def)

lemma sel_poll_second:
  "qf a = [] \<Longrightarrow> qg b = e # es \<Longrightarrow>
    \<exists>a' b'. sel_poll f g (a, b) = (Ready (map_to_swarm Inr Inr e), a', b') \<and> qf a' = [] \<and> qg b' = es"
  using first.poll_empty [of a] second.poll_head [of b e es]
  by (cases "f a"; cases "g b") (simp add: sel_poll_def)

end

definition sel_queue ::
  "('a \<Rightarrow> ('o, 'f) to_swarm list) \<Rightarrow> ('b \<Rightarrow> ('p, 'g) to_swarm list) \<Rightarrow> 'a \<times> 'b \<Rightarrow> ('o + 'p, 'f + 'g) to_swarm list" where
  "sel_queue qf qg = (\<lambda>(a, b). map (map_to_swarm Inl Inl) (qf a) @ map (map_to_swarm Inr Inr) (qg b))"

sublocale two_sources \<subseteq> selected: event_source "sel_poll f g" "sel_queue qf qg"
proof (unfold_locales, goal_cases)
  case (1 s)
  obtain a b where s: "s = (a, b)" by (cases s)
  with 1 have "qf a = []" "qg b = []" by (simp_all add: sel_queue_def)
  then show ?case using sel_poll_pending s by (fastforce simp: sel_queue_def)
next
  case (2 s e es)
  obtain a b where s: "s = (a, b)" by (cases s)
  show ?case
  proof (cases "qf a")
    case Nil
    with 2 s obtain e' es' where "qg b = e' # es'" "e = map_to_swarm Inr Inr e'" "es = map (map_to_swarm Inr Inr) es'"
      by (auto simp: sel_queue_def map_eq_Cons_conv)
    then show ?thesis using sel_poll_second [OF Nil] s by (fastforce simp: sel_queue_def)
  next
    case (Cons e' es')
    with 2 s have "e = map_to_swarm Inl Inl e'" "es = map (map_to_swarm Inl Inl) es' @ map (map_to_swarm Inr Inr) (qg b)"
      by (auto simp: sel_queue_def)
    then show ?thesis using sel_poll_first [OF Cons, of b] s by (fastforce simp: sel_queue_def)
  qed
qed

section \<open>The advertise behaviour as a source\<close>

text \<open>
  Serving the queued requests one by one: the events they yield and the state they leave; requests
  that only answer or report an error yield none.
\<close>

fun adv_serve :: "adv_in_event list \<Rightarrow> adv_behaviour \<Rightarrow> adv_to_swarm list \<times> adv_behaviour" where
  "adv_serve [] b = ([], b\<lparr>ab_in_events := []\<rparr>)"
| "adv_serve (ev # evs) b =
     (case adv_handle_loop [ev] b of
        (Some e, b', _) \<Rightarrow> (let (es, b'') = adv_serve evs b' in (e # es, b''))
      | (None, b', _) \<Rightarrow> adv_serve evs b')"

definition adv_answer_cmd :: "adv_behaviour \<Rightarrow> peer_id \<Rightarrow> adv_to_swarm" where
  "adv_answer_cmd b peer =
     NotifyHandler peer Any (FAnswerAdvertisedPeer (if ab_is_providing b then Some (ab_advertised_peers b) else None))"

definition adv_queue :: "adv_behaviour \<times> adv_reply list \<Rightarrow> adv_to_swarm list" where
  "adv_queue = (\<lambda>(b, _). map (adv_answer_cmd b) (ab_pending_query_answer b)
     @ fst (adv_serve (ab_in_events b) b)
     @ map GenerateEvent (ab_pending_out_events (snd (adv_serve (ab_in_events b) b))))"

lemma adv_serve_in_events: "adv_serve evs (b\<lparr>ab_in_events := q\<rparr>) = adv_serve evs b"
proof (induction evs arbitrary: b q)
  case (Cons ev evs)
  have IH: "adv_serve evs (b\<lparr>ab_in_events := q\<rparr>) = adv_serve evs b" for b q by (rule Cons.IH)
  have "adv_serve evs ((adv_emit e b)\<lparr>ab_in_events := []\<rparr>) = adv_serve evs (adv_emit e b)" for e b
    by (rule IH)
  then show ?case
    using IH
    by (cases ev) (auto simp: Let_def adv_emit_def adv_remove_advertised_def adv_clear_advertised_def
        adv_set_provider_status_def split: prod.splits)
qed simp

lemma adv_serve_in_events_providing:
  "adv_serve evs (b\<lparr>ab_in_events := q, ab_is_providing := x\<rparr>) = adv_serve evs (b\<lparr>ab_is_providing := x\<rparr>)"
  using adv_serve_in_events [of evs q "b\<lparr>ab_is_providing := x\<rparr>"] by (cases b) simp

lemma adv_serve_pending:
  "adv_serve evs (b\<lparr>ab_pending_query_answer := q\<rparr>) =
     (fst (adv_serve evs b), (snd (adv_serve evs b))\<lparr>ab_pending_query_answer := q\<rparr>)"
proof (induction evs arbitrary: b)
  case (Cons ev evs)
  have IH: "adv_serve evs (b\<lparr>ab_pending_query_answer := q\<rparr>) =
     (fst (adv_serve evs b), (snd (adv_serve evs b))\<lparr>ab_pending_query_answer := q\<rparr>)" for b
    by (rule Cons.IH)
  have step: "adv_handle_loop [ev] (b\<lparr>ab_pending_query_answer := q\<rparr>) =
      (case adv_handle_loop [ev] b of (r, b', rs) \<Rightarrow> (r, b'\<lparr>ab_pending_query_answer := q\<rparr>, rs))"
    by (cases ev) (auto simp: Let_def adv_emit_def adv_remove_advertised_def adv_clear_advertised_def
        adv_set_provider_status_def split: prod.splits)
  show ?case
    by (cases "adv_handle_loop [ev] b") (auto simp: step IH split: prod.splits option.splits)
qed simp

lemma adv_handle_loop_serve:
  "adv_handle_loop evs b = (r, b', rs) \<Longrightarrow>
     ab_pending_query_answer b' = ab_pending_query_answer b \<and>
     (case r of
        None \<Rightarrow> ab_in_events b' = [] \<and> adv_serve evs b = ([], b')
      | Some e \<Rightarrow> adv_serve evs b = (e # fst (adv_serve (ab_in_events b') b'), snd (adv_serve (ab_in_events b') b')))"
proof (induction evs b arbitrary: r b' rs rule: adv_handle_loop.induct)
  case (2 peer evs b)
  then show ?case
    by (auto simp: adv_serve_in_events adv_emit_def split: if_splits option.splits prod.splits)
qed (auto simp: adv_serve_in_events adv_serve_in_events_providing Let_def adv_emit_def adv_remove_advertised_def adv_clear_advertised_def
      adv_set_provider_status_def split: prod.splits option.splits)

interpretation adv_src: event_source adv_poll_log adv_queue
proof (unfold_locales, goal_cases)
  case (1 s)
  then show ?case
    by (auto simp: adv_queue_def adv_poll_log_def adv_poll_def adv_handle_in_event_def
        dest!: adv_handle_loop_serve split: prod.splits option.splits)
next
  case (2 s e es)
  obtain b log where s: "s = (b, log)" by (cases s)
  show ?case
  proof (cases "ab_pending_query_answer b")
    case (Cons peer q)
    then show ?thesis
      using 2 by (auto simp: s adv_queue_def adv_poll_log_def adv_poll_def adv_serve_pending adv_answer_cmd_def)
  next
    case Nil
    obtain r b' rs where loop: "adv_handle_loop (ab_in_events b) b = (r, b', rs)" by (cases "adv_handle_loop (ab_in_events b) b")
    have serve: "ab_pending_query_answer b' = []"
      "case r of None \<Rightarrow> ab_in_events b' = [] \<and> adv_serve (ab_in_events b) b = ([], b')
        | Some e \<Rightarrow> adv_serve (ab_in_events b) b = (e # fst (adv_serve (ab_in_events b') b'), snd (adv_serve (ab_in_events b') b'))"
      using adv_handle_loop_serve [OF loop] Nil by simp_all
    then show ?thesis
      using 2 Nil
      by (cases r; cases "ab_pending_out_events b'")
        (auto simp: s adv_queue_def adv_poll_log_def adv_poll_def adv_handle_in_event_def loop)
  qed
qed

context two_sources begin

lemma selected_source: "event_source (sel_poll f g) (sel_queue qf qg)"
  by (rule selected.event_source_axioms)

end

text \<open>The three protocols of the workspace, without the libp2p behaviours.\<close>

interpretation adv_blob: two_sources adv_poll_log adv_queue "blob_poll env" "blob_queue env" for env
  by (intro two_sources.intro adv_src.event_source_axioms blob_src.event_source_axioms)

interpretation own: two_sources msg_poll_log msg_queue "sel_poll adv_poll_log (blob_poll env)" "sel_queue adv_queue (blob_queue env)" for env
  by (intro two_sources.intro msg_src.event_source_axioms adv_blob.selected_source)

section \<open>Properties of the composed behaviour\<close>

text \<open>Everything the fields have to say, in the order of the fields and tagged with their variants.\<close>

definition owl_queue ::
  "blob_env \<Rightarrow> ('r \<Rightarrow> ('o, 'f) to_swarm list) \<Rightarrow> 'r owl_behaviour
    \<Rightarrow> (msg_out_event + adv_out_event + blob_out_event + 'o,
        msg_from_behaviour + adv_from_behaviour + blob_from_behaviour + 'f) to_swarm list" where
  "owl_queue env qr = (\<lambda>(m, a, b, r).
     map (map_to_swarm Inl Inl) (msg_queue m)
     @ map (map_to_swarm (\<lambda>x. Inr (Inl x)) (\<lambda>x. Inr (Inl x))) (adv_queue a)
     @ map (map_to_swarm (\<lambda>x. Inr (Inr (Inl x))) (\<lambda>x. Inr (Inr (Inl x)))) (blob_queue env b)
     @ map (map_to_swarm (\<lambda>x. Inr (Inr (Inr x))) (\<lambda>x. Inr (Inr (Inr x)))) (qr r))"

lemma owl_queue_sel: "owl_queue env qr = sel_queue msg_queue (sel_queue adv_queue (sel_queue (blob_queue env) qr))"
  by (auto simp: fun_eq_iff owl_queue_def sel_queue_def to_swarm.map_comp comp_def)

lemma owl_source:
  assumes "event_source rest qr"
  shows "event_source (owl_poll env rest) (owl_queue env qr)"
  unfolding owl_poll_def owl_queue_sel
  by (intro two_sources.selected_source two_sources.intro msg_src.event_source_axioms
      adv_src.event_source_axioms blob_src.event_source_axioms assms)

text \<open>
  C6. Polling the composed behaviour loses and reorders nothing. If the libp2p behaviours hand out
  their events in order, then so does the whole: \<open>n\<close> polls yield the first \<open>n\<close> entries of all
  messaging events, then all advertise events, then all blob events, then the others, each tagged
  with the variant of its behaviour, and the composed poll is pending exactly when no behaviour
  has anything left. The order also shows that a busy earlier behaviour postpones the later ones.
\<close>

theorem owl_poll_drains:
  assumes "event_source rest qr"
  shows "fst (drain (owl_poll env rest) n s) = take n (owl_queue env qr s)
    \<and> owl_queue env qr (snd (drain (owl_poll env rest) n s)) = drop n (owl_queue env qr s)
    \<and> (fst (owl_poll env rest s) = Pending \<longleftrightarrow> owl_queue env qr s = [])"
  using event_source.drain_take [OF owl_source [OF assms]] event_source.poll_pending_iff [OF owl_source [OF assms]]
  by blast

definition demo_rest :: "nat list \<Rightarrow> (nat, nat) to_swarm poll \<times> nat list" where
  "demo_rest q = (case q of [] \<Rightarrow> (Pending, []) | x # xs \<Rightarrow> (Ready (GenerateEvent x), xs))"

theorem owl_poll_drains_witness:
  "\<forall>env. fst (drain (owl_poll env demo_rest) 2 (owl_behaviour_new msg_config_default adv_config_default 0 blob_config_default [5, 6]))
    = take 2 (owl_queue env (map GenerateEvent) (owl_behaviour_new msg_config_default adv_config_default 0 blob_config_default [5, 6]))"
proof -
  have "event_source demo_rest (map GenerateEvent)"
    by unfold_locales (auto simp: demo_rest_def)
  from owl_poll_drains [OF this] show ?thesis by blast
qed

lemma map_to_swarm_Notify_iff [simp]:
  "map_to_swarm f g ev = NotifyHandler peer which cmd \<longleftrightarrow> (\<exists>c. ev = NotifyHandler peer which c \<and> cmd = g c)"
  by (cases ev) auto

section \<open>Properties of the composed handler\<close>

text \<open>
  What the composed handler tells the swarm. Each notification and each stream request it hands
  out was produced by the handler of the protocol whose variant it carries. Reports about the
  remote's protocols never get through: if the three protocols of the workspace are pending and a
  libp2p handler makes such a report, the composed poll is pending and the report is lost.
\<close>

theorem owl_handler_poll_tags:
  assumes "msg_handler_poll H (oc_messaging cs) (oi_messaging io) m = (rm, m', rsm)"
    and "adv_handler_poll H (oc_advertise cs) (oi_advertise io) a = (ra, a')"
    and "blob_handler_poll H (oc_blob cs) (oi_blob io) b = Returns (rb, b', rsb)"
    and "rest k = Returns (rk, k')"
    and "owl_handler_poll H cs io rest ((m, ml), a, (b, bl), k) = Returns (r, hs')"
  shows "(case r of
        Pending \<Rightarrow> True
      | Ready (NotifyBehaviour ev) \<Rightarrow>
          (case ev of
             Inl e \<Rightarrow> rm = Ready (NotifyBehaviour e)
           | Inr (Inl e) \<Rightarrow> ra = Ready (NotifyBehaviour e)
           | Inr (Inr (Inl e)) \<Rightarrow> rb = Ready (NotifyBehaviour e)
           | Inr (Inr (Inr e)) \<Rightarrow> rk = Ready (NotifyBehaviour e))
      | Ready (OutboundSubstreamRequest protocol) \<Rightarrow>
          (case protocol of
             Inl p \<Rightarrow> rm = Ready (OutboundSubstreamRequest p)
           | Inr (Inl p) \<Rightarrow> ra = Ready (OutboundSubstreamRequest p)
           | Inr (Inr (Inl p)) \<Rightarrow> rb = Ready (OutboundSubstreamRequest p)
           | Inr (Inr (Inr p)) \<Rightarrow> rk = Ready (OutboundSubstreamRequest p))
      | Ready (ReportRemoteProtocols ps) \<Rightarrow> False)
    \<and> (\<forall>ps. rm = Pending \<and> ra = Pending \<and> rb = Pending \<and> rk = Ready (ReportRemoteProtocols ps) \<longrightarrow>
        r = Pending \<and> hs' = ((m', ml @ rsm), a', (b', bl @ rsb), k'))"
  using assms
  by (auto simp: owl_handler_poll_def sel_handler_poll_def split: poll.splits connection_handler_event.splits)

text \<open>A connection on which no protocol of the workspace has anything to say any more.\<close>

definition demo_silent_handler :: "nat owl_handler" where
  "demo_silent_handler =
     (((msg_handler_new msg_config_default)\<lparr>mh_state := Inactive True\<rparr>, []),
      adv_handler_new\<lparr>ah_state := Inactive True\<rparr>,
      ((blob_handler_new blob_config_default)\<lparr>bh_state := Inactive True\<rparr>, []), 0)"

definition demo_report :: "nat \<Rightarrow> ((string, nat) connection_handler_event poll \<times> nat) outcome" where
  "demo_report k = Returns (Ready (ReportRemoteProtocols [''/ipfs/kad/1.0.0'']), Suc k)"

theorem owl_handler_poll_tags_witness:
  "\<forall>H cs io. \<exists>hs'. owl_handler_poll H cs io demo_report demo_silent_handler = Returns (Pending, hs')
     \<and> snd (snd (snd hs')) = 1"
proof (intro allI)
  fix H and cs :: owl_codecs and io :: owl_io
  let ?m = "(msg_handler_new msg_config_default)\<lparr>mh_state := Inactive True\<rparr>"
    and ?a = "adv_handler_new\<lparr>ah_state := Inactive True\<rparr>"
    and ?b = "(blob_handler_new blob_config_default)\<lparr>bh_state := Inactive True\<rparr>"
  have m: "msg_handler_poll H (oc_messaging cs) (oi_messaging io) ?m = (Pending, ?m, [])"
    by (simp add: msg_handler_poll_def)
  have a: "adv_handler_poll H (oc_advertise cs) (oi_advertise io) ?a = (Pending, ?a)"
    by (simp add: adv_handler_poll_def)
  have b: "blob_handler_poll H (oc_blob cs) (oi_blob io) ?b = Returns (Pending, ?b, [])"
    by (simp add: blob_handler_poll_def)
  obtain r hs' where "owl_handler_poll H cs io demo_report ((?m, []), ?a, (?b, []), 0) = Returns (r, hs')"
    using m a b by (simp add: owl_handler_poll_def sel_handler_poll_def demo_report_def)
  from owl_handler_poll_tags [OF m a b demo_report_def this] this
  show "\<exists>hs'. owl_handler_poll H cs io demo_report demo_silent_handler = Returns (Pending, hs') \<and> snd (snd (snd hs')) = 1"
    by (auto simp: demo_silent_handler_def)
qed

fun same_variant :: "'a + 'b + 'c + 'd \<Rightarrow> 'e + 'f + 'g + 'h \<Rightarrow> bool" where
  "same_variant (Inl _) (Inl _) = True"
| "same_variant (Inr (Inl _)) (Inr (Inl _)) = True"
| "same_variant (Inr (Inr (Inl _))) (Inr (Inr (Inl _))) = True"
| "same_variant (Inr (Inr (Inr _))) (Inr (Inr (Inr _))) = True"
| "same_variant _ _ = False"

text \<open>
  C39. A connection whose address changes brings the node down: the composed handler passes the
  event to every protocol, and the handlers of advertise and blob do not implement it. Likewise a
  failed inbound upgrade of any of the three protocols. Every other event of a connection that
  concerns one of the three protocols is handled, provided the libp2p handlers return and an
  outbound stream carries the protocol of its request.
\<close>

theorem owl_on_connection_event_panics_iff:
  assumes "\<And>ev k. \<exists>k'. rest ev k = Returns k'"
  shows "owl_on_connection_event rest ev hs = Panics \<longleftrightarrow>
    (case ev of
       SelAddressChange \<Rightarrow> True
     | SelListenError (Inr (Inr (Inr _))) \<Rightarrow> False
     | SelListenError _ \<Rightarrow> True
     | SelOutbound p i \<Rightarrow> \<not> same_variant p i
     | SelDialError (DialApply e) i \<Rightarrow> \<not> same_variant e i
     | _ \<Rightarrow> False)"
proof -
  obtain m ml a b bl k where hs: "hs = ((m, ml), a, (b, bl), k)"
    by (metis prod.exhaust)
  have rest: "rest ev' k' \<noteq> Panics" for ev' k'
    using assms [of ev' k'] by auto
  note defs = hs owl_on_connection_event_def sel_on_listen_upgrade_error_def sel_one_def sel_both_def and_then_Panics_iff rest
  show ?thesis
  proof (cases ev)
    case (SelOutbound p i)
    then show ?thesis by (cases "(p, i)" rule: same_variant.cases) (auto simp: defs)
  next
    case (SelInbound p)
    then show ?thesis by (cases "(p, p)" rule: same_variant.cases) (auto simp: defs)
  next
    case (SelDialError e i)
    show ?thesis
    proof (cases e)
      case (DialApply err)
      then show ?thesis using SelDialError by (cases "(err, i)" rule: same_variant.cases) (auto simp: defs)
    qed (use SelDialError in \<open>auto simp: defs elim!: transpose_upgr_error.elims split: sum.splits\<close>)
  qed (auto simp: defs split: sum.splits)
qed

theorem owl_on_connection_event_panics_iff_witness:
  "owl_on_connection_event (\<lambda>(_ :: (wire, unit, string) select_event) (k :: nat). Returns k) SelAddressChange demo_silent_handler = Panics"
  using owl_on_connection_event_panics_iff [of "\<lambda>(_ :: (wire, unit, string) select_event) (k :: nat). Returns k"
      SelAddressChange demo_silent_handler]
  by simp

section \<open>The protocols on offer\<close>

text \<open>An iterator is a source of elements: it ends when nothing is left.\<close>

definition iter_poll :: "('r \<Rightarrow> 'p option \<times> 'r) \<Rightarrow> 'r \<Rightarrow> 'p poll \<times> 'r" where
  "iter_poll next = (\<lambda>r. case next r of (None, r') \<Rightarrow> (Pending, r') | (Some p, r') \<Rightarrow> (Ready p, r'))"

fun field_list :: "'p list option \<Rightarrow> 'p list" where
  "field_list None = []"
| "field_list (Some ps) = ps"

definition sel_infos :: "('r \<Rightarrow> 'q list) \<Rightarrow> 'p list option \<times> 'r \<Rightarrow> ('p + 'q) list" where
  "sel_infos qr = (\<lambda>(it, r). map Inl (field_list it) @ map Inr (qr r))"

lemma sel_info_source:
  assumes "event_source (iter_poll next) qr"
  shows "event_source (iter_poll (sel_info_next next)) (sel_infos qr)"
proof (unfold_locales, goal_cases)
  case (1 s)
  obtain it r where s: "s = (it, r)" by (cases s)
  with 1 have "field_list it = []" "qr r = []" by (simp_all add: sel_infos_def)
  moreover have "next r = (None, snd (next r)) \<and> qr (snd (next r)) = []"
    using event_source.poll_empty [OF assms \<open>qr r = []\<close>]
    by (cases "next r"; cases "fst (next r)") (auto simp: iter_poll_def)
  ultimately show ?case
    by (cases it; cases "next r") (auto simp: s iter_poll_def sel_info_next_def sel_infos_def)
next
  case (2 s e es)
  obtain it r where s: "s = (it, r)" by (cases s)
  show ?case
  proof (cases "field_list it")
    case (Cons p ps)
    then obtain "it = Some (p # ps)" by (cases it) auto
    then show ?thesis using 2 by (simp add: s iter_poll_def sel_info_next_def sel_infos_def)
  next
    case Nil
    with 2 s obtain q qs where q: "qr r = q # qs" "e = Inr q" "es = map Inr qs"
      by (auto simp: sel_infos_def)
    then have "next r = (Some q, snd (next r)) \<and> qr (snd (next r)) = qs"
      using event_source.poll_head [OF assms q(1)]
      by (cases "next r"; cases "fst (next r)") (auto simp: iter_poll_def)
    with Nil q show ?thesis
      by (cases it; cases "next r") (auto simp: s iter_poll_def sel_info_next_def sel_infos_def)
  qed
qed

text \<open>
  The composed handler offers exactly the protocols of its fields: iterating over its protocols
  yields messaging, advertise, blob and then those of the libp2p handlers, each with the variant of
  its field, and then ends.
\<close>

theorem owl_protocols_offered:
  assumes "event_source (iter_poll next) qr"
  shows "fst (drain (iter_poll (owl_info_next next)) n (owl_protocol_info rest hs)) =
      take n ([Inl MSG_PROTOCOL_NAME, Inr (Inl ADV_PROTOCOL_NAME), Inr (Inr (Inl BLOB_PROTOCOL_NAME))]
        @ map (\<lambda>p. Inr (Inr (Inr p))) (qr rest))"
proof -
  have "event_source (iter_poll (owl_info_next next)) (sel_infos (sel_infos (sel_infos qr)))"
    unfolding owl_info_next_def by (intro sel_info_source assms)
  moreover have "sel_infos (sel_infos (sel_infos qr)) (owl_protocol_info rest hs) =
      [Inl MSG_PROTOCOL_NAME, Inr (Inl ADV_PROTOCOL_NAME), Inr (Inr (Inl BLOB_PROTOCOL_NAME))]
        @ map (\<lambda>p. Inr (Inr (Inr p))) (qr rest)"
    by (auto simp: sel_infos_def owl_protocol_info_def msg_listen_protocol_def adv_listen_protocol_def blob_listen_protocol_def split: prod.split)
  ultimately show ?thesis
    using event_source.drain_take by metis
qed

theorem owl_protocols_offered_witness:
  "fst (drain (iter_poll (owl_info_next (\<lambda>ps. case ps of [] \<Rightarrow> (None, []) | p # ps' \<Rightarrow> (Some (p :: nat), ps')))) 5
      (owl_protocol_info [7] demo_silent_handler)) =
    [Inl MSG_PROTOCOL_NAME, Inr (Inl ADV_PROTOCOL_NAME), Inr (Inr (Inl BLOB_PROTOCOL_NAME)), Inr (Inr (Inr 7))]"
proof -
  have "event_source (iter_poll (\<lambda>ps. case ps of [] \<Rightarrow> (None, []) | p # ps' \<Rightarrow> (Some (p :: nat), ps'))) (\<lambda>ps. ps)"
    by unfold_locales (auto simp: iter_poll_def)
  from owl_protocols_offered [OF this, of 5 "[7]" demo_silent_handler] show ?thesis by simp
qed

section \<open>Inbound streams\<close>

text \<open>
  An inbound stream that was negotiated through the composed protocol reaches the field that offered
  the protocol, upgraded by that field and with the open info that the field gave.
\<close>

lemma inbound_info_of_own_field:
  "transpose_full_inbound (sel_upgrade_inbound f g sock negotiated) (snd (generate_substream_protocol a b)) =
     (case negotiated of Inl p \<Rightarrow> Inl (f sock p, snd a) | Inr q \<Rightarrow> Inr (g sock q, snd b))"
  by (cases negotiated) (simp_all add: generate_substream_protocol_def)

end
