(* ===== verification/Memcache.thy ===== *)
theory Memcache
  imports Owl_Prelude "HOL-Library.Multiset"
begin

text \<open>
  The \<open>memcache\<close> crate: \<open>MapStore\<close> and \<open>SetStore\<close> (\<open>memcache/src/store.rs\<close>) with the
  operations and results of \<open>memcache/src/manager.rs\<close>, the map manager, which queues operations
  for the task that owns the store, and the set manager, for which the crate spawns no such task. A regular expression of the \<open>regex\<close> crate is its matching
  function. Both stores refine their mathematical counterparts.
\<close>

section \<open>Operations and results\<close>

datatype 'v map_ops =
    GetSingle string callback
  | GetAll callback
  | Lookup "string \<Rightarrow> bool" callback
  | MapSet string 'v callback
  | MapTryInsert string 'v callback
  | MapDelete string callback

datatype 'v map_result =
    MapInserted
  | FoundValue "'v option"
  | FoundKV "(string, 'v) hash_map option"
  | Modified 'v
  | MapDeleted 'v
  | MapFailed

datatype 't set_ops =
    SetFind 't callback
  | SetTryInsert 't callback
  | SetDelete 't callback
  | SetDump callback

datatype 't set_result = SetInserted | SetFailed | SetDeleted | Found | NotFoundInSet | Dumped "'t list"

section \<open>The stores\<close>

text \<open>\<open>MapStore::handle_op\<close>: the answer with the channel it is sent to, and the new map.\<close>

fun handle_op :: "'v map_ops \<Rightarrow> (string, 'v) hash_map \<Rightarrow> (callback \<times> 'v map_result) \<times> (string, 'v) hash_map" where
  "handle_op (MapSet k v tx) m =
     (case hm_get m k of
        Some v' \<Rightarrow> ((tx, Modified v'), hm_insert k v m)
      | None \<Rightarrow> ((tx, MapInserted), hm_insert k v m))"
| "handle_op (MapTryInsert k v tx) m =
     (case hm_get m k of
        Some _ \<Rightarrow> ((tx, MapFailed), m)
      | None \<Rightarrow> ((tx, MapInserted), hm_insert k v m))"
| "handle_op (MapDelete k tx) m =
     (case hm_get m k of
        Some v \<Rightarrow> ((tx, MapDeleted v), hm_remove k m)
      | None \<Rightarrow> ((tx, MapFailed), m))"
| "handle_op (GetSingle k tx) m =
     (case hm_get m k of
        Some v \<Rightarrow> ((tx, FoundValue (Some v)), m)
      | None \<Rightarrow> ((tx, FoundValue None), m))"
| "handle_op (Lookup pattern tx) m =
     (let m' = hm_retain (\<lambda>k _. pattern k) m in
      if m' = [] then ((tx, FoundKV None), m) else ((tx, FoundKV (Some m')), m))"
| "handle_op (GetAll tx) m = ((tx, FoundKV (Some m)), m)"

text \<open>\<open>SetStore::handle_ops\<close>.\<close>

fun handle_ops :: "'t set_ops \<Rightarrow> 't hash_set \<Rightarrow> (callback \<times> 't set_result) \<times> 't hash_set" where
  "handle_ops (SetFind v tx) s = ((tx, if hs_contains s v then Found else NotFoundInSet), s)"
| "handle_ops (SetDump tx) s = ((tx, Dumped s), s)"
| "handle_ops (SetTryInsert v tx) s =
     ((tx, if hs_contains s v then SetFailed else SetInserted), hs_insert v s)"
| "handle_ops (SetDelete v tx) s =
     ((tx, if hs_contains s v then SetDeleted else SetFailed), hs_remove v s)"

section \<open>The map manager\<close>

text \<open>
  A manager and its clones share one channel; the task that owns the store takes the operations in
  the order of the channel (\<open>while let Some(op) = receiver.recv().await\<close>). Every request makes a
  new oneshot channel; the channels are numbered.
\<close>

record 'v map_manager =
  mm_channel :: "'v map_ops list"
  mm_store :: "(string, 'v) hash_map"
  mm_next_tx :: callback

definition map_manager_from :: "(string, 'v) hash_map \<Rightarrow> 'v map_manager" where
  "map_manager_from m = \<lparr>mm_channel = [], mm_store = m, mm_next_tx = 0\<rparr>"

definition map_manager_new :: "'v map_manager" where
  "map_manager_new = map_manager_from []"

fun map_actor :: "'v map_ops list \<Rightarrow> (string, 'v) hash_map \<Rightarrow> (callback \<times> 'v map_result) list \<times> (string, 'v) hash_map" where
  "map_actor [] m = ([], m)"
| "map_actor (op # ops) m =
     (let (r, m') = handle_op op m; (rs, m'') = map_actor ops m' in (r # rs, m''))"

text \<open>Sending a request, and letting the task run until the channel is empty.\<close>

definition map_post :: "(callback \<Rightarrow> 'v map_ops) \<Rightarrow> 'v map_manager \<Rightarrow> 'v map_manager" where
  "map_post op a = a\<lparr>mm_channel := push_back (mm_channel a) (op (mm_next_tx a)), mm_next_tx := Suc (mm_next_tx a)\<rparr>"

definition map_task :: "'v map_manager \<Rightarrow> (callback \<times> 'v map_result) list \<times> 'v map_manager" where
  "map_task a = (let (rs, m) = map_actor (mm_channel a) (mm_store a) in (rs, a\<lparr>mm_channel := [], mm_store := m\<rparr>))"

text \<open>Each method sends its operation and waits on its own oneshot channel.\<close>

definition map_request :: "(callback \<Rightarrow> 'v map_ops) \<Rightarrow> 'v map_manager \<Rightarrow> ('v map_result \<times> 'v map_manager) outcome" where
  "map_request op a =
     (let (rs, a') = map_task (map_post op a) in
      case map_of rs (mm_next_tx a) of Some r \<Rightarrow> Returns (r, a') | None \<Rightarrow> Panics)"

definition map_get_single :: "string \<Rightarrow> 'v map_manager \<Rightarrow> ('v map_result \<times> 'v map_manager) outcome" where
  "map_get_single key a = map_request (GetSingle key) a"

definition map_get_all :: "'v map_manager \<Rightarrow> ('v map_result \<times> 'v map_manager) outcome" where
  "map_get_all a = map_request GetAll a"

definition map_set :: "string \<Rightarrow> 'v \<Rightarrow> 'v map_manager \<Rightarrow> ('v map_result \<times> 'v map_manager) outcome" where
  "map_set key value a = map_request (MapSet key value) a"

definition map_try_insert :: "string \<Rightarrow> 'v \<Rightarrow> 'v map_manager \<Rightarrow> ('v map_result \<times> 'v map_manager) outcome" where
  "map_try_insert key value a = map_request (MapTryInsert key value) a"

definition map_delete :: "string \<Rightarrow> 'v map_manager \<Rightarrow> ('v map_result \<times> 'v map_manager) outcome" where
  "map_delete key a = map_request (MapDelete key) a"

definition map_lookup :: "(string \<Rightarrow> bool) \<Rightarrow> 'v map_manager \<Rightarrow> ('v map_result \<times> 'v map_manager) outcome" where
  "map_lookup pattern a = map_request (Lookup pattern) a"

section \<open>The set manager\<close>

text \<open>
  \<open>SetManager\<close> is given the sending end of a channel; who receives is up to the caller, so the owner
  of the receiving end is an argument: what it answers to an operation, if anything, and its state
  afterwards. A request whose channel is dropped unanswered panics.
\<close>

record ('t, 's) set_manager =
  sm_owner :: "'t set_ops \<Rightarrow> 's \<Rightarrow> (callback \<times> 't set_result) option \<times> 's"
  sm_state :: 's
  sm_next_tx :: callback

definition set_manager_new :: "('t set_ops \<Rightarrow> 's \<Rightarrow> (callback \<times> 't set_result) option \<times> 's) \<Rightarrow> 's \<Rightarrow> ('t, 's) set_manager" where
  "set_manager_new owner s = \<lparr>sm_owner = owner, sm_state = s, sm_next_tx = 0\<rparr>"

definition set_request :: "(callback \<Rightarrow> 't set_ops) \<Rightarrow> ('t, 's) set_manager \<Rightarrow> ('t set_result \<times> ('t, 's) set_manager) outcome" where
  "set_request op a =
     (let tx = sm_next_tx a; (r, s) = sm_owner a (op tx) (sm_state a); a' = a\<lparr>sm_state := s, sm_next_tx := Suc tx\<rparr> in
      case r of
        Some (tx', v) \<Rightarrow> if tx' = tx then Returns (v, a') else Panics
      | None \<Rightarrow> Panics)"

definition set_find :: "'t \<Rightarrow> ('t, 's) set_manager \<Rightarrow> ('t set_result \<times> ('t, 's) set_manager) outcome" where
  "set_find v a = set_request (SetFind v) a"

definition set_try_insert :: "'t \<Rightarrow> ('t, 's) set_manager \<Rightarrow> ('t set_result \<times> ('t, 's) set_manager) outcome" where
  "set_try_insert v a = set_request (SetTryInsert v) a"

definition set_dump :: "('t, 's) set_manager \<Rightarrow> ('t set_result \<times> ('t, 's) set_manager) outcome" where
  "set_dump a = set_request SetDump a"

definition set_delete :: "'t \<Rightarrow> ('t, 's) set_manager \<Rightarrow> ('t set_result \<times> ('t, 's) set_manager) outcome" where
  "set_delete v a = set_request (SetDelete v) a"

text \<open>The owner that hands the operations to a \<open>SetStore\<close>.\<close>

definition set_store_owner :: "'t set_ops \<Rightarrow> 't hash_set \<Rightarrow> (callback \<times> 't set_result) option \<times> 't hash_set" where
  "set_store_owner op s = (let (r, s') = handle_ops op s in (Some r, s'))"

section \<open>Specification\<close>

datatype 'v map_answer =
    AInserted
  | AValue "'v option"
  | AEntries "(string \<rightharpoonup> 'v) option"
  | AModified 'v
  | ADeleted 'v
  | AFailed

fun map_answer_of :: "'v map_result \<Rightarrow> 'v map_answer" where
  "map_answer_of MapInserted = AInserted"
| "map_answer_of (FoundValue v) = AValue v"
| "map_answer_of (FoundKV kv) = AEntries (map_option hm_get kv)"
| "map_answer_of (Modified v) = AModified v"
| "map_answer_of (MapDeleted v) = ADeleted v"
| "map_answer_of MapFailed = AFailed"

text \<open>
  The intended meaning on partial functions. A lookup that matches nothing answers \<open>None\<close>, whereas
  listing an empty store answers an empty map.
\<close>

fun map_spec :: "'v map_ops \<Rightarrow> (string \<rightharpoonup> 'v) \<Rightarrow> 'v map_answer \<times> (string \<rightharpoonup> 'v)" where
  "map_spec (MapSet k v _) f = ((case f k of None \<Rightarrow> AInserted | Some v' \<Rightarrow> AModified v'), f(k \<mapsto> v))"
| "map_spec (MapTryInsert k v _) f = (if k \<in> dom f then (AFailed, f) else (AInserted, f(k \<mapsto> v)))"
| "map_spec (MapDelete k _) f = ((case f k of None \<Rightarrow> AFailed | Some v \<Rightarrow> ADeleted v), f(k := None))"
| "map_spec (GetSingle k _) f = (AValue (f k), f)"
| "map_spec (Lookup P _) f = (AEntries (if \<forall>k \<in> dom f. \<not> P k then None else Some (f |` {k. P k})), f)"
| "map_spec (GetAll _) f = (AEntries (Some f), f)"

fun op_callback :: "'v map_ops \<Rightarrow> callback" where
  "op_callback (MapSet _ _ tx) = tx"
| "op_callback (MapTryInsert _ _ tx) = tx"
| "op_callback (MapDelete _ tx) = tx"
| "op_callback (GetSingle _ tx) = tx"
| "op_callback (Lookup _ tx) = tx"
| "op_callback (GetAll tx) = tx"

lemma hm_get_retain_restrict: "hm_wf m \<Longrightarrow> hm_get (hm_retain (\<lambda>k _. P k) m) = hm_get m |` {k. P k}"
  by (auto simp: fun_eq_iff hm_get_retain restrict_map_def split: option.split)

lemma hm_retain_empty_iff: "hm_retain (\<lambda>k _. P k) m = [] \<longleftrightarrow> (\<forall>k \<in> dom (hm_get m). \<not> P k)"
  by (auto simp: hm_retain_def filter_empty_conv hm_keys_dom [symmetric] hm_keys_def)

lemma handle_op_refines:
  assumes "hm_wf m" and "handle_op op m = ((tx, r), m')"
  shows "tx = op_callback op \<and> hm_wf m' \<and> map_spec op (hm_get m) = (map_answer_of r, hm_get m')"
proof (cases op)
  case (Lookup P c)
  then show ?thesis
    using assms by (auto simp: Let_def hm_retain_empty_iff [symmetric] hm_get_retain_restrict split: if_splits)
qed (use assms in \<open>auto simp: fun_eq_iff dom_def split: option.splits\<close>)

interpretation mapstore: data_refinement "\<lambda>op m. Returns (handle_op op m)" map_spec hm_get "\<lambda>(_, r). map_answer_of r" hm_wf
proof
  fix m :: "(string, 'a) hash_map" and op
  assume wf: "hm_wf m"
  obtain tx r m' where "handle_op op m = ((tx, r), m')" by (metis prod.exhaust)
  with handle_op_refines [OF wf this] show "\<exists>r m'. Returns (handle_op op m) = Returns (r, m') \<and> hm_wf m'
      \<and> map_spec op (hm_get m) = ((case r of (_, r) \<Rightarrow> map_answer_of r), hm_get m')"
    by simp
qed

lemma map_actor_run: "run_ops (\<lambda>op m. Returns (handle_op op m)) ops m = Returns (map_actor ops m)"
  by (induction ops arbitrary: m) (auto split: prod.splits)

lemma map_actor_callbacks: "hm_wf m \<Longrightarrow> map fst (fst (map_actor ops m)) = map op_callback ops"
proof (induction ops arbitrary: m)
  case (Cons op ops)
  obtain tx r m' where "handle_op op m = ((tx, r), m')" by (metis prod.exhaust)
  with handle_op_refines [OF Cons.prems this] Cons.IH [of m'] show ?case
    by (auto split: prod.splits)
qed simp

lemma map_actor_append:
  "map_actor (ops @ ops') m = (let (rs, m') = map_actor ops m; (rs', m'') = map_actor ops' m' in (rs @ rs', m''))"
  by (induction ops arbitrary: m) (auto split: prod.splits)

section \<open>Properties\<close>

text \<open>The operations that a list of requests, sent in this order, puts into the channel.\<close>

definition numbered :: "callback \<Rightarrow> (callback \<Rightarrow> 'v map_ops) list \<Rightarrow> 'v map_ops list" where
  "numbered n reqs = map (\<lambda>(i, op). op i) (zip [n..<n + length reqs] reqs)"

lemma numbered_snoc: "numbered n (reqs @ [op]) = numbered n reqs @ [op (n + length reqs)]"
  by (simp add: numbered_def)

lemma fold_map_post:
  "fold map_post reqs (map_manager_from m) =
     \<lparr>mm_channel = numbered 0 reqs, mm_store = m, mm_next_tx = length reqs\<rparr>"
  by (induction reqs rule: rev_induct)
    (simp_all add: map_manager_from_def numbered_def map_post_def push_back_def)

text \<open>An operation constructor that is given its channel.\<close>

definition proper_request :: "(callback \<Rightarrow> 'v map_ops) \<Rightarrow> bool" where
  "proper_request op \<longleftrightarrow> (\<forall>tx. op_callback (op tx) = tx)"

text \<open>
  C12. The map manager is linearisable. Whatever requests clones of a manager have queued before,
  a request made through it is answered, on its own channel, with the answer that the mathematical
  map gives after those requests; the store is left as the map after all of them.
\<close>

theorem map_manager_linearizable:
  assumes "hm_wf m" and "\<forall>q \<in> set queued. proper_request q" and "proper_request op"
  shows "\<exists>r a'. map_request op (fold map_post queued (map_manager_from m)) = Returns (r, a')
    \<and> mm_channel a' = []
    \<and> map_spec (op (length queued)) (snd (run_spec map_spec (numbered 0 queued) (hm_get m))) =
        (map_answer_of r, hm_get (mm_store a'))"
proof -
  obtain rs m1 where 1: "map_actor (numbered 0 queued) m = (rs, m1)" by fastforce
  have m1: "hm_wf m1" "run_spec map_spec (numbered 0 queued) (hm_get m) = (map (\<lambda>(_, r). map_answer_of r) rs, hm_get m1)"
    using mapstore.run_refines [OF assms(1), of "numbered 0 queued"] by (simp_all add: map_actor_run 1)
  obtain tx r m2 where 2: "handle_op (op (length queued)) m1 = ((tx, r), m2)" by (metis prod.exhaust)
  have m2: "tx = length queued" "map_spec (op (length queued)) (hm_get m1) = (map_answer_of r, hm_get m2)"
    using handle_op_refines [OF m1(1) 2] assms(3) by (simp_all add: proper_request_def)
  have "map fst rs = [0..<length queued]"
  proof -
    have "map fst rs = map op_callback (numbered 0 queued)"
      using map_actor_callbacks [OF assms(1), of "numbered 0 queued"] 1 by simp
    also have "\<dots> = map fst (zip [0..<length queued] queued)"
      unfolding numbered_def map_map add_0
      by (rule map_cong [OF refl]) (use assms(2) in \<open>auto simp: proper_request_def dest!: set_zip_rightD\<close>)
    finally show ?thesis by simp
  qed
  then have "length queued \<notin> fst ` set rs"
    by (metis atLeastLessThan_iff less_irrefl list.set_map set_upt)
  then have "map_of rs (length queued) = None"
    by (simp add: map_of_eq_None_iff)
  then show ?thesis
    using 1 2 m1 m2
    by (simp add: map_request_def map_task_def fold_map_post map_post_def push_back_def map_actor_append map_add_def)
qed

theorem map_manager_linearizable_witness:
  "\<exists>a'. map_request (GetSingle ''ping'') (fold map_post [MapTryInsert ''ping'' (1::nat), MapTryInsert ''ping'' 2] (map_manager_from []))
     = Returns (FoundValue (Some 1), a')"
proof -
  have ok: "\<forall>q \<in> set [MapTryInsert ''ping'' (1::nat), MapTryInsert ''ping'' 2]. proper_request q" "proper_request (GetSingle ''ping'')"
    by (simp_all add: proper_request_def)
  obtain r a' where "map_request (GetSingle ''ping'') (fold map_post [MapTryInsert ''ping'' (1::nat), MapTryInsert ''ping'' 2] (map_manager_from []))
      = Returns (r, a')"
    and "map_spec (GetSingle ''ping'' 2) (snd (run_spec map_spec (numbered 0 [MapTryInsert ''ping'' (1::nat), MapTryInsert ''ping'' 2]) (hm_get [])))
      = (map_answer_of r, hm_get (mm_store a'))"
    using map_manager_linearizable [OF hm_wf_Nil ok] by auto
  then show ?thesis
    by (cases r) (auto simp: numbered_def dom_def)
qed

section \<open>The set store\<close>

datatype 't set_answer = SAInserted | SAFailed | SADeleted | SAFound | SANotFound | SADumped "'t multiset"

fun set_answer_of :: "'t set_result \<Rightarrow> 't set_answer" where
  "set_answer_of SetInserted = SAInserted"
| "set_answer_of SetFailed = SAFailed"
| "set_answer_of SetDeleted = SADeleted"
| "set_answer_of Found = SAFound"
| "set_answer_of NotFoundInSet = SANotFound"
| "set_answer_of (Dumped xs) = SADumped (mset xs)"

fun set_spec :: "'t set_ops \<Rightarrow> 't set \<Rightarrow> 't set_answer \<times> 't set" where
  "set_spec (SetFind v _) S = (if v \<in> S then SAFound else SANotFound, S)"
| "set_spec (SetTryInsert v _) S = (if v \<in> S then SAFailed else SAInserted, insert v S)"
| "set_spec (SetDelete v _) S = (if v \<in> S then SADeleted else SAFailed, S - {v})"
| "set_spec (SetDump _) S = (SADumped (mset_set S), S)"

lemma handle_ops_refines:
  assumes "hs_wf s" and "handle_ops op s = ((tx, r), s')"
  shows "hs_wf s' \<and> set_spec op (set s) = (set_answer_of r, set s')"
  using assms by (cases op) (auto simp: hs_contains_def hs_wf_def hs_insert_def hs_remove_def distinct_removeAll mset_set_set)

interpretation setstore: data_refinement "\<lambda>op s. Returns (handle_ops op s)" set_spec set "\<lambda>(_, r). set_answer_of r" hs_wf
proof
  fix s :: "'a hash_set" and op
  assume wf: "hs_wf s"
  obtain tx r s' where "handle_ops op s = ((tx, r), s')" by (metis prod.exhaust)
  with handle_ops_refines [OF wf this] show "\<exists>r s'. Returns (handle_ops op s) = Returns (r, s') \<and> hs_wf s'
      \<and> set_spec op (set s) = ((case r of (_, r) \<Rightarrow> set_answer_of r), set s')"
    by simp
qed

text \<open>
  The set store implements a finite set: any sequence of operations on an empty store gives the
  answers of the mathematical set, and a dump lists every element exactly once.
\<close>

theorem set_store_refines:
  "\<exists>rs s. run_ops (\<lambda>op s. Returns (handle_ops op s)) ops [] = Returns (rs, s)
    \<and> run_spec set_spec ops {} = (map (\<lambda>(_, r). set_answer_of r) rs, set s) \<and> distinct s"
  using setstore.run_refines [OF hs_wf_Nil, of ops] by (auto simp: hs_wf_def)

text \<open>Through a manager whose owner serves a store, the methods behave as on a mathematical set.\<close>

lemma set_manager_methods:
  assumes "sm_owner a = set_store_owner" and "hs_wf (sm_state a)"
  shows "\<exists>a'. set_find v a = Returns (if v \<in> set (sm_state a) then Found else NotFoundInSet, a') \<and> sm_state a' = sm_state a"
    and "\<exists>a'. set_try_insert v a = Returns (if v \<in> set (sm_state a) then SetFailed else SetInserted, a')
          \<and> set (sm_state a') = insert v (set (sm_state a)) \<and> hs_wf (sm_state a')"
    and "\<exists>a'. set_delete v a = Returns (if v \<in> set (sm_state a) then SetDeleted else SetFailed, a')
          \<and> set (sm_state a') = set (sm_state a) - {v} \<and> hs_wf (sm_state a')"
    and "\<exists>a'. set_dump a = Returns (Dumped (sm_state a), a') \<and> sm_state a' = sm_state a"
  using assms
  by (auto simp: set_find_def set_try_insert_def set_delete_def set_dump_def set_request_def set_store_owner_def
      hs_contains_def hs_insert_def hs_remove_def hs_wf_def distinct_removeAll Let_def)

text \<open>Without an owner that answers, every method panics.\<close>

lemma set_manager_orphaned:
  assumes "\<And>op s. fst (sm_owner a op s) = None"
  shows "set_request op a = Panics"
  using assms [of "op (sm_next_tx a)" "sm_state a"] by (auto simp: set_request_def Let_def split: prod.splits)

end
