(* ===== verification/Gossip.thy ===== *)
theory Gossip
  imports Owl_Prelude
begin

text \<open>
  The gossipsub adapter, \<open>owlnest/src/net/p2p/protocols/gossipsub.rs\<close>: the requests it accepts
  (\<open>InEvent\<close>), how they are applied to the libp2p behaviour (\<open>map_in_event\<close>), the methods of
  \<open>Handle\<close>, the in-memory topic and message stores, and the subcommands that name topics.

  The libp2p gossipsub behaviour and the two topic hashers are foreign: the behaviour is the record
  \<open>gossip_api\<close> of the methods the adapter calls, over an arbitrary state type. \<open>DashMap\<close> and
  \<open>DashSet\<close> are concurrent hash tables whose single operations are atomic; they are modelled like
  \<open>HashMap\<close> and \<open>HashSet\<close>, and the operations of the stores run one after the other.
\<close>

section \<open>Topics\<close>

text \<open>A gossipsub \<open>TopicHash\<close> wraps a string.\<close>

datatype topic_hash = TopicHash (topic_hash_str: string)

datatype hash_type = Sha256 | Identity

text \<open>\<open>HashType::hash\<close>, with the two hashers of libp2p as arguments.\<close>

fun hash_type_hash :: "(string \<Rightarrow> topic_hash) \<Rightarrow> (string \<Rightarrow> topic_hash) \<Rightarrow> hash_type \<Rightarrow> string \<Rightarrow> topic_hash" where
  "hash_type_hash sha256 identity Sha256 topic_string = sha256 topic_string"
| "hash_type_hash sha256 identity Identity topic_string = identity topic_string"

definition hash_type_from_str :: "string \<Rightarrow> unit + hash_type" where
  "hash_type_from_str s =
     (if s = ''sha256'' then Inr Sha256 else if s = ''identity'' then Inr Identity else Inl ())"

text \<open>The serialisable twin of \<open>TopicHash\<close> in \<open>serde_types\<close> and its conversions.\<close>

record serde_topic_hash =
  sth_hash :: string

definition serde_from_raw :: "string \<Rightarrow> serde_topic_hash" where
  "serde_from_raw hash = \<lparr>sth_hash = hash\<rparr>"

definition serde_into_string :: "serde_topic_hash \<Rightarrow> string" where
  "serde_into_string t = sth_hash t"

definition serde_of_topic_hash :: "topic_hash \<Rightarrow> serde_topic_hash" where
  "serde_of_topic_hash value = \<lparr>sth_hash = topic_hash_str value\<rparr>"

definition topic_hash_of_serde :: "serde_topic_hash \<Rightarrow> topic_hash" where
  "topic_hash_of_serde value = TopicHash (sth_hash value)"

section \<open>The topic store\<close>

text \<open>
  \<open>MemTopicStore\<close>: topics with a known name, topics of which only the hash is known, both with the
  peers that joined them, and the topics subscribed locally.
\<close>

record mem_topic_store =
  mt_populated :: "(topic_hash, string \<times> peer_id hash_set) hash_map"
  mt_vacant :: "(topic_hash, peer_id hash_set) hash_map"
  mt_subscribed :: "topic_hash hash_set"

definition mem_topic_store_default :: mem_topic_store where
  "mem_topic_store_default = \<lparr>mt_populated = [], mt_vacant = [], mt_subscribed = []\<rparr>"

definition insert_topic :: "string \<Rightarrow> topic_hash \<Rightarrow> mem_topic_store \<Rightarrow> bool \<times> mem_topic_store" where
  "insert_topic topic_string topic_hash s =
     (case hm_get (mt_vacant s) topic_hash of
        Some list \<Rightarrow>
          (False, s\<lparr>mt_vacant := hm_remove topic_hash (mt_vacant s),
                    mt_populated := hm_insert topic_hash (topic_string, list) (mt_populated s)\<rparr>)
      | None \<Rightarrow>
          if hm_get (mt_populated s) topic_hash = None
          then (True, s\<lparr>mt_populated := hm_insert topic_hash (topic_string, []) (mt_populated s)\<rparr>)
          else (False, s))"

definition insert_hash :: "topic_hash \<Rightarrow> mem_topic_store \<Rightarrow> bool \<times> mem_topic_store" where
  "insert_hash topic_hash s =
     (if hm_get (mt_vacant s) topic_hash \<noteq> None \<or> hm_get (mt_populated s) topic_hash \<noteq> None
      then (False, s)
      else (True, s\<lparr>mt_vacant := hm_insert topic_hash [] (mt_vacant s)\<rparr>))"

definition try_map :: "topic_hash \<Rightarrow> mem_topic_store \<Rightarrow> string option" where
  "try_map topic_hash s = map_option fst (hm_get (mt_populated s) topic_hash)"

definition readable_topics :: "mem_topic_store \<Rightarrow> (topic_hash \<times> string) list" where
  "readable_topics s = map (\<lambda>(k, v). (k, fst v)) (mt_populated s)"

definition hash_topics :: "mem_topic_store \<Rightarrow> topic_hash list" where
  "hash_topics s = map fst (mt_vacant s)"

definition participants :: "topic_hash \<Rightarrow> mem_topic_store \<Rightarrow> peer_id list option" where
  "participants topic_hash s =
     (case map_option snd (hm_get (mt_populated s) topic_hash) of
        Some list \<Rightarrow> Some list
      | None \<Rightarrow> hm_get (mt_vacant s) topic_hash)"

definition join_topic :: "peer_id \<Rightarrow> topic_hash \<Rightarrow> mem_topic_store \<Rightarrow> (bool \<times> mem_topic_store) outcome" where
  "join_topic peer topic_hash s0 =
     (let s = snd (insert_hash topic_hash s0) in
      case hm_get (mt_vacant s) topic_hash of
        Some list \<Rightarrow>
          Returns (\<not> hs_contains list peer,
                   s\<lparr>mt_vacant := hm_insert topic_hash (hs_insert peer list) (mt_vacant s)\<rparr>)
      | None \<Rightarrow>
          (case hm_get (mt_populated s) topic_hash of
             Some (name, list) \<Rightarrow>
               Returns (\<not> hs_contains list peer,
                        s\<lparr>mt_populated := hm_insert topic_hash (name, hs_insert peer list) (mt_populated s)\<rparr>)
           | None \<Rightarrow> Panics))"

definition leave_topic :: "peer_id \<Rightarrow> topic_hash \<Rightarrow> mem_topic_store \<Rightarrow> bool \<times> mem_topic_store" where
  "leave_topic peer topic_hash s =
     (case hm_get (mt_vacant s) topic_hash of
        Some list \<Rightarrow>
          (hs_contains list peer,
           s\<lparr>mt_vacant := hm_insert topic_hash (hs_remove peer list) (mt_vacant s)\<rparr>)
      | None \<Rightarrow>
          (case hm_get (mt_populated s) topic_hash of
             Some (name, list) \<Rightarrow>
               (hs_contains list peer,
                s\<lparr>mt_populated := hm_insert topic_hash (name, hs_remove peer list) (mt_populated s)\<rparr>)
           | None \<Rightarrow> (False, s)))"

definition store_subscribe_topic :: "topic_hash \<Rightarrow> string option \<Rightarrow> mem_topic_store \<Rightarrow> bool \<times> mem_topic_store" where
  "store_subscribe_topic topic topic_string s0 =
     (let s = (case topic_string of
                 Some name \<Rightarrow> snd (insert_topic name topic s0)
               | None \<Rightarrow> snd (insert_hash topic s0)) in
      if \<not> hs_contains (mt_subscribed s) topic
      then (True, s\<lparr>mt_subscribed := hs_insert topic (mt_subscribed s)\<rparr>)
      else (False, s))"

definition store_unsubscribe_topic :: "topic_hash \<Rightarrow> mem_topic_store \<Rightarrow> bool \<times> mem_topic_store" where
  "store_unsubscribe_topic topic_hash s =
     (hs_contains (mt_subscribed s) topic_hash,
      s\<lparr>mt_subscribed := hs_remove topic_hash (mt_subscribed s)\<rparr>)"

definition subscribed_topics :: "mem_topic_store \<Rightarrow> topic_hash list" where
  "subscribed_topics s = mt_subscribed s"

section \<open>The message store\<close>

text \<open>A libp2p gossipsub \<open>Message\<close>.\<close>

record gossip_message =
  gm_source :: "peer_id option"
  gm_data :: "u8 list"
  gm_sequence_number :: "u64 option"
  gm_topic :: topic_hash

datatype message_record = Remote gossip_message | Local "u8 list"

type_synonym gossip_message_store = "(topic_hash, message_record list) hash_map"

definition gms_get_messages :: "gossip_message_store \<Rightarrow> topic_hash \<Rightarrow> message_record list option" where
  "gms_get_messages s topic_hash = hm_get s topic_hash"

definition gms_insert_message :: "topic_hash \<Rightarrow> message_record \<Rightarrow> gossip_message_store \<Rightarrow> gossip_message_store" where
  "gms_insert_message topic message s =
     (case hm_get s topic of
        Some entry \<Rightarrow> hm_insert topic (entry @ [message]) s
      | None \<Rightarrow> hm_insert topic [message] s)"

fun gms_clear_message :: "topic_hash option \<Rightarrow> gossip_message_store \<Rightarrow> gossip_message_store" where
  "gms_clear_message None s = []"
| "gms_clear_message (Some topic) s = hm_remove topic s"

interpretation gms: history_log gms_get_messages gms_insert_message
  by unfold_locales (auto simp: gms_get_messages_def gms_insert_message_def split: option.splits)

section \<open>Requests and the libp2p behaviour\<close>

datatype publish_error = Duplicate | SigningError string | InsufficientPeers | MessageTooLarge | TransformFailed io_error

datatype subscription_error = SubscriptionPublishError publish_error | NotAllowed

datatype message_id = MessageId "u8 list"

datatype gossip_in_event =
    SubscribeTopic topic_hash callback
  | UnsubscribeTopic topic_hash callback
  | PublishMessage topic_hash "u8 list" callback
  | MeshPeersOfTopic topic_hash callback
  | AllPeersWithTopic callback
  | BanPeer peer_id
  | UnbanPeer peer_id

text \<open>What \<open>map_in_event\<close> sends through a callback.\<close>

datatype gossip_reply =
    ReplySubscribe callback "subscription_error + bool"
  | ReplyUnsubscribe callback bool
  | ReplyPublish callback "publish_error + message_id"
  | ReplyMeshPeers callback "peer_id list"
  | ReplyAllPeers callback "(peer_id \<times> topic_hash list) list"

text \<open>The methods of \<open>libp2p::gossipsub::Behaviour\<close> that the adapter calls.\<close>

record 'b gossip_api =
  ga_subscribe :: "topic_hash \<Rightarrow> 'b \<Rightarrow> (subscription_error + bool) \<times> 'b"
  ga_unsubscribe :: "topic_hash \<Rightarrow> 'b \<Rightarrow> bool \<times> 'b"
  ga_publish :: "topic_hash \<Rightarrow> u8 list \<Rightarrow> 'b \<Rightarrow> (publish_error + message_id) \<times> 'b"
  ga_mesh_peers :: "topic_hash \<Rightarrow> 'b \<Rightarrow> peer_id list"
  ga_all_peers :: "'b \<Rightarrow> (peer_id \<times> topic_hash list) list"
  ga_blacklist_peer :: "peer_id \<Rightarrow> 'b \<Rightarrow> 'b"
  ga_remove_blacklisted_peer :: "peer_id \<Rightarrow> 'b \<Rightarrow> 'b"

fun gossip_map_in_event :: "'b gossip_api \<Rightarrow> 'b \<Rightarrow> gossip_in_event \<Rightarrow> gossip_reply list \<times> 'b" where
  "gossip_map_in_event api behav (SubscribeTopic topic_hash cb) =
     (let (result, behav') = ga_subscribe api topic_hash behav in ([ReplySubscribe cb result], behav'))"
| "gossip_map_in_event api behav (UnsubscribeTopic topic_hash cb) =
     (let (result, behav') = ga_unsubscribe api topic_hash behav in ([ReplyUnsubscribe cb result], behav'))"
| "gossip_map_in_event api behav (MeshPeersOfTopic topic cb) = ([ReplyMeshPeers cb (ga_mesh_peers api topic behav)], behav)"
| "gossip_map_in_event api behav (AllPeersWithTopic cb) = ([ReplyAllPeers cb (ga_all_peers api behav)], behav)"
| "gossip_map_in_event api behav (PublishMessage topic message cb) =
     (let (result, behav') = ga_publish api topic message behav in ([ReplyPublish cb result], behav'))"
| "gossip_map_in_event api behav (BanPeer peer) = ([], ga_blacklist_peer api peer behav)"
| "gossip_map_in_event api behav (UnbanPeer peer) = ([], ga_remove_blacklisted_peer api peer behav)"

section \<open>The handle\<close>

text \<open>
  What a \<open>Handle\<close> shares with the swarm task: the behaviour behind the request channel and the two
  stores behind the \<open>Arc\<close>s. A method sends its request, waits until the swarm task has applied
  \<open>map_in_event\<close> to it and reads the callback; \<open>gossip_call\<close> is that round trip.
\<close>

record 'b gossip_node =
  gn_behaviour :: 'b
  gn_topic_store :: mem_topic_store
  gn_message_store :: gossip_message_store

definition gossip_node_new :: "'b \<Rightarrow> 'b gossip_node" where
  "gossip_node_new b = \<lparr>gn_behaviour = b, gn_topic_store = mem_topic_store_default, gn_message_store = []\<rparr>"

definition gossip_call :: "'b gossip_api \<Rightarrow> gossip_in_event \<Rightarrow> 'b gossip_node \<Rightarrow> gossip_reply list \<times> 'b gossip_node" where
  "gossip_call api ev n =
     (let (replies, b) = gossip_map_in_event api (gn_behaviour n) ev in (replies, n\<lparr>gn_behaviour := b\<rparr>))"

text \<open>\<open>handle_callback!\<close> panics when the callback is dropped without an answer.\<close>

definition subscribe_topic_hash :: "'b gossip_api \<Rightarrow> topic_hash \<Rightarrow> 'b gossip_node \<Rightarrow> ((subscription_error + bool) \<times> 'b gossip_node) outcome" where
  "subscribe_topic_hash api topic_hash n =
     (case gossip_call api (SubscribeTopic topic_hash 0) n of
        (ReplySubscribe _ result # _, n') \<Rightarrow>
          Returns (result,
            if result = Inr True
            then n'\<lparr>gn_topic_store := snd (store_subscribe_topic topic_hash None (gn_topic_store n'))\<rparr>
            else n')
      | _ \<Rightarrow> Panics)"

definition subscribe_topic :: "(string \<Rightarrow> topic_hash) \<Rightarrow> 'b gossip_api \<Rightarrow> string \<Rightarrow> 'b gossip_node \<Rightarrow> ((subscription_error + bool) \<times> 'b gossip_node) outcome" where
  "subscribe_topic hasher api topic_string n =
     and_then (subscribe_topic_hash api (hasher topic_string) n) (\<lambda>(result, n').
       Returns (result,
         if result = Inr True
         then n'\<lparr>gn_topic_store := snd (store_subscribe_topic (hasher topic_string) (Some topic_string) (gn_topic_store n'))\<rparr>
         else n'))"

definition unsubscribe_topic_hash :: "'b gossip_api \<Rightarrow> topic_hash \<Rightarrow> 'b gossip_node \<Rightarrow> (bool \<times> 'b gossip_node) outcome" where
  "unsubscribe_topic_hash api topic_hash n =
     (case gossip_call api (UnsubscribeTopic topic_hash 0) n of
        (ReplyUnsubscribe _ result # _, n') \<Rightarrow>
          Returns (result,
            if result
            then n'\<lparr>gn_topic_store := snd (store_unsubscribe_topic topic_hash (gn_topic_store n'))\<rparr>
            else n')
      | _ \<Rightarrow> Panics)"

definition unsubscribe_topic :: "(string \<Rightarrow> topic_hash) \<Rightarrow> 'b gossip_api \<Rightarrow> string \<Rightarrow> 'b gossip_node \<Rightarrow> (bool \<times> 'b gossip_node) outcome" where
  "unsubscribe_topic hasher api topic_string n = unsubscribe_topic_hash api (hasher topic_string) n"

definition publish_message :: "'b gossip_api \<Rightarrow> topic_hash \<Rightarrow> u8 list \<Rightarrow> 'b gossip_node \<Rightarrow> ((publish_error + message_id) \<times> 'b gossip_node) outcome" where
  "publish_message api topic_hash message n =
     (case gossip_call api (PublishMessage topic_hash message 0) n of
        (ReplyPublish _ result # _, n') \<Rightarrow>
          Returns (result,
            case result of
              Inr _ \<Rightarrow> n'\<lparr>gn_message_store := gms_insert_message topic_hash (Local message) (gn_message_store n')\<rparr>
            | Inl _ \<Rightarrow> n')
      | _ \<Rightarrow> Panics)"

section \<open>Subcommands\<close>

datatype sub_unsub_command = SubByString string hash_type | SubByHash string

fun sub_unsub_destruct :: "(string \<Rightarrow> topic_hash) \<Rightarrow> (string \<Rightarrow> topic_hash) \<Rightarrow> sub_unsub_command \<Rightarrow> topic_hash" where
  "sub_unsub_destruct sha256 identity (SubByHash topic_hash) = TopicHash topic_hash"
| "sub_unsub_destruct sha256 identity (SubByString topic_string ht) = hash_type_hash sha256 identity ht topic_string"

datatype publish_command = PubByString string hash_type string | PubByHash string string

text \<open>\<open>String::into_bytes\<close>.\<close>

definition string_bytes :: "string \<Rightarrow> u8 list" where
  "string_bytes s = map of_char s"

fun publish_destruct :: "(string \<Rightarrow> topic_hash) \<Rightarrow> (string \<Rightarrow> topic_hash) \<Rightarrow> publish_command \<Rightarrow> topic_hash \<times> u8 list" where
  "publish_destruct sha256 identity (PubByHash topic_hash message) = (TopicHash topic_hash, string_bytes message)"
| "publish_destruct sha256 identity (PubByString topic_string ht message) =
     (hash_type_hash sha256 identity ht topic_string, string_bytes message)"

end
