(* ===== verification/Swarm_Events.thy ===== *)
theory Swarm_Events
  imports Select Gossip
begin

text \<open>
  Events of the swarm (\<open>owlnest/src/net/p2p/swarm/out_event.rs\<close>) and the requests of the adapters
  for kad, mDNS and autonat with their \<open>map_in_event\<close> functions, together with
  \<open>swarm/event_handlers.rs\<close>: what the swarm task does with an event and with a request.

  The libp2p swarm is foreign: \<open>swarm_api\<close> is the record of the methods the code calls on it and
  on its behaviours, over an arbitrary state. Errors of libp2p are opaque; where the code formats
  one, the text has a foreign piece.
\<close>

section \<open>Events\<close>

datatype connected_point = Dialer multiaddr | Listener multiaddr multiaddr

datatype transport_error = MultiaddrNotSupported multiaddr | TransportOther io_error

datatype dial_failure = DialTransport "(multiaddr \<times> transport_error) list" | DialOther string

datatype kad_mode = KadClient | KadServer

text \<open>\<open>kad::Event\<close>: the three variants the handle of the adapter listens to; results of queries are opaque.\<close>

datatype kad_event =
    RoutingUpdated peer_id "multiaddr list"
  | OutboundQueryProgressed nat string bool
  | ModeChanged kad_mode
  | OtherKadEvent string

datatype mdns_event = Discovered "(peer_id \<times> multiaddr) list" | Expired "(peer_id \<times> multiaddr) list"

text \<open>\<open>BehaviourEvent\<close>, the enum the select macro generates; the events of the other libp2p behaviours are opaque.\<close>

datatype behaviour_event =
    EvMessaging msg_out_event
  | EvAdvertise adv_out_event
  | EvBlob blob_out_event
  | EvMdns mdns_event
  | EvKad kad_event
  | EvIdentify string
  | EvRelayServer string
  | EvRelayClient string
  | EvDcutr string
  | EvAutoNat string
  | EvUpnp string
  | EvPing string
  | EvGossipsub string

text \<open>\<open>libp2p::swarm::SwarmEvent\<close>.\<close>

datatype libp2p_event =
    LBehaviour behaviour_event
  | LConnectionEstablished peer_id nat connected_point nat string duration
  | LConnectionClosed peer_id nat connected_point nat string
  | LIncomingConnection nat multiaddr multiaddr
  | LIncomingConnectionError nat multiaddr multiaddr string "peer_id option"
  | LOutgoingConnectionError nat "peer_id option" dial_failure
  | LNewListenAddr nat multiaddr
  | LExpiredListenAddr nat multiaddr
  | LListenerClosed nat "multiaddr list" string
  | LListenerError nat io_error
  | LDialing "peer_id option" nat
  | LNewExternalAddrCandidate multiaddr
  | LExternalAddrConfirmed multiaddr
  | LExternalAddrExpired multiaddr
  | LNewExternalAddrOfPeer peer_id multiaddr

text \<open>\<open>out_event::SwarmEvent\<close>: the swarm's own events, with errors rendered as text.\<close>

datatype swarm_event =
    ConnectionEstablished peer_id nat connected_point nat rust_text duration
  | SwConnectionClosed peer_id nat connected_point nat rust_text
  | IncomingConnection nat multiaddr multiaddr
  | IncomingConnectionError nat multiaddr multiaddr rust_text "peer_id option"
  | OutgoingConnectionError nat "peer_id option" rust_text
  | NewListenAddr nat multiaddr
  | ExpiredListenAddr nat multiaddr
  | ListenerClosed nat "multiaddr list" rust_text
  | ListenerError nat rust_text
  | Dialing "peer_id option" nat
  | SwNewExternalAddrCandidate multiaddr
  | SwExternalAddrConfirmed multiaddr
  | SwExternalAddrExpired multiaddr
  | SwNewExternalAddrOfPeer peer_id multiaddr

text \<open>\<open>{error:?}\<close> of a dial failure.\<close>

definition dial_failure_debug :: "dial_failure \<Rightarrow> rust_text" where
  "dial_failure_debug e =
     (case e of
        DialOther s \<Rightarrow> [ArgForeign s]
      | DialTransport errs \<Rightarrow> concat (map (\<lambda>(address, te). ArgForeign (multiaddr_str address) #
          (case te of
             MultiaddrNotSupported address' \<Rightarrow> [ArgForeign (multiaddr_str address')]
           | TransportOther e \<Rightarrow> io_debug e)) errs))"

text \<open>\<open>try_from_ref_swarm_event\<close>: an event of a behaviour is refused; an arm for the three events about own external addresses is missing.\<close>

fun try_from_ref_swarm_event :: "libp2p_event \<Rightarrow> (unit + swarm_event) outcome" where
  "try_from_ref_swarm_event (LBehaviour _) = Returns (Inl ())"
| "try_from_ref_swarm_event (LConnectionEstablished peer_id connection_id endpoint num_established concurrent_dial_errors established_in) =
     Returns (Inr (ConnectionEstablished peer_id connection_id endpoint num_established [ArgForeign concurrent_dial_errors] established_in))"
| "try_from_ref_swarm_event (LConnectionClosed peer_id connection_id endpoint num_established cause) =
     Returns (Inr (SwConnectionClosed peer_id connection_id endpoint num_established [ArgForeign cause]))"
| "try_from_ref_swarm_event (LIncomingConnection connection_id local_addr send_back_addr) =
     Returns (Inr (IncomingConnection connection_id local_addr send_back_addr))"
| "try_from_ref_swarm_event (LIncomingConnectionError connection_id local_addr send_back_addr error peer_id) =
     Returns (Inr (IncomingConnectionError connection_id local_addr send_back_addr [ArgForeign error] peer_id))"
| "try_from_ref_swarm_event (LOutgoingConnectionError connection_id peer_id error) =
     Returns (Inr (OutgoingConnectionError connection_id peer_id (dial_failure_debug error)))"
| "try_from_ref_swarm_event (LNewListenAddr listener_id address) = Returns (Inr (NewListenAddr listener_id address))"
| "try_from_ref_swarm_event (LExpiredListenAddr listener_id address) = Returns (Inr (ExpiredListenAddr listener_id address))"
| "try_from_ref_swarm_event (LListenerClosed listener_id addresses reason) =
     Returns (Inr (ListenerClosed listener_id addresses [ArgForeign reason]))"
| "try_from_ref_swarm_event (LListenerError listener_id error) = Returns (Inr (ListenerError listener_id (io_debug error)))"
| "try_from_ref_swarm_event (LDialing peer_id connection_id) = Returns (Inr (Dialing peer_id connection_id))"
| "try_from_ref_swarm_event (LNewExternalAddrOfPeer peer_id address) = Returns (Inr (SwNewExternalAddrOfPeer peer_id address))"
| "try_from_ref_swarm_event (LNewExternalAddrCandidate _) = Panics"
| "try_from_ref_swarm_event (LExternalAddrConfirmed _) = Panics"
| "try_from_ref_swarm_event (LExternalAddrExpired _) = Panics"

text \<open>\<open>TryFrom::try_from\<close>: the same by value, without the arm for addresses of peers.\<close>

fun swarm_event_try_from :: "libp2p_event \<Rightarrow> (unit + swarm_event) outcome" where
  "swarm_event_try_from (LBehaviour _) = Returns (Inl ())"
| "swarm_event_try_from (LConnectionEstablished peer_id connection_id endpoint num_established concurrent_dial_errors established_in) =
     Returns (Inr (ConnectionEstablished peer_id connection_id endpoint num_established [ArgForeign concurrent_dial_errors] established_in))"
| "swarm_event_try_from (LConnectionClosed peer_id connection_id endpoint num_established cause) =
     Returns (Inr (SwConnectionClosed peer_id connection_id endpoint num_established [ArgForeign cause]))"
| "swarm_event_try_from (LIncomingConnection connection_id local_addr send_back_addr) =
     Returns (Inr (IncomingConnection connection_id local_addr send_back_addr))"
| "swarm_event_try_from (LIncomingConnectionError connection_id local_addr send_back_addr error peer_id) =
     Returns (Inr (IncomingConnectionError connection_id local_addr send_back_addr [ArgForeign error] peer_id))"
| "swarm_event_try_from (LOutgoingConnectionError connection_id peer_id error) =
     Returns (Inr (OutgoingConnectionError connection_id peer_id (dial_failure_debug error)))"
| "swarm_event_try_from (LNewListenAddr listener_id address) = Returns (Inr (NewListenAddr listener_id address))"
| "swarm_event_try_from (LExpiredListenAddr listener_id address) = Returns (Inr (ExpiredListenAddr listener_id address))"
| "swarm_event_try_from (LListenerClosed listener_id addresses reason) =
     Returns (Inr (ListenerClosed listener_id addresses [ArgForeign reason]))"
| "swarm_event_try_from (LListenerError listener_id error) = Returns (Inr (ListenerError listener_id (io_debug error)))"
| "swarm_event_try_from (LDialing peer_id connection_id) = Returns (Inr (Dialing peer_id connection_id))"
| "swarm_event_try_from (LNewExternalAddrCandidate _) = Panics"
| "swarm_event_try_from (LExternalAddrConfirmed _) = Panics"
| "swarm_event_try_from (LExternalAddrExpired _) = Panics"
| "swarm_event_try_from (LNewExternalAddrOfPeer _ _) = Panics"

section \<open>The libp2p swarm\<close>

datatype routing_update = RoutingSuccess | RoutingPending | RoutingFailed

datatype nat_status = NatPublic multiaddr | NatPrivate | NatUnknown

record 'n swarm_api =
  sa_dial :: "multiaddr \<Rightarrow> 'n \<Rightarrow> (dial_failure + unit) \<times> 'n"
  sa_listen_on :: "multiaddr \<Rightarrow> 'n \<Rightarrow> (transport_error + nat) \<times> 'n"
  sa_listeners :: "'n \<Rightarrow> multiaddr list"
  sa_remove_listener :: "nat \<Rightarrow> 'n \<Rightarrow> bool \<times> 'n"
  sa_add_external_address :: "multiaddr \<Rightarrow> 'n \<Rightarrow> 'n"
  sa_remove_external_address :: "multiaddr \<Rightarrow> 'n \<Rightarrow> 'n"
  sa_disconnect_peer_id :: "peer_id \<Rightarrow> 'n \<Rightarrow> (unit + unit) \<times> 'n"
  sa_external_addresses :: "'n \<Rightarrow> multiaddr list"
  sa_connected_peers :: "'n \<Rightarrow> peer_id list"
  sa_is_connected :: "peer_id \<Rightarrow> 'n \<Rightarrow> bool"
  sa_kad_add_address :: "peer_id \<Rightarrow> multiaddr \<Rightarrow> 'n \<Rightarrow> routing_update \<times> 'n"
  sa_kad_remove_address :: "peer_id \<Rightarrow> multiaddr \<Rightarrow> 'n \<Rightarrow> 'n"
  sa_kad_get_record :: "peer_id \<Rightarrow> 'n \<Rightarrow> nat \<times> 'n"
  sa_kad_bootstrap :: "'n \<Rightarrow> (unit + nat) \<times> 'n"
  sa_kad_set_mode :: "kad_mode option \<Rightarrow> 'n \<Rightarrow> 'n"
  sa_mdns_discovered_nodes :: "'n \<Rightarrow> peer_id list"
  sa_autonat_add_server :: "peer_id \<Rightarrow> multiaddr option \<Rightarrow> 'n \<Rightarrow> 'n"
  sa_autonat_remove_server :: "peer_id \<Rightarrow> 'n \<Rightarrow> 'n"
  sa_autonat_probe_address :: "multiaddr \<Rightarrow> 'n \<Rightarrow> 'n"
  sa_autonat_nat_status :: "'n \<Rightarrow> nat_status"
  sa_autonat_confidence :: "'n \<Rightarrow> nat"
  sa_gossip :: "'n gossip_api"

section \<open>Requests of the adapters\<close>

datatype swarm_in_event =
    SwDial multiaddr callback
  | SwListen multiaddr callback
  | ListListeners callback
  | RemoveListeners nat callback
  | AddExternalAddress multiaddr callback
  | RemoveExternalAddress multiaddr callback
  | ListExternalAddresses callback
  | ListConnected callback
  | IsConnectedToPeerId peer_id callback
  | DisconnectFromPeerId peer_id callback

datatype kad_in_event =
    PeerLookup peer_id callback
  | BootStrap callback
  | InsertNode peer_id multiaddr callback
  | SetMode "kad_mode option"

datatype mdns_in_event = ListDiscoveredNodes callback | HasNode peer_id callback

datatype autonat_in_event =
    AddServer peer_id "multiaddr option"
  | RemoveServer peer_id
  | Probe multiaddr
  | GetNatStatus callback

text \<open>What goes through the callbacks.\<close>

datatype node_reply =
    ReplyDial callback "dial_failure + unit"
  | ReplyListen callback "transport_error + nat"
  | ReplyAddresses callback "multiaddr list"
  | ReplyBool callback bool
  | ReplyUnit callback
  | ReplyPeers callback "peer_id list"
  | ReplyDisconnect callback "unit + unit"
  | ReplyQuery callback nat
  | ReplyBootstrap callback "unit + nat"
  | ReplyRouting callback routing_update
  | ReplyNatStatus callback "nat_status \<times> nat"
  | ReplyGossip gossip_reply
  | ReplyBlob blob_reply

fun swarm_op_exec :: "'n swarm_api \<Rightarrow> swarm_in_event \<Rightarrow> 'n \<Rightarrow> node_reply list \<times> 'n" where
  "swarm_op_exec api (SwDial address cb) n = (let (r, n') = sa_dial api address n in ([ReplyDial cb r], n'))"
| "swarm_op_exec api (SwListen address cb) n = (let (r, n') = sa_listen_on api address n in ([ReplyListen cb r], n'))"
| "swarm_op_exec api (ListListeners cb) n = ([ReplyAddresses cb (sa_listeners api n)], n)"
| "swarm_op_exec api (RemoveListeners listener_id cb) n =
     (let (r, n') = sa_remove_listener api listener_id n in ([ReplyBool cb r], n'))"
| "swarm_op_exec api (AddExternalAddress address cb) n = ([ReplyUnit cb], sa_add_external_address api address n)"
| "swarm_op_exec api (RemoveExternalAddress address cb) n = ([ReplyUnit cb], sa_remove_external_address api address n)"
| "swarm_op_exec api (DisconnectFromPeerId peer_id cb) n =
     (let (r, n') = sa_disconnect_peer_id api peer_id n in ([ReplyDisconnect cb r], n'))"
| "swarm_op_exec api (ListExternalAddresses cb) n = ([ReplyAddresses cb (sa_external_addresses api n)], n)"
| "swarm_op_exec api (ListConnected cb) n = ([ReplyPeers cb (sa_connected_peers api n)], n)"
| "swarm_op_exec api (IsConnectedToPeerId peer_id cb) n = ([ReplyBool cb (sa_is_connected api peer_id n)], n)"

fun kad_map_in_event :: "'n swarm_api \<Rightarrow> kad_in_event \<Rightarrow> 'n \<Rightarrow> node_reply list \<times> 'n" where
  "kad_map_in_event api (PeerLookup peer_id cb) n = (let (q, n') = sa_kad_get_record api peer_id n in ([ReplyQuery cb q], n'))"
| "kad_map_in_event api (BootStrap cb) n = (let (r, n') = sa_kad_bootstrap api n in ([ReplyBootstrap cb r], n'))"
| "kad_map_in_event api (SetMode mode) n = ([], sa_kad_set_mode api mode n)"
| "kad_map_in_event api (InsertNode peer_id address cb) n =
     (let (r, n') = sa_kad_add_address api peer_id address n in ([ReplyRouting cb r], n'))"

fun mdns_map_in_event :: "'n swarm_api \<Rightarrow> mdns_in_event \<Rightarrow> 'n \<Rightarrow> node_reply list \<times> 'n" where
  "mdns_map_in_event api (ListDiscoveredNodes cb) n = ([ReplyPeers cb (sa_mdns_discovered_nodes api n)], n)"
| "mdns_map_in_event api (HasNode peer cb) n =
     ([ReplyBool cb (list_ex (\<lambda>discovered. discovered = peer) (sa_mdns_discovered_nodes api n))], n)"

fun autonat_map_in_event :: "'n swarm_api \<Rightarrow> autonat_in_event \<Rightarrow> 'n \<Rightarrow> node_reply list \<times> 'n" where
  "autonat_map_in_event api (AddServer peer_id address) n = ([], sa_autonat_add_server api peer_id address n)"
| "autonat_map_in_event api (RemoveServer peer_id) n = ([], sa_autonat_remove_server api peer_id n)"
| "autonat_map_in_event api (GetNatStatus cb) n =
     ([ReplyNatStatus cb (sa_autonat_nat_status api n, sa_autonat_confidence api n)], n)"
| "autonat_map_in_event api (Probe candidate) n = ([], sa_autonat_probe_address api candidate n)"

section \<open>Event handlers\<close>

text \<open>\<open>Rx\<close>: a request together with the behaviour it is for.\<close>

datatype rx =
    RxMessaging msg_in_event
  | RxAdvertise adv_in_event
  | RxBlob blob_in_event
  | RxKad kad_in_event
  | RxAutoNat autonat_in_event
  | RxMdns mdns_in_event
  | RxGossipsub gossip_in_event
  | RxSwarm swarm_in_event

text \<open>
  \<open>handle_incoming_event\<close>. The state is that of the composed behaviour, whose last field is the
  state of the libp2p swarm.
\<close>

fun handle_incoming_event ::
  "'n swarm_api \<Rightarrow> blob_env \<Rightarrow> rx \<Rightarrow> 'n owl_behaviour \<Rightarrow> (node_reply list \<times> 'n owl_behaviour) outcome" where
  "handle_incoming_event api env (RxSwarm ev) (m, a, b, n) =
     (let (rs, n') = swarm_op_exec api ev n in Returns (rs, m, a, b, n'))"
| "handle_incoming_event api env (RxAdvertise ev) (m, (a, log), b, n) = Returns ([], m, (adv_push_event ev a, log), b, n)"
| "handle_incoming_event api env (RxBlob ev) (m, a, b, n) =
     and_then (blob_push_event env ev b) (\<lambda>(b', rs). Returns (map ReplyBlob rs, m, a, b', n))"
| "handle_incoming_event api env (RxMessaging ev) ((m, log), a, b, n) = Returns ([], (msg_push_event ev m, log), a, b, n)"
| "handle_incoming_event api env (RxKad ev) (m, a, b, n) =
     (let (rs, n') = kad_map_in_event api ev n in Returns (rs, m, a, b, n'))"
| "handle_incoming_event api env (RxMdns ev) (m, a, b, n) =
     (let (rs, n') = mdns_map_in_event api ev n in Returns (rs, m, a, b, n'))"
| "handle_incoming_event api env (RxAutoNat ev) (m, a, b, n) =
     (let (rs, n') = autonat_map_in_event api ev n in Returns (rs, m, a, b, n'))"
| "handle_incoming_event api env (RxGossipsub ev) (m, a, b, n) =
     (let (rs, n') = gossip_map_in_event (sa_gossip api) n ev in Returns (map ReplyGossip rs, m, a, b, n'))"

text \<open>The hooks that keep the routing table of kad up to date.\<close>

fun kad_add :: "'n swarm_api \<Rightarrow> peer_id \<Rightarrow> connected_point \<Rightarrow> 'n \<Rightarrow> 'n" where
  "kad_add api peer_id (Dialer address) n = snd (sa_kad_add_address api peer_id address n)"
| "kad_add api peer_id (Listener local_addr send_back_addr) n = snd (sa_kad_add_address api peer_id send_back_addr n)"

fun kad_remove :: "'n swarm_api \<Rightarrow> peer_id \<Rightarrow> connected_point \<Rightarrow> 'n \<Rightarrow> 'n" where
  "kad_remove api peer_id (Dialer address) n = sa_kad_remove_address api peer_id address n"
| "kad_remove api peer_id (Listener local_addr send_back_addr) n = sa_kad_remove_address api peer_id send_back_addr n"

fun mdns_ev_dispatch :: "'n swarm_api \<Rightarrow> mdns_event \<Rightarrow> 'n \<Rightarrow> 'n" where
  "mdns_ev_dispatch api (Discovered list) n = fold (\<lambda>(peer, addr) n. snd (sa_kad_add_address api peer addr n)) list n"
| "mdns_ev_dispatch api (Expired list) n = fold (\<lambda>(peer, addr) n. sa_kad_remove_address api peer addr n) list n"

text \<open>\<open>handle_behaviour_event\<close>: except for mDNS the dispatchers only write to the log.\<close>

fun handle_behaviour_event :: "'n swarm_api \<Rightarrow> behaviour_event \<Rightarrow> 'n \<Rightarrow> 'n" where
  "handle_behaviour_event api (EvMdns ev) n = mdns_ev_dispatch api ev n"
| "handle_behaviour_event api ev n = n"

text \<open>\<open>handle_swarm_event\<close>: events of connections and behaviours act on the swarm, the others are logged.\<close>

fun handle_swarm_event :: "'n swarm_api \<Rightarrow> libp2p_event \<Rightarrow> 'n \<Rightarrow> 'n" where
  "handle_swarm_event api (LBehaviour event) n = handle_behaviour_event api event n"
| "handle_swarm_event api (LConnectionEstablished peer_id _ endpoint _ _ _) n = kad_add api peer_id endpoint n"
| "handle_swarm_event api (LConnectionClosed peer_id _ endpoint _ _) n = kad_remove api peer_id endpoint n"
| "handle_swarm_event api ev n = n"

end
