(* ===== verification/Swarm.thy ===== *)
theory Swarm
  imports Swarm_Events
begin

text \<open>
  The swarm task: the bundle of request channels that \<open>generate_manager\<close> of \<open>owlnest-proc\<close>
  generates, and the event loop of \<open>Builder::build\<close> in \<open>owlnest/src/net/p2p/swarm/mod.rs\<close> with its
  back-pressure on the broadcast channel. The loop is a labelled step relation; libp2p's swarm and
  tokio's broadcast channel are parameters.
\<close>

section \<open>Configuration\<close>

record swarm_config =
  sc_identity_path :: string
  sc_swarm_event_buffer_size :: nat
  sc_swarm_event_timeout :: u64

definition swarm_config_default :: swarm_config where
  "swarm_config_default = \<lparr>sc_identity_path = '''', sc_swarm_event_buffer_size = 16, sc_swarm_event_timeout = 200\<rparr>"

definition swarm_event_buffer_upper_bound :: "swarm_config \<Rightarrow> nat" where
  "swarm_event_buffer_upper_bound c = push_bit 2 (drop_bit 2 (sc_swarm_event_buffer_size c))"

definition swarm_event_buffer_high_mark :: "swarm_config \<Rightarrow> nat" where
  "swarm_event_buffer_high_mark c = sc_swarm_event_buffer_size c div 2"

section \<open>The bundle of request channels\<close>

text \<open>The receiving end of an \<open>mpsc\<close> channel: what is queued, and whether every sender is gone.\<close>

record 'e receiver =
  rv_queue :: "'e list"
  rv_closed :: bool

fun poll_recv :: "'e receiver \<Rightarrow> 'e option poll \<times> 'e receiver" where
  "poll_recv r =
     (case pop_front (rv_queue r) of
        Some (x, q) \<Rightarrow> (Ready (Some x), r\<lparr>rv_queue := q\<rparr>)
      | None \<Rightarrow> (if rv_closed r then Ready None else Pending, r))"

record rx_bundle =
  rb_swarm :: "swarm_in_event receiver"
  rb_messaging :: "msg_in_event receiver"
  rb_advertise :: "adv_in_event receiver"
  rb_blob :: "blob_in_event receiver"
  rb_kad :: "kad_in_event receiver"
  rb_autonat :: "autonat_in_event receiver"
  rb_mdns :: "mdns_in_event receiver"
  rb_gossipsub :: "gossip_in_event receiver"

text \<open>One arm of \<open>poll_next\<close>: a request is returned, an ended channel is \<open>unreachable!\<close>, otherwise the next channel is asked.\<close>

definition rx_arm ::
  "('e \<Rightarrow> rx) \<Rightarrow> 'e receiver \<Rightarrow> ('e receiver \<Rightarrow> rx_bundle) \<Rightarrow> (rx poll \<times> rx_bundle) outcome \<Rightarrow> (rx poll \<times> rx_bundle) outcome" where
  "rx_arm variant r upd next =
     (case poll_recv r of
        (Ready (Some message), r') \<Rightarrow> Returns (Ready (variant message), upd r')
      | (Ready None, r') \<Rightarrow> Panics
      | (Pending, r') \<Rightarrow> next)"

definition rx_poll_next :: "rx_bundle \<Rightarrow> (rx poll \<times> rx_bundle) outcome" where
  "rx_poll_next b =
     rx_arm RxSwarm (rb_swarm b) (\<lambda>r. b\<lparr>rb_swarm := r\<rparr>)
     (rx_arm RxMessaging (rb_messaging b) (\<lambda>r. b\<lparr>rb_messaging := r\<rparr>)
     (rx_arm RxAdvertise (rb_advertise b) (\<lambda>r. b\<lparr>rb_advertise := r\<rparr>)
     (rx_arm RxBlob (rb_blob b) (\<lambda>r. b\<lparr>rb_blob := r\<rparr>)
     (rx_arm RxKad (rb_kad b) (\<lambda>r. b\<lparr>rb_kad := r\<rparr>)
     (rx_arm RxAutoNat (rb_autonat b) (\<lambda>r. b\<lparr>rb_autonat := r\<rparr>)
     (rx_arm RxMdns (rb_mdns b) (\<lambda>r. b\<lparr>rb_mdns := r\<rparr>)
     (rx_arm RxGossipsub (rb_gossipsub b) (\<lambda>r. b\<lparr>rb_gossipsub := r\<rparr>)
     (Returns (Pending, b)))))))))"

definition receiver_new :: "'e receiver" where
  "receiver_new = \<lparr>rv_queue = [], rv_closed = False\<rparr>"

text \<open>\<open>HandleBundle::new\<close>: one empty channel per handle.\<close>

definition rx_bundle_new :: rx_bundle where
  "rx_bundle_new = \<lparr>rb_swarm = receiver_new, rb_messaging = receiver_new, rb_advertise = receiver_new, rb_blob = receiver_new,
     rb_kad = receiver_new, rb_autonat = receiver_new, rb_mdns = receiver_new, rb_gossipsub = receiver_new\<rparr>"

section \<open>The event loop\<close>

text \<open>
  The broadcast channel of swarm events: how many values are queued, sending, what its receivers
  may do, and how many values were overwritten before all receivers had seen them. A receiver that
  misses a value gets an error, and the listeners of the handles end on the first error.
\<close>

record 'c broadcast =
  bc_len :: "'c \<Rightarrow> nat"
  bc_send :: "libp2p_event \<Rightarrow> 'c \<Rightarrow> 'c"
  bc_receivers :: "'c \<Rightarrow> 'c \<Rightarrow> bool"
  bc_overwritten :: "'c \<Rightarrow> nat"

text \<open>
  Documented behaviour of a broadcast channel created for \<open>cap\<close> values: sending queues one value,
  nothing is overwritten while fewer than \<open>cap\<close> are queued, and receivers only free values.
\<close>

definition broadcast_ok :: "'c broadcast \<Rightarrow> nat \<Rightarrow> bool" where
  "broadcast_ok bc cap \<longleftrightarrow>
     (\<forall>ev c. bc_len bc (bc_send bc ev c) \<le> Suc (bc_len bc c))
   \<and> (\<forall>ev c. bc_len bc c < cap \<longrightarrow> bc_overwritten bc (bc_send bc ev c) = bc_overwritten bc c)
   \<and> (\<forall>c c'. bc_receivers bc c c' \<longrightarrow> bc_len bc c' \<le> bc_len bc c \<and> bc_overwritten bc c' = bc_overwritten bc c)"

record ('n, 'c) swarm_task =
  st_swarm :: "'n owl_behaviour"
  st_rx :: rx_bundle
  st_event_out :: 'c

definition on_rest :: "('n \<Rightarrow> 'n) \<Rightarrow> 'n owl_behaviour \<Rightarrow> 'n owl_behaviour" where
  "on_rest f = (\<lambda>(m, a, b, n). (m, a, b, f n))"

datatype loop_label = LoopRequest rx | LoopSwarm libp2p_event | LoopPolled | LoopTimer | LoopReceivers | LoopClients

text \<open>
  The arms of \<open>select!\<close>, and the receivers of the broadcast channel, which run beside the task.
  \<open>next_event\<close> relates the state of the swarm before a poll to the event it produces, if any, and the
  state afterwards: a poll that is pending may change the behaviours too before another arm wins. The
  swarm is polled only while the buffer is below its bound. Clients may queue further requests at any
  time.
\<close>

inductive swarm_loop ::
  "swarm_config \<Rightarrow> 'n swarm_api \<Rightarrow> 'c broadcast \<Rightarrow> ('n owl_behaviour \<Rightarrow> libp2p_event option \<Rightarrow> 'n owl_behaviour \<Rightarrow> bool)
    \<Rightarrow> loop_label \<Rightarrow> ('n, 'c) swarm_task \<Rightarrow> ('n, 'c) swarm_task \<Rightarrow> bool"
  for cfg api bc next_event where
  request: "rx_poll_next (st_rx t) = Returns (Ready ev, rx') \<Longrightarrow>
     handle_incoming_event api env ev (st_swarm t) = Returns (replies, s') \<Longrightarrow>
     swarm_loop cfg api bc next_event (LoopRequest ev) t (t\<lparr>st_rx := rx', st_swarm := s'\<rparr>)"
| event: "bc_len bc (st_event_out t) < swarm_event_buffer_upper_bound cfg \<Longrightarrow> next_event (st_swarm t) (Some ev) s' \<Longrightarrow>
     swarm_loop cfg api bc next_event (LoopSwarm ev) t
       (t\<lparr>st_swarm := on_rest (handle_swarm_event api ev) s', st_event_out := bc_send bc ev (st_event_out t)\<rparr>)"
| polled: "bc_len bc (st_event_out t) < swarm_event_buffer_upper_bound cfg \<Longrightarrow> next_event (st_swarm t) None s' \<Longrightarrow>
     swarm_loop cfg api bc next_event LoopPolled t (t\<lparr>st_swarm := s'\<rparr>)"
| timer: "swarm_loop cfg api bc next_event LoopTimer t t"
| receivers: "bc_receivers bc (st_event_out t) c' \<Longrightarrow>
     swarm_loop cfg api bc next_event LoopReceivers t (t\<lparr>st_event_out := c'\<rparr>)"
| clients: "swarm_loop cfg api bc next_event LoopClients t (t\<lparr>st_rx := rx'\<rparr>)"

inductive_cases swarm_loop_SwarmE: "swarm_loop cfg api bc next_event (LoopSwarm ev) t t'"

definition swarm_loop_any where
  "swarm_loop_any cfg api bc next_event t t' \<longleftrightarrow> (\<exists>l. swarm_loop cfg api bc next_event l t t')"

section \<open>Back-pressure\<close>

lemma upper_bound_eq: "swarm_event_buffer_upper_bound c = 4 * (sc_swarm_event_buffer_size c div 4)"
  by (simp add: swarm_event_buffer_upper_bound_def push_bit_eq_mult drop_bit_eq_div)

lemma upper_bound_le: "swarm_event_buffer_upper_bound c \<le> sc_swarm_event_buffer_size c"
  by (simp add: upper_bound_eq)

definition buffer_inv :: "swarm_config \<Rightarrow> 'c broadcast \<Rightarrow> ('n, 'c) swarm_task \<Rightarrow> bool" where
  "buffer_inv cfg bc t \<longleftrightarrow>
     bc_len bc (st_event_out t) \<le> swarm_event_buffer_upper_bound cfg \<and> bc_overwritten bc (st_event_out t) = 0"

lemma buffer_inv_step:
  assumes "broadcast_ok bc (sc_swarm_event_buffer_size cfg)" and "buffer_inv cfg bc t"
    and "swarm_loop cfg api bc next_event l t t'"
  shows "buffer_inv cfg bc t'"
  using assms(3)
proof cases
  case (event ev s')
  then have len: "bc_len bc (st_event_out t) < sc_swarm_event_buffer_size cfg"
    using upper_bound_le [of cfg] by simp
  have "bc_len bc (bc_send bc ev (st_event_out t)) \<le> Suc (bc_len bc (st_event_out t))"
    "bc_overwritten bc (bc_send bc ev (st_event_out t)) = bc_overwritten bc (st_event_out t)"
    using assms(1) len by (simp_all add: broadcast_ok_def)
  with event assms(2) show ?thesis
    by (simp add: buffer_inv_def)
next
  case (receivers c')
  then show ?thesis
    using assms(1,2) unfolding broadcast_ok_def buffer_inv_def by fastforce
qed (use assms(2) in \<open>simp_all add: buffer_inv_def\<close>)

text \<open>A channel that counts: how many values are queued and how many were overwritten.\<close>

definition demo_broadcast :: "nat \<Rightarrow> (nat \<times> nat) broadcast" where
  "demo_broadcast cap = \<lparr>bc_len = fst, bc_send = (\<lambda>_ (q, l). if q < cap then (Suc q, l) else (q, Suc l)),
     bc_receivers = (\<lambda>(q, l) (q', l'). q' \<le> q \<and> l' = l), bc_overwritten = snd\<rparr>"

lemma demo_broadcast_ok: "broadcast_ok (demo_broadcast cap) cap"
  by (auto simp: broadcast_ok_def demo_broadcast_def)

section \<open>Properties\<close>

text \<open>
  No listener of swarm events ever lags. Whatever requests, events and receivers the swarm task
  meets, in whatever order, the broadcast channel never holds more events than the configured
  buffer, so no event is overwritten before every listener has seen it, and no listener ends on a
  \<open>Lagged\<close> error.
\<close>

theorem swarm_listeners_never_lag:
  assumes "broadcast_ok bc (sc_swarm_event_buffer_size cfg)"
    and "bc_len bc (st_event_out t0) = 0" and "bc_overwritten bc (st_event_out t0) = 0"
    and "(swarm_loop_any cfg api bc next_event)\<^sup>*\<^sup>* t0 t"
  shows "bc_len bc (st_event_out t) \<le> sc_swarm_event_buffer_size cfg \<and> bc_overwritten bc (st_event_out t) = 0"
proof -
  have "invariant_system t0 (swarm_loop_any cfg api bc next_event) (buffer_inv cfg bc)"
  proof
    show "buffer_inv cfg bc t0" using assms(2,3) by (simp add: buffer_inv_def)
  qed (auto simp: swarm_loop_any_def intro: buffer_inv_step [OF assms(1)])
  from invariant_system.reachable_inv [OF this assms(4)] show ?thesis
    using upper_bound_le [of cfg] by (simp add: buffer_inv_def)
qed

text \<open>
  When the swarm makes progress: an event of the swarm is processed exactly when it is available
  and fewer events are queued than the buffer size rounded down to a multiple of four. With a
  buffer of fewer than four events the swarm is therefore never polled at all.
\<close>

theorem swarm_event_enabled_iff:
  "((\<exists>t'. swarm_loop cfg api bc next_event (LoopSwarm ev) t t') \<longleftrightarrow>
      (\<exists>s'. next_event (st_swarm t) (Some ev) s')
      \<and> bc_len bc (st_event_out t) < 4 * (sc_swarm_event_buffer_size cfg div 4))
   \<and> (sc_swarm_event_buffer_size cfg < 4 \<longrightarrow> \<not> swarm_loop cfg api bc next_event (LoopSwarm ev) t t')"
proof
  show "(\<exists>t'. swarm_loop cfg api bc next_event (LoopSwarm ev) t t') \<longleftrightarrow>
      (\<exists>s'. next_event (st_swarm t) (Some ev) s') \<and> bc_len bc (st_event_out t) < 4 * (sc_swarm_event_buffer_size cfg div 4)"
    unfolding upper_bound_eq [symmetric] by (blast elim: swarm_loop_SwarmE intro: swarm_loop.event)
  show "sc_swarm_event_buffer_size cfg < 4 \<longrightarrow> \<not> swarm_loop cfg api bc next_event (LoopSwarm ev) t t'"
    by (auto simp: upper_bound_eq elim!: swarm_loop_SwarmE)
qed

definition demo_task :: "nat owl_behaviour \<Rightarrow> (nat, nat \<times> nat) swarm_task" where
  "demo_task s = \<lparr>st_swarm = s, st_rx = rx_bundle_new, st_event_out = (0, 0)\<rparr>"

theorem swarm_event_enabled_iff_witness:
  "\<forall>(api :: nat swarm_api) s t'.
     \<not> swarm_loop (swarm_config_default\<lparr>sc_swarm_event_buffer_size := 3\<rparr>) api (demo_broadcast 3) (\<lambda>_ _ _. True)
         (LoopSwarm (LDialing None 0)) (demo_task s) t'"
  using swarm_event_enabled_iff [of "swarm_config_default\<lparr>sc_swarm_event_buffer_size := 3\<rparr>" _ "demo_broadcast 3"
      "\<lambda>(_ :: nat owl_behaviour) _ _. True" "LDialing None 0"]
  by simp

theorem swarm_listeners_never_lag_witness:
  "\<forall>(api :: nat swarm_api) s. \<exists>t'. swarm_loop swarm_config_default api (demo_broadcast 16) (\<lambda>_ _ _. True) (LoopSwarm (LDialing None 0)) (demo_task s) t'
     \<and> bc_len (demo_broadcast 16) (st_event_out t') \<le> 16 \<and> bc_overwritten (demo_broadcast 16) (st_event_out t') = 0"
proof (intro allI)
  fix api :: "nat swarm_api" and s
  obtain t' where step: "swarm_loop swarm_config_default api (demo_broadcast 16) (\<lambda>_ _ _. True) (LoopSwarm (LDialing None 0)) (demo_task s) t'"
  proof -
    have "bc_len (demo_broadcast 16) (st_event_out (demo_task s)) < swarm_event_buffer_upper_bound swarm_config_default"
      by (simp add: demo_broadcast_def demo_task_def upper_bound_eq swarm_config_default_def)
    from that [OF swarm_loop.event [OF this TrueI]] show thesis .
  qed
  then have "(swarm_loop_any swarm_config_default api (demo_broadcast 16) (\<lambda>_ _ _. True))\<^sup>*\<^sup>* (demo_task s) t'"
    by (auto simp: swarm_loop_any_def intro!: r_into_rtranclp)
  from swarm_listeners_never_lag [OF _ _ _ this] step demo_broadcast_ok [of 16]
  show "\<exists>t'. swarm_loop swarm_config_default api (demo_broadcast 16) (\<lambda>_ _ _. True) (LoopSwarm (LDialing None 0)) (demo_task s) t'
     \<and> bc_len (demo_broadcast 16) (st_event_out t') \<le> 16 \<and> bc_overwritten (demo_broadcast 16) (st_event_out t') = 0"
    by (intro exI [of _ t']) (simp add: swarm_config_default_def demo_broadcast_def demo_task_def)
qed

section \<open>Requests\<close>

text \<open>All requests waiting in a bundle, in the order in which the channels are asked.\<close>

definition rx_queue :: "rx_bundle \<Rightarrow> rx list" where
  "rx_queue b = map RxSwarm (rv_queue (rb_swarm b)) @ map RxMessaging (rv_queue (rb_messaging b))
     @ map RxAdvertise (rv_queue (rb_advertise b)) @ map RxBlob (rv_queue (rb_blob b)) @ map RxKad (rv_queue (rb_kad b))
     @ map RxAutoNat (rv_queue (rb_autonat b)) @ map RxMdns (rv_queue (rb_mdns b)) @ map RxGossipsub (rv_queue (rb_gossipsub b))"

definition rx_open :: "rx_bundle \<Rightarrow> bool" where
  "rx_open b \<longleftrightarrow> \<not> rv_closed (rb_swarm b) \<and> \<not> rv_closed (rb_messaging b) \<and> \<not> rv_closed (rb_advertise b) \<and> \<not> rv_closed (rb_blob b)
     \<and> \<not> rv_closed (rb_kad b) \<and> \<not> rv_closed (rb_autonat b) \<and> \<not> rv_closed (rb_mdns b) \<and> \<not> rv_closed (rb_gossipsub b)"

lemma rx_arm_Nil [simp]: "rv_queue r = [] \<Longrightarrow> \<not> rv_closed r \<Longrightarrow> rx_arm v r upd next = next"
  by (simp add: rx_arm_def)

lemma rx_arm_Cons [simp]: "rv_queue r = x # q \<Longrightarrow> rx_arm v r upd next = Returns (Ready (v x), upd (r\<lparr>rv_queue := q\<rparr>))"
  by (simp add: rx_arm_def)

lemma rx_poll_next_empty:
  "rx_open b \<Longrightarrow> rx_queue b = [] \<Longrightarrow> rx_poll_next b = Returns (Pending, b)"
  by (simp add: rx_open_def rx_queue_def rx_poll_next_def)

lemma rx_poll_next_head:
  assumes "rx_open b" and "rx_queue b = ev # evs"
  shows "\<exists>b'. rx_poll_next b = Returns (Ready ev, b') \<and> rx_queue b' = evs \<and> rx_open b'"
proof -
  note defs = rx_open_def rx_queue_def rx_poll_next_def
  show ?thesis
  proof (cases "rv_queue (rb_swarm b)")
    case s: Nil
    show ?thesis
    proof (cases "rv_queue (rb_messaging b)")
      case m: Nil
      show ?thesis
      proof (cases "rv_queue (rb_advertise b)")
        case a: Nil
        show ?thesis
        proof (cases "rv_queue (rb_blob b)")
          case b: Nil
          note empty = s m a b
          show ?thesis
            using assms empty
            by (cases "rv_queue (rb_kad b)"; cases "rv_queue (rb_autonat b)";
                cases "rv_queue (rb_mdns b)"; cases "rv_queue (rb_gossipsub b)") (auto simp: defs)
        qed (use assms s m a in \<open>auto simp: defs\<close>)
      qed (use assms s m in \<open>auto simp: defs\<close>)
    qed (use assms s in \<open>auto simp: defs\<close>)
  qed (use assms in \<open>auto simp: defs\<close>)
qed

text \<open>
  Requests are taken in order of priority and none is lost: as long as every channel has a
  sender, the bundle yields the oldest request of the first channel that has one (the swarm's own,
  then messaging, advertise, blob, kad, autonat, mDNS, gossipsub), removes exactly it, and is
  pending exactly when all channels are empty.
\<close>

theorem rx_bundle_next:
  assumes "rx_open b"
  shows "\<exists>r b'. rx_poll_next b = Returns (r, b') \<and> rx_open b'
    \<and> (case rx_queue b of [] \<Rightarrow> r = Pending \<and> b' = b | ev # evs \<Rightarrow> r = Ready ev \<and> rx_queue b' = evs)"
  using rx_poll_next_empty [OF assms] rx_poll_next_head [OF assms] assms
  by (cases "rx_queue b") auto

theorem rx_bundle_next_witness:
  "\<exists>b'. rx_poll_next (rx_bundle_new\<lparr>rb_blob := \<lparr>rv_queue = [In_ListConnected 1], rv_closed = False\<rparr>,
        rb_mdns := \<lparr>rv_queue = [ListDiscoveredNodes 2], rv_closed = False\<rparr>\<rparr>) = Returns (Ready (RxBlob (In_ListConnected 1)), b')
     \<and> rx_queue b' = [RxMdns (ListDiscoveredNodes 2)]"
  using rx_bundle_next [of "rx_bundle_new\<lparr>rb_blob := \<lparr>rv_queue = [In_ListConnected 1], rv_closed = False\<rparr>,
        rb_mdns := \<lparr>rv_queue = [ListDiscoveredNodes 2], rv_closed = False\<rparr>\<rparr>"]
  by (auto simp: rx_open_def rx_queue_def rx_bundle_new_def receiver_new_def)

section \<open>Conversion of events\<close>

text \<open>
  The two conversions of swarm events into the crate's own event type. Both refuse events of
  behaviours and agree wherever both return; by reference the conversion panics exactly for the
  three events about the node's own external addresses, by value also for an address of a peer,
  although the target type has a variant for each of them.
\<close>

theorem swarm_event_conversions:
  "(try_from_ref_swarm_event ev = Panics \<longleftrightarrow>
      (\<exists>a. ev = LNewExternalAddrCandidate a \<or> ev = LExternalAddrConfirmed a \<or> ev = LExternalAddrExpired a))
   \<and> swarm_event_try_from ev =
      (if \<exists>p a. ev = LNewExternalAddrOfPeer p a then Panics else try_from_ref_swarm_event ev)
   \<and> (try_from_ref_swarm_event ev = Returns (Inl ()) \<longleftrightarrow> (\<exists>b. ev = LBehaviour b))"
  by (cases ev) auto

end
