(* ===== verification/Handles.thy ===== *)
theory Handles
  imports Swarm Blob_Claims
begin

text \<open>
  How the handles of the protocols wait for answers, and the handle of the blob protocol in
  \<open>owlnest/src/net/p2p/protocols/blob.rs\<close> with its command line. A method sends a request to the
  swarm task and waits on a callback or on the stream of swarm events. The file system and what
  happens on the other side of a connection are parameters.
\<close>

section \<open>Waiting\<close>

text \<open>What becomes of a oneshot callback: it is answered, dropped, or nothing happens in time.\<close>

datatype 'a callback_result = Answered 'a | Dropped | Unanswered

text \<open>\<open>handle_callback!\<close> waits without limit and panics when the callback is dropped.\<close>

fun handle_callback :: "'a callback_result \<Rightarrow> 'a outcome" where
  "handle_callback (Answered a) = Returns a"
| "handle_callback Dropped = Panics"
| "handle_callback Unanswered = Hangs"

text \<open>\<open>future_timeout!\<close>; the inner \<open>None\<close> is the error of a dropped callback.\<close>

fun future_timeout :: "'a callback_result \<Rightarrow> operation_error + 'a option" where
  "future_timeout (Answered a) = Inr (Some a)"
| "future_timeout Dropped = Inr None"
| "future_timeout Unanswered = Inl OperationTimeout"

text \<open>
  \<open>listen_event!\<close>: the arms are tried on every event until one returns; what they keep between
  events is their state. A listener that is cut off (the stream of events ends) reaches
  \<open>unreachable!\<close>.
\<close>

datatype 'e event_stream = More 'e "'e event_stream" | Elapsed | CutOff

fun listen_event :: "('e \<Rightarrow> 's \<Rightarrow> 's + 'a) \<Rightarrow> 's \<Rightarrow> 'e event_stream \<Rightarrow> 'a callback_result outcome" where
  "listen_event arms s (More ev evs) =
     (case arms ev s of Inr a \<Rightarrow> Returns (Answered a) | Inl s' \<Rightarrow> listen_event arms s' evs)"
| "listen_event arms s Elapsed = Returns Unanswered"
| "listen_event arms s CutOff = Panics"

section \<open>Blob\<close>

text \<open>The calls to the file system.\<close>

record file_system =
  fs_is_dir :: "string \<Rightarrow> bool"
  fs_open_read :: "string \<Rightarrow> io_error_kind + fs_file"
  fs_create_new :: "string \<Rightarrow> io_error_kind + fs_file"

text \<open>
  The answer to a callback after the behaviour has handled the request: given at once, passed on to
  a connection handler with the queued command (\<open>later\<close> is what comes of it), or dropped.
\<close>

fun carries_callback :: "callback \<Rightarrow> blob_to_swarm \<Rightarrow> bool" where
  "carries_callback cb (NotifyHandler _ _ (FB_NewFileSend _ _ cb' _)) = (cb' = cb)"
| "carries_callback cb (NotifyHandler _ _ (FB_AcceptFile _ cb')) = (cb' = cb)"
| "carries_callback cb _ = False"

definition passed_on :: "callback \<Rightarrow> blob_behaviour \<Rightarrow> bool" where
  "passed_on cb b = list_ex (carries_callback cb) (bb_pending_handler_event b)"

fun send_answer :: "callback \<Rightarrow> blob_reply list \<Rightarrow> (file_send_error + u64) option" where
  "send_answer cb [] = None"
| "send_answer cb (ReplySend cb' r # rs) = (if cb' = cb then Some r else send_answer cb rs)"
| "send_answer cb (_ # rs) = send_answer cb rs"

fun recv_answer :: "callback \<Rightarrow> blob_reply list \<Rightarrow> (file_recv_error + duration) option" where
  "recv_answer cb [] = None"
| "recv_answer cb (ReplyRecv cb' r # rs) = (if cb' = cb then Some r else recv_answer cb rs)"
| "recv_answer cb (_ # rs) = recv_answer cb rs"

fun cancel_answer :: "callback \<Rightarrow> blob_reply list \<Rightarrow> (cancellation_error + unit) option" where
  "cancel_answer cb [] = None"
| "cancel_answer cb (ReplyCancel cb' r # rs) = (if cb' = cb then Some r else cancel_answer cb rs)"
| "cancel_answer cb (_ # rs) = cancel_answer cb rs"

definition callback_result :: "'a option \<Rightarrow> bool \<Rightarrow> 'a callback_result \<Rightarrow> 'a callback_result" where
  "callback_result answer passed later =
     (case answer of Some a \<Rightarrow> Answered a | None \<Rightarrow> if passed then later else Dropped)"

fun open_error :: "io_error_kind \<Rightarrow> file_send_error" where
  "open_error NotFound = FileNotFound"
| "open_error PermissionDenied = SendPermissionDenied"
| "open_error e = OtherFsError e"

text \<open>
  Every method sends its request to the swarm task (\<open>send_swarm!\<close>) before it waits for the callback.
  What becomes of the request: the task is gone and the send panics; the channel stays full and the
  send never completes; the task ends with the request in its queue, and the callback is dropped; the
  task does not come to the request as long as the caller waits; or it serves the request. The task
  works on beside the caller: \<open>sw_before\<close> is what it does to the behaviour before it serves the request
  and \<open>sw_meanwhile\<close> what it does from then until the caller stops waiting.
\<close>

datatype request_fate = SwarmGone | ChannelFull | LostInQueue | Unserved | Served

record swarm_side =
  sw_fate :: request_fate
  sw_before :: "blob_behaviour \<Rightarrow> blob_behaviour"
  sw_meanwhile :: "blob_behaviour \<Rightarrow> blob_behaviour"

definition blob_request ::
  "swarm_side \<Rightarrow> blob_env \<Rightarrow> blob_in_event \<Rightarrow> (blob_behaviour \<Rightarrow> blob_reply list \<Rightarrow> 'a callback_result) \<Rightarrow> blob_behaviour
    \<Rightarrow> ('a callback_result \<times> blob_behaviour) outcome" where
  "blob_request w env ev answer b =
     (case sw_fate w of
        SwarmGone \<Rightarrow> Panics
      | ChannelFull \<Rightarrow> Hangs
      | LostInQueue \<Rightarrow> Returns (Dropped, sw_before w b)
      | Unserved \<Rightarrow> Returns (Unanswered, sw_before w b)
      | Served \<Rightarrow>
          and_then (blob_push_event env ev (sw_before w b)) (\<lambda>(b', rs). Returns (answer b' rs, sw_meanwhile w b')))"

definition handle_send_file ::
  "file_system \<Rightarrow> blob_env \<Rightarrow> callback \<Rightarrow> swarm_side \<Rightarrow> (file_send_error + u64) callback_result \<Rightarrow> peer_id \<Rightarrow> string
    \<Rightarrow> blob_behaviour \<Rightarrow> ((file_send_error + u64) \<times> blob_behaviour) outcome" where
  "handle_send_file fs env tx w later to path b =
     (if fs_is_dir fs path then Returns (Inl IsDirectory, b)
      else (case fs_open_read fs path of
              Inl e \<Rightarrow> Returns (Inl (open_error e), b)
            | Inr f \<Rightarrow>
                and_then (blob_request w env (In_SendFile f path to tx)
                    (\<lambda>b' rs. callback_result (send_answer tx rs) (passed_on tx b') later) b) (\<lambda>(r, b').
                  case future_timeout r of
                    Inl e \<Rightarrow> Returns (Inl (SendOperation e), b')
                  | Inr None \<Rightarrow> Panics
                  | Inr (Some r) \<Rightarrow> Returns (r, b'))))"

definition handle_recv_file ::
  "file_system \<Rightarrow> blob_env \<Rightarrow> callback \<Rightarrow> swarm_side \<Rightarrow> (file_recv_error + duration) callback_result \<Rightarrow> u64 \<Rightarrow> string
    \<Rightarrow> blob_behaviour \<Rightarrow> ((file_recv_error + duration) \<times> blob_behaviour) outcome" where
  "handle_recv_file fs env tx w later recv_id path_to_write b =
     (case fs_create_new fs path_to_write of
        Inl e \<Rightarrow> Returns (Inl (FsError path_to_write e), b)
      | Inr f \<Rightarrow>
          and_then (blob_request w env (In_AcceptFile f recv_id path_to_write tx)
              (\<lambda>b' rs. callback_result (recv_answer tx rs) (passed_on tx b') later) b) (\<lambda>(r, b').
            and_then (handle_callback r) (\<lambda>r. Returns (r, b'))))"

definition handle_cancel_send ::
  "blob_env \<Rightarrow> callback \<Rightarrow> swarm_side \<Rightarrow> u64 \<Rightarrow> blob_behaviour \<Rightarrow> ((cancellation_error + unit) \<times> blob_behaviour) outcome" where
  "handle_cancel_send env tx w local_send_id b =
     and_then (blob_request w env (In_CancelSend local_send_id tx)
         (\<lambda>b' rs. callback_result (cancel_answer tx rs) False Unanswered) b) (\<lambda>(r, b').
       and_then (handle_callback r) (\<lambda>r. Returns (r, b')))"

definition handle_cancel_recv ::
  "blob_env \<Rightarrow> callback \<Rightarrow> swarm_side \<Rightarrow> u64 \<Rightarrow> blob_behaviour \<Rightarrow> ((cancellation_error + unit) \<times> blob_behaviour) outcome" where
  "handle_cancel_recv env tx w local_recv_id b =
     and_then (blob_request w env (In_CancelRecv local_recv_id tx)
         (\<lambda>b' rs. callback_result (cancel_answer tx rs) False Unanswered) b) (\<lambda>(r, b').
       and_then (handle_callback r) (\<lambda>r. Returns (r, b')))"

text \<open>
  The listing methods, which \<open>generate_handler_method!\<close> generates: each sends its request and waits
  for the callback.
\<close>

fun send_list_answer :: "callback \<Rightarrow> blob_reply \<Rightarrow> send_info list option" where
  "send_list_answer cb (ReplyListSend cb' list) = (if cb' = cb then Some list else None)"
| "send_list_answer cb _ = None"

fun recv_list_answer :: "callback \<Rightarrow> blob_reply \<Rightarrow> recv_info list option" where
  "recv_list_answer cb (ReplyListRecv cb' list) = (if cb' = cb then Some list else None)"
| "recv_list_answer cb _ = None"

fun connected_answer :: "callback \<Rightarrow> blob_reply \<Rightarrow> peer_id list option" where
  "connected_answer cb (ReplyConnected cb' list) = (if cb' = cb then Some list else None)"
| "connected_answer cb _ = None"

definition blob_ask ::
  "(blob_reply \<Rightarrow> 'a option) \<Rightarrow> swarm_side \<Rightarrow> blob_env \<Rightarrow> blob_in_event \<Rightarrow> blob_behaviour \<Rightarrow> ('a \<times> blob_behaviour) outcome" where
  "blob_ask answer w env ev b =
     and_then (blob_request w env ev (\<lambda>b' rs. case List.map_filter answer rs of a # _ \<Rightarrow> Answered a | [] \<Rightarrow> Dropped) b) (\<lambda>(r, b').
       and_then (handle_callback r) (\<lambda>r. Returns (r, b')))"

definition list_pending_recv :: "blob_env \<Rightarrow> callback \<Rightarrow> swarm_side \<Rightarrow> blob_behaviour \<Rightarrow> (recv_info list \<times> blob_behaviour) outcome" where
  "list_pending_recv env tx w b = blob_ask (recv_list_answer tx) w env (In_ListRecv tx) b"

definition list_pending_send :: "blob_env \<Rightarrow> callback \<Rightarrow> swarm_side \<Rightarrow> blob_behaviour \<Rightarrow> (send_info list \<times> blob_behaviour) outcome" where
  "list_pending_send env tx w b = blob_ask (send_list_answer tx) w env (In_ListSend tx) b"

definition blob_list_connected :: "blob_env \<Rightarrow> callback \<Rightarrow> swarm_side \<Rightarrow> blob_behaviour \<Rightarrow> (peer_id list \<times> blob_behaviour) outcome" where
  "blob_list_connected env tx w b = blob_ask (connected_answer tx) w env (In_ListConnected tx) b"

text \<open>The subcommands; those without an arm of their own end in \<open>todo!\<close>.\<close>

datatype blob_command =
    BlobSend peer_id string
  | BlobListSend
  | BlobListRecv
  | BlobRecv u64 string
  | BlobCancelSend u64
  | BlobCancelRecv u64

text \<open>What a subcommand prints: a table of sends, or the result of a call.\<close>

datatype blob_output =
    SendTable "send_info list" "send_info list"
  | SendResult "file_send_error + u64"
  | RecvResult u64 "file_recv_error + duration"

definition list_send_table :: "send_info list \<Rightarrow> blob_output" where
  "list_send_table list =
     (let print_pending = filter (\<lambda>v. \<not> si_started v) list;
          print_started = filter (\<lambda>v. \<not> si_started v) list
      in SendTable print_pending print_started)"

fun handle_blob ::
  "file_system \<Rightarrow> blob_env \<Rightarrow> callback \<Rightarrow> swarm_side \<Rightarrow> (file_send_error + u64) callback_result
    \<Rightarrow> (file_recv_error + duration) callback_result \<Rightarrow> blob_command \<Rightarrow> blob_behaviour \<Rightarrow> (blob_output \<times> blob_behaviour) outcome" where
  "handle_blob fs env tx w sent accepted BlobListSend b =
     and_then (list_pending_send env tx w b) (\<lambda>(list, b'). Returns (list_send_table list, b'))"
| "handle_blob fs env tx w sent accepted (BlobSend remote file_path) b =
     and_then (handle_send_file fs env tx w sent remote file_path b) (\<lambda>(r, b'). Returns (SendResult r, b'))"
| "handle_blob fs env tx w sent accepted (BlobRecv local_recv_id path_to_write) b =
     and_then (handle_recv_file fs env tx w accepted local_recv_id path_to_write b) (\<lambda>(r, b'). Returns (RecvResult local_recv_id r, b'))"
| "handle_blob fs env tx w sent accepted _ b = Panics"

text \<open>A swarm task that serves the request at once and does nothing else.\<close>

definition prompt_swarm :: swarm_side where
  "prompt_swarm = \<lparr>sw_fate = Served, sw_before = id, sw_meanwhile = id\<rparr>"

section \<open>What the blob handle promises\<close>

text \<open>A callback is created by the call, so no queued command carries it yet.\<close>

lemma passed_on_notify [simp]:
  "passed_on tx (blob_notify p ev b) = (carries_callback tx (NotifyHandler p Any ev) \<or> passed_on tx b)"
  by (auto simp: passed_on_def blob_notify_def push_back_def)

lemma passed_on_other [simp]:
  "passed_on tx (b\<lparr>bb_pending_send := m1\<rparr>) = passed_on tx b"
  "passed_on tx (b\<lparr>bb_pending_recv := m2\<rparr>) = passed_on tx b"
  "passed_on tx (b\<lparr>bb_ongoing_recv := m3\<rparr>) = passed_on tx b"
  "passed_on tx (b\<lparr>bb_send_counter := c\<rparr>) = passed_on tx b"
  by (simp_all add: passed_on_def)

lemma notify_recv_tables [simp]:
  "bb_pending_recv (blob_notify p ev b) = bb_pending_recv b"
  "bb_ongoing_recv (blob_notify p ev b) = bb_ongoing_recv b"
  by (simp_all add: blob_notify_def)

lemma callback_result_simps [simp]:
  "callback_result (Some a) passed later = Answered a"
  "callback_result None True later = later"
  "callback_result None False later = Dropped"
  by (simp_all add: callback_result_def)

lemma blob_request_fates:
  "sw_fate w = SwarmGone \<Longrightarrow> blob_request w env ev answer b = Panics"
  "sw_fate w = ChannelFull \<Longrightarrow> blob_request w env ev answer b = Hangs"
  "sw_fate w = LostInQueue \<Longrightarrow> blob_request w env ev answer b = Returns (Dropped, sw_before w b)"
  "sw_fate w = Unserved \<Longrightarrow> blob_request w env ev answer b = Returns (Unanswered, sw_before w b)"
  "sw_fate w = Served \<Longrightarrow> blob_request w env ev answer b =
     and_then (blob_push_event env ev (sw_before w b)) (\<lambda>(b', rs). Returns (answer b' rs, sw_meanwhile w b'))"
  by (simp_all add: blob_request_def)

lemma blob_request_prompt [simp]:
  "blob_request prompt_swarm env ev answer b = and_then (blob_push_event env ev b) (\<lambda>(b', rs). Returns (answer b' rs, b'))"
  by (simp add: blob_request_def prompt_swarm_def)

text \<open>
  The listing methods answer when they are served and change nothing. \<open>list_pending_send\<close> and
  \<open>list_pending_recv\<close> list the ongoing transfers before the pending ones.
\<close>

lemma list_pending_send_eq:
  "sw_fate w = Served \<Longrightarrow> list_pending_send env tx w b =
     Returns (map send_info_of_ongoing (hm_values (bb_ongoing_send (sw_before w b)))
       @ map send_info_of_pending (hm_values (bb_pending_send (sw_before w b))), sw_meanwhile w (sw_before w b))"
  by (simp add: list_pending_send_def blob_ask_def blob_request_fates)

lemma blob_list_connected_eq:
  "sw_fate w = Served \<Longrightarrow>
     blob_list_connected env tx w b = Returns (bb_connected_peers (sw_before w b), sw_meanwhile w (sw_before w b))"
  by (simp add: blob_list_connected_def blob_ask_def blob_request_fates)

lemma list_pending_recv_no_ongoing:
  assumes "bb_ongoing_recv (sw_before w b) = []" "sw_fate w = Served"
  shows "list_pending_recv env tx w b =
    Returns (map recv_info_of_pending (hm_values (bb_pending_recv (sw_before w b))), sw_meanwhile w (sw_before w b))"
proof -
  have "collect_outcomes (map (\<lambda>v. Returns (recv_info_of_pending v)) vs) = Returns (map recv_info_of_pending vs)" for vs
    by (induction vs) simp_all
  moreover have "hm_values (bb_ongoing_recv (sw_before w b)) = []"
    using assms by (simp add: hm_values_def)
  ultimately show ?thesis
    using assms(2) by (simp add: list_pending_recv_def blob_ask_def blob_request_fates map_filter_simps)
qed

section \<open>A send that waits for the remote\<close>

text \<open>
  The steps of the behaviour that leave the pending send \<open>p\<close> with id \<open>i\<close> alone: requests other than its
  cancellation, events of connections other than its acceptance or refusal, swarm events that do not
  end the connection to its remote, and polls at which it has not expired.
\<close>

inductive spares_send :: "u64 \<Rightarrow> pending_send \<Rightarrow> blob_behaviour \<Rightarrow> blob_behaviour \<Rightarrow> bool" for i p where
  request: "blob_no_wrap b \<Longrightarrow> blob_push_event env ev b = Returns (b', replies) \<Longrightarrow> \<forall>cb. ev \<noteq> In_CancelSend i cb \<Longrightarrow>
     spares_send i p b b'"
| connection: "blob_no_wrap b \<Longrightarrow> blob_on_handler_event env peer hev b = Returns b' \<Longrightarrow>
     hev \<notin> {TB_FileSendAccepted i, TB_RemoteCancelSend i} \<Longrightarrow> spares_send i p b b'"
| swarm: "\<forall>info. sev = ConnectionClosed info \<longrightarrow> cc_peer_id info \<noteq> ps_remote p \<or> 1 \<le> cc_remaining_established info \<Longrightarrow>
     spares_send i p b (blob_on_swarm_event sev b)"
| poll: "be_instant env < bb_expiry_deadline b \<or> bc_pending_send_timeout_sec (bb_config b) = 0
       \<or> be_now env - ps_timestamp p \<le> bc_pending_send_timeout_sec (bb_config b) \<Longrightarrow>
     spares_send i p b (snd (blob_poll env b))"
| rehash: "blob_rehash b b' \<Longrightarrow> spares_send i p b b'"

lemma spares_send_step: "spares_send i p b b' \<Longrightarrow> blob_step b b'"
  by (induction rule: spares_send.induct) (auto intro: blob_step.intros)

lemma cancel_send_other:
  "i \<noteq> k \<Longrightarrow> hm_get (bb_pending_send (snd (blob_cancel_send k b))) i = hm_get (bb_pending_send b) i"
  by (auto simp: blob_op_defs split: option.splits)

lemma fold_cancel_send_other:
  "i \<notin> set ks \<Longrightarrow> hm_get (bb_pending_send (fold (\<lambda>k b. snd (blob_cancel_send k b)) ks b)) i = hm_get (bb_pending_send b) i"
  by (induction ks arbitrary: b) (simp_all add: cancel_send_other)

lemma cancel_recv_sends [simp]: "bb_pending_send (snd (blob_cancel_recv k b)) = bb_pending_send b"
  by (auto simp: blob_op_defs split: option.splits)

lemma fold_cancel_recv_sends [simp]: "bb_pending_send (fold (\<lambda>k b. snd (blob_cancel_recv k b)) ks b) = bb_pending_send b"
  by (induction ks arbitrary: b) simp_all

lemma expire_recv_sends [simp]:
  "bb_pending_send (blob_expire_pending_recv now b) = bb_pending_send b"
  "bb_pending_send (blob_expire_ongoing_recv now b) = bb_pending_send b"
  by (simp_all add: blob_expire_pending_recv_def blob_expire_ongoing_recv_def)

lemma expire_pending_send_spares:
  assumes inv: "blob_inv b" and p: "hm_get (bb_pending_send b) i = Some p"
    and fresh: "bc_pending_send_timeout_sec (bb_config b) = 0 \<or> now - ps_timestamp p \<le> bc_pending_send_timeout_sec (bb_config b)"
  shows "hm_get (bb_pending_send (blob_expire_pending_send now b)) i = Some p"
proof -
  have "v = p" if "(i, v) \<in> set (bb_pending_send b)" for v
    using that p hm_get_Some_iff [of "bb_pending_send b" i v] blob_inv_tables [OF inv] by (simp add: blob_tables_wf_def)
  with fresh have "i \<notin> set (map fst (filter (\<lambda>(_, v). now - ps_timestamp v > bc_pending_send_timeout_sec (bb_config b)) (bb_pending_send b)))"
    if "bc_pending_send_timeout_sec (bb_config b) > 0"
    using that by (auto simp: not_less)
  then show ?thesis
    using p by (simp add: blob_expire_pending_send_def fold_cancel_send_other del: set_map set_filter)
qed

lemma expire_ongoing_send_spares:
  assumes inv: "blob_inv b" and p: "hm_get (bb_pending_send b) i = Some p"
  shows "hm_get (bb_pending_send (blob_expire_ongoing_send now b)) i = Some p"
proof -
  have "hm_get (bb_ongoing_send b) i = None"
    using inv p by (auto simp: blob_inv_def blob_sends_ok_def)
  then have "(i, v) \<notin> set (bb_ongoing_send b)" for v
    using hm_get_Some_iff [of "bb_ongoing_send b" i v] blob_inv_tables [OF inv] by (simp add: blob_tables_wf_def)
  then have "i \<notin> set (map fst (filter P (bb_ongoing_send b)))" for P
    by auto
  then show ?thesis
    using p by (simp add: blob_expire_ongoing_send_def fold_cancel_send_other del: set_map set_filter)
qed

lemma poll_spares_send:
  assumes inv: "blob_inv b" and p: "hm_get (bb_pending_send b) i = Some p"
    and fresh: "be_instant env < bb_expiry_deadline b \<or> bc_pending_send_timeout_sec (bb_config b) = 0
      \<or> be_now env - ps_timestamp p \<le> bc_pending_send_timeout_sec (bb_config b)"
  shows "hm_get (bb_pending_send (snd (blob_poll env b))) i = Some p"
proof -
  have "hm_get (bb_pending_send (blob_tick env b)) i = Some p"
  proof (cases "be_instant env < bb_expiry_deadline b")
    case True
    with p show ?thesis by (simp add: blob_tick_idle)
  next
    case False
    let ?b1 = "blob_expire_pending_send (be_now env) b"
    let ?b2 = "blob_expire_pending_recv (be_now env) ?b1"
    have b1: "blob_inv ?b1" "hm_get (bb_pending_send ?b1) i = Some p"
      using False fresh expire_pending_send_spares [OF inv p, of "be_now env"]
      by (simp_all add: blob_expire_pending_send_def blob_inv_fold_cancel_send inv)
    have "blob_inv ?b2"
      by (simp add: blob_expire_pending_recv_def blob_inv_fold_cancel_recv b1(1))
    from expire_ongoing_send_spares [OF this, of i p "be_now env"] b1(2) False show ?thesis
      by (simp add: blob_tick_def blob_check_expiry_def)
  qed
  then show ?thesis
    by (auto simp: blob_poll_def Let_def split: option.splits)
qed

lemma connection_spares_send:
  assumes inv: "blob_inv b" and p: "hm_get (bb_pending_send b) i = Some p"
    and ev: "blob_on_handler_event env peer hev b = Returns b'" "hev \<notin> {TB_FileSendAccepted i, TB_RemoteCancelSend i}"
  shows "hm_get (bb_pending_send b') i = Some p"
proof (cases hev)
  case (TB_FileSendAccepted k)
  then show ?thesis
    using ev p inv
    by (auto simp: and_then_Returns_iff blob_pending_send_accepted_def blob_progress_ongoing_send_def blob_emit_def blob_notify_def
        blob_inv_def blob_sends_ok_def Let_def split: if_splits option.splits sum.splits)
qed (use ev p in \<open>auto simp: blob_op_defs blob_progress_ongoing_send_def blob_progress_ongoing_recv_def
  blob_on_new_pending_recv_def Let_def split: if_splits option.splits sum.splits prod.splits\<close>)

lemma request_spares_send:
  assumes inv: "blob_inv b" and p: "hm_get (bb_pending_send b) i = Some p"
    and ev: "blob_push_event env ev b = Returns (b', replies)" "\<forall>cb. ev \<noteq> In_CancelSend i cb"
  shows "hm_get (bb_pending_send b') i = Some p"
proof -
  have "i < bb_send_counter b"
    using inv p by (auto simp: blob_inv_def blob_sends_ok_def)
  then have "i \<noteq> bb_send_counter b" by auto
  with ev p show ?thesis
    by (cases ev) (auto simp: blob_op_defs blob_send_file_def blob_accept_pending_recv_def and_then_Returns_iff Let_def
        split: if_splits option.splits prod.splits bool.splits)
qed

lemma spares_send_keeps:
  assumes "spares_send i p b b'" and "blob_inv b" and "hm_get (bb_pending_send b) i = Some p"
  shows "hm_get (bb_pending_send b') i = Some p"
  using assms(1)
proof cases
  case (swarm sev)
  have "hm_wf (bb_pending_send b)"
    using blob_inv_tables [OF assms(2)] by (simp add: blob_tables_wf_def)
  with swarm assms(3) show ?thesis
    by (cases sev) (auto simp: blob_on_disconnect_def hm_get_retain)
next
  case rehash
  then show ?thesis
    using blob_rehashD(3) [OF blob_inv_tables [OF assms(2)]] assms(3) by simp
qed (use assms(2,3) request_spares_send connection_spares_send poll_spares_send in blast)+

lemma spares_send_star:
  assumes "(spares_send i p)\<^sup>*\<^sup>* b b'" and "blob_inv b" and "hm_get (bb_pending_send b) i = Some p"
  shows "blob_inv b' \<and> hm_get (bb_pending_send b') i = Some p"
  using assms(1)
proof (induction rule: rtranclp_induct)
  case (step b1 b2)
  then show ?case
    using spares_send_keeps [OF step.hyps(2)] blob_inv_step [OF _ spares_send_step [OF step.hyps(2)]] by blast
qed (use assms(2,3) in simp)

text \<open>A pending send is accepted whenever the remote's acceptance arrives.\<close>

lemma pending_send_acceptable:
  assumes "hm_get (bb_pending_send b) i = Some p"
  shows "\<exists>b'. blob_on_handler_event env peer (TB_FileSendAccepted i) b = Returns b'
    \<and> hm_get (bb_pending_send b') i = None \<and> Out_SendProgressed i 0 (ps_bytes_total p) \<in> set (bb_out_events b')"
  using assms
  by (auto simp: blob_pending_send_accepted_def hm_contains_key_def blob_progress_ongoing_send_def blob_emit_def blob_notify_def
      push_back_def Let_def split: option.splits sum.splits)

section \<open>The outcomes of the blob handle\<close>

text \<open>\<open>send_file\<close> comes to the point of sending its request.\<close>

definition opens :: "file_system \<Rightarrow> string \<Rightarrow> bool" where
  "opens fs path \<longleftrightarrow> \<not> fs_is_dir fs path \<and> (\<exists>f. fs_open_read fs path = Inr f)"

text \<open>The record that \<open>send_file\<close> registers.\<close>

definition new_send :: "blob_env \<Rightarrow> peer_id \<Rightarrow> string \<Rightarrow> fs_file \<Rightarrow> blob_behaviour \<Rightarrow> pending_send" where
  "new_send env to path f b =
     \<lparr>ps_local_send_id = bb_send_counter b, ps_remote = to, ps_file_path = path,
      ps_bytes_total = of_nat (length (f_data f)), ps_file = f, ps_timestamp = be_now env\<rparr>"

lemma open_error_no_timeout [simp]: "open_error e \<noteq> SendOperation x"
  by (cases e) simp_all

text \<open>The behaviour that serves the request: it answers, registers the send, loses the callback or panics.\<close>

definition registered_send :: "blob_env \<Rightarrow> peer_id \<Rightarrow> string \<Rightarrow> string \<Rightarrow> fs_file \<Rightarrow> callback \<Rightarrow> blob_behaviour \<Rightarrow> blob_behaviour" where
  "registered_send env to path name f tx b =
     blob_notify to (FB_NewFileSend name (bb_send_counter b) tx (of_nat (length (f_data f))))
       (b\<lparr>bb_send_counter := bb_send_counter b + 1,
          bb_pending_send := hm_insert (bb_send_counter b) (new_send env to path f b) (bb_pending_send b)\<rparr>)"

lemma send_file_served:
  assumes "be_receiver_alive env tx"
  shows "blob_push_event env (In_SendFile f path to tx) b =
    (if \<not> hs_contains (bb_connected_peers b) to
     then Returns (b\<lparr>bb_send_counter := bb_send_counter b + 1\<rparr>, [ReplySend tx (Inl FilePeerNotFound)])
     else if be_metadata env \<noteq> None then Returns (b\<lparr>bb_send_counter := bb_send_counter b + 1\<rparr>, [])
     else (case path_file_name path of
             None \<Rightarrow> Panics
           | Some name \<Rightarrow> Returns (registered_send env to path name f tx b, [])))"
  using assms
  by (auto simp: blob_send_file_def blob_next_send_id_def registered_send_def new_send_def Let_def split: option.splits)

lemma passed_on_registered [simp]: "passed_on tx (registered_send env to path name f tx b)"
  by (simp add: registered_send_def)

lemma registered_send_pending: "hm_get (bb_pending_send (registered_send env to path name f tx b)) (bb_send_counter b) = Some (new_send env to path f b)"
  by (simp add: registered_send_def blob_notify_def)

lemma registered_send_queued:
  "NotifyHandler to Any (FB_NewFileSend name (bb_send_counter b) tx (of_nat (length (f_data f))))
     \<in> set (bb_pending_handler_event (registered_send env to path name f tx b))"
  by (simp add: registered_send_def blob_notify_def push_back_def)

lemma handle_send_file_served:
  assumes "\<not> fs_is_dir fs path" "fs_open_read fs path = Inr f" "sw_fate w = Served"
    and "\<not> passed_on tx (sw_before w b)" "be_receiver_alive env tx"
  shows "handle_send_file fs env tx w later to path b =
    (if \<not> hs_contains (bb_connected_peers (sw_before w b)) to
     then Returns (Inl FilePeerNotFound, sw_meanwhile w ((sw_before w b)\<lparr>bb_send_counter := bb_send_counter (sw_before w b) + 1\<rparr>))
     else (case (be_metadata env, path_file_name path, later) of
             (None, Some name, Answered r) \<Rightarrow> Returns (r, sw_meanwhile w (registered_send env to path name f tx (sw_before w b)))
           | (None, Some name, Unanswered) \<Rightarrow>
               Returns (Inl (SendOperation OperationTimeout), sw_meanwhile w (registered_send env to path name f tx (sw_before w b)))
           | _ \<Rightarrow> Panics))"
  using assms
  by (auto simp: handle_send_file_def blob_request_fates send_file_served simp del: blob_push_event.simps
      split: option.splits callback_result.splits)

lemma handle_send_file_unserved:
  assumes "\<not> fs_is_dir fs path" "fs_open_read fs path = Inr f" "sw_fate w \<noteq> Served"
  shows "handle_send_file fs env tx w later to path b =
    (case sw_fate w of
       ChannelFull \<Rightarrow> Hangs
     | Unserved \<Rightarrow> Returns (Inl (SendOperation OperationTimeout), sw_before w b)
     | _ \<Rightarrow> Panics)"
  using assms by (cases "sw_fate w") (simp_all add: handle_send_file_def blob_request_fates)

lemma handle_send_file_early:
  assumes "\<not> opens fs path"
  shows "\<exists>e. handle_send_file fs env tx w later to path b = Returns (Inl e, b) \<and> e \<noteq> SendOperation OperationTimeout"
  using assms by (cases "fs_open_read fs path") (auto simp: opens_def handle_send_file_def)

text \<open>
  C31. \<open>Handle::send_file\<close>, with the fresh callback \<open>tx\<close>, whatever the swarm task does beside it. It waits
  forever exactly when the file could be opened and the channel to the swarm task stays full. It panics
  exactly when the file could be opened and the swarm task is gone, or ends before it comes to the
  request, or serves it and the callback is lost: for a connected peer, the metadata cannot be read,
  the path has no file name, or the connection is closed with the request on its way. When it gives up
  after one second with \<open>OperationError::Timeout\<close>, either the swarm task has not come to the request
  yet, or the send was registered and its request queued for the connection; and then, unless it is
  cancelled, refused, accepted or expires meanwhile or its remote disconnects, at the timeout it is
  still pending as it was registered, and the remote's acceptance starts the transfer after all.
\<close>

theorem handle_send_file_outcome:
  fixes w :: swarm_side and b :: blob_behaviour
  defines "served \<equiv> sw_before w b"
  assumes "\<not> passed_on tx served" and "be_receiver_alive env tx" and "blob_inv served" and "blob_no_wrap served"
  shows "(handle_send_file fs env tx w later to path b = Hangs \<longleftrightarrow> opens fs path \<and> sw_fate w = ChannelFull)
    \<and> (handle_send_file fs env tx w later to path b = Panics \<longleftrightarrow>
        opens fs path \<and> (sw_fate w = SwarmGone \<or> sw_fate w = LostInQueue
          \<or> sw_fate w = Served \<and> hs_contains (bb_connected_peers served) to
            \<and> (be_metadata env \<noteq> None \<or> path_file_name path = None \<or> later = Dropped)))
    \<and> (\<forall>b'. handle_send_file fs env tx w Unanswered to path b = Returns (Inl (SendOperation OperationTimeout), b') \<longrightarrow>
        sw_fate w = Unserved \<and> b' = served
        \<or> (\<exists>f name registered. sw_fate w = Served \<and> fs_open_read fs path = Inr f
            \<and> blob_push_event env (In_SendFile f path to tx) served = Returns (registered, [])
            \<and> b' = sw_meanwhile w registered
            \<and> NotifyHandler to Any (FB_NewFileSend name (bb_send_counter served) tx (of_nat (length (f_data f))))
                \<in> set (bb_pending_handler_event registered)
            \<and> ((spares_send (bb_send_counter served) (new_send env to path f served))\<^sup>*\<^sup>* registered b' \<longrightarrow>
                hm_get (bb_pending_send b') (bb_send_counter served) = Some (new_send env to path f served)
                \<and> (\<exists>b''. blob_on_handler_event env' to (TB_FileSendAccepted (bb_send_counter served)) b' = Returns b''
                     \<and> Out_SendProgressed (bb_send_counter served) 0 (of_nat (length (f_data f))) \<in> set (bb_out_events b'')))))"
proof (cases "opens fs path")
  case False
  then show ?thesis
    using handle_send_file_early [OF False, of env tx w later to b] handle_send_file_early [OF False, of env tx w Unanswered to b]
    by auto
next
  case True
  then obtain f where opened: "\<not> fs_is_dir fs path" "fs_open_read fs path = Inr f"
    by (auto simp: opens_def)
  show ?thesis
  proof (cases "sw_fate w = Served")
    case False
    with True show ?thesis
      by (cases "sw_fate w") (simp_all add: handle_send_file_unserved [OF opened] served_def)
  next
    case fate: True
    note served = handle_send_file_served [OF opened fate assms(2,3) [unfolded served_def]]
    show ?thesis
    proof (cases "hs_contains (bb_connected_peers served) to \<and> be_metadata env = None \<and> path_file_name path \<noteq> None")
      case False
      with True fate show ?thesis
        by (auto simp: served served_def [symmetric] split: option.splits)
    next
      case registers: True
      then obtain name where name: "path_file_name path = Some name" by blast
      let ?r = "registered_send env to path name f tx served"
      have push: "blob_push_event env (In_SendFile f path to tx) served = Returns (?r, [])"
        using registers name by (simp add: send_file_served [OF assms(3)] del: blob_push_event.simps)
      have "blob_inv ?r"
        using blob_inv_push_event [OF assms(4,5) push] .
      then have later: "(spares_send (bb_send_counter served) (new_send env to path f served))\<^sup>*\<^sup>* ?r b' \<longrightarrow>
                hm_get (bb_pending_send b') (bb_send_counter served) = Some (new_send env to path f served)
                \<and> (\<exists>b''. blob_on_handler_event env' to (TB_FileSendAccepted (bb_send_counter served)) b' = Returns b''
                     \<and> Out_SendProgressed (bb_send_counter served) 0 (of_nat (length (f_data f))) \<in> set (bb_out_events b''))" for b'
        using spares_send_star [OF _ _ registered_send_pending]
          pending_send_acceptable [of b' "bb_send_counter served" "new_send env to path f served" env' to]
        by (fastforce simp: new_send_def)
      have hang: "handle_send_file fs env tx w later to path b \<noteq> Hangs"
        and panic: "handle_send_file fs env tx w later to path b = Panics \<longleftrightarrow> later = Dropped"
        and timeout: "handle_send_file fs env tx w Unanswered to path b =
          Returns (Inl (SendOperation OperationTimeout), sw_meanwhile w ?r)"
        using registers name by (cases later; simp add: served served_def [symmetric])+
      show ?thesis
        using True fate registers opened push later registered_send_queued [of to name served tx f env path]
        by (auto simp: hang panic timeout simp del: blob_push_event.simps)
    qed
  qed
qed

text \<open>Everything on disk is a file that can be opened, and nothing exists under \<open>/new\<close>.\<close>

definition demo_fs :: file_system where
  "demo_fs = \<lparr>fs_is_dir = \<lambda>p. p = ''.'', fs_open_read = \<lambda>_. Inr demo_file,
     fs_create_new = \<lambda>p. if p = ''/new'' then Inr \<lparr>f_data = [], f_pos = 0\<rparr> else Inl AlreadyExists\<rparr>"

text \<open>In the meantime the behaviour announces the request to the connection.\<close>

definition busy_swarm :: swarm_side where
  "busy_swarm = prompt_swarm\<lparr>sw_meanwhile := (\<lambda>b. snd (blob_poll demo_env (snd (blob_poll demo_env b))))\<rparr>"

theorem handle_send_file_outcome_witness:
  "\<exists>b' b''. handle_send_file demo_fs demo_env 7 busy_swarm Unanswered peer_a ''/d/f'' demo_connected =
      Returns (Inl (SendOperation OperationTimeout), b')
    \<and> hm_get (bb_pending_send b') 0 = Some demo_pending \<and> bb_pending_handler_event b' = []
    \<and> blob_on_handler_event demo_env peer_a (TB_FileSendAccepted 0) b' = Returns b''
    \<and> Out_SendProgressed 0 0 5 \<in> set (bb_out_events b'')"
proof -
  let ?b1 = "demo_sending\<lparr>bb_out_events := []\<rparr>" and ?b2 = "demo_sending\<lparr>bb_out_events := [], bb_pending_handler_event := []\<rparr>"
  have side: "sw_fate busy_swarm = Served" "sw_before busy_swarm b = b"
    "sw_meanwhile busy_swarm b = snd (blob_poll demo_env (snd (blob_poll demo_env b)))" for b
    by (simp_all add: busy_swarm_def prompt_swarm_def)
  have "blob_inv demo_connected"
    using demo_connect_step blob_inv_step [OF blob_inv_new] by blast
  then have start: "\<not> passed_on 7 (sw_before busy_swarm demo_connected)" "be_receiver_alive demo_env 7"
      "blob_inv (sw_before busy_swarm demo_connected)" "blob_no_wrap (sw_before busy_swarm demo_connected)"
    by (simp_all add: side) (simp_all add: passed_on_def blob_no_wrap_def demo_defs)
  have send: "new_send demo_env peer_a ''/d/f'' demo_file demo_connected = demo_pending" "bb_send_counter demo_connected = 0"
    by (simp_all add: new_send_def demo_defs)
  have polls: "snd (blob_poll demo_env demo_sending) = ?b1" "snd (blob_poll demo_env ?b1) = ?b2"
    by (simp_all add: blob_poll_def blob_tick_def demo_defs)
  have "spares_send 0 demo_pending demo_sending ?b1" "spares_send 0 demo_pending ?b1 ?b2"
    using spares_send.poll [of demo_env demo_sending demo_pending 0] spares_send.poll [of demo_env ?b1 demo_pending 0]
    unfolding polls by (simp_all add: demo_defs)
  then have spared: "(spares_send 0 demo_pending)\<^sup>*\<^sup>* demo_sending ?b2"
    by (meson converse_rtranclp_into_rtranclp r_into_rtranclp)
  have call: "handle_send_file demo_fs demo_env 7 busy_swarm Unanswered peer_a ''/d/f'' demo_connected =
      Returns (Inl (SendOperation OperationTimeout), ?b2)"
    using demo_send_eq polls
    by (simp add: handle_send_file_def demo_fs_def blob_request_fates side) (simp add: passed_on_def demo_sending_def)
  have opened: "fs_open_read demo_fs p = Inr f \<longleftrightarrow> f = demo_file" "length (f_data demo_file) = 5" for p f
    by (auto simp: demo_fs_def demo_file_def)
  from handle_send_file_outcome [OF start, THEN conjunct2, THEN conjunct2, rule_format, OF call, of demo_env]
  have "hm_get (bb_pending_send ?b2) 0 = Some demo_pending
    \<and> (\<exists>b''. blob_on_handler_event demo_env peer_a (TB_FileSendAccepted 0) ?b2 = Returns b'' \<and> Out_SendProgressed 0 0 5 \<in> set (bb_out_events b''))"
    using demo_send_eq spared
    by (simp add: side send polls opened del: blob_push_event.simps blob_on_handler_event.simps)
  with call show ?thesis
    by - (rule exI [of _ ?b2], auto simp del: blob_on_handler_event.simps)
qed

text \<open>
  \<open>Handle::recv_file\<close>, with the fresh callback \<open>tx\<close>: it succeeds exactly when the given path can
  be created, the request is served and still pending, and the remote acknowledges the acceptance; the
  receive has then moved from the pending to the ongoing ones. Opening with \<open>create_new\<close> refuses whatever
  exists, so a path that names a directory, the default of the command line included, is answered
  with \<open>AlreadyExists\<close>, never with a file inside that directory.
\<close>

theorem handle_recv_file_ok_iff:
  assumes "\<not> passed_on tx (sw_before w b)"
    and create_new: "\<And>p. fs_is_dir fs p \<Longrightarrow> fs_create_new fs p = Inl AlreadyExists"
  shows "(handle_recv_file fs env tx w later i path b = Returns (Inr rtt, b') \<longleftrightarrow>
      (\<exists>f p b1. fs_create_new fs path = Inr f \<and> sw_fate w = Served \<and> hm_get (bb_pending_recv (sw_before w b)) i = Some p
        \<and> later = Answered (Inr rtt) \<and> b1 = fst (blob_accept_pending_recv env f path i tx (sw_before w b))
        \<and> hm_get (bb_pending_recv b1) i = None
        \<and> map_option or_local_recv_id (hm_get (bb_ongoing_recv b1) (pr_remote_send_id p)) = Some i
        \<and> b' = sw_meanwhile w b1))
    \<and> (fs_is_dir fs path \<longrightarrow>
        handle_recv_file fs env tx w later i path b = Returns (Inl (FsError path AlreadyExists), b))"
proof (cases "fs_create_new fs path")
  case (Inl e)
  then show ?thesis
    using create_new by (auto simp: handle_recv_file_def)
next
  case (Inr f)
  then have dir: "\<not> fs_is_dir fs path"
    using create_new by fastforce
  show ?thesis
  proof (cases "sw_fate w = Served")
    case True
    with Inr dir assms(1) show ?thesis
      by (cases "hm_get (bb_pending_recv (sw_before w b)) i"; cases later)
        (auto simp: handle_recv_file_def blob_request_fates blob_accept_pending_recv_def Let_def and_then_Returns_iff)
  next
    case False
    with Inr dir show ?thesis
      by (cases "sw_fate w") (simp_all add: handle_recv_file_def blob_request_fates)
  qed
qed

theorem handle_recv_file_ok_iff_witness:
  "handle_recv_file demo_fs demo_env 3 prompt_swarm (Answered (Inr 9)) 0 ''/new'' demo_offered =
      Returns (Inr 9, fst (blob_accept_pending_recv demo_env \<lparr>f_data = [], f_pos = 0\<rparr> ''/new'' 0 3 demo_offered))
    \<and> handle_recv_file demo_fs demo_env 3 prompt_swarm (Answered (Inr 9)) 0 ''.'' demo_offered =
      Returns (Inl (FsError ''.'' AlreadyExists), demo_offered)"
proof -
  have side: "sw_before prompt_swarm b = b" "sw_meanwhile prompt_swarm b = b" "sw_fate prompt_swarm = Served" for b
    by (simp_all add: prompt_swarm_def)
  have fresh: "\<not> passed_on 3 (sw_before prompt_swarm demo_offered)"
    by (simp add: side passed_on_def demo_offered_def blob_on_new_pending_recv_def blob_next_recv_id_def blob_emit_def demo_defs)
  have fs: "fs_create_new demo_fs p = Inl AlreadyExists" if "fs_is_dir demo_fs p" for p
    using that by (simp add: demo_fs_def)
  note recv = handle_recv_file_ok_iff [OF fresh fs]
  show ?thesis
    using recv [of demo_env "Answered (Inr 9)" 0 "''/new''" 9
        "fst (blob_accept_pending_recv demo_env \<lparr>f_data = [], f_pos = 0\<rparr> ''/new'' 0 3 demo_offered)"]
      recv [of demo_env "Answered (Inr 9)" 0 "''.''"] demo_offered_pending
    by (simp add: demo_fs_def side) (simp add: blob_accept_pending_recv_def Let_def)
qed

end
