(* ===== verification/Adapters.thy ===== *)
theory Adapters
  imports Handles
begin

text \<open>
  The handles of the adapters that wait on the stream of swarm events
  (\<open>owlnest/src/net/p2p/protocols/advertise.rs\<close> and \<open>kad.rs\<close>), the methods the handle macros
  generate, the messaging handle, and the subcommands of these protocols. The events a handle
  receives after it has subscribed are an argument, ended by the timeout or by the loss of the
  stream. What a subcommand prints is its result.
\<close>

section \<open>Requests\<close>

text \<open>
  \<open>send_swarm!\<close>: a request joins the queue of the channel, whose receiver the swarm task keeps. The
  methods of this theory are modelled for a swarm task that is running and takes requests: when it is
  gone the send panics, and while the channel is full it waits (\<open>Handles\<close> has both for the blob handle).
\<close>

definition send_swarm :: "'e \<Rightarrow> 'e receiver \<Rightarrow> 'e receiver" where
  "send_swarm ev r = r\<lparr>rv_queue := push_back (rv_queue r) ev\<rparr>"

text \<open>
  \<open>generate_handler_method!\<close> and its blocking variant: send the request with a fresh callback and
  wait. \<open>exec\<close> is what the swarm task does with the request and \<open>answer\<close> reads the reply.
\<close>

definition generate_handler_method ::
  "('ev \<Rightarrow> 's \<Rightarrow> 'reply list \<times> 's) \<Rightarrow> ('reply \<Rightarrow> 'a option) \<Rightarrow> 'ev \<Rightarrow> 's \<Rightarrow> ('a \<times> 's) outcome" where
  "generate_handler_method exec answer ev s =
     (let (rs, s') = exec ev s in
      case List.map_filter answer rs of
        a # _ \<Rightarrow> Returns (a, s')
      | [] \<Rightarrow> Panics)"

section \<open>Advertise\<close>

fun adv_query_arms ::
  "peer_id \<Rightarrow> libp2p_event \<Rightarrow> unit \<Rightarrow> unit + (adv_error + peer_id list option)" where
  "adv_query_arms relay (LBehaviour (EvAdvertise (AdvOut_QueryAnswered from list))) s =
     (if from = relay then Inr (Inr list) else Inl s)"
| "adv_query_arms relay (LBehaviour (EvAdvertise (AdvOut_Error (AdvNotProviding peer)))) s =
     (if peer = relay then Inr (Inl (AdvNotProviding peer)) else Inl s)"
| "adv_query_arms relay _ s = Inl s"

definition query_advertised_peer ::
  "peer_id \<Rightarrow> libp2p_event event_stream \<Rightarrow> adv_in_event receiver
    \<Rightarrow> ((adv_error + peer_id list option) \<times> adv_in_event receiver) outcome" where
  "query_advertised_peer relay evs sender =
     (let sender' = send_swarm (Adv_QueryAdvertisedPeer relay) sender in
      and_then (listen_event (adv_query_arms relay) () evs) (\<lambda>r.
        case future_timeout r of
          Inr (Some v) \<Rightarrow> Returns (v, sender')
        | _ \<Rightarrow> Returns (Inl AdvTimeout, sender')))"

fun adv_remove_arms :: "peer_id \<Rightarrow> libp2p_event \<Rightarrow> unit \<Rightarrow> unit + bool" where
  "adv_remove_arms peer_id (LBehaviour (EvAdvertise (AdvOut_AdvertisedPeerChanged target state))) s =
     (if target = peer_id then Inr state else Inl s)"
| "adv_remove_arms peer_id _ s = Inl s"

definition handle_remove_advertised ::
  "peer_id \<Rightarrow> libp2p_event event_stream \<Rightarrow> adv_in_event receiver
    \<Rightarrow> ((operation_error + bool) \<times> adv_in_event receiver) outcome" where
  "handle_remove_advertised peer_id evs sender =
     (let sender' = send_swarm (Adv_RemoveAdvertised peer_id) sender in
      and_then (listen_event (adv_remove_arms peer_id) () evs) (\<lambda>r.
        case future_timeout r of
          Inr (Some v) \<Rightarrow> Returns (Inr v, sender')
        | Inr None \<Rightarrow> Panics
        | Inl e \<Rightarrow> Returns (Inl e, sender')))"

section \<open>Kad\<close>

text \<open>The store of addresses beside the routing table, filled by a task that listens for \<open>RoutingUpdated\<close>.\<close>

type_synonym peer_tree_map = "peer_id \<rightharpoonup> multiaddr list"

fun kad_store_listener :: "libp2p_event \<Rightarrow> peer_tree_map \<Rightarrow> peer_tree_map" where
  "kad_store_listener (LBehaviour (EvKad (RoutingUpdated peer addresses))) m = m(peer \<mapsto> addresses)"
| "kad_store_listener ev m = m"

definition kad_lookup :: "peer_tree_map \<Rightarrow> peer_id \<Rightarrow> multiaddr list option" where
  "kad_lookup m peer_id = m peer_id"

fun kad_query_arms :: "nat \<Rightarrow> libp2p_event \<Rightarrow> string list \<Rightarrow> string list + string list" where
  "kad_query_arms query_id (LBehaviour (EvKad (OutboundQueryProgressed i result is_last))) results =
     (if query_id \<noteq> i then Inl results
      else if is_last then Inr (results @ [result])
      else Inl (results @ [result]))"
| "kad_query_arms query_id _ results = Inl results"

text \<open>\<open>query\<close> has no timeout: when its last result never arrives it waits for ever.\<close>

definition kad_query ::
  "peer_id \<Rightarrow> callback \<Rightarrow> nat callback_result \<Rightarrow> libp2p_event event_stream \<Rightarrow> kad_in_event receiver
    \<Rightarrow> (string list \<times> kad_in_event receiver) outcome" where
  "kad_query peer_id tx answer evs sender =
     and_then (handle_callback answer) (\<lambda>query_id.
       and_then (listen_event (kad_query_arms query_id) [] evs) (\<lambda>r.
         case r of
           Answered results \<Rightarrow> Returns (results, send_swarm (PeerLookup peer_id tx) sender)
         | Dropped \<Rightarrow> Panics
         | Unanswered \<Rightarrow> Hangs))"

fun kad_mode_arms :: "libp2p_event \<Rightarrow> unit \<Rightarrow> unit + kad_mode" where
  "kad_mode_arms (LBehaviour (EvKad (ModeChanged new_mode))) s = Inr new_mode"
| "kad_mode_arms _ s = Inl s"

definition kad_set_mode ::
  "kad_mode option \<Rightarrow> libp2p_event event_stream \<Rightarrow> kad_in_event receiver
    \<Rightarrow> ((operation_error + kad_mode) \<times> kad_in_event receiver) outcome" where
  "kad_set_mode mode evs sender =
     (let sender' = send_swarm (SetMode mode) sender in
      and_then (listen_event kad_mode_arms () evs) (\<lambda>r.
        case future_timeout r of
          Inr (Some v) \<Rightarrow> Returns (Inr v, sender')
        | Inr None \<Rightarrow> Panics
        | Inl e \<Rightarrow> Returns (Inl e, sender')))"

section \<open>Messaging\<close>

definition send_message ::
  "peer_id \<Rightarrow> message \<Rightarrow> callback \<Rightarrow> (msg_send_error + duration) callback_result \<Rightarrow> msg_in_event receiver
    \<Rightarrow> ((msg_send_error + duration) \<times> msg_in_event receiver) outcome" where
  "send_message peer_id message tx answer sender =
     (let sender' = send_swarm (Msg_SendMessage peer_id message tx) sender in
      and_then (handle_callback answer) (\<lambda>r. Returns (r, sender')))"

section \<open>Subcommands\<close>

datatype kad_mode_arg = ArgClient | ArgServer | ArgDefault

fun kad_mode_from :: "kad_mode_arg \<Rightarrow> kad_mode option" where
  "kad_mode_from ArgClient = Some KadClient"
| "kad_mode_from ArgServer = Some KadServer"
| "kad_mode_from ArgDefault = None"

fun kad_mode_arg_fmt :: "kad_mode_arg \<Rightarrow> string" where
  "kad_mode_arg_fmt ArgClient = ''Client''"
| "kad_mode_arg_fmt ArgServer = ''Server''"
| "kad_mode_arg_fmt ArgDefault = ''Default''"

text \<open>
  What a subcommand prints: a line of text, a table or list of peers, or the debug rendering of a
  value.
\<close>

datatype cli_output =
    Println rust_text
  | PeerTable rust_text "peer_id list"
  | PrintlnPeers rust_text "peer_id list"
  | AddressTable rust_text "multiaddr list"
  | PrintlnResults "string list"
  | PrintlnAddresses "multiaddr list option"
  | PrintlnRouting rust_text routing_update

definition bool_fmt :: "bool \<Rightarrow> fmt" where
  "bool_fmt b = Lit (if b then ''true'' else ''false'')"

definition newline :: string where
  "newline = [CHR 0x0A]"

datatype provider_command =
    ProviderStart
  | ProviderStop
  | ProviderState
  | ProviderListAdvertised
  | ProviderRemoveAdvertise peer_id
  | ProviderClearAdvertised

datatype advertise_command =
    SetRemoteAdvertisement peer_id bool
  | QueryAdvertised peer_id
  | Provider provider_command

text \<open>
  \<open>handle_provider\<close> and \<open>handle_advertise\<close>: the request a subcommand queues and what it prints.
  \<open>state\<close> and \<open>peers\<close> are the answers to the callback of the request.
\<close>

fun handle_provider ::
  "callback \<Rightarrow> bool callback_result \<Rightarrow> peer_id list callback_result \<Rightarrow> libp2p_event event_stream
    \<Rightarrow> provider_command \<Rightarrow> adv_in_event receiver \<Rightarrow> (cli_output list \<times> adv_in_event receiver) outcome" where
  "handle_provider tx state peers evs ProviderStart sender =
     and_then (handle_callback state) (\<lambda>b.
       Returns ([Println [Lit ''Local provider state is set to: '', bool_fmt b]], send_swarm (Adv_SetProviderState True tx) sender))"
| "handle_provider tx state peers evs ProviderStop sender =
     and_then (handle_callback state) (\<lambda>b.
       Returns ([Println [Lit ''Local provider state is set to: '', bool_fmt b]], send_swarm (Adv_SetProviderState False tx) sender))"
| "handle_provider tx state peers evs ProviderState sender =
     and_then (handle_callback state) (\<lambda>b.
       Returns ([Println [Lit ''isProviding:'', bool_fmt b]], send_swarm (Adv_GetProviderState tx) sender))"
| "handle_provider tx state peers evs ProviderListAdvertised sender =
     and_then (handle_callback peers) (\<lambda>list.
       Returns ([PrintlnPeers [Lit (''Advertising: '' @ newline)] list], send_swarm (Adv_ListAdvertised tx) sender))"
| "handle_provider tx state peers evs (ProviderRemoveAdvertise peer) sender =
     and_then (handle_remove_advertised peer evs sender) (\<lambda>(result, sender').
       Returns ((case result of
           Inr v \<Rightarrow> [Println [Lit ''Local provider state is set to: '', bool_fmt v]]
         | Inl e \<Rightarrow> [Println (Lit ''Cannot RemoveAdvertise: '' # operation_error_fmt e)])
         @ [Println [Lit ''Advertisement for peer '', ArgPeer peer, Lit '' is removed'']], sender'))"
| "handle_provider tx state peers evs ProviderClearAdvertised sender =
     Returns ([Println [Lit ''All ADs has been cleared.'']], send_swarm Adv_ClearAdvertised sender)"

fun handle_advertise ::
  "callback \<Rightarrow> unit callback_result \<Rightarrow> bool callback_result \<Rightarrow> peer_id list callback_result \<Rightarrow> libp2p_event event_stream
    \<Rightarrow> advertise_command \<Rightarrow> adv_in_event receiver \<Rightarrow> (cli_output list \<times> adv_in_event receiver) outcome" where
  "handle_advertise tx posted state peers evs (Provider command) sender = handle_provider tx state peers evs command sender"
| "handle_advertise tx posted state peers evs (SetRemoteAdvertisement remote s) sender =
     and_then (handle_callback posted) (\<lambda>_.
       Returns ([Println [Lit ''OK'']], send_swarm (Adv_SetRemoteAdvertisement remote s tx) sender))"
| "handle_advertise tx posted state peers evs (QueryAdvertised remote) sender =
     and_then (query_advertised_peer remote evs sender) (\<lambda>(result, sender').
       Returns (case result of
           Inr None \<Rightarrow> [Println [Lit ''Remote '', ArgPeer remote, Lit '' is not providing'']]
         | Inr (Some list) \<Rightarrow> [PeerTable [Lit (''Peers advertised by'' @ newline), ArgPeer remote] list]
         | Inl _ \<Rightarrow> [Println [Lit ''Remote '', ArgPeer remote, Lit '' is not connected or doesn't support `owlput-advertise`.'']], sender'))"

datatype kad_command =
    KadQuery peer_id
  | KadLookup peer_id
  | KadBootstrap
  | KadSetMode kad_mode_arg
  | KadInsert peer_id multiaddr
  | KadInsertDefault

text \<open>The well-known nodes \<open>kad insert-default\<close> adds; parsing the constants is the work of libp2p.\<close>

definition kad_default_nodes :: "(string \<times> string) list" where
  "kad_default_nodes =
     [(''QmNnooDu7bfjPFoTZYxMNLWUQJyrVwtbZg5gBMjTezGAJN'', ''/dnsaddr/bootstrap.libp2p.io''),
      (''QmQCU2EcMqAqQPR2i9bChDtGNJchTbq5TbXJJ16u19uLTa'', ''/dnsaddr/bootstrap.libp2p.io''),
      (''QmbLHAnMoJPWSCR5Zhtx6BHJX9KiKNN6tpvbUcqanj75Nb'', ''/dnsaddr/bootstrap.libp2p.io''),
      (''QmcZf59bWwK5XFi76CZX8cbJ4BhTzzA3gU1ZjYZcYW3dwt'', ''/dnsaddr/bootstrap.libp2p.io''),
      (''QmaCpDMGvV2BGHeYERUEnRQAwe3N8SzbUtfsmvsqQLuvuJ'', ''/ip4/104.131.131.82/tcp/4001'')]"

fun kad_insert_default ::
  "(string \<Rightarrow> peer_id) \<Rightarrow> callback \<Rightarrow> (peer_id \<Rightarrow> routing_update callback_result) \<Rightarrow> (string \<times> string) list
    \<Rightarrow> kad_in_event receiver \<Rightarrow> (cli_output list \<times> kad_in_event receiver) outcome" where
  "kad_insert_default parse tx answer [] sender = Returns ([], sender)"
| "kad_insert_default parse tx answer ((peer, addr) # nodes) sender =
     and_then (handle_callback (answer (parse peer))) (\<lambda>r.
       and_then (kad_insert_default parse tx answer nodes (send_swarm (InsertNode (parse peer) (Multiaddr addr) tx) sender))
         (\<lambda>(out, sender'). Returns (PrintlnRouting [Lit (''Insert peer '' @ peer @ '':'')] r # out, sender')))"

text \<open>\<open>handle_kad\<close>: \<open>Insert\<close> has an empty body.\<close>

fun handle_kad ::
  "(string \<Rightarrow> peer_id) \<Rightarrow> callback \<Rightarrow> nat callback_result \<Rightarrow> (unit + nat) callback_result
    \<Rightarrow> (peer_id \<Rightarrow> routing_update callback_result) \<Rightarrow> libp2p_event event_stream \<Rightarrow> peer_tree_map
    \<Rightarrow> kad_command \<Rightarrow> kad_in_event receiver \<Rightarrow> (cli_output list \<times> kad_in_event receiver) outcome" where
  "handle_kad parse tx query boot inserted evs m (KadQuery peer) sender =
     and_then (kad_query peer tx query evs sender) (\<lambda>(result, sender'). Returns ([PrintlnResults result], sender'))"
| "handle_kad parse tx query boot inserted evs m (KadLookup peer) sender =
     Returns ([PrintlnAddresses (kad_lookup m peer)], sender)"
| "handle_kad parse tx query boot inserted evs m KadBootstrap sender =
     and_then (handle_callback boot) (\<lambda>result.
       Returns ([Println [Lit (if isl result then ''No known peer in the DHT'' else ''Bootstrap started'')]],
                send_swarm (BootStrap tx) sender))"
| "handle_kad parse tx query boot inserted evs m (KadSetMode mode) sender =
     and_then (kad_set_mode (kad_mode_from mode) evs sender) (\<lambda>(r, sender').
       Returns ([Println [Lit (if isl r then ''Timeout reached for setting kad mode''
                               else ''Mode for kad has been set to '' @ kad_mode_arg_fmt mode)]], sender'))"
| "handle_kad parse tx query boot inserted evs m (KadInsert peer addr) sender = Returns ([], sender)"
| "handle_kad parse tx query boot inserted evs m KadInsertDefault sender =
     kad_insert_default parse tx inserted kad_default_nodes sender"

definition handle_messaging ::
  "u128 \<Rightarrow> peer_id \<Rightarrow> callback \<Rightarrow> (msg_send_error + duration) callback_result \<Rightarrow> peer_id \<Rightarrow> string \<Rightarrow> msg_in_event receiver
    \<Rightarrow> (cli_output list \<times> msg_in_event receiver) outcome" where
  "handle_messaging now ident tx answer peer_id text sender =
     and_then (send_message peer_id (message_new now ident peer_id text) tx answer sender) (\<lambda>(r, sender').
       Returns (case r of
           Inr _ \<Rightarrow> [Println [Lit ''Message has been successfully sent'']]
         | Inl e \<Rightarrow> [Println (Lit ''Error occurred when sending message: '' # msg_send_error_fmt e)], sender'))"

section \<open>Listening\<close>

text \<open>The events of a stream, and how it ends.\<close>

fun stream_events :: "'e event_stream \<Rightarrow> 'e list" where
  "stream_events (More ev evs) = ev # stream_events evs"
| "stream_events _ = []"

fun stream_end :: "'e event_stream \<Rightarrow> 'a callback_result outcome" where
  "stream_end (More ev evs) = stream_end evs"
| "stream_end Elapsed = Returns Unanswered"
| "stream_end CutOff = Panics"

lemma listen_event_first:
  "listen_event arms () evs =
     (case List.find (\<lambda>ev. \<not> isl (arms ev ())) (stream_events evs) of
        Some ev \<Rightarrow> Returns (Answered (projr (arms ev ())))
      | None \<Rightarrow> stream_end evs)"
proof (induction evs)
  case (More ev evs)
  then show ?case by (cases "arms ev ()") (simp_all split: option.split)
qed simp_all

fun about_relay :: "peer_id \<Rightarrow> libp2p_event \<Rightarrow> bool" where
  "about_relay relay (LBehaviour (EvAdvertise (AdvOut_QueryAnswered from list))) = (from = relay)"
| "about_relay relay (LBehaviour (EvAdvertise (AdvOut_Error (AdvNotProviding peer)))) = (peer = relay)"
| "about_relay relay _ = False"

lemma adv_query_arms_relevant: "\<not> isl (adv_query_arms relay ev ()) \<longleftrightarrow> about_relay relay ev"
  by (cases "(relay, ev)" rule: about_relay.cases) auto

text \<open>
  C18. A query for advertised peers, with the events that follow the subscription: the first answer of
  that relay, or report that it is not providing, decides the result, whatever other events come
  before it; with none of them in time the result is \<open>Timeout\<close>; the request is queued once.
  For a relay without a connection the behaviour emits that report itself, so the caller learns
  it instead of waiting for ten seconds.
\<close>

theorem query_advertised_peer_result:
  "query_advertised_peer relay evs sender =
     (let sender' = sender\<lparr>rv_queue := rv_queue sender @ [Adv_QueryAdvertisedPeer relay]\<rparr> in
      case List.find (about_relay relay) (stream_events evs) of
        Some (LBehaviour (EvAdvertise (AdvOut_QueryAnswered from list))) \<Rightarrow> Returns (Inr list, sender')
      | Some _ \<Rightarrow> Returns (Inl (AdvNotProviding relay), sender')
      | None \<Rightarrow> and_then (stream_end evs :: unit callback_result outcome) (\<lambda>_. Returns (Inl AdvTimeout, sender')))
   \<and> (\<forall>b. \<not> hs_contains (ab_connected_peers b) relay \<and> ab_pending_query_answer b = [] \<and> ab_in_events b = []
        \<and> ab_pending_out_events b = [] \<longrightarrow>
      (\<exists>b'. adv_poll (adv_push_event (Adv_QueryAdvertisedPeer relay) b) =
             (Ready (GenerateEvent (AdvOut_Error (AdvNotProviding relay))), b', [])))"
proof (rule conjI)
  have end_cases: "and_then (stream_end evs) (\<lambda>r. case future_timeout r of
        Inr (Some v) \<Rightarrow> Returns (v, x) | _ \<Rightarrow> Returns (Inl AdvTimeout, x))
      = and_then (stream_end evs :: unit callback_result outcome) (\<lambda>_. Returns (Inl AdvTimeout, x))" for x
    by (induction evs) simp_all
  show "query_advertised_peer relay evs sender =
     (let sender' = sender\<lparr>rv_queue := rv_queue sender @ [Adv_QueryAdvertisedPeer relay]\<rparr> in
      case List.find (about_relay relay) (stream_events evs) of
        Some (LBehaviour (EvAdvertise (AdvOut_QueryAnswered from list))) \<Rightarrow> Returns (Inr list, sender')
      | Some _ \<Rightarrow> Returns (Inl (AdvNotProviding relay), sender')
      | None \<Rightarrow> and_then (stream_end evs :: unit callback_result outcome) (\<lambda>_. Returns (Inl AdvTimeout, sender')))"
  proof (cases "List.find (about_relay relay) (stream_events evs)")
    case None
    then show ?thesis
      by (simp add: query_advertised_peer_def listen_event_first adv_query_arms_relevant send_swarm_def push_back_def end_cases)
  next
    case (Some ev)
    then have "about_relay relay ev"
      by (auto simp: find_Some_iff)
    with Some show ?thesis
      by (cases "(relay, ev)" rule: about_relay.cases)
        (simp_all add: query_advertised_peer_def listen_event_first adv_query_arms_relevant send_swarm_def push_back_def)
  qed
  show "\<forall>b. \<not> hs_contains (ab_connected_peers b) relay \<and> ab_pending_query_answer b = [] \<and> ab_in_events b = []
        \<and> ab_pending_out_events b = [] \<longrightarrow>
      (\<exists>b'. adv_poll (adv_push_event (Adv_QueryAdvertisedPeer relay) b) =
             (Ready (GenerateEvent (AdvOut_Error (AdvNotProviding relay))), b', []))"
    by (auto simp: adv_poll_def adv_push_event_def adv_handle_in_event_def adv_emit_def push_back_def)
qed

theorem query_advertised_peer_result_witness:
  "query_advertised_peer (PeerId [1])
      (More (LBehaviour (EvAdvertise (AdvOut_QueryAnswered (PeerId [2]) None)))
        (More (LBehaviour (EvAdvertise (AdvOut_Error (AdvNotProviding (PeerId [1]))))) Elapsed)) receiver_new
    = Returns (Inl (AdvNotProviding (PeerId [1])), \<lparr>rv_queue = [Adv_QueryAdvertisedPeer (PeerId [1])], rv_closed = False\<rparr>)
   \<and> (\<exists>b'. adv_poll (adv_push_event (Adv_QueryAdvertisedPeer (PeerId [1])) (adv_behaviour_new adv_config_default)) =
             (Ready (GenerateEvent (AdvOut_Error (AdvNotProviding (PeerId [1])))), b', []))"
proof -
  note result = query_advertised_peer_result [of "PeerId [1]" "More (LBehaviour (EvAdvertise (AdvOut_QueryAnswered (PeerId [2]) None)))
        (More (LBehaviour (EvAdvertise (AdvOut_Error (AdvNotProviding (PeerId [1]))))) Elapsed)" receiver_new]
  from result [THEN conjunct2, rule_format, of "adv_behaviour_new adv_config_default"] result [THEN conjunct1]
  show ?thesis
    by (simp add: receiver_new_def) (simp add: adv_behaviour_new_def hs_contains_def)
qed

section \<open>Queries of kad\<close>

text \<open>The progress reports of a query: its partial results, each with the mark of the last one.\<close>

fun query_progress :: "nat \<Rightarrow> libp2p_event \<Rightarrow> (string \<times> bool) option" where
  "query_progress q (LBehaviour (EvKad (OutboundQueryProgressed i result is_last))) =
     (if i = q then Some (result, is_last) else None)"
| "query_progress q _ = None"

lemma kad_query_arms_eq:
  "kad_query_arms q ev results =
     (case query_progress q ev of
        Some (r, is_last) \<Rightarrow> if is_last then Inr (results @ [r]) else Inl (results @ [r])
      | None \<Rightarrow> Inl results)"
  by (cases "(q, ev)" rule: query_progress.cases) auto

lemma listen_kad_query:
  "listen_event (kad_query_arms q) results evs =
     (let ps = List.map_filter (query_progress q) (stream_events evs) in
      if list_ex snd ps
      then Returns (Answered (results @ map fst (takeWhile (\<lambda>p. \<not> snd p) ps) @ [fst (hd (dropWhile (\<lambda>p. \<not> snd p) ps))]))
      else stream_end evs)"
proof (induction evs arbitrary: results)
  case (More ev evs)
  then show ?case
    by (auto simp: kad_query_arms_eq Let_def map_filter_simps split: option.splits)
qed simp_all

text \<open>
  C19. A kad query returns all its partial results and only its own: the results reported for its id,
  in the order of the reports, up to and including the one marked as the last. Reports of other
  queries and other events are skipped. A query whose last report never comes does not return.
\<close>

theorem kad_query_collects:
  "kad_query peer_id tx (Answered q) evs sender =
     (let ps = List.map_filter (query_progress q) (stream_events evs) in
      if list_ex snd ps
      then Returns (map fst (takeWhile (\<lambda>p. \<not> snd p) ps) @ [fst (hd (dropWhile (\<lambda>p. \<not> snd p) ps))],
                    sender\<lparr>rv_queue := rv_queue sender @ [PeerLookup peer_id tx]\<rparr>)
      else and_then (stream_end evs :: unit callback_result outcome) (\<lambda>_. Hangs))"
proof -
  have "and_then (stream_end evs) (\<lambda>r. case r of Answered results \<Rightarrow> Returns (results, x) | Dropped \<Rightarrow> Panics | Unanswered \<Rightarrow> Hangs)
      = and_then (stream_end evs :: unit callback_result outcome) (\<lambda>_. Hangs)" for x
    by (induction evs) simp_all
  then show ?thesis
    by (auto simp: kad_query_def listen_kad_query Let_def send_swarm_def push_back_def)
qed

text \<open>The local lookup gives the addresses of the latest update of the routing table for that peer.\<close>

fun routing_update_of :: "peer_id \<Rightarrow> libp2p_event \<Rightarrow> multiaddr list option" where
  "routing_update_of p (LBehaviour (EvKad (RoutingUpdated peer addresses))) = (if peer = p then Some addresses else None)"
| "routing_update_of p _ = None"

lemma kad_lookup_latest:
  "kad_lookup (fold kad_store_listener evs Map.empty) p =
     (case rev (List.map_filter (routing_update_of p) evs) of [] \<Rightarrow> None | addrs # _ \<Rightarrow> Some addrs)"
proof (induction evs rule: rev_induct)
  case (snoc ev evs)
  then show ?case
    by (cases "(p, ev)" rule: routing_update_of.cases)
      (auto simp: kad_lookup_def map_filter_def)
qed (simp add: kad_lookup_def map_filter_simps)

section \<open>Callbacks\<close>

text \<open>The callback of a request to one of the adapters, and of a reply.\<close>

fun request_callback :: "rx \<Rightarrow> callback option" where
  "request_callback (RxSwarm ev) = Some (case ev of
       SwDial _ cb \<Rightarrow> cb | SwListen _ cb \<Rightarrow> cb | ListListeners cb \<Rightarrow> cb | RemoveListeners _ cb \<Rightarrow> cb
     | AddExternalAddress _ cb \<Rightarrow> cb | RemoveExternalAddress _ cb \<Rightarrow> cb | ListExternalAddresses cb \<Rightarrow> cb
     | ListConnected cb \<Rightarrow> cb | IsConnectedToPeerId _ cb \<Rightarrow> cb | DisconnectFromPeerId _ cb \<Rightarrow> cb)"
| "request_callback (RxKad ev) = (case ev of
       PeerLookup _ cb \<Rightarrow> Some cb | BootStrap cb \<Rightarrow> Some cb | InsertNode _ _ cb \<Rightarrow> Some cb | SetMode _ \<Rightarrow> None)"
| "request_callback (RxMdns ev) = Some (case ev of ListDiscoveredNodes cb \<Rightarrow> cb | HasNode _ cb \<Rightarrow> cb)"
| "request_callback (RxAutoNat ev) = (case ev of GetNatStatus cb \<Rightarrow> Some cb | _ \<Rightarrow> None)"
| "request_callback (RxGossipsub ev) = (case ev of
       SubscribeTopic _ cb \<Rightarrow> Some cb | UnsubscribeTopic _ cb \<Rightarrow> Some cb | PublishMessage _ _ cb \<Rightarrow> Some cb
     | MeshPeersOfTopic _ cb \<Rightarrow> Some cb | AllPeersWithTopic cb \<Rightarrow> Some cb | _ \<Rightarrow> None)"
| "request_callback _ = None"

fun gossip_reply_callback :: "gossip_reply \<Rightarrow> callback" where
  "gossip_reply_callback (ReplySubscribe cb _) = cb"
| "gossip_reply_callback (ReplyUnsubscribe cb _) = cb"
| "gossip_reply_callback (ReplyPublish cb _) = cb"
| "gossip_reply_callback (ReplyMeshPeers cb _) = cb"
| "gossip_reply_callback (ReplyAllPeers cb _) = cb"

fun reply_callback :: "node_reply \<Rightarrow> callback option" where
  "reply_callback (ReplyDial cb _) = Some cb"
| "reply_callback (ReplyListen cb _) = Some cb"
| "reply_callback (ReplyAddresses cb _) = Some cb"
| "reply_callback (ReplyBool cb _) = Some cb"
| "reply_callback (ReplyUnit cb) = Some cb"
| "reply_callback (ReplyPeers cb _) = Some cb"
| "reply_callback (ReplyDisconnect cb _) = Some cb"
| "reply_callback (ReplyQuery cb _) = Some cb"
| "reply_callback (ReplyBootstrap cb _) = Some cb"
| "reply_callback (ReplyRouting cb _) = Some cb"
| "reply_callback (ReplyNatStatus cb _) = Some cb"
| "reply_callback (ReplyGossip r) = Some (gossip_reply_callback r)"
| "reply_callback (ReplyBlob _) = None"

fun own_protocol :: "rx \<Rightarrow> bool" where
  "own_protocol (RxMessaging _) = True"
| "own_protocol (RxAdvertise _) = True"
| "own_protocol (RxBlob _) = True"
| "own_protocol _ = False"

text \<open>
  C16. Every request to an adapter of a libp2p behaviour, or to the swarm itself, is served at once
  and without a panic; its callback, when it has one, is answered exactly once, and no other
  callback is touched. The methods the macros generate for these handles therefore always return.
\<close>

theorem adapter_requests_answered_once:
  assumes "\<not> own_protocol ev"
  shows "\<exists>rs s'. handle_incoming_event api env ev s = Returns (rs, s')
    \<and> map reply_callback rs = (case request_callback ev of None \<Rightarrow> [] | Some cb \<Rightarrow> [Some cb])"
proof (cases s)
  case (fields m a b n)
  show ?thesis
  proof (cases ev)
    case (RxSwarm e)
    with fields show ?thesis by (cases e) (auto split: prod.splits)
  next
    case (RxKad e)
    with fields show ?thesis by (cases e) (auto split: prod.splits)
  next
    case (RxMdns e)
    with fields show ?thesis by (cases e) auto
  next
    case (RxAutoNat e)
    with fields show ?thesis by (cases e) auto
  next
    case (RxGossipsub e)
    with fields show ?thesis by (cases e) (auto split: prod.splits)
  qed (use assms in simp_all)
qed

theorem adapter_requests_answered_once_witness:
  "\<forall>(api :: nat swarm_api) s. \<exists>rs s'. handle_incoming_event api demo_env (RxMdns (HasNode peer_a 4)) s = Returns (rs, s')
     \<and> map reply_callback rs = [Some 4]"
proof (intro allI)
  fix api :: "nat swarm_api" and s
  show "\<exists>rs s'. handle_incoming_event api demo_env (RxMdns (HasNode peer_a 4)) s = Returns (rs, s')
     \<and> map reply_callback rs = [Some 4]"
    using adapter_requests_answered_once [of "RxMdns (HasNode peer_a 4)" api demo_env s] by simp
qed

text \<open>The callbacks a messaging handler holds: that of the message under way, then those of the queued ones.\<close>

definition msg_handler_callbacks :: "msg_handler \<Rightarrow> callback list" where
  "msg_handler_callbacks h =
     (case mh_outbound h of Some (MsgBusy _ _ cb _) \<Rightarrow> [cb] | _ \<Rightarrow> [])
     @ map (\<lambda>ev. case ev of PostMessage _ cb \<Rightarrow> cb) (mh_pending_in_events h)"

fun msg_reply_callback :: "msg_reply \<Rightarrow> callback" where
  "msg_reply_callback (MsgReplySend cb _) = cb"
| "msg_reply_callback (MsgReplyConnected cb _) = cb"

text \<open>A turn of the outbound loop answers, loses or keeps the callbacks; the loop follows by induction.\<close>

lemma msg_turn_callbacks:
  "msg_outbound_turn H json env i h = MsgNext j h' rs \<Longrightarrow>
     msg_handler_callbacks h = map msg_reply_callback rs @ msg_handler_callbacks h'"
  "msg_outbound_turn H json env i h = MsgBreak r h' rs \<Longrightarrow>
     \<exists>lost. msg_handler_callbacks h = map msg_reply_callback rs @ lost @ msg_handler_callbacks h'
       \<and> (if \<exists>e. r = Some (NotifyBehaviour (MTB_Error e)) then length lost = 1 else lost = [])"
  by (auto simp: msg_outbound_turn_def msg_handler_callbacks_def msg_progress_in_events_def
      split: option.splits msg_outbound_state.splits poll.splits sum.splits list.splits if_splits msg_from_behaviour.splits)

lemma msg_poll_outbound_callbacks:
  "msg_poll_outbound H json env i h = (r, h', rs) \<Longrightarrow>
   \<exists>lost. msg_handler_callbacks h = map msg_reply_callback rs @ lost @ msg_handler_callbacks h'
     \<and> (if \<exists>e. r = Some (NotifyBehaviour (MTB_Error e)) then length lost = 1 else lost = [])"
proof (induction H json env i h arbitrary: r h' rs rule: msg_poll_outbound.induct)
  case (1 H json env i h)
  note poll = "1.prems" [unfolded msg_poll_outbound.simps [of H json env i h]]
  show ?case
  proof (cases "msg_outbound_turn H json env i h")
    case (MsgBreak r1 h1 rs1)
    with poll show ?thesis
      using msg_turn_callbacks(2) [OF MsgBreak] by simp
  next
    case (MsgNext j h1 rs1)
    obtain r2 h2 rs2 where rest: "msg_poll_outbound H json env j h1 = (r2, h2, rs2)" by (rule prod_cases3)
    with poll MsgNext have "r = r2" "h' = h2" "rs = rs1 @ rs2" by simp_all
    then show ?thesis
      using "1.IH" [OF MsgNext rest] msg_turn_callbacks(1) [OF MsgNext] by auto
  qed
qed

lemma msg_poll_inbound_callbacks [simp]:
  "msg_handler_callbacks (snd (msg_poll_inbound H env h)) = msg_handler_callbacks h"
  by (simp add: msg_poll_inbound_def msg_push_out_def msg_handler_callbacks_def split: option.split poll.split sum.split prod.split)

text \<open>
  C17. A poll of the messaging handler keeps account of the callbacks it holds. In order, they are
  those it answers, at most one it loses, and those it keeps; one is lost only when the poll
  reports an error. A message that meets an I/O error is therefore never answered, and the caller
  of \<open>send_message\<close>, which waits for the answer, panics.
\<close>

theorem msg_callbacks_accounted:
  assumes "msg_handler_poll H json env h = (r, h', rs)"
  shows "\<exists>lost. msg_handler_callbacks h = map msg_reply_callback rs @ lost @ msg_handler_callbacks h'
    \<and> length lost \<le> 1 \<and> (lost \<noteq> [] \<longrightarrow> (\<exists>e. r = Ready (NotifyBehaviour (MTB_Error e))))
    \<and> send_message peer msg tx Dropped sender = Panics"
proof (cases "mh_state h")
  case Active
  obtain o1 h1 where inb: "msg_poll_inbound H env h = (o1, h1)" by (rule prod.exhaust)
  then have cbs: "msg_handler_callbacks h1 = msg_handler_callbacks h"
    using msg_poll_inbound_callbacks [of H env h] by simp
  obtain o2 h2 rs2 where outb: "msg_poll_outbound H json env 0 h1 = (o2, h2, rs2)" by (rule prod_cases3)
  from msg_poll_outbound_callbacks [OF outb] show ?thesis
    using assms Active inb outb cbs
    by (auto simp: msg_handler_poll_def send_message_def msg_handler_callbacks_def
        split: option.splits if_splits prod.splits)
next
  case (Inactive reported)
  with assms show ?thesis
    by (cases reported) (auto simp: msg_handler_poll_def send_message_def msg_handler_callbacks_def)
qed

text \<open>A stream that is reset, a message under way on it and another one queued.\<close>

definition reset_io :: handler_io where
  "reset_io = \<lparr>hio_instant = 0, hio_inbound = None,
     hio_outbound = \<lambda>_. Some \<lparr>io_fault = \<lambda>_. Some (IoError ConnectionAborted []), io_chunk = \<lambda>_. 1, io_elapsed = 0\<rparr>\<rparr>"

definition busy_handler :: msg_handler where
  "busy_handler = (msg_handler_new msg_config_default)
     \<lparr>mh_outbound := Some (MsgBusy \<lparr>w_rx = [], w_tx = [], w_ops = 0\<rparr> [1] 5 9),
      mh_pending_in_events := [PostMessage (message_new 0 peer_a peer_b ''hi'') 6]\<rparr>"

theorem msg_callbacks_accounted_witness:
  "\<exists>r h'. msg_handler_poll (\<lambda>_. 0) demo_json reset_io busy_handler = (r, h', [])
     \<and> msg_handler_callbacks busy_handler = [5, 6] \<and> msg_handler_callbacks h' = [6]
     \<and> (\<exists>e. r = Ready (NotifyBehaviour (MTB_Error e)))"
proof -
  obtain r h' where poll: "msg_handler_poll (\<lambda>_. 0) demo_json reset_io busy_handler = (r, h', [])"
    and left: "msg_handler_callbacks h' = [6]"
    by (simp add: msg_handler_poll_def busy_handler_def msg_handler_new_def msg_poll_inbound_def reset_io_def
        msg_poll_outbound_eq poll_universal_send_def universal_send_def write_all_def msg_handler_callbacks_def)
  have "msg_handler_callbacks busy_handler = [5, 6]"
    by (simp add: busy_handler_def msg_handler_callbacks_def)
  with msg_callbacks_accounted [OF poll] poll left show ?thesis
    by auto
qed

end
