(* ===== verification/Shell.thy ===== *)
theory Shell
  imports Adapters "HOL-Library.Sublist"
begin

text \<open>
  The handle of the swarm (\<open>owlnest/src/net/p2p/swarm/handle.rs\<close>), the subcommands that use it
  (\<open>swarm/cli.rs\<close>, \<open>mdns.rs\<close>, \<open>autonat.rs\<close>, \<open>relay_client.rs\<close>), and how the
  interactive shell of \<open>owlnest/src/cli/mod.rs\<close> meets failed reads (its thread is in
  \<open>Command_Line\<close>). Every method is an instance of the generated one.
\<close>

section \<open>The swarm handle\<close>

text \<open>The reply a method waits for: the one with its callback.\<close>

fun reply_dial :: "callback \<Rightarrow> node_reply \<Rightarrow> (dial_failure + unit) option" where
  "reply_dial tx (ReplyDial cb r) = (if cb = tx then Some r else None)"
| "reply_dial tx _ = None"

fun reply_listen :: "callback \<Rightarrow> node_reply \<Rightarrow> (transport_error + nat) option" where
  "reply_listen tx (ReplyListen cb r) = (if cb = tx then Some r else None)"
| "reply_listen tx _ = None"

fun reply_addresses :: "callback \<Rightarrow> node_reply \<Rightarrow> multiaddr list option" where
  "reply_addresses tx (ReplyAddresses cb r) = (if cb = tx then Some r else None)"
| "reply_addresses tx _ = None"

fun reply_bool :: "callback \<Rightarrow> node_reply \<Rightarrow> bool option" where
  "reply_bool tx (ReplyBool cb r) = (if cb = tx then Some r else None)"
| "reply_bool tx _ = None"

fun reply_unit :: "callback \<Rightarrow> node_reply \<Rightarrow> unit option" where
  "reply_unit tx (ReplyUnit cb) = (if cb = tx then Some () else None)"
| "reply_unit tx _ = None"

fun reply_peers :: "callback \<Rightarrow> node_reply \<Rightarrow> peer_id list option" where
  "reply_peers tx (ReplyPeers cb r) = (if cb = tx then Some r else None)"
| "reply_peers tx _ = None"

fun reply_disconnect :: "callback \<Rightarrow> node_reply \<Rightarrow> (unit + unit) option" where
  "reply_disconnect tx (ReplyDisconnect cb r) = (if cb = tx then Some r else None)"
| "reply_disconnect tx _ = None"

fun reply_nat_status :: "callback \<Rightarrow> node_reply \<Rightarrow> (nat_status \<times> nat) option" where
  "reply_nat_status tx (ReplyNatStatus cb r) = (if cb = tx then Some r else None)"
| "reply_nat_status tx _ = None"

definition swarm_dial :: "'n swarm_api \<Rightarrow> callback \<Rightarrow> multiaddr \<Rightarrow> 'n \<Rightarrow> ((dial_failure + unit) \<times> 'n) outcome" where
  "swarm_dial api tx address = generate_handler_method (swarm_op_exec api) (reply_dial tx) (SwDial address tx)"

definition swarm_listen :: "'n swarm_api \<Rightarrow> callback \<Rightarrow> multiaddr \<Rightarrow> 'n \<Rightarrow> ((transport_error + nat) \<times> 'n) outcome" where
  "swarm_listen api tx address = generate_handler_method (swarm_op_exec api) (reply_listen tx) (SwListen address tx)"

definition swarm_list_listeners :: "'n swarm_api \<Rightarrow> callback \<Rightarrow> 'n \<Rightarrow> (multiaddr list \<times> 'n) outcome" where
  "swarm_list_listeners api tx = generate_handler_method (swarm_op_exec api) (reply_addresses tx) (ListListeners tx)"

definition swarm_remove_listener :: "'n swarm_api \<Rightarrow> callback \<Rightarrow> nat \<Rightarrow> 'n \<Rightarrow> (bool \<times> 'n) outcome" where
  "swarm_remove_listener api tx listener_id =
     generate_handler_method (swarm_op_exec api) (reply_bool tx) (RemoveListeners listener_id tx)"

definition swarm_add_external_address :: "'n swarm_api \<Rightarrow> callback \<Rightarrow> multiaddr \<Rightarrow> 'n \<Rightarrow> (unit \<times> 'n) outcome" where
  "swarm_add_external_address api tx address =
     generate_handler_method (swarm_op_exec api) (reply_unit tx) (AddExternalAddress address tx)"

definition swarm_list_external_addresses :: "'n swarm_api \<Rightarrow> callback \<Rightarrow> 'n \<Rightarrow> (multiaddr list \<times> 'n) outcome" where
  "swarm_list_external_addresses api tx =
     generate_handler_method (swarm_op_exec api) (reply_addresses tx) (ListExternalAddresses tx)"

definition swarm_remove_external_address :: "'n swarm_api \<Rightarrow> callback \<Rightarrow> multiaddr \<Rightarrow> 'n \<Rightarrow> (unit \<times> 'n) outcome" where
  "swarm_remove_external_address api tx address =
     generate_handler_method (swarm_op_exec api) (reply_unit tx) (RemoveExternalAddress address tx)"

definition swarm_list_connected :: "'n swarm_api \<Rightarrow> callback \<Rightarrow> 'n \<Rightarrow> (peer_id list \<times> 'n) outcome" where
  "swarm_list_connected api tx = generate_handler_method (swarm_op_exec api) (reply_peers tx) (ListConnected tx)"

definition swarm_is_connected :: "'n swarm_api \<Rightarrow> callback \<Rightarrow> peer_id \<Rightarrow> 'n \<Rightarrow> (bool \<times> 'n) outcome" where
  "swarm_is_connected api tx peer_id =
     generate_handler_method (swarm_op_exec api) (reply_bool tx) (IsConnectedToPeerId peer_id tx)"

definition swarm_disconnect_peer_id :: "'n swarm_api \<Rightarrow> callback \<Rightarrow> peer_id \<Rightarrow> 'n \<Rightarrow> ((unit + unit) \<times> 'n) outcome" where
  "swarm_disconnect_peer_id api tx peer_id =
     generate_handler_method (swarm_op_exec api) (reply_disconnect tx) (DisconnectFromPeerId peer_id tx)"

text \<open>Each method returns what the swarm answers, and never panics.\<close>

lemma map_filter_single [simp]: "List.map_filter f [x] = (case f x of Some y \<Rightarrow> [y] | None \<Rightarrow> [])"
  by (simp add: map_filter_simps split: option.split)

lemma swarm_methods:
  "swarm_dial api tx address n = Returns (sa_dial api address n)"
  "swarm_listen api tx address n = Returns (sa_listen_on api address n)"
  "swarm_list_listeners api tx n = Returns (sa_listeners api n, n)"
  "swarm_remove_listener api tx l n = Returns (sa_remove_listener api l n)"
  "swarm_add_external_address api tx address n = Returns ((), sa_add_external_address api address n)"
  "swarm_list_external_addresses api tx n = Returns (sa_external_addresses api n, n)"
  "swarm_remove_external_address api tx address n = Returns ((), sa_remove_external_address api address n)"
  "swarm_list_connected api tx n = Returns (sa_connected_peers api n, n)"
  "swarm_is_connected api tx p n = Returns (sa_is_connected api p n, n)"
  "swarm_disconnect_peer_id api tx p n = Returns (sa_disconnect_peer_id api p n)"
  by (simp_all add: swarm_dial_def swarm_listen_def swarm_list_listeners_def swarm_remove_listener_def
      swarm_add_external_address_def swarm_list_external_addresses_def swarm_remove_external_address_def
      swarm_list_connected_def swarm_is_connected_def swarm_disconnect_peer_id_def generate_handler_method_def
      split: prod.splits)

section \<open>Subcommands of the swarm\<close>

datatype listener_command = CmdListenerLs

datatype external_addr_command =
    CmdExternalLs
  | CmdExternalAdd multiaddr
  | CmdExternalRemove multiaddr

datatype swarm_command =
    CmdDial multiaddr
  | CmdListen multiaddr
  | CmdListener listener_command
  | CmdExternalAddr external_addr_command
  | CmdIsConnected peer_id
  | CmdListConnected

text \<open>\<open>format_transport_error\<close>; \<open>debug\<close> is the standard library's rendering of an I/O error.\<close>

fun format_transport_error :: "(io_error \<Rightarrow> string) \<Rightarrow> transport_error \<Rightarrow> rust_text" where
  "format_transport_error debug (MultiaddrNotSupported addr) =
     [Lit ''Requested address '', ArgStr (multiaddr_str addr), Lit '' is not supported.'']"
| "format_transport_error debug (TransportOther e) =
     (if sublist ''AddrNotAvailable'' (debug e)
      then [Lit ''Local interface associated with the given address does not exist'']
      else [ArgStr (debug e)])"

definition print_listen :: "(io_error \<Rightarrow> string) \<Rightarrow> multiaddr \<Rightarrow> transport_error + nat \<Rightarrow> cli_output" where
  "print_listen debug address r =
     (case r of
        Inr listener_id \<Rightarrow>
          Println [Lit ''Successfully listening on '', ArgStr (multiaddr_str address), Lit '' with listener ID '', ArgNat listener_id]
      | Inl e \<Rightarrow>
          Println ([Lit ''Failed to listen on '', ArgStr (multiaddr_str address), Lit '' with error: ''] @ format_transport_error debug e))"

fun handle_swarm_listener :: "'n swarm_api \<Rightarrow> callback \<Rightarrow> listener_command \<Rightarrow> 'n \<Rightarrow> (cli_output \<times> 'n) outcome" where
  "handle_swarm_listener api tx CmdListenerLs n =
     and_then (swarm_list_listeners api tx n) (\<lambda>(list, n'). Returns (AddressTable [Lit ''Active Listeners''] list, n'))"

fun handle_swarm_externaladdress ::
  "'n swarm_api \<Rightarrow> callback \<Rightarrow> external_addr_command \<Rightarrow> 'n \<Rightarrow> (cli_output \<times> 'n) outcome" where
  "handle_swarm_externaladdress api tx (CmdExternalAdd address) n =
     and_then (swarm_add_external_address api tx address n) (\<lambda>(_, n').
       Returns (Println [Lit ''External address `'', ArgStr (multiaddr_str address), Lit ''` added''], n'))"
| "handle_swarm_externaladdress api tx (CmdExternalRemove address) n =
     and_then (swarm_remove_external_address api tx address n) (\<lambda>(_, n').
       Returns (Println [Lit ''External address `'', ArgStr (multiaddr_str address), Lit ''` removed''], n'))"
| "handle_swarm_externaladdress api tx CmdExternalLs n =
     and_then (swarm_list_external_addresses api tx n) (\<lambda>(list, n').
       Returns (AddressTable [Lit ''External Addresses''] list, n'))"

fun handle_swarm ::
  "(io_error \<Rightarrow> string) \<Rightarrow> 'n swarm_api \<Rightarrow> callback \<Rightarrow> swarm_command \<Rightarrow> 'n \<Rightarrow> (cli_output \<times> 'n) outcome" where
  "handle_swarm debug api tx (CmdDial address) n =
     and_then (swarm_dial api tx address n) (\<lambda>(r, n').
       Returns (case r of
           Inl e \<Rightarrow> Println ([Lit ''Failed to initiate dial '', ArgStr (multiaddr_str address), Lit '' with error: '']
                              @ dial_failure_debug e)
         | Inr _ \<Rightarrow> Println [Lit ''Dialing '', ArgStr (multiaddr_str address)], n'))"
| "handle_swarm debug api tx (CmdListen address) n =
     and_then (swarm_listen api tx address n) (\<lambda>(r, n'). Returns (print_listen debug address r, n'))"
| "handle_swarm debug api tx (CmdListener command) n = handle_swarm_listener api tx command n"
| "handle_swarm debug api tx (CmdExternalAddr command) n = handle_swarm_externaladdress api tx command n"
| "handle_swarm debug api tx (CmdIsConnected peer_id) n =
     and_then (swarm_is_connected api tx peer_id n) (\<lambda>(b, n'). Returns (Println [bool_fmt b], n'))"
| "handle_swarm debug api tx CmdListConnected n =
     and_then (swarm_list_connected api tx n) (\<lambda>(list, n').
       Returns (if list = [] then Println [Lit ''No peer is connected to local node.'']
                else PeerTable [Lit ''Connected Peers''] list, n'))"

text \<open>\<open>relay_client::cli\<close>; \<open>via_relay\<close> is libp2p's extension of an address by a relay and a circuit.\<close>

definition handle_relay_client ::
  "(io_error \<Rightarrow> string) \<Rightarrow> (multiaddr \<Rightarrow> peer_id \<Rightarrow> multiaddr) \<Rightarrow> 'n swarm_api \<Rightarrow> callback \<Rightarrow> multiaddr \<Rightarrow> peer_id
    \<Rightarrow> 'n \<Rightarrow> (cli_output \<times> 'n) outcome" where
  "handle_relay_client debug via_relay api tx address peer_id n =
     (let addr = via_relay address peer_id in
      and_then (swarm_listen api tx addr n) (\<lambda>(r, n'). Returns (print_listen debug addr r, n')))"

datatype mdns_command = ListDiscovered | CmdHasNode peer_id

fun handle_mdns :: "'n swarm_api \<Rightarrow> callback \<Rightarrow> mdns_command \<Rightarrow> 'n \<Rightarrow> (cli_output \<times> 'n) outcome" where
  "handle_mdns api tx ListDiscovered n =
     and_then (generate_handler_method (mdns_map_in_event api) (reply_peers tx) (ListDiscoveredNodes tx) n) (\<lambda>(list, n').
       Returns (PrintlnPeers [] list, n'))"
| "handle_mdns api tx (CmdHasNode peer_id) n =
     and_then (generate_handler_method (mdns_map_in_event api) (reply_bool tx) (HasNode peer_id tx) n) (\<lambda>(r, n').
       Returns (Println [Lit ''Is peer '', ArgPeer peer_id, Lit '' discovered through mDNS: '', bool_fmt r], n'))"

datatype autonat_command =
    CmdAddServer peer_id "multiaddr option"
  | CmdRemoveServer peer_id
  | CmdProbe multiaddr
  | CmdGetNatStatus

text \<open>A generated method without a callback only sends the request.\<close>

definition generate_handler_method_unit :: "('ev \<Rightarrow> 's \<Rightarrow> 'reply list \<times> 's) \<Rightarrow> 'ev \<Rightarrow> 's \<Rightarrow> 's" where
  "generate_handler_method_unit exec ev s = snd (exec ev s)"

fun handle_autonat :: "'n swarm_api \<Rightarrow> callback \<Rightarrow> autonat_command \<Rightarrow> 'n \<Rightarrow> (cli_output \<times> 'n) outcome" where
  "handle_autonat api tx (CmdAddServer peer_id address) n =
     Returns (Println [Lit ''AutoNat::AddServer('', ArgPeer peer_id, Lit '')-> OK.''],
              generate_handler_method_unit (autonat_map_in_event api) (AddServer peer_id address) n)"
| "handle_autonat api tx (CmdRemoveServer peer_id) n =
     Returns (Println [Lit ''AutoNat::RemoveServer('', ArgPeer peer_id, Lit '')-> OK.''],
              generate_handler_method_unit (autonat_map_in_event api) (RemoveServer peer_id) n)"
| "handle_autonat api tx (CmdProbe address) n =
     Returns (Println [Lit ''AutoNat::Probe('', ArgStr (multiaddr_str address), Lit '')-> OK.''],
              generate_handler_method_unit (autonat_map_in_event api) (Probe address) n)"
| "handle_autonat api tx CmdGetNatStatus n =
     and_then (generate_handler_method (autonat_map_in_event api) (reply_nat_status tx) (GetNatStatus tx) n)
       (\<lambda>((status, confidence), n'). Returns (Println
         (case status of
            NatPrivate \<Rightarrow> [Lit ''NAT status: Private; Confidence: '', ArgNat confidence]
          | NatPublic addr \<Rightarrow> [Lit ''NAT status: Public; Public address: '', ArgStr (multiaddr_str addr),
                               Lit '', Confidence: '', ArgNat confidence]
          | NatUnknown \<Rightarrow> [Lit ''NAT status: Unknown'']), n'))"

section \<open>The interactive shell\<close>

datatype readline_error = ReadlineIo io_error | ReadlineEof | ReadlineInterrupted | ReadlineOther string

text \<open>\<open>should_exit\<close> counts the failure and compares; the counter cannot reach the end of its range.\<close>

definition should_exit :: "u32 \<Rightarrow> u32 \<Rightarrow> bool \<times> u32" where
  "should_exit retry_times max_retry_times = (retry_times + 1 \<ge> max_retry_times, retry_times + 1)"

fun handle_err :: "readline_error \<Rightarrow> u32 \<Rightarrow> bool \<times> u32" where
  "handle_err (ReadlineIo e) retry_times = should_exit retry_times 5"
| "handle_err ReadlineEof retry_times = should_exit retry_times 5"
| "handle_err ReadlineInterrupted retry_times = (True, retry_times)"
| "handle_err (ReadlineOther e) retry_times = should_exit retry_times 5"

section \<open>Properties\<close>

text \<open>The failed reads, an interrupt apart.\<close>

definition failures :: "(readline_error + 'a) list \<Rightarrow> nat" where
  "failures reads = length (filter (\<lambda>r. isl r \<and> r \<noteq> Inl ReadlineInterrupted) reads)"

lemma failures_simps [simp]:
  "failures [] = 0" "failures (Inr x # reads) = failures reads"
  "failures (Inl e # reads) = (if e = ReadlineInterrupted then failures reads else Suc (failures reads))"
  by (simp_all add: failures_def)

lemma should_exit_count:
  assumes "k < 5"
  shows "should_exit (of_nat k) 5 = (k + 1 \<ge> 5, of_nat (Suc k))"
proof -
  from assms have "k = 0 \<or> k = 1 \<or> k = 2 \<or> k = 3 \<or> k = 4" by arith
  then show ?thesis by (auto simp: should_exit_def word_le_nat_alt)
qed

lemma handle_err_count:
  "k < 5 \<Longrightarrow> handle_err e (of_nat k) =
     (if e = ReadlineInterrupted then (True, of_nat k) else (k + 1 \<ge> 5, of_nat (Suc k)))"
  by (cases e) (simp_all add: should_exit_count)

end
