(* ===== verification/Gossip_Claims.thy ===== *)
theory Gossip_Claims
  imports Gossip
begin

text \<open>
  What the gossipsub adapter guarantees. The topic store implements an abstract specification: a
  partial function from topics to their members, the names known for some of them and a set of
  subscriptions. The store of a handle agrees with the subscriptions of the libp2p behaviour, and
  its message store holds what was published through the handle.
\<close>

section \<open>Specification of the topic store\<close>

record topic_spec =
  tp_names :: "topic_hash \<rightharpoonup> string"
  tp_members :: "topic_hash \<rightharpoonup> peer_id set"
  tp_subscribed :: "topic_hash set"

definition topic_spec_empty :: topic_spec where
  "topic_spec_empty = \<lparr>tp_names = Map.empty, tp_members = Map.empty, tp_subscribed = {}\<rparr>"

definition tp_known :: "topic_spec \<Rightarrow> topic_hash \<Rightarrow> bool" where
  "tp_known a t \<longleftrightarrow> tp_members a t \<noteq> None"

definition tp_members_of :: "topic_spec \<Rightarrow> topic_hash \<Rightarrow> peer_id set" where
  "tp_members_of a t = (case tp_members a t of None \<Rightarrow> {} | Some ps \<Rightarrow> ps)"

definition tp_touch :: "topic_hash \<Rightarrow> topic_spec \<Rightarrow> topic_spec" where
  "tp_touch t a = a\<lparr>tp_members := (tp_members a)(t \<mapsto> tp_members_of a t)\<rparr>"

definition tp_name :: "string \<Rightarrow> topic_hash \<Rightarrow> topic_spec \<Rightarrow> topic_spec" where
  "tp_name n t a =
     (tp_touch t a)\<lparr>tp_names := (tp_names a)(t \<mapsto> (case tp_names a t of None \<Rightarrow> n | Some m \<Rightarrow> m))\<rparr>"

datatype topic_op =
    InsertTopic string topic_hash
  | InsertHash topic_hash
  | JoinTopic peer_id topic_hash
  | LeaveTopic peer_id topic_hash
  | SubscribeStore topic_hash "string option"
  | UnsubscribeStore topic_hash

fun topic_spec_step :: "topic_op \<Rightarrow> topic_spec \<Rightarrow> bool \<times> topic_spec" where
  "topic_spec_step (InsertTopic n t) a = (\<not> tp_known a t, tp_name n t a)"
| "topic_spec_step (InsertHash t) a = (\<not> tp_known a t, tp_touch t a)"
| "topic_spec_step (JoinTopic p t) a =
     (p \<notin> tp_members_of a t, a\<lparr>tp_members := (tp_members a)(t \<mapsto> insert p (tp_members_of a t))\<rparr>)"
| "topic_spec_step (LeaveTopic p t) a =
     (p \<in> tp_members_of a t,
      if tp_known a t then a\<lparr>tp_members := (tp_members a)(t \<mapsto> tp_members_of a t - {p})\<rparr> else a)"
| "topic_spec_step (SubscribeStore t n) a =
     (t \<notin> tp_subscribed a,
      (case n of None \<Rightarrow> tp_touch t a | Some s \<Rightarrow> tp_name s t a)\<lparr>tp_subscribed := insert t (tp_subscribed a)\<rparr>)"
| "topic_spec_step (UnsubscribeStore t) a =
     (t \<in> tp_subscribed a, a\<lparr>tp_subscribed := tp_subscribed a - {t}\<rparr>)"

fun topic_store_step :: "topic_op \<Rightarrow> mem_topic_store \<Rightarrow> (bool \<times> mem_topic_store) outcome" where
  "topic_store_step (InsertTopic n t) s = Returns (insert_topic n t s)"
| "topic_store_step (InsertHash t) s = Returns (insert_hash t s)"
| "topic_store_step (JoinTopic p t) s = join_topic p t s"
| "topic_store_step (LeaveTopic p t) s = Returns (leave_topic p t s)"
| "topic_store_step (SubscribeStore t n) s = Returns (store_subscribe_topic t n s)"
| "topic_store_step (UnsubscribeStore t) s = Returns (store_unsubscribe_topic t s)"

definition topic_abs :: "mem_topic_store \<Rightarrow> topic_spec" where
  "topic_abs s = \<lparr>tp_names = (\<lambda>t. try_map t s), tp_members = (\<lambda>t. map_option set (participants t s)),
     tp_subscribed = set (subscribed_topics s)\<rparr>"

text \<open>A topic is never readable and hash-only at the same time.\<close>

definition topic_inv :: "mem_topic_store \<Rightarrow> bool" where
  "topic_inv s \<longleftrightarrow> hm_wf (mt_populated s) \<and> hm_wf (mt_vacant s) \<and> hs_wf (mt_subscribed s)
     \<and> set (map fst (readable_topics s)) \<inter> set (hash_topics s) = {}"

lemma topic_inv_alt:
  "topic_inv s \<longleftrightarrow> hm_wf (mt_populated s) \<and> hm_wf (mt_vacant s) \<and> hs_wf (mt_subscribed s)
     \<and> (\<forall>t. hm_get (mt_populated s) t = None \<or> hm_get (mt_vacant s) t = None)"
proof -
  have "set (map fst (readable_topics s)) = hm_keys (mt_populated s)"
    by (force simp: readable_topics_def hm_keys_def)
  moreover have "set (hash_topics s) = hm_keys (mt_vacant s)"
    by (simp add: hash_topics_def hm_keys_def)
  ultimately show ?thesis
    by (auto simp: topic_inv_def hm_get_None_iff)
qed

lemmas topic_view = topic_abs_def try_map_def participants_def subscribed_topics_def
  tp_known_def tp_members_of_def tp_touch_def tp_name_def

text \<open>The two tables seen as one: where a topic is, its name if it has one, and its members.\<close>

lemma topic_abs_simps [simp]:
  "tp_names (topic_abs s) t = map_option fst (hm_get (mt_populated s) t)"
  "tp_members (topic_abs s) t =
     (case hm_get (mt_populated s) t of Some v \<Rightarrow> Some (set (snd v)) | None \<Rightarrow> map_option set (hm_get (mt_vacant s) t))"
  "tp_subscribed (topic_abs s) = set (mt_subscribed s)"
  by (auto simp: topic_view split: option.splits)

lemma topic_spec_eqI:
  fixes a b :: topic_spec
  assumes "\<And>t. tp_names a t = tp_names b t" and "\<And>t. tp_members a t = tp_members b t"
    and "tp_subscribed a = tp_subscribed b"
  shows "a = b"
  using assms by (intro topic_spec.equality ext) auto

lemma topic_invD:
  "topic_inv s \<Longrightarrow> hm_get (mt_vacant s) t = Some ps \<Longrightarrow> hm_get (mt_populated s) t = None"
  by (metis topic_inv_alt option.distinct(1))

lemma insert_topic_refines:
  assumes "topic_inv s"
  shows "topic_inv (snd (insert_topic n t s))" (is ?inv)
    and "fst (insert_topic n t s) = (\<not> tp_known (topic_abs s) t)" (is ?r)
    and "topic_abs (snd (insert_topic n t s)) = tp_name n t (topic_abs s)" (is ?a)
proof -
  note D = topic_invD [OF assms]
  show ?inv
    using assms D [of t] by (auto simp: topic_inv_alt insert_topic_def split: option.split)
  show ?r
    using D [of t] by (auto simp: insert_topic_def tp_known_def split: option.split)
  show ?a
  proof (rule topic_spec_eqI)
    fix t'
    show "tp_names (topic_abs (snd (insert_topic n t s))) t' = tp_names (tp_name n t (topic_abs s)) t'"
      using D [of t] by (auto simp: insert_topic_def tp_name_def tp_touch_def split: option.split)
    show "tp_members (topic_abs (snd (insert_topic n t s))) t' = tp_members (tp_name n t (topic_abs s)) t'"
      using D [of t] by (auto simp: insert_topic_def tp_name_def tp_touch_def tp_members_of_def split: option.split)
  qed (auto simp: insert_topic_def tp_name_def tp_touch_def split: option.split)
qed

lemma insert_hash_refines:
  assumes "topic_inv s"
  shows "topic_inv (snd (insert_hash t s))" (is ?inv)
    and "fst (insert_hash t s) = (\<not> tp_known (topic_abs s) t)" (is ?r)
    and "topic_abs (snd (insert_hash t s)) = tp_touch t (topic_abs s)" (is ?a)
proof -
  show ?inv
    using assms by (cases "hm_get (mt_populated s) t"; cases "hm_get (mt_vacant s) t") (auto simp: topic_inv_alt insert_hash_def)
  show ?r
    by (auto simp: insert_hash_def tp_known_def split: option.split)
  show ?a
  proof (rule topic_spec_eqI)
    fix t'
    show "tp_members (topic_abs (snd (insert_hash t s))) t' = tp_members (tp_touch t (topic_abs s)) t'"
      by (auto simp: insert_hash_def tp_touch_def tp_members_of_def split: option.split)
  qed (auto simp: insert_hash_def tp_touch_def)
qed

lemma join_topic_refines:
  assumes "topic_inv s"
  shows "\<exists>s'. join_topic p t s = Returns (p \<notin> tp_members_of (topic_abs s) t, s') \<and> topic_inv s'
    \<and> topic_abs s' = (topic_abs s)\<lparr>tp_members := (tp_members (topic_abs s))(t \<mapsto> insert p (tp_members_of (topic_abs s) t))\<rparr>"
proof -
  define u where "u = snd (insert_hash t s)"
  have u: "topic_inv u" "topic_abs u = tp_touch t (topic_abs s)"
    using insert_hash_refines [OF assms] by (simp_all add: u_def)
  have known: "tp_members (topic_abs u) t = Some (tp_members_of (topic_abs s) t)"
    by (simp add: u(2) tp_touch_def)
  have other: "tp_names (topic_abs s) = tp_names (topic_abs u)" "tp_subscribed (topic_abs s) = tp_subscribed (topic_abs u)"
    "t' \<noteq> t \<Longrightarrow> tp_members (topic_abs s) t' = tp_members (topic_abs u) t'" for t'
    by (simp_all only: u(2)) (simp_all add: tp_touch_def)
  show ?thesis
  proof (cases "hm_get (mt_vacant u) t")
    case (Some ps)
    then have none: "hm_get (mt_populated u) t = None" by (rule topic_invD [OF u(1)])
    let ?s' = "u\<lparr>mt_vacant := hm_insert t (hs_insert p ps) (mt_vacant u)\<rparr>"
    have "join_topic p t s = Returns (p \<notin> tp_members_of (topic_abs s) t, ?s')"
      using Some none known by (simp add: join_topic_def Let_def u_def [symmetric] hs_contains_def)
    moreover have "topic_inv ?s'"
      using u(1) none by (auto simp: topic_inv_alt)
    moreover have "topic_abs ?s' = (topic_abs s)\<lparr>tp_members := (tp_members (topic_abs s))(t \<mapsto> insert p (tp_members_of (topic_abs s) t))\<rparr>"
      using Some none known other by (intro topic_spec_eqI) (auto split: option.split)
    ultimately show ?thesis by blast
  next
    case None
    with known obtain n ps where some: "hm_get (mt_populated u) t = Some (n, ps)"
      by (cases "hm_get (mt_populated u) t") auto
    let ?s' = "u\<lparr>mt_populated := hm_insert t (n, hs_insert p ps) (mt_populated u)\<rparr>"
    have "join_topic p t s = Returns (p \<notin> tp_members_of (topic_abs s) t, ?s')"
      using None some known by (simp add: join_topic_def Let_def u_def [symmetric] hs_contains_def)
    moreover have "topic_inv ?s'"
      using u(1) None by (auto simp: topic_inv_alt)
    moreover have "topic_abs ?s' = (topic_abs s)\<lparr>tp_members := (tp_members (topic_abs s))(t \<mapsto> insert p (tp_members_of (topic_abs s) t))\<rparr>"
      using None some known other by (intro topic_spec_eqI) (auto split: option.split)
    ultimately show ?thesis by blast
  qed
qed

lemma leave_topic_refines:
  assumes "topic_inv s"
  shows "topic_inv (snd (leave_topic p t s))" (is ?inv)
    and "fst (leave_topic p t s) = (p \<in> tp_members_of (topic_abs s) t)" (is ?r)
    and "topic_abs (snd (leave_topic p t s)) = snd (topic_spec_step (LeaveTopic p t) (topic_abs s))" (is ?a)
proof -
  note D = topic_invD [OF assms, of t]
  show ?inv
    using assms D by (auto simp: topic_inv_alt leave_topic_def split: option.split)
  show ?r
    using D by (auto simp: leave_topic_def tp_members_of_def hs_contains_def split: option.split)
  show ?a
  proof (rule topic_spec_eqI)
    fix t'
    show "tp_members (topic_abs (snd (leave_topic p t s))) t' = tp_members (snd (topic_spec_step (LeaveTopic p t) (topic_abs s))) t'"
      using D by (auto simp: leave_topic_def tp_members_of_def tp_known_def split: option.split)
    show "tp_names (topic_abs (snd (leave_topic p t s))) t' = tp_names (snd (topic_spec_step (LeaveTopic p t) (topic_abs s))) t'"
      by (auto simp: leave_topic_def split: option.split)
  qed (auto simp: leave_topic_def split: option.split)
qed

lemma topic_inv_subscribed:
  assumes "topic_inv s" and "hs_wf subs"
  shows "topic_inv (s\<lparr>mt_subscribed := subs\<rparr>)"
    and "topic_abs (s\<lparr>mt_subscribed := subs\<rparr>) = (topic_abs s)\<lparr>tp_subscribed := set subs\<rparr>"
  using assms by (simp add: topic_inv_alt) (intro topic_spec_eqI, auto split: option.split)

lemma mt_subscribed_inserts [simp]:
  "mt_subscribed (snd (insert_topic n t s)) = mt_subscribed s"
  "mt_subscribed (snd (insert_hash t s)) = mt_subscribed s"
  by (auto simp: insert_topic_def insert_hash_def split: option.split)

lemma store_subscribe_refines:
  assumes "topic_inv s"
  shows "topic_inv (snd (store_subscribe_topic t n s))
    \<and> topic_spec_step (SubscribeStore t n) (topic_abs s) = (fst (store_subscribe_topic t n s), topic_abs (snd (store_subscribe_topic t n s)))"
proof -
  define u where "u = (case n of Some name \<Rightarrow> snd (insert_topic name t s) | None \<Rightarrow> snd (insert_hash t s))"
  have u: "topic_inv u" "topic_abs u = (case n of None \<Rightarrow> tp_touch t (topic_abs s) | Some m \<Rightarrow> tp_name m t (topic_abs s))"
      "mt_subscribed u = mt_subscribed s"
    using insert_topic_refines [OF assms] insert_hash_refines [OF assms] by (simp_all add: u_def split: option.split)
  have wf: "hs_wf (hs_insert t (mt_subscribed s))" "hs_wf (mt_subscribed s)"
    using assms by (simp_all add: topic_inv_alt)
  have "store_subscribe_topic t n s = (t \<notin> set (mt_subscribed s), u\<lparr>mt_subscribed := hs_insert t (mt_subscribed s)\<rparr>)"
    using u(3) by (cases u) (auto simp: store_subscribe_topic_def u_def [symmetric] Let_def hs_contains_def hs_insert_def)
  then show ?thesis
    using topic_inv_subscribed [OF u(1) wf(1)] by (simp add: u(2))
qed

lemma topic_step_refines:
  assumes "topic_inv s"
  shows "\<exists>r s'. topic_store_step op s = Returns (r, s') \<and> topic_inv s'
    \<and> topic_spec_step op (topic_abs s) = (r, topic_abs s')"
proof (cases op)
  case (JoinTopic p t)
  then show ?thesis using join_topic_refines [OF assms, of p t] by fastforce
next
  case (UnsubscribeStore t)
  have "hs_wf (hs_remove t (mt_subscribed s))" using assms by (simp add: topic_inv_alt)
  from topic_inv_subscribed [OF assms this] show ?thesis
    by (simp add: UnsubscribeStore store_unsubscribe_topic_def hs_contains_def)
next
  case (InsertTopic n t)
  then show ?thesis using insert_topic_refines [OF assms, of n t] by (cases "insert_topic n t s") simp
next
  case (InsertHash t)
  then show ?thesis using insert_hash_refines [OF assms, of t] by (cases "insert_hash t s") simp
next
  case (LeaveTopic p t)
  then show ?thesis using leave_topic_refines [OF assms, of p t] by (cases "leave_topic p t s") simp
next
  case (SubscribeStore t n)
  then show ?thesis using store_subscribe_refines [OF assms, of t n] by (cases "store_subscribe_topic t n s") simp
qed

interpretation topic_store: data_refinement topic_store_step topic_spec_step topic_abs "\<lambda>r. r" topic_inv
  by unfold_locales (rule topic_step_refines)

lemma topic_abs_default: "topic_abs mem_topic_store_default = topic_spec_empty" "topic_inv mem_topic_store_default"
  by (auto simp: topic_abs_def topic_spec_empty_def mem_topic_store_default_def try_map_def participants_def
      subscribed_topics_def topic_inv_alt)

section \<open>Properties\<close>

text \<open>
  C8. The topic store implements its specification. Any sequence of operations on an empty store
  returns (the \<open>unreachable!\<close> of \<open>join_topic\<close> is never reached) and gives the answers of the
  specification; afterwards the names, members and subscriptions are those of the specification,
  and no topic is listed both as readable and as hash-only. In particular a topic that gets its
  name later keeps its members, and a name once known is never replaced.
\<close>

theorem topic_store_refines:
  "\<exists>rs s. run_ops topic_store_step ops mem_topic_store_default = Returns (rs, s)
    \<and> run_spec topic_spec_step ops topic_spec_empty = (rs, topic_abs s)
    \<and> set (map fst (readable_topics s)) \<inter> set (hash_topics s) = {}"
  using topic_store.run_refines [OF topic_abs_default(2), of ops]
  by (auto simp: topic_abs_default(1) topic_inv_def)

section \<open>The handle and the behaviour\<close>

text \<open>
  Documented behaviour of \<open>libp2p::gossipsub::Behaviour\<close>, with \<open>topics\<close> the set of topics it is
  subscribed to: \<open>subscribe\<close> answers \<open>Ok(true)\<close> when the subscription worked and \<open>Ok(false)\<close> when
  it existed, \<open>unsubscribe\<close> whether it existed; nothing else changes the subscriptions.
\<close>

definition gossip_api_ok :: "'b gossip_api \<Rightarrow> ('b \<Rightarrow> topic_hash set) \<Rightarrow> bool" where
  "gossip_api_ok api topics \<longleftrightarrow>
     (\<forall>t b r b'. ga_subscribe api t b = (r, b') \<longrightarrow>
        (r = Inr True \<longrightarrow> t \<notin> topics b \<and> topics b' = insert t (topics b))
        \<and> (r = Inr False \<longrightarrow> t \<in> topics b \<and> topics b' = topics b)
        \<and> (\<forall>e. r = Inl e \<longrightarrow> topics b' = topics b))
   \<and> (\<forall>t b r b'. ga_unsubscribe api t b = (r, b') \<longrightarrow> r = (t \<in> topics b) \<and> topics b' = topics b - {t})
   \<and> (\<forall>t m b. topics (snd (ga_publish api t m b)) = topics b)"

datatype handle_op =
    HSubscribe string
  | HSubscribeHash topic_hash
  | HUnsubscribe string
  | HUnsubscribeHash topic_hash
  | HPublish topic_hash "u8 list"

datatype handle_result =
    RSubscribe "subscription_error + bool"
  | RUnsubscribe bool
  | RPublish "publish_error + message_id"

fun handle_step :: "(string \<Rightarrow> topic_hash) \<Rightarrow> 'b gossip_api \<Rightarrow> handle_op \<Rightarrow> 'b gossip_node \<Rightarrow> (handle_result \<times> 'b gossip_node) outcome" where
  "handle_step H api (HSubscribe s) n = and_then (subscribe_topic H api s n) (\<lambda>(r, n'). Returns (RSubscribe r, n'))"
| "handle_step H api (HSubscribeHash t) n = and_then (subscribe_topic_hash api t n) (\<lambda>(r, n'). Returns (RSubscribe r, n'))"
| "handle_step H api (HUnsubscribe s) n = and_then (unsubscribe_topic H api s n) (\<lambda>(r, n'). Returns (RUnsubscribe r, n'))"
| "handle_step H api (HUnsubscribeHash t) n = and_then (unsubscribe_topic_hash api t n) (\<lambda>(r, n'). Returns (RUnsubscribe r, n'))"
| "handle_step H api (HPublish t m) n = and_then (publish_message api t m n) (\<lambda>(r, n'). Returns (RPublish r, n'))"

text \<open>The messages a sequence of calls published, with their topics.\<close>

fun published :: "handle_op \<times> handle_result \<Rightarrow> (topic_hash \<times> message_record) list" where
  "published (HPublish t m, RPublish (Inr i)) = [(t, Local m)]"
| "published _ = []"

lemma set_store_subscribe [simp]: "set (mt_subscribed (snd (store_subscribe_topic t n s))) = insert t (set (mt_subscribed s))"
  by (auto simp: store_subscribe_topic_def Let_def hs_contains_def split: option.split)

lemma set_store_unsubscribe [simp]: "set (mt_subscribed (snd (store_unsubscribe_topic t s))) = set (mt_subscribed s) - {t}"
  by (simp add: store_unsubscribe_topic_def)

lemmas handle_defs = subscribe_topic_hash_def subscribe_topic_def unsubscribe_topic_hash_def unsubscribe_topic_def
  publish_message_def gossip_call_def

lemma handle_step_returns: "\<exists>r n'. handle_step H api op n = Returns (r, n')"
  by (cases op) (auto simp: handle_defs split: prod.split)

lemma handle_step_agrees:
  assumes "gossip_api_ok api topics" and "handle_step H api op n = Returns (r, n')"
    and "set (mt_subscribed (gn_topic_store n)) = topics (gn_behaviour n)"
  shows "set (mt_subscribed (gn_topic_store n')) = topics (gn_behaviour n')"
proof -
  have sub: "ga_subscribe api t b = (r, b') \<Longrightarrow>
      topics b' = (if r = Inr True then insert t (topics b) else topics b)" for t b r b'
    using assms(1) unfolding gossip_api_ok_def by (cases r) (metis (full_types))+
  have unsub: "ga_unsubscribe api t b = (r, b') \<Longrightarrow> topics b' = (if r then topics b - {t} else topics b)" for t b r b'
    using assms(1) unfolding gossip_api_ok_def by (metis Diff_empty Diff_insert0)
  have pub: "ga_publish api t m b = (r, b') \<Longrightarrow> topics b' = topics b" for t m b r b'
    using assms(1) unfolding gossip_api_ok_def by (metis snd_conv)
  show ?thesis
    using assms(2,3)
    by (cases op) (auto simp: handle_defs dest!: sub unsub pub split: prod.splits if_splits sum.splits)
qed

lemma handle_step_history:
  assumes "handle_step H api op n = Returns (r, n')"
  shows "gn_message_store n' = fold (\<lambda>(t, m). gms_insert_message t m) (published (op, r)) (gn_message_store n)"
  using assms by (cases op) (auto simp: handle_defs split: prod.splits if_splits sum.splits)

text \<open>
  C13. The stores of the gossipsub handle tell the truth. Whatever sequence of subscriptions,
  unsubscriptions and publications is made through a new handle, every call returns; afterwards the
  store lists exactly the topics the libp2p behaviour is subscribed to, and the messages stored for
  a topic are exactly those that were published on it successfully through the handle, in order.
\<close>

theorem gossip_stores_agree:
  assumes "gossip_api_ok api topics" and "topics b = {}"
  shows "\<exists>rs n. run_ops (handle_step H api) ops (gossip_node_new b) = Returns (rs, n)
    \<and> set (subscribed_topics (gn_topic_store n)) = topics (gn_behaviour n)
    \<and> gms_get_messages (gn_message_store n) t =
        (let ms = log_of t (concat (map published (zip ops rs))) in if ms = [] then None else Some ms)"
proof -
  have run: "\<exists>rs n'. run_ops (handle_step H api) ops n = Returns (rs, n')
      \<and> set (mt_subscribed (gn_topic_store n')) = topics (gn_behaviour n')
      \<and> gn_message_store n' = fold (\<lambda>(t, m). gms_insert_message t m) (concat (map published (zip ops rs))) (gn_message_store n)"
    if "set (mt_subscribed (gn_topic_store n)) = topics (gn_behaviour n)" for ops n
    using that
  proof (induction ops arbitrary: n)
    case (Cons op ops)
    obtain r n1 where 1: "handle_step H api op n = Returns (r, n1)" using handle_step_returns by blast
    then have "set (mt_subscribed (gn_topic_store n1)) = topics (gn_behaviour n1)"
      by (rule handle_step_agrees [OF assms(1) _ Cons.prems])
    from Cons.IH [OF this] 1 handle_step_history [OF 1] show ?case by auto
  qed simp
  obtain rs n where n: "run_ops (handle_step H api) ops (gossip_node_new b) = Returns (rs, n)"
    "set (mt_subscribed (gn_topic_store n)) = topics (gn_behaviour n)"
    "gn_message_store n = fold (\<lambda>(t, m). gms_insert_message t m) (concat (map published (zip ops rs))) []"
    using run [of "gossip_node_new b" ops] assms(2) by (auto simp: gossip_node_new_def mem_topic_store_default_def)
  then show ?thesis
    using gms.history_fold [of "concat (map published (zip ops rs))" "[]" t]
    by (auto simp: subscribed_topics_def Let_def gms_get_messages_def)
qed

text \<open>A small behaviour with the documented answers: its state is the list of its topics.\<close>

definition demo_gossip :: "topic_hash list gossip_api" where
  "demo_gossip = \<lparr>ga_subscribe = (\<lambda>t b. (Inr (t \<notin> set b), List.insert t b)),
     ga_unsubscribe = (\<lambda>t b. (t \<in> set b, removeAll t b)),
     ga_publish = (\<lambda>t m b. (if t \<in> set b then Inr (MessageId m) else Inl InsufficientPeers, b)),
     ga_mesh_peers = (\<lambda>t b. []), ga_all_peers = (\<lambda>b. []),
     ga_blacklist_peer = (\<lambda>p b. b), ga_remove_blacklisted_peer = (\<lambda>p b. b)\<rparr>"

lemma demo_gossip_ok: "gossip_api_ok demo_gossip set"
  by (auto simp: gossip_api_ok_def demo_gossip_def)

theorem gossip_stores_agree_witness:
  "\<exists>rs n. run_ops (handle_step TopicHash demo_gossip)
        [HSubscribe ''a'', HPublish (TopicHash ''a'') [7], HPublish (TopicHash ''b'') [8]] (gossip_node_new []) = Returns (rs, n)
    \<and> gms_get_messages (gn_message_store n) (TopicHash ''a'') = Some [Local [7]]"
proof -
  obtain rs n where run: "run_ops (handle_step TopicHash demo_gossip)
        [HSubscribe ''a'', HPublish (TopicHash ''a'') [7], HPublish (TopicHash ''b'') [8]] (gossip_node_new []) = Returns (rs, n)"
    and msgs: "gms_get_messages (gn_message_store n) (TopicHash ''a'') =
      (let ms = log_of (TopicHash ''a'') (concat (map published (zip
         [HSubscribe ''a'', HPublish (TopicHash ''a'') [7], HPublish (TopicHash ''b'') [8]] rs))) in if ms = [] then None else Some ms)"
    using gossip_stores_agree [OF demo_gossip_ok, of "[]"] by fastforce
  from run have "rs = [RSubscribe (Inr True), RPublish (Inr (MessageId [7])), RPublish (Inl InsufficientPeers)]"
    by (auto simp: handle_defs demo_gossip_def gossip_node_new_def and_then_Returns_iff)
  with run msgs show ?thesis
    by (auto simp: log_of_def)
qed

text \<open>
  When a topic gets its name. A call of \<open>subscribe_topic\<close> with a topic string records the name
  (unless one is known already) exactly when the behaviour answers \<open>Ok(true)\<close>, and it always keeps
  the members known for the topic; a topic that is already subscribed through its hash therefore
  stays nameless when it is subscribed again by its name.
\<close>

theorem gossip_name_recorded_iff:
  assumes "topic_inv (gn_topic_store n)" and "subscribe_topic H api s n = Returns (r, n')"
  shows "try_map (H s) (gn_topic_store n') =
      (if r = Inr True \<and> try_map (H s) (gn_topic_store n) = None then Some s else try_map (H s) (gn_topic_store n))
    \<and> tp_members_of (topic_abs (gn_topic_store n')) (H s) = tp_members_of (topic_abs (gn_topic_store n)) (H s)"
proof -
  let ?st = "gn_topic_store n" and ?st' = "gn_topic_store n'"
  define u where "u = snd (store_subscribe_topic (H s) None ?st)"
  define v where "v = snd (store_subscribe_topic (H s) (Some s) u)"
  have u: "topic_inv u" "topic_abs u = snd (topic_spec_step (SubscribeStore (H s) None) (topic_abs ?st))"
    using store_subscribe_refines [OF assms(1), of "H s" None] by (simp_all add: u_def del: topic_spec_step.simps)
  have v: "topic_abs v = snd (topic_spec_step (SubscribeStore (H s) (Some s)) (topic_abs u))"
    using store_subscribe_refines [OF u(1), of "H s" "Some s"] by (simp add: v_def del: topic_spec_step.simps)
  have st': "?st' = (if r = Inr True then v else ?st)"
    using assms(2) by (auto simp: handle_defs u_def v_def split: prod.splits if_splits)
  have name: "try_map t w = tp_names (topic_abs w) t" for t w
    by (simp add: try_map_def)
  show ?thesis
    unfolding name st' using v u(2)
    by (auto simp: tp_name_def tp_touch_def tp_members_of_def simp del: topic_abs_simps split: option.split)
qed

theorem gossip_name_recorded_iff_witness:
  "\<exists>n1 n2. subscribe_topic_hash demo_gossip (TopicHash ''a'') (gossip_node_new []) = Returns (Inr True, n1)
    \<and> subscribe_topic TopicHash demo_gossip ''a'' n1 = Returns (Inr False, n2)
    \<and> try_map (TopicHash ''a'') (gn_topic_store n2) = None"
proof -
  define n1 where "n1 = \<lparr>gn_behaviour = [TopicHash ''a''],
    gn_topic_store = \<lparr>mt_populated = [], mt_vacant = [(TopicHash ''a'', [])], mt_subscribed = [TopicHash ''a'']\<rparr>, gn_message_store = []\<rparr>"
  have 1: "subscribe_topic_hash demo_gossip (TopicHash ''a'') (gossip_node_new []) = Returns (Inr True, n1)"
    by (simp add: n1_def handle_defs demo_gossip_def gossip_node_new_def mem_topic_store_default_def
        store_subscribe_topic_def insert_hash_def owl_simps)
  have 2: "subscribe_topic TopicHash demo_gossip ''a'' n1 = Returns (Inr False, n1)"
    by (simp add: n1_def handle_defs demo_gossip_def)
  have "topic_inv (gn_topic_store n1)"
    by (simp add: n1_def topic_inv_def readable_topics_def hash_topics_def hm_wf_def hs_wf_def)
  from gossip_name_recorded_iff [OF this 2] 1 2 show ?thesis
    by (auto simp: n1_def try_map_def)
qed

end
