(* ===== verification/Identity.thy ===== *)
theory Identity
  imports Owl_Prelude
begin

text \<open>
  Identities and start-up: \<open>owlnest/src/net/p2p/identity.rs\<close>, and \<open>get_ident\<close>, \<open>read_config\<close> and the
  choice of the identity in \<open>owlnest/src/main.rs\<close>. The disk is part of the state, its faults are an
  argument. Keys, their protobuf encoding and TOML are foreign and stand in records of functions.
\<close>

section \<open>The disk\<close>

type_synonym disk = "string \<rightharpoonup> u8 list"

text \<open>
  Which calls fail: opening a file, reading it as a whole, creating (and truncating) one, and
  writing to it, where a \<open>write_all\<close> that fails has stored the given number of bytes and a plain
  \<open>write\<close> may store a part only. \<open>de_text\<close> is the text that \<open>read_to_string\<close> leaves in its buffer.
\<close>

record disk_env =
  de_open :: "string \<Rightarrow> io_error option"
  de_text :: "string \<Rightarrow> u8 list \<Rightarrow> u8 list"
  de_read :: "string \<Rightarrow> io_error option"
  de_create :: "string \<Rightarrow> io_error option"
  de_write_all :: "string \<Rightarrow> (nat \<times> io_error) option"
  de_write :: "string \<Rightarrow> nat \<Rightarrow> io_error + nat"

definition fs_read :: "disk_env \<Rightarrow> string \<Rightarrow> disk \<Rightarrow> io_error + u8 list" where
  "fs_read env path d =
     (case de_read env path of
        Some e \<Rightarrow> Inl e
      | None \<Rightarrow> (case d path of None \<Rightarrow> Inl (IoError NotFound []) | Some bytes \<Rightarrow> Inr bytes))"

definition fs_create :: "disk_env \<Rightarrow> string \<Rightarrow> disk \<Rightarrow> (io_error + unit) \<times> disk" where
  "fs_create env path d =
     (case de_create env path of Some e \<Rightarrow> (Inl e, d) | None \<Rightarrow> (Inr (), d(path \<mapsto> [])))"

definition fs_write_all :: "disk_env \<Rightarrow> string \<Rightarrow> u8 list \<Rightarrow> disk \<Rightarrow> (io_error + unit) \<times> disk" where
  "fs_write_all env path buf d =
     (case de_write_all env path of
        Some (n, e) \<Rightarrow> (Inl e, d(path \<mapsto> take n buf))
      | None \<Rightarrow> (Inr (), d(path \<mapsto> buf)))"

section \<open>Identities\<close>

record ('k, 'p) crypto =
  cr_public :: "'k \<Rightarrow> 'p"
  cr_peer_id :: "'p \<Rightarrow> peer_id"
  cr_encode :: "'k \<Rightarrow> u8 list option"
  cr_decode :: "u8 list \<Rightarrow> 'k option"
  cr_encode_public :: "'p \<Rightarrow> u8 list"

record 'k identity_union =
  iu_keypair :: 'k
  iu_peer_id :: peer_id

text \<open>\<open>generate\<close> draws a fresh key pair, which is an argument.\<close>

definition identity_generate :: "('k, 'p) crypto \<Rightarrow> 'k \<Rightarrow> 'k identity_union" where
  "identity_generate cr fresh = \<lparr>iu_keypair = fresh, iu_peer_id = cr_peer_id cr (cr_public cr fresh)\<rparr>"

definition identity_from :: "('k, 'p) crypto \<Rightarrow> 'k \<Rightarrow> 'k identity_union" where
  "identity_from cr value = \<lparr>iu_keypair = value, iu_peer_id = cr_peer_id cr (cr_public cr value)\<rparr>"

definition get_pubkey :: "('k, 'p) crypto \<Rightarrow> 'k identity_union \<Rightarrow> 'p" where
  "get_pubkey cr i = cr_public cr (iu_keypair i)"

definition get_keypair :: "'k identity_union \<Rightarrow> 'k" where
  "get_keypair i = iu_keypair i"

definition get_peer_id :: "'k identity_union \<Rightarrow> peer_id" where
  "get_peer_id i = iu_peer_id i"

text \<open>\<open>from_file_protobuf_encoding\<close>; the two kinds of error are boxed, so only their texts are left.\<close>

datatype identity_error = ReadError io_error | DecodingError

definition from_file_protobuf_encoding ::
  "('k, 'p) crypto \<Rightarrow> disk_env \<Rightarrow> string \<Rightarrow> disk \<Rightarrow> identity_error + 'k identity_union" where
  "from_file_protobuf_encoding cr env path d =
     (case fs_read env path d of
        Inl e \<Rightarrow> Inl (ReadError e)
      | Inr buf \<Rightarrow>
          (case cr_decode cr buf of
             None \<Rightarrow> Inl DecodingError
           | Some keypair \<Rightarrow> Inr \<lparr>iu_keypair = keypair, iu_peer_id = cr_peer_id cr (cr_public cr keypair)\<rparr>))"

definition export_to_file :: "disk_env \<Rightarrow> string \<Rightarrow> u8 list \<Rightarrow> disk \<Rightarrow> (io_error + unit) \<times> disk" where
  "export_to_file env path buf d =
     (case fs_create env path d of
        (Inl e, d') \<Rightarrow> (Inl e, d')
      | (Inr _, d') \<Rightarrow> fs_write_all env path buf d')"

definition export_public_key ::
  "('k, 'p) crypto \<Rightarrow> disk_env \<Rightarrow> 'k identity_union \<Rightarrow> string \<Rightarrow> disk \<Rightarrow> (io_error + unit) \<times> disk" where
  "export_public_key cr env i path d = export_to_file env path (cr_encode_public cr (get_pubkey cr i)) d"

definition export_keypair ::
  "('k, 'p) crypto \<Rightarrow> disk_env \<Rightarrow> 'k identity_union \<Rightarrow> string \<Rightarrow> disk \<Rightarrow> ((io_error + unit) \<times> disk) outcome" where
  "export_keypair cr env i path d =
     (case cr_encode cr (iu_keypair i) of
        None \<Rightarrow> Panics
      | Some buf \<Rightarrow> Returns (export_to_file env path buf d))"

section \<open>Start-up\<close>

definition get_ident ::
  "('k, 'p) crypto \<Rightarrow> disk_env \<Rightarrow> 'k \<Rightarrow> string \<Rightarrow> disk \<Rightarrow> ((io_error + 'k identity_union) \<times> disk) outcome" where
  "get_ident cr env fresh path d =
     (case from_file_protobuf_encoding cr env path d of
        Inr ident \<Rightarrow> Returns (Inr ident, d)
      | Inl e \<Rightarrow>
          (let ident = identity_generate cr fresh in
           and_then (export_keypair cr env ident path d) (\<lambda>(r, d').
             Returns (case r of Inl e \<Rightarrow> Inl e | Inr _ \<Rightarrow> Inr ident, d'))))"

text \<open>The identity \<open>main\<close> starts the peer with.\<close>

definition main_ident ::
  "('k, 'p) crypto \<Rightarrow> disk_env \<Rightarrow> 'k \<Rightarrow> string \<Rightarrow> disk \<Rightarrow> ((io_error + 'k identity_union) \<times> disk) outcome" where
  "main_ident cr env fresh identity_path d =
     (if identity_path \<noteq> [] then get_ident cr env fresh identity_path d
      else Returns (Inr (identity_generate cr fresh), d))"

record 'c toml =
  toml_from_str :: "u8 list \<Rightarrow> 'c option"
  toml_to_string_pretty :: "'c \<Rightarrow> u8 list"

definition example_path :: string where
  "example_path = ''./owlnest_config.toml.example''"

text \<open>
  \<open>read_config\<close>: a failed \<open>read_to_string\<close> is reported, then what was read is parsed; the example
  is written with a single \<open>write\<close>.
\<close>

definition write_example :: "'c toml \<Rightarrow> 'c \<Rightarrow> disk_env \<Rightarrow> disk \<Rightarrow> disk" where
  "write_example toml default_config env d =
     (case fs_create env example_path d of
        (Inl _, d1) \<Rightarrow> d1
      | (Inr _, d1) \<Rightarrow>
          (let buf = toml_to_string_pretty toml default_config
           in case de_write env example_path (length buf) of
                Inl _ \<Rightarrow> d1
              | Inr n \<Rightarrow> d1(example_path \<mapsto> take n buf)))"

definition read_config ::
  "'c toml \<Rightarrow> 'c \<Rightarrow> disk_env \<Rightarrow> string \<Rightarrow> disk \<Rightarrow> (io_error + 'c) \<times> disk" where
  "read_config toml default_config env path d =
     (let opened = (case de_open env path of Some _ \<Rightarrow> None | None \<Rightarrow> d path)
      in case Option.bind opened (\<lambda>bytes. toml_from_str toml (de_text env path bytes)) of
           Some v \<Rightarrow> (Inr v, d)
         | None \<Rightarrow> (Inl (IoError InvalidData [Lit ''Cannot read configuration file'']),
                    write_example toml default_config env d))"

section \<open>Properties\<close>

text \<open>Documented behaviour of the encoding: a key that can be encoded is decoded to itself.\<close>

definition key_codec :: "('k, 'p) crypto \<Rightarrow> bool" where
  "key_codec cr \<longleftrightarrow> (\<forall>k buf. cr_encode cr k = Some buf \<longrightarrow> cr_decode cr buf = Some k)"

definition identity_ok :: "('k, 'p) crypto \<Rightarrow> 'k identity_union \<Rightarrow> bool" where
  "identity_ok cr i \<longleftrightarrow> get_peer_id i = cr_peer_id cr (get_pubkey cr i)"

lemma identity_ok_constructors [simp]:
  "identity_ok cr (identity_generate cr k)"
  "identity_ok cr (identity_from cr k)"
  "from_file_protobuf_encoding cr env path d = Inr i \<Longrightarrow> identity_ok cr i"
  by (auto simp: identity_ok_def identity_generate_def identity_from_def get_peer_id_def get_pubkey_def
      from_file_protobuf_encoding_def split: sum.splits option.splits)

lemma from_file_no_fault:
  "de_read env path = None \<Longrightarrow> d path = Some buf \<Longrightarrow> cr_decode cr buf = Some k \<Longrightarrow>
   from_file_protobuf_encoding cr env path d = Inr (identity_generate cr k)"
  by (simp add: from_file_protobuf_encoding_def fs_read_def identity_generate_def)

lemma from_file_decodes:
  "from_file_protobuf_encoding cr env path d = Inr i \<Longrightarrow>
   \<exists>buf k. d path = Some buf \<and> cr_decode cr buf = Some k \<and> i = identity_generate cr k"
  by (auto simp: from_file_protobuf_encoding_def fs_read_def identity_generate_def split: sum.splits option.splits)

lemma get_ident_stored:
  assumes "key_codec cr" and "get_ident cr env fresh path d = Returns (Inr i, d')"
  shows "\<exists>buf k. d' path = Some buf \<and> cr_decode cr buf = Some k \<and> i = identity_generate cr k"
proof (cases "from_file_protobuf_encoding cr env path d")
  case (Inr j)
  with assms(2) from_file_decodes [OF Inr] show ?thesis
    by (simp add: get_ident_def)
next
  case (Inl e)
  with assms(2) obtain buf where "cr_encode cr fresh = Some buf" "d' = d(path \<mapsto> buf)" "i = identity_generate cr fresh"
    by (auto simp: get_ident_def export_keypair_def export_to_file_def fs_create_def fs_write_all_def identity_generate_def
        Let_def split: option.splits sum.splits)
  with assms(1) show ?thesis
    by (auto simp: key_codec_def)
qed

lemma get_ident_ok: "get_ident cr env fresh path d = Returns (Inr i, d') \<Longrightarrow> identity_ok cr i"
  by (cases "from_file_protobuf_encoding cr env path d")
    (auto simp: get_ident_def and_then_Returns_iff Let_def split: sum.splits, metis sum.exhaust old.unit.exhaust)

lemma get_ident_again:
  assumes "key_codec cr" and "get_ident cr env fresh path d = Returns (Inr i, d')"
    and "de_read env' path = None" and "d'' path = d' path"
  shows "get_ident cr env' fresh' path d'' = Returns (Inr i, d'')"
  using get_ident_stored [OF assms(1,2)] assms(3,4) by (auto simp: get_ident_def from_file_no_fault)

text \<open>
  A peer keeps its identity across restarts. When \<open>get_ident\<close> succeeds the identity it returns
  is consistent (its peer id belongs to its key) and the key file then holds that identity, so every
  later start that can read the file returns the same identity and leaves the disk alone. The
  price: whenever the file could not be read or decoded, whatever the reason, what it held before
  is replaced by the fresh key.
\<close>

theorem identity_survives_restart:
  assumes codec: "key_codec cr" and start: "get_ident cr env fresh path d = Returns (Inr i, d')"
  shows "identity_ok cr i
    \<and> (\<forall>env' fresh'. de_read env' path = None \<longrightarrow> get_ident cr env' fresh' path d' = Returns (Inr i, d'))
    \<and> (isl (from_file_protobuf_encoding cr env path d) \<longrightarrow> d' path = cr_encode cr fresh \<and> i = identity_generate cr fresh)"
proof -
  have "d' path = cr_encode cr fresh \<and> i = identity_generate cr fresh" if "isl (from_file_protobuf_encoding cr env path d)"
    using start that
    by (auto simp: get_ident_def export_keypair_def export_to_file_def fs_create_def fs_write_all_def identity_generate_def
        isl_def Let_def split: option.splits sum.splits)
  then show ?thesis
    using get_ident_ok [OF start] get_ident_again [OF codec start] by blast
qed

text \<open>Keys that are their own encoding, as one byte.\<close>

definition demo_crypto :: "(u8, u8) crypto" where
  "demo_crypto = \<lparr>cr_public = \<lambda>k. k, cr_peer_id = \<lambda>p. PeerId [p], cr_encode = \<lambda>k. Some [k],
     cr_decode = \<lambda>buf. (case buf of [k] \<Rightarrow> Some k | _ \<Rightarrow> None), cr_encode_public = \<lambda>p. [p]\<rparr>"

definition demo_disk_env :: disk_env where
  "demo_disk_env = \<lparr>de_open = \<lambda>_. None, de_text = \<lambda>_ b. b, de_read = \<lambda>_. None, de_create = \<lambda>_. None,
     de_write_all = \<lambda>_. None, de_write = \<lambda>_ n. Inr n\<rparr>"

theorem identity_survives_restart_witness:
  "get_ident demo_crypto demo_disk_env 7 ''id'' [''id'' \<mapsto> [1, 2]] =
     Returns (Inr (identity_generate demo_crypto 7), [''id'' \<mapsto> [7]])
   \<and> get_ident demo_crypto demo_disk_env 8 ''id'' [''id'' \<mapsto> [7]] =
     Returns (Inr (identity_generate demo_crypto 7), [''id'' \<mapsto> [7]])"
proof -
  have codec: "key_codec demo_crypto"
    by (simp add: key_codec_def demo_crypto_def)
  have first: "get_ident demo_crypto demo_disk_env 7 ''id'' [''id'' \<mapsto> [1, 2]] =
      Returns (Inr (identity_generate demo_crypto 7), [''id'' \<mapsto> [7]])"
    by (simp add: get_ident_def from_file_protobuf_encoding_def fs_read_def export_keypair_def export_to_file_def
        fs_create_def fs_write_all_def identity_generate_def demo_crypto_def demo_disk_env_def)
  have readable: "de_read demo_disk_env ''id'' = None"
    by (simp add: demo_disk_env_def)
  from identity_survives_restart [OF codec first] readable first show ?thesis
    by blast
qed

text \<open>The configuration is only read: no file but the example is ever written.\<close>

lemma write_example_other: "p \<noteq> example_path \<Longrightarrow> write_example toml c env d p = d p"
  by (simp add: write_example_def fs_create_def Let_def split: option.split sum.split)

lemma read_config_preserves:
  "p \<noteq> example_path \<Longrightarrow> snd (read_config toml c env path d) p = d p"
  unfolding read_config_def Let_def
  by (cases "Option.bind (case de_open env path of Some _ \<Rightarrow> None | None \<Rightarrow> d path)
        (\<lambda>bytes. toml_from_str toml (de_text env path bytes))") (simp_all add: write_example_other)

end
