(* ===== verification/Command_Line.thy ===== *)
theory Command_Line
  imports Shell Gossip_Claims Identity
begin

text \<open>
  The command line as a whole (\<open>owlnest/src/cli/mod.rs\<close> and \<open>cli/utils.rs\<close>): the remaining methods
  of the gossipsub handle and its subcommands (\<open>gossipsub.rs\<close>), the listeners that print messages and
  relay reservations (\<open>messaging.rs\<close>, \<open>relay_client.rs\<close>), the dispatch of a line to a subcommand
  and the thread that reads the lines. Splitting a line into words (shlex) and parsing the words
  (clap) are parameters.
\<close>

section \<open>Gossipsub\<close>

text \<open>\<open>impl Display for HashType\<close>: the name that clap derives for the variant.\<close>

fun hash_type_fmt :: "hash_type \<Rightarrow> string" where
  "hash_type_fmt Sha256 = ''sha256''"
| "hash_type_fmt Identity = ''identity''"

lemma hash_type_roundtrip: "hash_type_from_str (hash_type_fmt h) = Inr h"
  by (cases h) (simp_all add: hash_type_from_str_def)

definition ban_peer :: "'b gossip_api \<Rightarrow> peer_id \<Rightarrow> 'b gossip_node \<Rightarrow> 'b gossip_node" where
  "ban_peer api peer n = snd (gossip_call api (BanPeer peer) n)"

definition unban_peer :: "'b gossip_api \<Rightarrow> peer_id \<Rightarrow> 'b gossip_node \<Rightarrow> 'b gossip_node" where
  "unban_peer api peer n = snd (gossip_call api (UnbanPeer peer) n)"

definition mesh_peers_of_topic :: "'b gossip_api \<Rightarrow> topic_hash \<Rightarrow> 'b gossip_node \<Rightarrow> (peer_id list \<times> 'b gossip_node) outcome" where
  "mesh_peers_of_topic api topic n =
     (case gossip_call api (MeshPeersOfTopic topic 0) n of
        (ReplyMeshPeers _ list # _, n') \<Rightarrow> Returns (list, n')
      | _ \<Rightarrow> Panics)"

definition all_peers_with_topic :: "'b gossip_api \<Rightarrow> 'b gossip_node \<Rightarrow> ((peer_id \<times> topic_hash list) list \<times> 'b gossip_node) outcome" where
  "all_peers_with_topic api n =
     (case gossip_call api (AllPeersWithTopic 0) n of
        (ReplyAllPeers _ list # _, n') \<Rightarrow> Returns (list, n')
      | _ \<Rightarrow> Panics)"

definition handle_message_store :: "'b gossip_node \<Rightarrow> gossip_message_store" where
  "handle_message_store n = gn_message_store n"

definition handle_topic_store :: "'b gossip_node \<Rightarrow> mem_topic_store" where
  "handle_topic_store n = gn_topic_store n"

definition dquote :: fmt where
  "dquote = Lit [CHR 0x22]"

datatype gossipsub_command =
    GsSubscribe sub_unsub_command
  | GsUnsubscribe sub_unsub_command
  | GsPublish publish_command
  | GsBan peer_id
  | GsUnban peer_id
  | GsAllPeersWithTopic
  | GsMeshPeersOfTopic sub_unsub_command

datatype gossip_output =
    GsPrintln rust_text
  | PeerTopicTable "(peer_id \<times> topic_hash list) list"
  | MeshTable topic_hash "peer_id list"

text \<open>What libp2p and the standard library provide to the subcommands: the hashers and renderings.\<close>

record gossip_text =
  gt_sha256 :: "string \<Rightarrow> topic_hash"
  gt_identity :: "string \<Rightarrow> topic_hash"
  gt_subscription_error :: "subscription_error \<Rightarrow> string"
  gt_publish_error :: "publish_error \<Rightarrow> string"
  gt_message_id :: "message_id \<Rightarrow> string"

fun handle_gossipsub ::
  "gossip_text \<Rightarrow> 'b gossip_api \<Rightarrow> gossipsub_command \<Rightarrow> 'b gossip_node \<Rightarrow> (gossip_output \<times> 'b gossip_node) outcome" where
  "handle_gossipsub tt api (GsSubscribe command) n =
     (let topic_hash = sub_unsub_destruct (gt_sha256 tt) (gt_identity tt) command in
      and_then (subscribe_topic_hash api topic_hash n) (\<lambda>(result, n').
        Returns (GsPrintln
          (case result of
             Inr True \<Rightarrow> [Lit ''Successfully subscribed to the topic '', dquote, ArgStr (topic_hash_str topic_hash), dquote]
           | Inr False \<Rightarrow> [Lit ''Already subscribed to the topic '', dquote, ArgStr (topic_hash_str topic_hash), dquote]
           | Inl e \<Rightarrow> [Lit ''Unable to subscribe to the topic: '', ArgForeign (gt_subscription_error tt e)]), n')))"
| "handle_gossipsub tt api (GsUnsubscribe command) n =
     (let topic_hash = sub_unsub_destruct (gt_sha256 tt) (gt_identity tt) command in
      and_then (unsubscribe_topic_hash api topic_hash n) (\<lambda>(result, n').
        Returns (GsPrintln
          (if result then [Lit ''Successfully unsubscribed from the topic '', dquote, ArgStr (topic_hash_str topic_hash), dquote]
           else [Lit ''Topic '', dquote, ArgStr (topic_hash_str topic_hash), dquote, Lit '' not subscribed previously.'']), n')))"
| "handle_gossipsub tt api (GsPublish command) n =
     (let (topic_hash, message) = publish_destruct (gt_sha256 tt) (gt_identity tt) command in
      and_then (publish_message api topic_hash message n) (\<lambda>(result, n').
        Returns (GsPrintln
          (case result of
             Inr v \<Rightarrow> [Lit ''Message published with Id '', ArgForeign (gt_message_id tt v)]
           | Inl e \<Rightarrow> [Lit ''Unable to publish to the topic: '', ArgForeign (gt_publish_error tt e)]), n')))"
| "handle_gossipsub tt api (GsBan peer) n = Returns (GsPrintln [Lit ''OK''], ban_peer api peer n)"
| "handle_gossipsub tt api (GsUnban peer) n = Returns (GsPrintln [Lit ''OK''], unban_peer api peer n)"
| "handle_gossipsub tt api GsAllPeersWithTopic n =
     and_then (all_peers_with_topic api n) (\<lambda>(list, n'). Returns (PeerTopicTable list, n'))"
| "handle_gossipsub tt api (GsMeshPeersOfTopic command) n =
     (let topic_hash = sub_unsub_destruct (gt_sha256 tt) (gt_identity tt) command in
      and_then (mesh_peers_of_topic api topic_hash n) (\<lambda>(list, n'). Returns (MeshTable topic_hash list, n')))"

lemma gossip_methods_return:
  "\<exists>r n'. subscribe_topic_hash api th n = Returns (r, n')"
  "\<exists>r n'. unsubscribe_topic_hash api th n = Returns (r, n')"
  "\<exists>r n'. publish_message api th message n = Returns (r, n')"
  "mesh_peers_of_topic api th n = Returns (ga_mesh_peers api th (gn_behaviour n), n)"
  "all_peers_with_topic api n = Returns (ga_all_peers api (gn_behaviour n), n)"
  by (auto simp: subscribe_topic_hash_def unsubscribe_topic_hash_def publish_message_def mesh_peers_of_topic_def
      all_peers_with_topic_def gossip_call_def split: prod.splits)

lemma handle_gossipsub_returns: "\<exists>out n'. handle_gossipsub tt api command n = Returns (out, n')"
proof (cases command)
  case (GsSubscribe c)
  then show ?thesis
    using gossip_methods_return(1) [of api "sub_unsub_destruct (gt_sha256 tt) (gt_identity tt) c" n] by (auto simp: Let_def)
next
  case (GsUnsubscribe c)
  then show ?thesis
    using gossip_methods_return(2) [of api "sub_unsub_destruct (gt_sha256 tt) (gt_identity tt) c" n] by (auto simp: Let_def)
next
  case (GsPublish c)
  obtain th m where d: "publish_destruct (gt_sha256 tt) (gt_identity tt) c = (th, m)"
    by (cases "publish_destruct (gt_sha256 tt) (gt_identity tt) c")
  then show ?thesis
    using GsPublish gossip_methods_return(3) [of api th m n] by auto
qed (simp_all add: gossip_methods_return(4,5) Let_def)

text \<open>
  The subcommand keeps only the hash of a topic that is given by its name: the name of a topic is
  never recorded by \<open>gossipsub subscribe\<close>.
\<close>

lemma gossip_cli_records_no_name:
  "handle_gossipsub tt api (GsSubscribe command) n = Returns (out, n') \<Longrightarrow>
     try_map th (gn_topic_store n') = try_map th (gn_topic_store n)"
  by (auto simp: subscribe_topic_hash_def gossip_call_def store_subscribe_topic_def insert_hash_def try_map_def Let_def
      split: prod.splits if_splits list.splits gossip_reply.splits)

section \<open>Listeners that print\<close>

text \<open>\<open>messaging::cli::setup\<close>: one line for each incoming message.\<close>

fun messaging_printer :: "libp2p_event \<Rightarrow> rust_text list" where
  "messaging_printer (LBehaviour (EvMessaging (MsgOut_IncomingMessage from msg))) =
     [[Lit ''Incoming message from '', ArgPeer from, Lit '': '', ArgStr (m_msg msg)]]"
| "messaging_printer ev = []"

text \<open>\<open>relay_client::cli::setup\<close>, which nothing calls; \<open>limit\<close> is the rendering of the limit.\<close>

datatype relay_client_event =
    ReservationReqAccepted peer_id bool string
  | OutboundCircuitEstablished peer_id string
  | InboundCircuitEstablished peer_id string

fun relay_client_printer :: "relay_client_event \<Rightarrow> rust_text list" where
  "relay_client_printer (ReservationReqAccepted relay renewal limit) =
     (if \<not> renewal
      then [[Lit ''Reservation sent to relay '', ArgPeer relay, Lit '' has been accepted. Limit:'', ArgForeign limit]]
      else [])"
| "relay_client_printer (OutboundCircuitEstablished relay limit) = []"
| "relay_client_printer (InboundCircuitEstablished src limit) = []"

section \<open>Lines and commands\<close>

text \<open>
  \<open>str::trim\<close> removes Unicode white space at both ends; strings are their UTF-8 bytes, and these are
  the encodings of the characters with the property \<open>White_Space\<close>.
\<close>

definition utf8 :: "nat list \<Rightarrow> string" where
  "utf8 bytes = map char_of bytes"

definition white_space :: "string list" where
  "white_space =
     map utf8 ([[9], [10], [11], [12], [13], [32], [0xC2, 0x85], [0xC2, 0xA0], [0xE1, 0x9A, 0x80]]
       @ map (\<lambda>n. [0xE2, 0x80, n]) [0x80..<0x8B] @ [[0xE2, 0x80, 0xA8], [0xE2, 0x80, 0xA9], [0xE2, 0x80, 0xAF],
       [0xE2, 0x81, 0x9F], [0xE3, 0x80, 0x80]])"

lemma white_space_nonempty: "w \<in> set white_space \<Longrightarrow> w \<noteq> []"
  by (auto simp: white_space_def utf8_def)

function trim_with :: "(string \<Rightarrow> string \<Rightarrow> bool) \<Rightarrow> (nat \<Rightarrow> string \<Rightarrow> string) \<Rightarrow> string \<Rightarrow> string" where
  "trim_with fits chop s =
     (case List.find (\<lambda>w. fits w s) white_space of
        Some w \<Rightarrow> if length (chop (length w) s) < length s then trim_with fits chop (chop (length w) s) else s
      | None \<Rightarrow> s)"
  by pat_completeness auto
termination
  by (relation "measure (\<lambda>(_, _, s). length s)") auto

declare trim_with.simps [simp del]

definition str_trim :: "string \<Rightarrow> string" where
  "str_trim s = trim_with suffix (\<lambda>n s. take (length s - n) s) (trim_with prefix drop s)"

lemma trim_with_done:
  assumes "\<And>w s. fits w s \<Longrightarrow> w \<noteq> [] \<Longrightarrow> length (chop (length w) s) < length s" and "w \<in> set white_space"
  shows "\<not> fits w (trim_with fits chop s)"
proof (induction s rule: length_induct)
  case (1 s)
  show ?case
  proof (cases "List.find (\<lambda>w. fits w s) white_space")
    case None
    then have "\<not> fits w s"
      using assms(2) by (auto simp: find_None_iff)
    with None show ?thesis
      by (subst trim_with.simps) simp
  next
    case (Some v)
    then have "fits v s" "v \<in> set white_space"
      by (auto simp: find_Some_iff)
    then have "length (chop (length v) s) < length s"
      using assms(1) white_space_nonempty by blast
    with 1 Some show ?thesis
      by (subst trim_with.simps) simp
  qed
qed

lemma str_trim_end: "w \<in> set white_space \<Longrightarrow> \<not> suffix w (str_trim s)"
  unfolding str_trim_def
  by (rule trim_with_done) (auto simp: suffix_def)

text \<open>A line between two printable ASCII characters is left alone.\<close>

lemma white_space_bytes:
  assumes "w \<in> set white_space"
  shows "\<not> (of_char (hd w) :: nat) \<in> {33..<128}" "\<not> (of_char (last w) :: nat) \<in> {33..<128}"
  using assms by (auto simp: white_space_def utf8_def)

lemma str_trim_id:
  assumes "s \<noteq> []" "(of_char (hd s) :: nat) \<in> {33..<128}" "(of_char (last s) :: nat) \<in> {33..<128}"
  shows "str_trim s = s"
proof -
  have "\<not> prefix w s \<and> \<not> suffix w s" if w: "w \<in> set white_space" for w
    using white_space_bytes [OF w] white_space_nonempty [OF w] assms
    by (auto simp: prefix_def suffix_def)
  then have "List.find (\<lambda>w. prefix w s) white_space = None" "List.find (\<lambda>w. suffix w s) white_space = None"
    by (auto simp: find_None_iff)
  then show ?thesis
    by (simp add: str_trim_def trim_with.simps)
qed

datatype utils_command = DnsLookup string

datatype shell_command =
    CmdId
  | CmdClear
  | CmdShutdown
  | CmdDialShort multiaddr
  | CmdListenShort multiaddr
  | CmdSwarm swarm_command
  | CmdAdvertise advertise_command
  | CmdBlob blob_command
  | CmdMessaging peer_id string
  | CmdAutoNat autonat_command
  | CmdGossipsub gossipsub_command
  | CmdKad kad_command
  | CmdMdns mdns_command
  | CmdRelayClient multiaddr peer_id
  | CmdUtils utils_command

datatype shell_output =
    Printed cli_output
  | PrintedBlob blob_output
  | PrintedGossip gossip_output
  | PrintedForeign string
  | ClearedScreen

text \<open>
  What the commands reach through the \<open>Manager\<close>: the swarm and the libp2p behaviours in it, the
  request channels of the handles, the blob behaviour, the gossipsub node; and whether the
  shutdown notifier holds a permit.
\<close>

record ('n, 'b) manager =
  mg_swarm :: 'n
  mg_advertise :: "adv_in_event receiver"
  mg_blob :: blob_behaviour
  mg_messaging :: "msg_in_event receiver"
  mg_kad :: "kad_in_event receiver"
  mg_gossip :: "'b gossip_node"
  mg_shutdown :: bool

text \<open>The environment of one command: foreign code, and what comes of its requests.\<close>

record ('n, 'b) cli_env =
  ce_split :: "string \<Rightarrow> string list option"
  ce_parse :: "string list \<Rightarrow> string + shell_command"
  ce_swarm :: "'n swarm_api"
  ce_gossip :: "'b gossip_api"
  ce_text :: gossip_text
  ce_io_debug :: "io_error \<Rightarrow> string"
  ce_via_relay :: "multiaddr \<Rightarrow> peer_id \<Rightarrow> multiaddr"
  ce_resolve :: "string \<Rightarrow> io_error + string list"
  ce_fs :: file_system
  ce_blob :: blob_env
  ce_callback :: callback
  ce_swarm_side :: swarm_side
  ce_sent :: "(file_send_error + u64) callback_result"
  ce_accepted :: "(file_recv_error + duration) callback_result"
  ce_posted :: "unit callback_result"
  ce_state :: "bool callback_result"
  ce_peers :: "peer_id list callback_result"
  ce_events :: "libp2p_event event_stream"
  ce_now :: u128
  ce_message :: "(msg_send_error + duration) callback_result"
  ce_parse_peer :: "string \<Rightarrow> peer_id"
  ce_query :: "nat callback_result"
  ce_boot :: "(unit + nat) callback_result"
  ce_inserted :: "peer_id \<Rightarrow> routing_update callback_result"
  ce_addresses :: peer_tree_map

fun handle_utils :: "(string \<Rightarrow> io_error + string list) \<Rightarrow> utils_command \<Rightarrow> rust_text" where
  "handle_utils resolve (DnsLookup domain_name) =
     (case resolve (domain_name @ '':0'') of
        Inl e \<Rightarrow> [Lit ''Failed to perform lookup with '', ArgStr domain_name, Lit '': ''] @ io_debug e
      | Inr addresses \<Rightarrow> Lit ''Lookup result: '' # map ArgForeign addresses)"

fun run_command :: "('n, 'b) cli_env \<Rightarrow> 'k identity_union \<Rightarrow> shell_command \<Rightarrow> ('n, 'b) manager
    \<Rightarrow> (shell_output list \<times> ('n, 'b) manager) outcome" where
  "run_command env ident CmdClear m = Returns ([ClearedScreen], m)"
| "run_command env ident CmdId m = Returns ([Printed (Println [Lit ''Local peer ID: '', ArgPeer (get_peer_id ident)])], m)"
| "run_command env ident (CmdDialShort address) m =
     and_then (swarm_dial (ce_swarm env) (ce_callback env) address (mg_swarm m)) (\<lambda>(r, n).
       Returns ([Printed (case r of
           Inl e \<Rightarrow> Println ([Lit ''Failed to initiate dial '', ArgStr (multiaddr_str address), Lit '' with error: '']
                              @ dial_failure_debug e)
         | Inr _ \<Rightarrow> Println [Lit ''Dialing '', ArgStr (multiaddr_str address)])], m\<lparr>mg_swarm := n\<rparr>))"
| "run_command env ident (CmdListenShort address) m =
     and_then (swarm_listen (ce_swarm env) (ce_callback env) address (mg_swarm m)) (\<lambda>(r, n).
       Returns ([Printed (print_listen (ce_io_debug env) address r)], m\<lparr>mg_swarm := n\<rparr>))"
| "run_command env ident CmdShutdown m =
     Returns ([Printed (Println [Lit ''Shutting down...''])], m\<lparr>mg_shutdown := True\<rparr>)"
| "run_command env ident (CmdSwarm command) m =
     and_then (handle_swarm (ce_io_debug env) (ce_swarm env) (ce_callback env) command (mg_swarm m)) (\<lambda>(out, n).
       Returns ([Printed out], m\<lparr>mg_swarm := n\<rparr>))"
| "run_command env ident (CmdAdvertise command) m =
     and_then (handle_advertise (ce_callback env) (ce_posted env) (ce_state env) (ce_peers env) (ce_events env) command (mg_advertise m))
       (\<lambda>(out, r). Returns (map Printed out, m\<lparr>mg_advertise := r\<rparr>))"
| "run_command env ident (CmdBlob command) m =
     and_then (handle_blob (ce_fs env) (ce_blob env) (ce_callback env) (ce_swarm_side env) (ce_sent env) (ce_accepted env) command (mg_blob m))
       (\<lambda>(out, b). Returns ([PrintedBlob out], m\<lparr>mg_blob := b\<rparr>))"
| "run_command env ident (CmdMessaging peer message) m =
     and_then (handle_messaging (ce_now env) (get_peer_id ident) (ce_callback env) (ce_message env) peer message (mg_messaging m))
       (\<lambda>(out, r). Returns (map Printed out, m\<lparr>mg_messaging := r\<rparr>))"
| "run_command env ident (CmdAutoNat command) m =
     and_then (handle_autonat (ce_swarm env) (ce_callback env) command (mg_swarm m)) (\<lambda>(out, n).
       Returns ([Printed out], m\<lparr>mg_swarm := n\<rparr>))"
| "run_command env ident (CmdKad command) m =
     and_then (handle_kad (ce_parse_peer env) (ce_callback env) (ce_query env) (ce_boot env) (ce_inserted env) (ce_events env)
         (ce_addresses env) command (mg_kad m))
       (\<lambda>(out, r). Returns (map Printed out, m\<lparr>mg_kad := r\<rparr>))"
| "run_command env ident (CmdMdns command) m =
     and_then (handle_mdns (ce_swarm env) (ce_callback env) command (mg_swarm m)) (\<lambda>(out, n).
       Returns ([Printed out], m\<lparr>mg_swarm := n\<rparr>))"
| "run_command env ident (CmdRelayClient address peer) m =
     and_then (handle_relay_client (ce_io_debug env) (ce_via_relay env) (ce_swarm env) (ce_callback env) address peer (mg_swarm m))
       (\<lambda>(out, n). Returns ([Printed out], m\<lparr>mg_swarm := n\<rparr>))"
| "run_command env ident (CmdGossipsub command) m =
     and_then (handle_gossipsub (ce_text env) (ce_gossip env) command (mg_gossip m)) (\<lambda>(out, g).
       Returns ([PrintedGossip out], m\<lparr>mg_gossip := g\<rparr>))"
| "run_command env ident (CmdUtils command) m =
     Returns ([Printed (Println (handle_utils (ce_resolve env) command))], m)"

text \<open>The first half of \<open>handle_command\<close>: a line that cannot be split or parsed is reported and dropped.\<close>

definition parse_line :: "('n, 'b) cli_env \<Rightarrow> string \<Rightarrow> shell_output + shell_command" where
  "parse_line env line =
     (case ce_split env (str_trim (''owlnest '' @ line)) of
        None \<Rightarrow> Inl (Printed (Println [Lit ''Cannot properly split '', dquote, ArgStr line, dquote, Lit '': unclosed delimiters'']))
      | Some commands \<Rightarrow>
          (case ce_parse env commands of
             Inl e \<Rightarrow> Inl (PrintedForeign e)
           | Inr command \<Rightarrow> Inr command))"

definition handle_command :: "('n, 'b) cli_env \<Rightarrow> 'k identity_union \<Rightarrow> string \<Rightarrow> ('n, 'b) manager
    \<Rightarrow> (shell_output list \<times> ('n, 'b) manager) outcome" where
  "handle_command env ident line m =
     (case parse_line env line of
        Inl out \<Rightarrow> Returns ([out], m)
      | Inr command \<Rightarrow> run_command env ident command m)"

section \<open>The shell thread\<close>

datatype shell_state = ShellRunning | ShellEnded | ShellCrashed | ShellBlocked

text \<open>
  The thread of \<open>setup_interactive_shell\<close> after its start-up, on the results of its reads: a
  line comes with the environment of its command and whether the history accepts it.
\<close>

fun shell_thread :: "'k identity_union \<Rightarrow> u32 \<Rightarrow> (readline_error + string \<times> bool \<times> ('n, 'b) cli_env) list
    \<Rightarrow> ('n, 'b) manager \<Rightarrow> shell_state \<times> shell_output list \<times> ('n, 'b) manager" where
  "shell_thread ident retry_times [] m = (ShellRunning, [], m)"
| "shell_thread ident retry_times (Inr (line, history, env) # reads) m =
     (if \<not> history then (ShellCrashed, [], m)
      else (case handle_command env ident line m of
              Returns (out, m') \<Rightarrow>
                (case shell_thread ident retry_times reads m' of (st, outs, m'') \<Rightarrow> (st, out @ outs, m''))
            | Panics \<Rightarrow> (ShellCrashed, [], m)
            | Hangs \<Rightarrow> (ShellBlocked, [], m)))"
| "shell_thread ident retry_times (Inl e # reads) m =
     (let (stop, retry_times') = handle_err e retry_times in
      if stop
      then (ShellEnded, [Printed (Println [Lit ''shutdown criteria reached, shutting down this peer...''])], m\<lparr>mg_shutdown := True\<rparr>)
      else shell_thread ident retry_times' reads m)"

text \<open>\<open>main\<close> waits for the notifier and then returns.\<close>

definition main_returns :: "('n, 'b) manager \<Rightarrow> bool" where
  "main_returns m \<longleftrightarrow> mg_shutdown m"

section \<open>Properties\<close>

text \<open>The short commands do what the subcommands of \<open>swarm\<close> do.\<close>

lemma short_commands:
  "run_command env ident (CmdDialShort address) m = run_command env ident (CmdSwarm (CmdDial address)) m"
  "run_command env ident (CmdListenShort address) m = run_command env ident (CmdSwarm (CmdListen address)) m"
  by (simp_all add: swarm_methods split: prod.splits)

text \<open>Three subcommands that the command line offers have no implementation.\<close>

fun unimplemented :: "shell_command \<Rightarrow> bool" where
  "unimplemented (CmdBlob BlobListRecv) = True"
| "unimplemented (CmdBlob (BlobCancelSend i)) = True"
| "unimplemented (CmdBlob (BlobCancelRecv i)) = True"
| "unimplemented _ = False"

lemma unimplemented_panics: "unimplemented command \<Longrightarrow> run_command env ident command m = Panics"
  by (cases command rule: unimplemented.cases) auto

text \<open>The commands that always come to an end, whatever the environment does.\<close>

fun answers_itself :: "shell_command \<Rightarrow> bool" where
  "answers_itself (CmdAdvertise c) = False"
| "answers_itself (CmdBlob c) = False"
| "answers_itself (CmdMessaging p msg) = False"
| "answers_itself (CmdKad c) = False"
| "answers_itself _ = True"

lemma handle_swarm_returns: "\<exists>out n'. handle_swarm debug api tx command n = Returns (out, n')"
proof (cases command)
  case (CmdListener c)
  then show ?thesis by (cases c) (simp add: swarm_methods)
next
  case (CmdExternalAddr c)
  then show ?thesis by (cases c) (simp_all add: swarm_methods)
qed (auto simp: swarm_methods split: prod.splits)

lemma handle_autonat_returns: "\<exists>out n'. handle_autonat api tx command n = Returns (out, n')"
  by (cases command) (auto simp: generate_handler_method_def split: prod.splits)

lemma handle_mdns_returns: "\<exists>out n'. handle_mdns api tx command n = Returns (out, n')"
  by (cases command) (auto simp: generate_handler_method_def split: prod.splits)

lemma answers_itself_returns:
  assumes "answers_itself command"
  shows "\<exists>out m'. run_command env ident command m = Returns (out, m')"
proof (cases command)
  case (CmdSwarm c)
  then show ?thesis
    using handle_swarm_returns [of "ce_io_debug env" "ce_swarm env" "ce_callback env" c "mg_swarm m"] by auto
next
  case (CmdAutoNat c)
  then show ?thesis
    using handle_autonat_returns [of "ce_swarm env" "ce_callback env" c "mg_swarm m"] by auto
next
  case (CmdMdns c)
  then show ?thesis
    using handle_mdns_returns [of "ce_swarm env" "ce_callback env" c "mg_swarm m"] by auto
next
  case (CmdGossipsub c)
  then show ?thesis
    using handle_gossipsub_returns [of "ce_text env" "ce_gossip env" c "mg_gossip m"] by auto
qed (use assms in \<open>auto simp: swarm_methods handle_relay_client_def Let_def split: prod.splits\<close>)

text \<open>Only \<open>shutdown\<close> touches the notifier.\<close>

lemma run_command_shutdown:
  assumes "run_command env ident command m = Returns (out, m')"
  shows "mg_shutdown m' \<longleftrightarrow> mg_shutdown m \<or> command = CmdShutdown"
  using assms by (cases command) (auto simp: and_then_Returns_iff split: prod.splits)

lemma handle_command_shutdown:
  assumes "handle_command env ident line m = Returns (out, m')"
  shows "mg_shutdown m' \<longleftrightarrow> mg_shutdown m \<or> parse_line env line = Inr CmdShutdown"
proof (cases "parse_line env line")
  case (Inr command)
  then show ?thesis
    using assms run_command_shutdown [of env ident command m out m'] by (simp add: handle_command_def)
qed (use assms in \<open>simp add: handle_command_def\<close>)

text \<open>The commands a thread has completed.\<close>

fun completed :: "'k identity_union \<Rightarrow> u32 \<Rightarrow> (readline_error + string \<times> bool \<times> ('n, 'b) cli_env) list
    \<Rightarrow> ('n, 'b) manager \<Rightarrow> shell_command list" where
  "completed ident retry_times [] m = []"
| "completed ident retry_times (Inr (line, history, env) # reads) m =
     (if \<not> history then []
      else (case handle_command env ident line m of
              Returns (out, m') \<Rightarrow>
                (case parse_line env line of Inr c \<Rightarrow> [c] | Inl _ \<Rightarrow> []) @ completed ident retry_times reads m'
            | _ \<Rightarrow> []))"
| "completed ident retry_times (Inl e # reads) m =
     (let (stop, retry_times') = handle_err e retry_times in
      if stop then [] else completed ident retry_times' reads m)"

lemma shell_thread_shutdown:
  "shell_thread ident retry reads m = (st, outs, m') \<Longrightarrow>
     mg_shutdown m' \<longleftrightarrow> mg_shutdown m \<or> st = ShellEnded \<or> CmdShutdown \<in> set (completed ident retry reads m)"
proof (induction ident retry reads m arbitrary: st outs m' rule: shell_thread.induct)
  case (2 ident retry line history env reads m)
  show ?case
  proof (cases "history \<and> (\<exists>out m1. handle_command env ident line m = Returns (out, m1))")
    case True
    then obtain out m1 where cmd: "handle_command env ident line m = Returns (out, m1)" and h: history
      by blast
    obtain st1 outs1 m2 where rest: "shell_thread ident retry reads m1 = (st1, outs1, m2)"
      by (cases "shell_thread ident retry reads m1") auto
    have "st = st1" "m' = m2"
      using "2.prems" cmd h rest by auto
    with "2.IH" [OF _ cmd refl rest] h cmd handle_command_shutdown [OF cmd] show ?thesis
      by (auto split: sum.splits)
  next
    case False
    then show ?thesis
      using "2.prems" by (auto split: outcome.splits if_splits)
  qed
qed (auto split: prod.splits if_splits)

lemma shell_thread_stuck:
  "fst (shell_thread ident retry reads m) \<noteq> ShellRunning \<Longrightarrow>
     shell_thread ident retry (reads @ later) m = shell_thread ident retry reads m"
  by (induction ident retry reads m rule: shell_thread.induct)
    (auto split: outcome.splits if_splits prod.splits)

lemma shell_thread_running:
  "shell_thread ident retry reads m = (ShellRunning, outs, m1) \<Longrightarrow>
     \<exists>retry'. \<forall>later. shell_thread ident retry (reads @ later) m =
       (case shell_thread ident retry' later m1 of (st, o1, m') \<Rightarrow> (st, outs @ o1, m'))"
proof (induction ident retry reads m arbitrary: outs rule: shell_thread.induct)
  case (1 ident retry m)
  then show ?case by (auto intro!: exI [of _ retry])
next
  case (2 ident retry line history env reads m)
  then obtain out m2 outs2 where cmd: "history" "handle_command env ident line m = Returns (out, m2)"
    and rest: "shell_thread ident retry reads m2 = (ShellRunning, outs2, m1)" "outs = out @ outs2"
    by (auto split: if_splits outcome.splits prod.splits)
  obtain retry' where "\<forall>later. shell_thread ident retry (reads @ later) m2 =
       (case shell_thread ident retry' later m1 of (st, o1, m') \<Rightarrow> (st, outs2 @ o1, m'))"
    using "2.IH" [OF _ cmd(2) refl rest(1)] cmd(1) by auto
  with cmd rest(2) show ?case
    by (intro exI [of _ retry']) (auto split: prod.splits)
next
  case (3 ident retry e reads m)
  obtain stop retry1 where h: "handle_err e retry = (stop, retry1)"
    by (cases "handle_err e retry")
  with 3 show ?case
    by (auto split: if_splits)
qed

lemma unimplemented_crashes:
  assumes "shell_thread ident retry reads m = (ShellRunning, outs, m1)" "parse_line env line = Inr command" "unimplemented command"
  shows "shell_thread ident retry (reads @ Inr (line, True, env) # later) m = (ShellCrashed, outs, m1)"
proof -
  obtain retry' where "\<forall>later. shell_thread ident retry (reads @ later) m =
       (case shell_thread ident retry' later m1 of (st, o1, m') \<Rightarrow> (st, outs @ o1, m'))"
    using shell_thread_running [OF assms(1)] by blast
  then show ?thesis
    using assms(2,3) by (simp add: handle_command_def unimplemented_panics)
qed

text \<open>
  C33. When the process ends. Without a permit at the start, \<open>main\<close> returns exactly when the shell
  has ended by itself (an interrupt, or five failed reads) or a \<open>shutdown\<close> command has been
  executed. Once the thread has ended, crashed or hangs in a command, nothing that is typed
  afterwards has an effect. One of the offered subcommands that end in \<open>todo!()\<close> crashes a running
  thread, and then, unless it was told to shut down before, the process runs on without a shell.
\<close>

theorem process_ends_iff:
  assumes "shell_thread ident 0 reads m = (st, outs, m')" and "\<not> mg_shutdown m"
  shows "(main_returns m' \<longleftrightarrow> st = ShellEnded \<or> CmdShutdown \<in> set (completed ident 0 reads m))
    \<and> (st \<noteq> ShellRunning \<longrightarrow> (\<forall>later. shell_thread ident 0 (reads @ later) m = (st, outs, m')))
    \<and> (st = ShellRunning \<longrightarrow> (\<forall>line env command later. parse_line env line = Inr command \<and> unimplemented command \<longrightarrow>
          shell_thread ident 0 (reads @ Inr (line, True, env) # later) m = (ShellCrashed, outs, m')))"
proof (intro conjI impI allI)
  show "main_returns m' \<longleftrightarrow> st = ShellEnded \<or> CmdShutdown \<in> set (completed ident 0 reads m)"
    using shell_thread_shutdown [OF assms(1)] assms(2) by (simp add: main_returns_def)
  show "shell_thread ident 0 (reads @ later) m = (st, outs, m')" if "st \<noteq> ShellRunning" for later
    using shell_thread_stuck [of ident 0 reads m later] assms(1) that by simp
  show "shell_thread ident 0 (reads @ Inr (line, True, env) # later) m = (ShellCrashed, outs, m')"
    if "st = ShellRunning" "parse_line env line = Inr command \<and> unimplemented command" for line env command later
    using unimplemented_crashes [of ident 0 reads m outs m'] assms(1) that by blast
qed

text \<open>A thread that is still running after some reads goes on with the count of their failures.\<close>

lemma shell_thread_append:
  "shell_thread ident retry (reads @ later) m =
     (case shell_thread ident retry reads m of
        (ShellRunning, outs, m1) \<Rightarrow>
          (case shell_thread ident (retry + of_nat (failures reads)) later m1 of (st, o1, m') \<Rightarrow> (st, outs @ o1, m'))
      | stopped \<Rightarrow> stopped)"
proof (induction ident retry reads m rule: shell_thread.induct)
  case (3 ident retry e reads m)
  show ?case
  proof (cases "fst (handle_err e retry)")
    case False
    then have err: "handle_err e retry = (False, retry + 1)" "e \<noteq> ReadlineInterrupted"
      by (cases e; simp add: should_exit_def)+
    then have "retry + of_nat (failures (Inl e # reads)) = retry + 1 + of_nat (failures reads)"
      by simp
    with err(1) "3.IH" [OF refl err(1) [symmetric]] show ?thesis
      by (simp only: append_Cons shell_thread.simps Let_def split if_False simp_thms)
  next
    case True
    then show ?thesis by (cases "handle_err e retry") simp
  qed
qed (auto split: outcome.splits prod.splits shell_state.splits)

lemma shell_thread_alive:
  "k < 5 \<Longrightarrow> fst (shell_thread ident (of_nat k) reads m) = ShellRunning \<Longrightarrow>
     k + failures reads < 5 \<and> Inl ReadlineInterrupted \<notin> set reads"
proof (induction reads arbitrary: k m)
  case (Cons r reads)
  show ?case
  proof (cases r)
    case (Inl e)
    with Cons.prems have "e \<noteq> ReadlineInterrupted" "Suc k < 5" "fst (shell_thread ident (of_nat (Suc k)) reads m) = ShellRunning"
      by (auto simp: handle_err_count split: if_splits)
    with Cons.IH [of "Suc k" m] Inl show ?thesis by simp
  next
    case (Inr x)
    then obtain line history env where x: "r = Inr (line, history, env)" by (cases x) auto
    with Cons.prems have "\<exists>m1. fst (shell_thread ident (of_nat k) reads m1) = ShellRunning"
      by (auto split: if_splits outcome.splits prod.splits) (metis fst_conv)
    with Cons.IH [OF Cons.prems(1)] x show ?thesis by auto
  qed
qed simp

text \<open>A thread that does not run any more has stopped at one of its reads.\<close>

lemma shell_thread_stops:
  "fst (shell_thread ident retry reads m) \<noteq> ShellRunning \<Longrightarrow>
     \<exists>ran r rest outs m1. reads = ran @ r # rest \<and> shell_thread ident retry ran m = (ShellRunning, outs, m1)
       \<and> fst (shell_thread ident (retry + of_nat (failures ran)) [r] m1) = fst (shell_thread ident retry reads m)"
proof (induction reads rule: rev_induct)
  case (snoc r reads)
  obtain st outs m1 where reads: "shell_thread ident retry reads m = (st, outs, m1)"
    by (cases "shell_thread ident retry reads m")
  show ?case
  proof (cases "st = ShellRunning")
    case True
    with reads have "fst (shell_thread ident retry (reads @ [r]) m) = fst (shell_thread ident (retry + of_nat (failures reads)) [r] m1)"
      by (simp add: shell_thread_append del: shell_thread.simps split: prod.splits)
    with True reads show ?thesis by metis
  next
    case False
    with reads have "shell_thread ident retry (reads @ [r]) m = shell_thread ident retry reads m"
      by (intro shell_thread_stuck) simp
    moreover obtain ran r' rest o1 m2 where "reads = ran @ r' # rest" "shell_thread ident retry ran m = (ShellRunning, o1, m2)"
      "fst (shell_thread ident (retry + of_nat (failures ran)) [r'] m2) = fst (shell_thread ident retry reads m)"
      using snoc.IH False reads by auto
    ultimately show ?thesis
      by (intro exI [of _ ran] exI [of _ r'] exI [of _ "rest @ [r]"] exI [of _ o1] exI [of _ m2]) (simp del: shell_thread.simps)
  qed
qed simp

lemma shell_thread_stops_iff:
  assumes "st \<noteq> ShellRunning"
  shows "fst (shell_thread ident 0 reads m) = st \<longleftrightarrow>
    (\<exists>ran r rest outs m1. reads = ran @ r # rest \<and> shell_thread ident 0 ran m = (ShellRunning, outs, m1) \<and> failures ran < 5
       \<and> fst (shell_thread ident (of_nat (failures ran)) [r] m1) = st)" (is "_ \<longleftrightarrow> ?stops")
proof
  assume "fst (shell_thread ident 0 reads m) = st"
  with assms obtain ran r rest outs m1 where "reads = ran @ r # rest" and ran: "shell_thread ident 0 ran m = (ShellRunning, outs, m1)"
    and "fst (shell_thread ident (of_nat (failures ran)) [r] m1) = st"
    using shell_thread_stops [of ident 0 reads m] by auto
  moreover have "failures ran < 5"
    using shell_thread_alive [of 0 ident ran m] ran by simp
  ultimately show ?stops by blast
next
  assume ?stops
  then obtain ran r rest outs m1 where reads: "reads = (ran @ [r]) @ rest" and ran: "shell_thread ident 0 ran m = (ShellRunning, outs, m1)"
    and r: "fst (shell_thread ident (of_nat (failures ran)) [r] m1) = st"
    by auto
  have "fst (shell_thread ident 0 (ran @ [r]) m) = st"
    using ran r by (auto simp: shell_thread_append simp del: shell_thread.simps split: prod.splits)
  then show "fst (shell_thread ident 0 reads m) = st"
    using shell_thread_stuck [of ident 0 "ran @ [r]" m rest] assms unfolding reads by simp
qed

lemma shell_thread_one:
  "k < 5 \<Longrightarrow> fst (shell_thread ident (of_nat k) [Inl e] m) = (if e = ReadlineInterrupted \<or> k = 4 then ShellEnded else ShellRunning)"
  "fst (shell_thread ident retry [Inr (line, history, env)] m) =
     (if \<not> history then ShellCrashed
      else (case handle_command env ident line m of Returns _ \<Rightarrow> ShellRunning | Panics \<Rightarrow> ShellCrashed | Hangs \<Rightarrow> ShellBlocked))"
  by (auto simp: handle_err_count split: outcome.splits)

lemma ex_read:
  "(\<exists>r :: readline_error + string \<times> bool \<times> 'a. P r) \<longleftrightarrow> (\<exists>e. P (Inl e)) \<or> (\<exists>line history env. P (Inr (line, history, env)))"
  by (metis prod_cases3 sumE)

lemma shell_thread_stops_cases:
  fixes reads :: "(readline_error + string \<times> bool \<times> ('n, 'b) cli_env) list"
  assumes "st \<noteq> ShellRunning"
  shows "fst (shell_thread ident 0 reads m) = st \<longleftrightarrow>
    (\<exists>ran e rest outs m1. reads = ran @ Inl e # rest \<and> shell_thread ident 0 ran m = (ShellRunning, outs, m1)
       \<and> st = ShellEnded \<and> (e = ReadlineInterrupted \<or> failures ran = 4))
    \<or> (\<exists>ran line history env rest outs m1. reads = ran @ Inr (line, history, env) # rest
       \<and> shell_thread ident 0 ran m = (ShellRunning, outs, m1)
       \<and> (st = ShellCrashed \<and> (\<not> history \<or> handle_command env ident line m1 = Panics)
          \<or> st = ShellBlocked \<and> history \<and> handle_command env ident line m1 = Hangs))" (is "_ \<longleftrightarrow> ?read \<or> ?line")
proof -
  define stopping where "stopping = (\<lambda>(ran :: (readline_error + string \<times> bool \<times> ('n, 'b) cli_env) list) r (m1 :: ('n, 'b) manager). failures ran < 5 \<and> fst (shell_thread ident (of_nat (failures ran)) [r] m1) = st)"
  have stop_read: "shell_thread ident 0 ran m = (ShellRunning, outs, m1) \<and> stopping ran (Inl e) m1 \<longleftrightarrow>
      shell_thread ident 0 ran m = (ShellRunning, outs, m1) \<and> st = ShellEnded \<and> (e = ReadlineInterrupted \<or> failures ran = 4)"
    for ran outs m1 e
    using assms shell_thread_alive [of 0 ident ran m] shell_thread_one(1) [of "failures ran" ident e m1]
    by (auto simp: stopping_def simp del: shell_thread.simps split: if_splits)
  have stop_line: "shell_thread ident 0 ran m = (ShellRunning, outs, m1) \<and> stopping ran (Inr (line, history, env)) m1 \<longleftrightarrow>
      shell_thread ident 0 ran m = (ShellRunning, outs, m1)
      \<and> (st = ShellCrashed \<and> (\<not> history \<or> handle_command env ident line m1 = Panics)
         \<or> st = ShellBlocked \<and> history \<and> handle_command env ident line m1 = Hangs)"
    for ran outs m1 line history env
    using assms shell_thread_alive [of 0 ident ran m]
    by (auto simp: stopping_def shell_thread_one(2) simp del: shell_thread.simps split: outcome.splits)
  have "fst (shell_thread ident 0 reads m) = st \<longleftrightarrow>
    (\<exists>r ran rest outs m1. reads = ran @ r # rest \<and> shell_thread ident 0 ran m = (ShellRunning, outs, m1) \<and> stopping ran r m1)"
    unfolding stopping_def using shell_thread_stops_iff [OF assms, of ident reads m] by blast
  also have "\<dots> \<longleftrightarrow> ?read \<or> ?line"
    unfolding ex_read stop_read stop_line by blast
  finally show ?thesis .
qed

text \<open>
  C34. How the thread of the interactive shell comes to an end. It ends by itself exactly when a read is
  interrupted or fails for the fifth time in all, the lines read in between not resetting the count. It
  crashes exactly when the history refuses a line or a command panics, and it is stuck exactly when a
  command never returns. In each case all earlier reads had left it running, so that every line before
  was executed. As long as it runs, fewer than five reads have failed and none was interrupted.
\<close>

theorem shell_ends_iff:
  fixes reads :: "(readline_error + string \<times> bool \<times> ('n, 'b) cli_env) list"
  shows "(fst (shell_thread ident 0 reads m) = ShellEnded \<longleftrightarrow>
      (\<exists>ran e rest. reads = ran @ Inl e # rest \<and> fst (shell_thread ident 0 ran m) = ShellRunning
        \<and> (e = ReadlineInterrupted \<or> failures ran = 4)))
    \<and> (fst (shell_thread ident 0 reads m) = ShellCrashed \<longleftrightarrow>
      (\<exists>ran line history env rest outs m1. reads = ran @ Inr (line, history, env) # rest
        \<and> shell_thread ident 0 ran m = (ShellRunning, outs, m1)
        \<and> (\<not> history \<or> handle_command env ident line m1 = Panics)))
    \<and> (fst (shell_thread ident 0 reads m) = ShellBlocked \<longleftrightarrow>
      (\<exists>ran line env rest outs m1. reads = ran @ Inr (line, True, env) # rest
        \<and> shell_thread ident 0 ran m = (ShellRunning, outs, m1) \<and> handle_command env ident line m1 = Hangs))
    \<and> (fst (shell_thread ident 0 reads m) = ShellRunning \<longrightarrow> failures reads < 5 \<and> Inl ReadlineInterrupted \<notin> set reads)"
proof (intro conjI impI)
  show "fst (shell_thread ident 0 reads m) = ShellEnded \<longleftrightarrow>
      (\<exists>ran e rest. reads = ran @ Inl e # rest \<and> fst (shell_thread ident 0 ran m) = ShellRunning
        \<and> (e = ReadlineInterrupted \<or> failures ran = 4))"
    by (simp add: shell_thread_stops_cases) (metis prod.collapse fst_conv)
  show "fst (shell_thread ident 0 reads m) = ShellCrashed \<longleftrightarrow>
      (\<exists>ran line history env rest outs m1. reads = ran @ Inr (line, history, env) # rest
        \<and> shell_thread ident 0 ran m = (ShellRunning, outs, m1)
        \<and> (\<not> history \<or> handle_command env ident line m1 = Panics))"
    by (simp add: shell_thread_stops_cases)
  show "fst (shell_thread ident 0 reads m) = ShellBlocked \<longleftrightarrow>
      (\<exists>ran line env rest outs m1. reads = ran @ Inr (line, True, env) # rest
        \<and> shell_thread ident 0 ran m = (ShellRunning, outs, m1) \<and> handle_command env ident line m1 = Hangs)"
    by (simp add: shell_thread_stops_cases) blast
qed (use shell_thread_alive [of 0 ident reads m] in simp_all)

definition demo_cli_env :: "('n, 'b) cli_env \<Rightarrow> ('n, 'b) cli_env" where
  "demo_cli_env env = env\<lparr>ce_split := (\<lambda>s. Some [s]),
     ce_parse := (\<lambda>ws. if ws = [''owlnest id''] then Inr CmdId
                     else if ws = [''owlnest blob list-recv''] then Inr (CmdBlob BlobListRecv) else Inl ''unknown'')\<rparr>"

definition demo_ident :: "nat identity_union" where
  "demo_ident = \<lparr>iu_keypair = 0, iu_peer_id = PeerId [7]\<rparr>"

lemma demo_trim: "str_trim ''owlnest id'' = ''owlnest id''" "str_trim ''owlnest blob list-recv'' = ''owlnest blob list-recv''"
  by (rule str_trim_id; simp)+

theorem shell_ends_iff_witness:
  "\<forall>(env :: (nat, nat) cli_env) m.
     fst (shell_thread demo_ident 0
       (replicate 4 (Inl ReadlineEof) @ [Inr (''id'', True, demo_cli_env env)] @ Inl ReadlineEof # [Inr (''id'', True, demo_cli_env env)]) m) = ShellEnded
     \<and> fst (shell_thread demo_ident 0 ([Inl ReadlineEof] @ Inr (''blob list-recv'', True, demo_cli_env env) # []) m) = ShellCrashed"
proof (intro allI)
  fix env :: "(nat, nat) cli_env" and m :: "(nat, nat) manager"
  let ?id = "Inr (''id'', True, demo_cli_env env)"
  have parse: "parse_line (demo_cli_env env) ''id'' = Inr CmdId"
    "parse_line (demo_cli_env env) ''blob list-recv'' = Inr (CmdBlob BlobListRecv)"
    by (simp_all add: parse_line_def demo_cli_env_def demo_trim)
  have four: "replicate 4 (Inl ReadlineEof) = [Inl ReadlineEof, Inl ReadlineEof, Inl ReadlineEof, Inl ReadlineEof]"
    by (simp add: numeral_eq_Suc)
  have "fst (shell_thread demo_ident 0 (replicate 4 (Inl ReadlineEof) @ [?id]) m) = ShellRunning" "failures (replicate 4 (Inl ReadlineEof) @ [?id]) = 4"
    and "shell_thread demo_ident 0 [Inl ReadlineEof] m = (ShellRunning, [], m)"
    using parse by (simp_all add: four handle_command_def should_exit_def word_le_nat_alt)
  moreover have "handle_command (demo_cli_env env) demo_ident ''blob list-recv'' m = Panics"
    using parse by (simp add: handle_command_def)
  ultimately show "fst (shell_thread demo_ident 0
       (replicate 4 (Inl ReadlineEof) @ [?id] @ Inl ReadlineEof # [?id]) m) = ShellEnded
     \<and> fst (shell_thread demo_ident 0 ([Inl ReadlineEof] @ Inr (''blob list-recv'', True, demo_cli_env env) # []) m) = ShellCrashed"
    using shell_ends_iff [of demo_ident "replicate 4 (Inl ReadlineEof) @ [?id] @ Inl ReadlineEof # [?id]" m]
      shell_ends_iff [of demo_ident "[Inl ReadlineEof] @ Inr (''blob list-recv'', True, demo_cli_env env) # []" m]
    by (metis append.assoc)
qed

theorem process_ends_iff_witness:
  "\<forall>(env :: (nat, nat) cli_env) m. \<exists>m'. shell_thread demo_ident 0
     ([Inr (''id'', True, demo_cli_env env)] @ Inr (''blob list-recv'', True, demo_cli_env env) # [Inl ReadlineInterrupted])
       (m\<lparr>mg_shutdown := False\<rparr>) =
      (ShellCrashed, [Printed (Println [Lit ''Local peer ID: '', ArgPeer (PeerId [7])])], m') \<and> \<not> main_returns m'"
proof (intro allI)
  fix env :: "(nat, nat) cli_env" and m :: "(nat, nat) manager"
  have parse: "parse_line (demo_cli_env env) ''id'' = Inr CmdId"
    "parse_line (demo_cli_env env) ''blob list-recv'' = Inr (CmdBlob BlobListRecv)"
    by (simp_all add: parse_line_def demo_cli_env_def demo_trim)
  have run: "shell_thread demo_ident 0 [Inr (''id'', True, demo_cli_env env)] (m\<lparr>mg_shutdown := False\<rparr>) =
      (ShellRunning, [Printed (Println [Lit ''Local peer ID: '', ArgPeer (PeerId [7])])], m\<lparr>mg_shutdown := False\<rparr>)"
    using parse by (simp add: handle_command_def demo_ident_def get_peer_id_def)
  have "\<not> mg_shutdown (m\<lparr>mg_shutdown := False\<rparr>)"
    by simp
  from process_ends_iff [OF run this] parse
  show "\<exists>m'. shell_thread demo_ident 0
     ([Inr (''id'', True, demo_cli_env env)] @ Inr (''blob list-recv'', True, demo_cli_env env) # [Inl ReadlineInterrupted])
       (m\<lparr>mg_shutdown := False\<rparr>) =
      (ShellCrashed, [Printed (Println [Lit ''Local peer ID: '', ArgPeer (PeerId [7])])], m') \<and> \<not> main_returns m'"
    by (fastforce simp: handle_command_def)
qed

end
