(* ===== verification/Configs.thy ===== *)
theory Configs
  imports Owl_Prelude
begin

text \<open>
  The serializable configurations of the libp2p protocols in \<open>owlnest/src/net/p2p/protocols/\<close> and
  their conversions into the types of libp2p. Those types are foreign: their values are records of
  the settings the source names, and where the source starts from a default of the library that
  default is an argument. Durations are in nanoseconds; a non-zero size is a natural number.
\<close>

type_synonym nanos = nat

definition from_secs :: "u64 \<Rightarrow> nanos" where
  "from_secs s = unat s * 1000000000"

definition from_millis :: "u64 \<Rightarrow> nanos" where
  "from_millis ms = unat ms * 1000000"

definition as_secs :: "nanos \<Rightarrow> u64" where
  "as_secs d = of_nat (d div 1000000000)"

lemma from_secs_eq [simp]: "from_secs a = from_secs b \<longleftrightarrow> a = b"
  by (simp add: from_secs_def word_unat_eq_iff)

lemma from_millis_eq [simp]: "from_millis a = from_millis b \<longleftrightarrow> a = b"
  by (simp add: from_millis_def word_unat_eq_iff)

lemma as_secs_from_secs [simp]: "as_secs (from_secs s) = s"
  by (simp add: as_secs_def from_secs_def)

section \<open>Kad\<close>

definition K_VALUE :: nat where "K_VALUE = 20"
definition ALPHA_VALUE :: nat where "ALPHA_VALUE = 3"

record query_config =
  qc_timeout :: nanos
  qc_replication_factor :: nat
  qc_parallelism :: nat
  qc_disjoint_query_paths :: bool

definition query_config_default :: query_config where
  "query_config_default = \<lparr>qc_timeout = from_secs 60, qc_replication_factor = K_VALUE,
     qc_parallelism = ALPHA_VALUE, qc_disjoint_query_paths = False\<rparr>"

datatype store_inserts = Unfiltered | FilterBoth
datatype bucket_inserts = OnConnected | Manual
datatype caching = CachingDisabled | CachingEnabled nat

text \<open>The enums of libp2p of the same names, and the conversions into them.\<close>

datatype lib_store_inserts = LibUnfiltered | LibFilterBoth
datatype lib_bucket_inserts = LibOnConnected | LibManual
datatype lib_caching = LibCachingDisabled | LibCachingEnabled nat

fun store_inserts_into :: "store_inserts \<Rightarrow> lib_store_inserts" where
  "store_inserts_into Unfiltered = LibUnfiltered"
| "store_inserts_into FilterBoth = LibFilterBoth"

fun bucket_inserts_into :: "bucket_inserts \<Rightarrow> lib_bucket_inserts" where
  "bucket_inserts_into OnConnected = LibOnConnected"
| "bucket_inserts_into Manual = LibManual"

fun caching_into :: "caching \<Rightarrow> lib_caching" where
  "caching_into CachingDisabled = LibCachingDisabled"
| "caching_into (CachingEnabled max_peers) = LibCachingEnabled max_peers"

record kad_config =
  kc_max_packet_size :: nat
  kc_query_config :: query_config
  kc_record_ttl_sec :: "u64 option"
  kc_record_replication_interval_sec :: "u64 option"
  kc_record_publication_interval_sec :: "u64 option"
  kc_record_filtering :: store_inserts
  kc_provider_record_ttl_sec :: "u64 option"
  kc_provider_publication_interval_sec :: "u64 option"
  kc_kbucket_inserts :: bucket_inserts
  kc_caching :: caching
  kc_periodic_bootstrap_interval_sec :: "u64 option"

definition kad_config_default :: kad_config where
  "kad_config_default = \<lparr>kc_max_packet_size = 16 * 1024, kc_query_config = query_config_default,
     kc_record_ttl_sec = Some (48 * 60 * 60), kc_record_replication_interval_sec = Some (60 * 60),
     kc_record_publication_interval_sec = Some (22 * 60 * 60), kc_record_filtering = Unfiltered,
     kc_provider_record_ttl_sec = Some (48 * 60 * 60), kc_provider_publication_interval_sec = Some (12 * 60 * 60),
     kc_kbucket_inserts = OnConnected, kc_caching = CachingEnabled 1,
     kc_periodic_bootstrap_interval_sec = Some (5 * 60)\<rparr>"

text \<open>\<open>kad::Config\<close>: the protocol name and the settings its setters change.\<close>

record lib_kad_config =
  lk_protocol :: string
  lk_disjoint_query_paths :: bool
  lk_parallelism :: nat
  lk_periodic_bootstrap_interval :: "nanos option"
  lk_provider_record_ttl :: "nanos option"
  lk_query_timeout :: nanos
  lk_record_filtering :: lib_store_inserts
  lk_record_ttl :: "nanos option"
  lk_replication_factor :: nat
  lk_caching :: lib_caching
  lk_kbucket_inserts :: lib_bucket_inserts
  lk_max_packet_size :: nat
  lk_provider_publication_interval :: "nanos option"
  lk_replication_interval :: "nanos option"
  lk_publication_interval :: "nanos option"

text \<open>\<open>into_config\<close>: a protocol name that does not start with a slash is refused with a panic.\<close>

definition kad_into_config :: "(string \<Rightarrow> lib_kad_config) \<Rightarrow> kad_config \<Rightarrow> string \<Rightarrow> lib_kad_config outcome" where
  "kad_into_config lib_new c protocol =
     (if protocol = [] \<or> hd protocol \<noteq> CHR ''/'' then Panics
      else Returns ((lib_new protocol)
        \<lparr>lk_disjoint_query_paths := qc_disjoint_query_paths (kc_query_config c),
         lk_parallelism := qc_parallelism (kc_query_config c),
         lk_periodic_bootstrap_interval := map_option from_secs (kc_periodic_bootstrap_interval_sec c),
         lk_provider_record_ttl := map_option from_secs (kc_provider_record_ttl_sec c),
         lk_query_timeout := qc_timeout (kc_query_config c),
         lk_record_filtering := store_inserts_into (kc_record_filtering c),
         lk_record_ttl := map_option from_secs (kc_record_ttl_sec c),
         lk_replication_factor := qc_replication_factor (kc_query_config c),
         lk_caching := caching_into (kc_caching c),
         lk_kbucket_inserts := bucket_inserts_into (kc_kbucket_inserts c),
         lk_max_packet_size := kc_max_packet_size c,
         lk_provider_publication_interval := map_option from_secs (kc_provider_publication_interval_sec c),
         lk_replication_interval := map_option from_secs (kc_record_replication_interval_sec c),
         lk_publication_interval := map_option from_secs (kc_record_publication_interval_sec c)\<rparr>))"

section \<open>Gossipsub\<close>

datatype validation_mode = ModeStrict | ModePermissive | ModeAnonymous | ModeNone
datatype lib_validation_mode = LibStrict | LibPermissive | LibAnonymous | LibNone

fun validation_mode_into :: "validation_mode \<Rightarrow> lib_validation_mode" where
  "validation_mode_into ModeStrict = LibStrict"
| "validation_mode_into ModePermissive = LibPermissive"
| "validation_mode_into ModeAnonymous = LibAnonymous"
| "validation_mode_into ModeNone = LibNone"

datatype gossip_store = Volatile

text \<open>\<open>config::Config\<close>; the floating-point gossip factor is kept as it is, its type is a parameter.\<close>

record 'f gossip_config =
  gc_validation_mode :: validation_mode
  gc_max_transmit_size :: nat
  gc_history_length :: nat
  gc_history_gossip :: nat
  gc_mesh_n :: nat
  gc_mesh_n_low :: nat
  gc_mesh_n_high :: nat
  gc_retain_scores :: nat
  gc_gossip_lazy :: nat
  gc_gossip_factor :: 'f
  gc_heartbeat_interval_ms :: u64
  gc_duplicate_cache_time_ms :: u64
  gc_allow_self_origin :: bool
  gc_gossip_retransimission :: u32
  gc_max_messages_per_rpc :: "nat option"
  gc_max_ihave_length :: nat
  gc_max_ihave_messages :: nat
  gc_store :: gossip_store

definition gossip_config_default :: "'f \<Rightarrow> 'f gossip_config" where
  "gossip_config_default quarter = \<lparr>gc_validation_mode = ModeStrict, gc_max_transmit_size = 65536,
     gc_history_length = 5, gc_history_gossip = 3, gc_mesh_n = 6, gc_mesh_n_low = 5, gc_mesh_n_high = 12,
     gc_retain_scores = 4, gc_gossip_lazy = 6, gc_gossip_factor = quarter, gc_heartbeat_interval_ms = 1000,
     gc_duplicate_cache_time_ms = 60 * 1000, gc_allow_self_origin = False, gc_gossip_retransimission = 3,
     gc_max_messages_per_rpc = None, gc_max_ihave_length = 5000, gc_max_ihave_messages = 10, gc_store = Volatile\<rparr>"

record 'f lib_gossip_builder =
  lg_history_length :: nat
  lg_history_gossip :: nat
  lg_mesh_n :: nat
  lg_mesh_n_low :: nat
  lg_mesh_n_high :: nat
  lg_retain_scores :: nat
  lg_gossip_lazy :: nat
  lg_gossip_factor :: 'f
  lg_heartbeat_interval :: nanos
  lg_duplicate_cache_time :: nanos
  lg_allow_self_origin :: bool
  lg_gossip_retransimission :: u32
  lg_max_messages_per_rpc :: "nat option"
  lg_max_ihave_length :: nat
  lg_max_ihave_messages :: nat
  lg_validation_mode :: lib_validation_mode
  lg_max_transmit_size :: nat

text \<open>\<open>build\<close> of the library may refuse the settings; \<open>expect\<close> then panics.\<close>

definition gossip_config_into ::
  "('f lib_gossip_builder \<Rightarrow> 'e + 'f lib_gossip_builder) \<Rightarrow> 'f gossip_config \<Rightarrow> 'f lib_gossip_builder outcome" where
  "gossip_config_into build c =
     (case build
        \<lparr>lg_history_length = gc_history_length c, lg_history_gossip = gc_history_gossip c,
         lg_mesh_n = gc_mesh_n c, lg_mesh_n_low = gc_mesh_n_low c, lg_mesh_n_high = gc_mesh_n_high c,
         lg_retain_scores = gc_retain_scores c, lg_gossip_lazy = gc_gossip_lazy c,
         lg_gossip_factor = gc_gossip_factor c,
         lg_heartbeat_interval = from_millis (gc_heartbeat_interval_ms c),
         lg_duplicate_cache_time = from_millis (gc_duplicate_cache_time_ms c),
         lg_allow_self_origin = gc_allow_self_origin c,
         lg_gossip_retransimission = gc_gossip_retransimission c,
         lg_max_messages_per_rpc = gc_max_messages_per_rpc c,
         lg_max_ihave_length = gc_max_ihave_length c, lg_max_ihave_messages = gc_max_ihave_messages c,
         lg_validation_mode = validation_mode_into (gc_validation_mode c),
         lg_max_transmit_size = gc_max_transmit_size c\<rparr> of
        Inl e \<Rightarrow> Panics
      | Inr cfg \<Rightarrow> Returns cfg)"

section \<open>mDNS, identify, relay\<close>

record mdns_config =
  mc_ttl :: nanos
  mc_query_interval :: nanos
  mc_enable_ipv6 :: bool

definition mdns_config_default :: mdns_config where
  "mdns_config_default = \<lparr>mc_ttl = from_secs (6 * 60), mc_query_interval = from_secs (5 * 60), mc_enable_ipv6 = False\<rparr>"

record lib_mdns_config =
  lm_ttl :: nanos
  lm_query_interval :: nanos
  lm_enable_ipv6 :: bool

definition mdns_config_into :: "mdns_config \<Rightarrow> lib_mdns_config" where
  "mdns_config_into c = \<lparr>lm_ttl = mc_ttl c, lm_query_interval = mc_query_interval c, lm_enable_ipv6 = mc_enable_ipv6 c\<rparr>"

record identify_config =
  ic_protocol_version :: string
  ic_agent_version :: string
  ic_interval :: u64
  ic_push_listen_addr_updates :: bool
  ic_cache_size :: nat

definition identify_config_default :: "string \<Rightarrow> identify_config" where
  "identify_config_default cargo_pkg_version =
     \<lparr>ic_protocol_version = ''owlnest/'' @ cargo_pkg_version,
      ic_agent_version = ''rust-libp2p/owlnest/'' @ cargo_pkg_version,
      ic_interval = 5 * 60, ic_push_listen_addr_updates = False, ic_cache_size = 100\<rparr>"

record 'p lib_identify_config =
  li_protocol_version :: string
  li_local_public_key :: 'p
  li_agent_version :: string
  li_cache_size :: nat
  li_interval :: nanos
  li_push_listen_addr_updates :: bool

definition identify_into_config ::
  "(string \<Rightarrow> 'p \<Rightarrow> 'p lib_identify_config) \<Rightarrow> identify_config \<Rightarrow> 'p \<Rightarrow> 'p lib_identify_config" where
  "identify_into_config lib_new c pubkey =
     (lib_new (ic_protocol_version c) pubkey)
       \<lparr>li_agent_version := ic_agent_version c, li_cache_size := ic_cache_size c,
        li_interval := from_secs (ic_interval c), li_push_listen_addr_updates := ic_push_listen_addr_updates c\<rparr>"

record relay_config =
  rc_max_reservations :: nat
  rc_max_reservations_per_peer :: nat
  rc_reservation_duration_sec :: u64
  rc_max_circuits :: nat
  rc_max_circuits_per_peer :: nat
  rc_max_circuit_duration_sec :: u64
  rc_max_circuit_bytes :: u64

definition relay_config_default :: relay_config where
  "relay_config_default = \<lparr>rc_max_reservations = 128, rc_max_reservations_per_peer = 4,
     rc_reservation_duration_sec = 60 * 60, rc_max_circuits = 16, rc_max_circuits_per_peer = 4,
     rc_max_circuit_duration_sec = 12 * 60 * 60, rc_max_circuit_bytes = 0\<rparr>"

record 'l lib_relay_config =
  lr_max_reservations :: nat
  lr_max_reservations_per_peer :: nat
  lr_reservation_duration :: nanos
  lr_reservation_rate_limiters :: 'l
  lr_max_circuits :: nat
  lr_max_circuits_per_peer :: nat
  lr_max_circuit_duration :: nanos
  lr_max_circuit_bytes :: u64
  lr_circuit_src_rate_limiters :: 'l

text \<open>The rate limiters stay those of the library's default.\<close>

definition relay_config_into :: "'l lib_relay_config \<Rightarrow> relay_config \<Rightarrow> 'l lib_relay_config" where
  "relay_config_into lib_default c =
     \<lparr>lr_max_reservations = rc_max_reservations c, lr_max_reservations_per_peer = rc_max_reservations_per_peer c,
      lr_reservation_duration = from_secs (rc_reservation_duration_sec c),
      lr_reservation_rate_limiters = lr_reservation_rate_limiters lib_default,
      lr_max_circuits = rc_max_circuits c, lr_max_circuits_per_peer = rc_max_circuits_per_peer c,
      lr_max_circuit_duration = from_secs (rc_max_circuit_duration_sec c),
      lr_max_circuit_bytes = rc_max_circuit_bytes c,
      lr_circuit_src_rate_limiters = lr_circuit_src_rate_limiters lib_default\<rparr>"

section \<open>Autonat\<close>

record autonat_config =
  ac_timeout_sec :: u64
  ac_boot_delay_sec :: u64
  ac_refresh_interval_sec :: u64
  ac_retry_interval_sec :: u64
  ac_throttle_server_period_sec :: u64
  ac_use_connected :: bool
  ac_confidence_max :: nat
  ac_max_peer_addresses :: nat
  ac_throttle_clients_global_max :: nat
  ac_throttle_clients_peer_max :: nat
  ac_throttle_clients_period_sec :: u64
  ac_only_global_ips :: bool

definition autonat_config_default :: autonat_config where
  "autonat_config_default = \<lparr>ac_timeout_sec = 30, ac_boot_delay_sec = 15, ac_refresh_interval_sec = 15 * 60,
     ac_retry_interval_sec = 90, ac_throttle_server_period_sec = 90, ac_use_connected = True, ac_confidence_max = 3,
     ac_max_peer_addresses = 16, ac_throttle_clients_global_max = 30, ac_throttle_clients_peer_max = 3,
     ac_throttle_clients_period_sec = 1, ac_only_global_ips = True\<rparr>"

record lib_autonat_config =
  la_timeout :: nanos
  la_boot_delay :: nanos
  la_refresh_interval :: nanos
  la_retry_interval :: nanos
  la_throttle_server_period :: nanos
  la_use_connected :: bool
  la_confidence_max :: nat
  la_max_peer_addresses :: nat
  la_throttle_clients_global_max :: nat
  la_throttle_clients_peer_max :: nat
  la_throttle_clients_period :: nanos
  la_only_global_ips :: bool

definition autonat_config_from :: "lib_autonat_config \<Rightarrow> autonat_config" where
  "autonat_config_from v = \<lparr>ac_timeout_sec = as_secs (la_timeout v), ac_boot_delay_sec = as_secs (la_boot_delay v),
     ac_refresh_interval_sec = as_secs (la_refresh_interval v), ac_retry_interval_sec = as_secs (la_retry_interval v),
     ac_throttle_server_period_sec = as_secs (la_throttle_server_period v), ac_use_connected = la_use_connected v,
     ac_confidence_max = la_confidence_max v, ac_max_peer_addresses = la_max_peer_addresses v,
     ac_throttle_clients_global_max = la_throttle_clients_global_max v,
     ac_throttle_clients_peer_max = la_throttle_clients_peer_max v,
     ac_throttle_clients_period_sec = as_secs (la_throttle_clients_period v), ac_only_global_ips = la_only_global_ips v\<rparr>"

section \<open>No setting is lost\<close>

lemma store_inserts_into_inj [simp]: "store_inserts_into a = store_inserts_into a' \<longleftrightarrow> a = a'"
  by (cases a; cases a') simp_all

lemma bucket_inserts_into_inj [simp]: "bucket_inserts_into a = bucket_inserts_into a' \<longleftrightarrow> a = a'"
  by (cases a; cases a') simp_all

lemma caching_into_inj [simp]: "caching_into a = caching_into a' \<longleftrightarrow> a = a'"
  by (cases a; cases a') simp_all

lemma validation_mode_into_inj [simp]: "validation_mode_into a = validation_mode_into a' \<longleftrightarrow> a = a'"
  by (cases a; cases a') simp_all

lemma map_option_from_secs [simp]: "map_option from_secs x = map_option from_secs y \<longleftrightarrow> x = y"
  by (cases x; cases y) simp_all

definition kad_protocol :: string where
  "kad_protocol = ''/ipfs/kad/1.0.0''"

lemma kad_protocol_slash [simp]: "kad_protocol \<noteq> []" "hd kad_protocol = CHR ''/''"
  by (simp_all add: kad_protocol_def)

lemma kad_into_config_inj:
  assumes "kad_into_config lib_new c kad_protocol = kad_into_config lib_new c' kad_protocol"
  shows "c = c'"
proof -
  define k where "k c = (case kad_into_config lib_new c kad_protocol of Returns k \<Rightarrow> k)" for c
  have "k c = k c'"
    using assms by (simp add: k_def)
  note sel = arg_cong [OF this]
  have q: "kc_query_config c = kc_query_config c'"
    by (rule query_config.equality)
      (use sel [of lk_disjoint_query_paths] sel [of lk_parallelism] sel [of lk_query_timeout]
         sel [of lk_replication_factor] in \<open>simp_all add: k_def kad_into_config_def\<close>)
  show ?thesis
    by (rule kad_config.equality)
      (use q sel [of lk_periodic_bootstrap_interval] sel [of lk_provider_record_ttl] sel [of lk_record_filtering]
         sel [of lk_record_ttl] sel [of lk_caching] sel [of lk_kbucket_inserts] sel [of lk_max_packet_size]
         sel [of lk_provider_publication_interval] sel [of lk_replication_interval] sel [of lk_publication_interval]
       in \<open>simp_all add: k_def kad_into_config_def\<close>)
qed

lemma kad_into_config_defaults:
  "lk_protocol (lib_new p) = lk_protocol (lib_new' p) \<Longrightarrow> kad_into_config lib_new c p = kad_into_config lib_new' c p"
  by (cases "lib_new p"; cases "lib_new' p") (simp add: kad_into_config_def)

text \<open>
  The conversion of the kad configuration is complete and faithful. For the protocol name the
  swarm uses it never panics; two configurations give the same library configuration only if they
  are equal, so no setting is dropped or confused with another; and every setting of the library
  apart from the protocol name comes from the configuration, whatever the library's defaults are.
\<close>

theorem kad_config_faithful:
  "kad_into_config lib_new c kad_protocol \<noteq> Panics
   \<and> (kad_into_config lib_new c kad_protocol = kad_into_config lib_new c' kad_protocol \<longleftrightarrow> c = c')
   \<and> (lk_protocol (lib_new p) = lk_protocol (lib_new' p) \<longrightarrow> kad_into_config lib_new c p = kad_into_config lib_new' c p)"
proof (intro conjI impI)
  show "kad_into_config lib_new c kad_protocol \<noteq> Panics"
    by (simp add: kad_into_config_def)
  show "kad_into_config lib_new c kad_protocol = kad_into_config lib_new c' kad_protocol \<longleftrightarrow> c = c'"
    using kad_into_config_inj by blast
qed (rule kad_into_config_defaults)

text \<open>Two libraries that differ in their default for the size of packets.\<close>

definition demo_lib_new :: "nat \<Rightarrow> string \<Rightarrow> lib_kad_config" where
  "demo_lib_new packet p = \<lparr>lk_protocol = p, lk_disjoint_query_paths = False, lk_parallelism = 3,
     lk_periodic_bootstrap_interval = None, lk_provider_record_ttl = None, lk_query_timeout = 0,
     lk_record_filtering = LibUnfiltered, lk_record_ttl = None, lk_replication_factor = 20,
     lk_caching = LibCachingDisabled, lk_kbucket_inserts = LibManual, lk_max_packet_size = packet,
     lk_provider_publication_interval = None, lk_replication_interval = None, lk_publication_interval = None\<rparr>"

theorem kad_config_faithful_witness:
  "kad_into_config (demo_lib_new 1) kad_config_default ''/x'' = kad_into_config (demo_lib_new 2) kad_config_default ''/x''"
  using kad_config_faithful [of "demo_lib_new 1" kad_config_default kad_config_default "''/x''" "demo_lib_new 2"]
  by (simp add: demo_lib_new_def)

text \<open>The other conversions lose nothing either; of gossipsub only the choice of the store is not passed on.\<close>

lemma mdns_config_into_inj: "mdns_config_into c = mdns_config_into c' \<longleftrightarrow> c = c'"
  by (cases c; cases c') (simp add: mdns_config_into_def)

lemma relay_config_into_inj: "relay_config_into l c = relay_config_into l c' \<longleftrightarrow> c = c'"
  by (cases c; cases c') (auto simp: relay_config_into_def)

lemma gossip_config_into_inj:
  "gossip_config_into Inr c = gossip_config_into Inr c' \<longleftrightarrow> c = c'"
  by (cases c; cases c'; cases "gc_store c"; cases "gc_store c'") (auto simp: gossip_config_into_def)

lemma autonat_config_roundtrip:
  "autonat_config_from \<lparr>la_timeout = from_secs (ac_timeout_sec c), la_boot_delay = from_secs (ac_boot_delay_sec c),
     la_refresh_interval = from_secs (ac_refresh_interval_sec c), la_retry_interval = from_secs (ac_retry_interval_sec c),
     la_throttle_server_period = from_secs (ac_throttle_server_period_sec c), la_use_connected = ac_use_connected c,
     la_confidence_max = ac_confidence_max c, la_max_peer_addresses = ac_max_peer_addresses c,
     la_throttle_clients_global_max = ac_throttle_clients_global_max c,
     la_throttle_clients_peer_max = ac_throttle_clients_peer_max c,
     la_throttle_clients_period = from_secs (ac_throttle_clients_period_sec c), la_only_global_ips = ac_only_global_ips c\<rparr> = c"
  by (cases c) (simp add: autonat_config_from_def)

end
