(* ===== verification/Startup.thy ===== *)
theory Startup
  imports Command_Line Configs Blob_Claims
begin

text \<open>
  From \<open>main\<close> to the running node: \<open>setup_logging\<close> and \<open>main\<close> of \<open>owlnest/src/main.rs\<close>, \<open>Builder::build\<close> of
  \<open>owlnest/src/net/p2p/swarm/mod.rs\<close>, \<open>HandleBundle::new\<close> and the constructors of the handles. Then the
  swarm task that \<open>build\<close> spawns is run, with libp2p driving the composed behaviour, and the
  invariants of the parts are carried over to the whole.
\<close>

section \<open>Configuration\<close>

record 'f node_config =
  nc_swarm :: swarm_config
  nc_autonat :: autonat_config
  nc_kad :: kad_config
  nc_identify :: identify_config
  nc_mdns :: mdns_config
  nc_messaging :: msg_config
  nc_blob :: blob_config
  nc_advertise :: adv_config
  nc_relay_server :: relay_config
  nc_gossipsub :: "'f gossip_config"

section \<open>Handles\<close>

text \<open>
  The capacities that tokio accepts for its bounded channels; the others make the constructors
  panic. Both ends of an \<open>mpsc\<close> channel are one value here, so a handle that holds nothing but a
  sender is its channel.
\<close>

record channel_limits =
  cl_broadcast :: "nat \<Rightarrow> bool"
  cl_mpsc :: "nat \<Rightarrow> bool"

definition mpsc_channel :: "channel_limits \<Rightarrow> nat \<Rightarrow> 'e receiver outcome" where
  "mpsc_channel lim buffer = (if cl_mpsc lim buffer then Returns receiver_new else Panics)"

definition swarm_handle_new :: "channel_limits \<Rightarrow> nat \<Rightarrow> swarm_in_event receiver outcome" where
  "swarm_handle_new lim buffer = mpsc_channel lim buffer"

definition blob_handle_new :: "channel_limits \<Rightarrow> nat \<Rightarrow> blob_in_event receiver outcome" where
  "blob_handle_new lim buffer_size = mpsc_channel lim buffer_size"

definition mdns_handle_new :: "channel_limits \<Rightarrow> nat \<Rightarrow> mdns_in_event receiver outcome" where
  "mdns_handle_new lim buffer_size = mpsc_channel lim buffer_size"

definition autonat_handle_new :: "channel_limits \<Rightarrow> nat \<Rightarrow> autonat_in_event receiver outcome" where
  "autonat_handle_new lim buffer_size = mpsc_channel lim buffer_size"

text \<open>The handle of messaging shares its store with a task that listens to the events of the swarm.\<close>

record messaging_handle =
  mh_message_store :: msg_store
  mh_counter :: u64

definition messaging_handle_new :: "channel_limits \<Rightarrow> nat \<Rightarrow> (messaging_handle \<times> msg_in_event receiver) outcome" where
  "messaging_handle_new lim buffer_size =
     and_then (mpsc_channel lim buffer_size) (\<lambda>rx. Returns (\<lparr>mh_message_store = [], mh_counter = 0\<rparr>, rx))"

text \<open>\<open>next_id\<close> of the handles of messaging and advertise: \<open>fetch_add\<close> wraps around.\<close>

definition fetch_add :: "u64 \<Rightarrow> u64 \<times> u64" where
  "fetch_add counter = (counter, counter + 1)"

definition messaging_next_id :: "messaging_handle \<Rightarrow> u64 \<times> messaging_handle" where
  "messaging_next_id h = (let (i, c) = fetch_add (mh_counter h) in (i, h\<lparr>mh_counter := c\<rparr>))"

definition advertise_next_id :: "u64 \<Rightarrow> u64 \<times> u64" where
  "advertise_next_id counter = fetch_add counter"

definition advertise_handle_new :: "channel_limits \<Rightarrow> nat \<Rightarrow> (u64 \<times> adv_in_event receiver) outcome" where
  "advertise_handle_new lim buffer_size = and_then (mpsc_channel lim buffer_size) (\<lambda>rx. Returns (0, rx))"

definition kad_handle_new :: "channel_limits \<Rightarrow> nat \<Rightarrow> (peer_tree_map \<times> kad_in_event receiver) outcome" where
  "kad_handle_new lim buffer_size = and_then (mpsc_channel lim buffer_size) (\<lambda>rx. Returns (Map.empty, rx))"

definition gossip_handle_new ::
  "channel_limits \<Rightarrow> gossip_store \<Rightarrow> nat \<Rightarrow> ((mem_topic_store \<times> gossip_message_store) \<times> gossip_in_event receiver) outcome" where
  "gossip_handle_new lim store buffer_size =
     and_then (mpsc_channel lim buffer_size) (\<lambda>rx.
       case store of Volatile \<Rightarrow> Returns ((mem_topic_store_default, []), rx))"

record handle_bundle =
  hb_messaging :: messaging_handle
  hb_advertise :: u64
  hb_kad :: peer_tree_map
  hb_gossipsub :: "mem_topic_store \<times> gossip_message_store"

definition handle_bundle_new :: "channel_limits \<Rightarrow> 'f node_config \<Rightarrow> (handle_bundle \<times> rx_bundle) outcome" where
  "handle_bundle_new lim cfg =
     (let size = sc_swarm_event_buffer_size (nc_swarm cfg) in
      and_then (swarm_handle_new lim size) (\<lambda>swarm.
      and_then (messaging_handle_new lim size) (\<lambda>(messaging, messaging_rx).
      and_then (advertise_handle_new lim size) (\<lambda>(advertise, advertise_rx).
      and_then (blob_handle_new lim size) (\<lambda>blob_rx.
      and_then (kad_handle_new lim size) (\<lambda>(kad, kad_rx).
      and_then (autonat_handle_new lim size) (\<lambda>autonat_rx.
      and_then (mdns_handle_new lim size) (\<lambda>mdns_rx.
      and_then (gossip_handle_new lim (gc_store (nc_gossipsub cfg)) size) (\<lambda>(gossipsub, gossipsub_rx).
        Returns (\<lparr>hb_messaging = messaging, hb_advertise = advertise, hb_kad = kad, hb_gossipsub = gossipsub\<rparr>,
          \<lparr>rb_swarm = swarm, rb_messaging = messaging_rx, rb_advertise = advertise_rx, rb_blob = blob_rx,
           rb_kad = kad_rx, rb_autonat = autonat_rx, rb_mdns = mdns_rx, rb_gossipsub = gossipsub_rx\<rparr>))))))))))"

text \<open>What the tasks spawned by the handles of messaging and kad do with an event of the swarm.\<close>

fun handles_listen :: "libp2p_event \<Rightarrow> handle_bundle \<Rightarrow> handle_bundle" where
  "handles_listen (LBehaviour (EvMessaging ev)) hb =
     hb\<lparr>hb_messaging := (hb_messaging hb)\<lparr>mh_message_store := msg_store_listener ev (mh_message_store (hb_messaging hb))\<rparr>\<rparr>"
| "handles_listen ev hb = hb\<lparr>hb_kad := kad_store_listener ev (hb_kad hb)\<rparr>"

section \<open>Building the swarm\<close>

text \<open>
  libp2p's builder: whether the transports can be set up, which behaviours refuse their
  configuration, and the state of the libp2p behaviours made from their configurations.
\<close>

record ('k, 'p, 'l) libp2p_parts =
  lp_keypair :: 'k
  lp_peer_id :: peer_id
  lp_kad :: lib_kad_config
  lp_mdns :: lib_mdns_config
  lp_identify :: "'p lib_identify_config"
  lp_relay_server :: "'l lib_relay_config"

record ('k, 'p, 'l, 'n) libp2p_builder =
  lb_tcp :: "'k \<Rightarrow> bool"
  lb_dns :: bool
  lb_relay_client :: "'k \<Rightarrow> bool"
  lb_kad_config_new :: "string \<Rightarrow> lib_kad_config"
  lb_mdns :: "lib_mdns_config \<Rightarrow> peer_id \<Rightarrow> bool"
  lb_identify_config_new :: "string \<Rightarrow> 'p \<Rightarrow> 'p lib_identify_config"
  lb_relay_config_default :: "'l lib_relay_config"
  lb_gossipsub :: "'k \<Rightarrow> bool"
  lb_behaviours :: "('k, 'p, 'l) libp2p_parts \<Rightarrow> 'n"
  lb_now :: nat

definition build_swarm ::
  "('k, 'p) crypto \<Rightarrow> ('k, 'p, 'l, 'n) libp2p_builder \<Rightarrow> 'f node_config \<Rightarrow> 'k identity_union \<Rightarrow> 'n owl_behaviour outcome" where
  "build_swarm cr lb cfg ident =
     (if \<not> lb_tcp lb (get_keypair ident) then Panics
      else if \<not> lb_dns lb then Panics
      else if \<not> lb_relay_client lb (get_keypair ident) then Panics
      else
        and_then (kad_into_config (lb_kad_config_new lb) (nc_kad cfg) ''/ipfs/kad/1.0.0'') (\<lambda>kad.
          let mdns = mdns_config_into (nc_mdns cfg) in
          if \<not> lb_mdns lb mdns (get_peer_id ident) then Panics
          else if \<not> lb_gossipsub lb (get_keypair ident) then Panics
          else Returns (owl_behaviour_new (nc_messaging cfg) (nc_advertise cfg) (lb_now lb) (nc_blob cfg)
            (lb_behaviours lb
              \<lparr>lp_keypair = get_keypair ident, lp_peer_id = get_peer_id ident, lp_kad = kad, lp_mdns = mdns,
               lp_identify = identify_into_config (lb_identify_config_new lb) (nc_identify cfg) (get_pubkey cr ident),
               lp_relay_server = relay_config_into (lb_relay_config_default lb) (nc_relay_server cfg)\<rparr>))))"

text \<open>
  \<open>Builder::build\<close>. The swarm is built inside the spawned task: when that panics, the task is gone
  but the manager is returned all the same.
\<close>

record ('k, 'n, 'c) node =
  nd_identity :: "'k identity_union"
  nd_handles :: handle_bundle
  nd_task :: "('n, 'c) swarm_task outcome"

definition swarm_build ::
  "channel_limits \<Rightarrow> (nat \<Rightarrow> 'c) \<Rightarrow> ('k, 'p) crypto \<Rightarrow> ('k, 'p, 'l, 'n) libp2p_builder \<Rightarrow> 'f node_config \<Rightarrow> 'k identity_union
    \<Rightarrow> ('k, 'n, 'c) node outcome" where
  "swarm_build lim broadcast_channel cr lb cfg ident =
     (let size = sc_swarm_event_buffer_size (nc_swarm cfg) in
      if \<not> cl_broadcast lim size then Panics
      else
        and_then (handle_bundle_new lim cfg) (\<lambda>(handles, rx_bundle).
          Returns \<lparr>nd_identity = ident, nd_handles = handles,
            nd_task = and_then (build_swarm cr lb cfg ident) (\<lambda>swarm.
              Returns \<lparr>st_swarm = swarm, st_rx = rx_bundle, st_event_out = broadcast_channel size\<rparr>)\<rparr>))"

section \<open>main\<close>

text \<open>
  \<open>setup_logging\<close>: \<open>create_dir\<close>, the time, the debug text of an error, whether no subscriber is
  set yet and the result of \<open>LogTracer::init\<close> come from outside.
\<close>

record log_env =
  le_time :: string
  le_create_dir :: "io_error option"
  le_debug :: "io_error \<Rightarrow> string"
  le_unset :: bool
  le_tracer :: "string option"

definition log_file :: "log_env \<Rightarrow> string" where
  "log_file le =
     (case le_create_dir le of
        None \<Rightarrow> ''./logs/'' @ le_time le @ ''.log''
      | Some e \<Rightarrow>
          if sublist ''AlreadyExists'' (le_debug le e) then ''./logs/'' @ le_time le @ ''.log''
          else le_time le @ ''.log'')"

definition setup_logging :: "log_env \<Rightarrow> disk_env \<Rightarrow> disk \<Rightarrow> ((io_error + string list) \<times> disk) outcome" where
  "setup_logging le env d =
     (case fs_create env (log_file le) d of
        (Inl e, d') \<Rightarrow> Returns (Inl e, d')
      | (Inr _, d') \<Rightarrow>
          if \<not> le_unset le then Panics
          else Returns (Inr (case le_tracer le of
              Some e \<Rightarrow> [''Cannot read logs from `log` source: '' @ e]
            | None \<Rightarrow> []), d'))"

definition config_path :: string where
  "config_path = ''./owlnest_config.toml''"

record ('f, 'k, 'p, 'l, 'n, 'c) main_env =
  me_toml :: "'f node_config toml"
  me_default_config :: "'f node_config"
  me_disk :: disk_env
  me_runtime :: "io_error option"
  me_log :: log_env
  me_crypto :: "('k, 'p) crypto"
  me_fresh_key :: 'k
  me_limits :: channel_limits
  me_broadcast_channel :: "nat \<Rightarrow> 'c"
  me_builder :: "('k, 'p, 'l, 'n) libp2p_builder"

datatype ('k, 'n, 'c) start_result = Exits io_error | Starts "('k, 'n, 'c) node"

definition main_start ::
  "('f, 'k, 'p, 'l, 'n, 'c) main_env \<Rightarrow> disk \<Rightarrow> (('k, 'n, 'c) start_result \<times> disk) outcome" where
  "main_start me d =
     (case read_config (me_toml me) (me_default_config me) (me_disk me) config_path d of
        (Inl e, d1) \<Rightarrow> Returns (Exits e, d1)
      | (Inr config, d1) \<Rightarrow>
          (case me_runtime me of
             Some e \<Rightarrow> Returns (Exits e, d1)
           | None \<Rightarrow>
               and_then (setup_logging (me_log me) (me_disk me) d1) (\<lambda>(_, d2).
               and_then (main_ident (me_crypto me) (me_disk me) (me_fresh_key me) (sc_identity_path (nc_swarm config)) d2)
                 (\<lambda>(ident, d3).
                   case ident of
                     Inl e \<Rightarrow> Returns (Exits e, d3)
                   | Inr ident \<Rightarrow>
                       and_then (swarm_build (me_limits me) (me_broadcast_channel me) (me_crypto me) (me_builder me) config ident)
                         (\<lambda>node. Returns (Starts node, d3))))))"

section \<open>The running node\<close>

text \<open>
  How libp2p drives the composed behaviour: only through the methods of \<open>NetworkBehaviour\<close>. The
  iteration order of the blob behaviour's hash maps may change at any time. As in \<open>blob_step\<close>, the
  counters of blob transfers are taken not to wrap around.
\<close>

definition blob_of :: "'n owl_behaviour \<Rightarrow> blob_behaviour" where
  "blob_of = (\<lambda>(m, a, b, n). b)"

definition adv_of :: "'n owl_behaviour \<Rightarrow> adv_behaviour" where
  "adv_of = (\<lambda>(m, (a, log), b, n). a)"

record ('n, 'o, 'f, 't, 'k) rest_behaviour =
  rs_poll :: "'n \<Rightarrow> ('o, 'f) to_swarm poll \<times> 'n"
  rs_on_swarm_event :: "from_swarm \<Rightarrow> 'n \<Rightarrow> 'n"
  rs_on_handler_event :: "peer_id \<Rightarrow> 't \<Rightarrow> 'n \<Rightarrow> 'n outcome"
  rs_established :: "'n \<Rightarrow> (connection_denied + 'k) \<times> 'n"

inductive drives :: "('n, 'o, 'f, 't, 'k) rest_behaviour \<Rightarrow> 'n owl_behaviour \<Rightarrow> 'n owl_behaviour \<Rightarrow> bool"
  for rest where
  poll: "drives rest s (snd (owl_poll env (rs_poll rest) s))"
| swarm_event: "drives rest s (owl_on_swarm_event (rs_on_swarm_event rest) ev s)"
| handler_event: "blob_no_wrap (blob_of s) \<Longrightarrow>
     owl_on_handler_event json env (rs_on_handler_event rest) peer ev s = Returns s' \<Longrightarrow> drives rest s s'"
| established: "drives rest s (snd (owl_established (rs_established rest) s))"
| rehash: "blob_rehash b b' \<Longrightarrow> drives rest (m, a, b, n) (m, a, b', n)"
| rest: "drives rest (m, a, b, n) (m, a, b, n')"

text \<open>
  Documented behaviour of the swarm: whatever it does when it is polled, with an event or without, it
  changes the behaviour by such calls only.
\<close>

definition driven_by ::
  "('n, 'o, 'f, 't, 'k) rest_behaviour \<Rightarrow> ('n owl_behaviour \<Rightarrow> libp2p_event option \<Rightarrow> 'n owl_behaviour \<Rightarrow> bool) \<Rightarrow> bool" where
  "driven_by rest next_event \<longleftrightarrow> (\<forall>s ev s'. next_event s ev s' \<longrightarrow> (drives rest)\<^sup>*\<^sup>* s s')"

definition run_step where
  "run_step cfg api bc next_event t t' \<longleftrightarrow>
     blob_no_wrap (blob_of (st_swarm t)) \<and> swarm_loop_any cfg api bc next_event t t'"

subsection \<open>The parts of the node\<close>

lemma of_simps [simp]:
  "blob_of (m, al, b, n) = b"
  "adv_of (m, (a, log), b, n) = a"
  by (simp_all add: blob_of_def adv_of_def)

lemma owl_cases:
  obtains m mlog a alog b n where "s = ((m, mlog), (a, alog), b, n)"
  by (metis surj_pair)

lemma blob_poll_part: "blob_of (snd (owl_poll env rest s)) = blob_of s \<or> blob_of (snd (owl_poll env rest s)) = snd (blob_poll env (blob_of s))"
  by (cases s rule: owl_cases) (auto simp: owl_poll_def sel_poll_def blob_of_def split: prod.splits poll.splits)

lemma adv_poll_part: "adv_of (snd (owl_poll env rest s)) = adv_of s \<or> adv_of (snd (owl_poll env rest s)) = fst (snd (adv_poll (adv_of s)))"
  by (cases s rule: owl_cases) (auto simp: owl_poll_def sel_poll_def adv_poll_log_def adv_of_def split: prod.splits poll.splits)

lemma sel_on_handler_event_iff:
  "sel_on_handler_event f g ev (a, b) = Returns (a', b') \<longleftrightarrow>
     (\<exists>x. ev = Inl x \<and> f x a = Returns a' \<and> b' = b) \<or> (\<exists>y. ev = Inr y \<and> g y b = Returns b' \<and> a' = a)"
  by (cases ev) (auto simp: and_then_Returns_iff)

lemma handler_event_parts:
  assumes "owl_on_handler_event json env rest peer ev s = Returns s'"
  shows "blob_of s' = blob_of s \<or> (\<exists>x. blob_on_handler_event env peer x (blob_of s) = Returns (blob_of s'))"
    and "adv_of s' = adv_of s \<or> (\<exists>x. adv_of s' = adv_on_handler_event peer x (adv_of s))"
  using assms
  by (cases s rule: owl_cases; cases s' rule: owl_cases;
      auto simp: owl_on_handler_event_def sel_on_handler_event_iff)+

lemma established_parts:
  "blob_of (snd (owl_established rest s)) = blob_of s" "adv_of (snd (owl_established rest s)) = adv_of s"
  by (cases s rule: owl_cases;
      auto simp: owl_established_def sel_established_def msg_established_def adv_established_def blob_established_def
        split: prod.splits sum.splits)+

lemma swarm_event_parts:
  "blob_of (owl_on_swarm_event rest ev s) = blob_on_swarm_event ev (blob_of s)"
  "adv_of (owl_on_swarm_event rest ev s) = adv_on_swarm_event ev (adv_of s)"
  by (cases s rule: owl_cases; simp add: owl_on_swarm_event_def sel_on_swarm_event_def)+

lemma drives_blob: "drives rest s s' \<Longrightarrow> blob_step\<^sup>*\<^sup>* (blob_of s) (blob_of s')"
proof (induction rule: drives.induct)
  case (poll s env)
  then show ?case
    using blob_poll_part [of env "rs_poll rest" s] blob_step.poll [of "blob_of s" env] by auto
next
  case (handler_event s json env peer ev s')
  then show ?case
    using handler_event_parts(1) [OF handler_event(2)] by (auto intro: r_into_rtranclp blob_step.connection)
next
  case (rehash b b' m a n)
  then show ?case by (auto intro: r_into_rtranclp blob_step.rehash)
qed (auto simp: swarm_event_parts established_parts intro: r_into_rtranclp blob_step.swarm)

lemma adv_poll_step: "adv_step b (fst (snd (adv_poll b)))"
  by (metis adv_step.poll prod.collapse)

lemma drives_adv: "drives rest s s' \<Longrightarrow> adv_step\<^sup>*\<^sup>* (adv_of s) (adv_of s')"
proof (induction rule: drives.induct)
  case (poll s env)
  then show ?case
    using adv_poll_part [of env "rs_poll rest" s] adv_poll_step [of "adv_of s"] by auto
next
  case (handler_event s json env peer ev s')
  then show ?case
    using handler_event_parts(2) [OF handler_event(2)] by (metis adv_step.connection r_into_rtranclp rtranclp.rtrancl_refl)
next
  case (swarm_event s ev)
  then show ?case
    using adv_step.swarm [of "adv_of s" ev] by (simp add: swarm_event_parts r_into_rtranclp)
next
  case (rehash b b' m a n)
  then show ?case by (cases a) simp
next
  case (rest m a b n n')
  then show ?case by (cases a) simp
qed (simp add: established_parts)

lemma drives_star:
  assumes "(drives rest)\<^sup>*\<^sup>* s s'"
  shows "blob_step\<^sup>*\<^sup>* (blob_of s) (blob_of s') \<and> adv_step\<^sup>*\<^sup>* (adv_of s) (adv_of s')"
  using assms by (induction rule: rtranclp_induct) (auto dest: drives_blob drives_adv)

lemma incoming_event_parts:
  assumes "handle_incoming_event api env ev s = Returns (rs, s')"
  shows "blob_of s' = blob_of s \<or> (\<exists>x rs. blob_push_event env x (blob_of s) = Returns (blob_of s', rs))"
    and "adv_of s' = adv_of s \<or> (\<exists>x. adv_of s' = adv_push_event x (adv_of s))"
  using assms
  by (cases s rule: owl_cases; cases ev; auto simp: and_then_Returns_iff split: prod.splits)+

lemma on_rest_parts [simp]: "blob_of (on_rest f s) = blob_of s" "adv_of (on_rest f s) = adv_of s"
  by (cases s rule: owl_cases; simp add: on_rest_def)+

lemma run_step_parts:
  assumes "driven_by rest next_event" and "run_step cfg api bc next_event t t'"
  shows "blob_step\<^sup>*\<^sup>* (blob_of (st_swarm t)) (blob_of (st_swarm t')) \<and> adv_step\<^sup>*\<^sup>* (adv_of (st_swarm t)) (adv_of (st_swarm t'))"
proof -
  obtain l where wrap: "blob_no_wrap (blob_of (st_swarm t))" and "swarm_loop cfg api bc next_event l t t'"
    using assms(2) by (auto simp: run_step_def swarm_loop_any_def)
  from this(2) show ?thesis
  proof cases
    case (request ev rx' env replies s')
    have "blob_step\<^sup>*\<^sup>* (blob_of (st_swarm t)) (blob_of s')"
      using wrap incoming_event_parts(1) [OF request(4)] by (auto intro: r_into_rtranclp blob_step.request)
    moreover have "adv_step\<^sup>*\<^sup>* (adv_of (st_swarm t)) (adv_of s')"
      using incoming_event_parts(2) [OF request(4)] by (metis adv_step.request r_into_rtranclp rtranclp.rtrancl_refl)
    ultimately show ?thesis
      using request by simp
  next
    case (event ev s')
    with assms(1) have "(drives rest)\<^sup>*\<^sup>* (st_swarm t) s'"
      unfolding driven_by_def by blast
    from drives_star [OF this] event show ?thesis by simp
  next
    case (polled s')
    with assms(1) have "(drives rest)\<^sup>*\<^sup>* (st_swarm t) s'"
      unfolding driven_by_def by blast
    from drives_star [OF this] polled show ?thesis by simp
  qed auto
qed

text \<open>What holds of the node in every state of its event loop.\<close>

definition run_inv :: "'f node_config \<Rightarrow> 'c broadcast \<Rightarrow> ('n, 'c) swarm_task \<Rightarrow> bool" where
  "run_inv cfg bc t \<longleftrightarrow>
     buffer_inv (nc_swarm cfg) bc t \<and> blob_inv (blob_of (st_swarm t)) \<and> adv_inv (nc_advertise cfg) (adv_of (st_swarm t))"

lemma run_inv_step:
  assumes "driven_by rest next_event" and "broadcast_ok bc (sc_swarm_event_buffer_size (nc_swarm cfg))"
    and "run_inv cfg bc t" and step: "run_step (nc_swarm cfg) api bc next_event t t'"
  shows "run_inv cfg bc t'"
proof -
  obtain l where "swarm_loop (nc_swarm cfg) api bc next_event l t t'"
    using step by (auto simp: run_step_def swarm_loop_any_def)
  with assms(2,3) have "buffer_inv (nc_swarm cfg) bc t'"
    by (auto simp: run_inv_def intro: buffer_inv_step)
  moreover have "blob_inv (blob_of (st_swarm t'))" "adv_inv (nc_advertise cfg) (adv_of (st_swarm t'))"
    using run_step_parts [OF assms(1) step] assms(3)
    by (auto simp: run_inv_def intro: blob_sys.steps_inv adv_sys.steps_inv)
  ultimately show ?thesis by (simp add: run_inv_def)
qed

section \<open>Starting\<close>

lemma handle_bundle_new_eq:
  "handle_bundle_new lim cfg =
     (if cl_mpsc lim (sc_swarm_event_buffer_size (nc_swarm cfg))
      then Returns (\<lparr>hb_messaging = \<lparr>mh_message_store = [], mh_counter = 0\<rparr>, hb_advertise = 0, hb_kad = Map.empty,
             hb_gossipsub = (mem_topic_store_default, [])\<rparr>, rx_bundle_new)
      else Panics)"
  by (simp add: handle_bundle_new_def swarm_handle_new_def messaging_handle_new_def advertise_handle_new_def
      blob_handle_new_def kad_handle_new_def autonat_handle_new_def mdns_handle_new_def gossip_handle_new_def
      mpsc_channel_def rx_bundle_new_def Let_def split: gossip_store.split)

text \<open>What libp2p has to agree to.\<close>

definition libp2p_ready :: "('k, 'p, 'l, 'n) libp2p_builder \<Rightarrow> 'f node_config \<Rightarrow> 'k identity_union \<Rightarrow> bool" where
  "libp2p_ready lb cfg ident \<longleftrightarrow>
     lb_tcp lb (get_keypair ident) \<and> lb_dns lb \<and> lb_relay_client lb (get_keypair ident)
     \<and> lb_mdns lb (mdns_config_into (nc_mdns cfg)) (get_peer_id ident) \<and> lb_gossipsub lb (get_keypair ident)"

lemma build_swarm_iff:
  "(\<exists>s. build_swarm cr lb cfg ident = Returns s) \<longleftrightarrow> libp2p_ready lb cfg ident"
  by (auto simp: build_swarm_def libp2p_ready_def kad_into_config_def owl_behaviour_new_def Let_def)

lemma build_swarm_parts:
  assumes "build_swarm cr lb cfg ident = Returns s"
  shows "blob_of s = blob_behaviour_new (nc_blob cfg) (lb_now lb) \<and> adv_of s = adv_behaviour_new (nc_advertise cfg)"
  using assms by (auto simp: build_swarm_def kad_into_config_def owl_behaviour_new_def Let_def split: if_splits)

lemma swarm_build_iff:
  "swarm_build lim bch cr lb cfg ident = Returns node \<longleftrightarrow>
     cl_broadcast lim (sc_swarm_event_buffer_size (nc_swarm cfg)) \<and> cl_mpsc lim (sc_swarm_event_buffer_size (nc_swarm cfg))
     \<and> nd_identity node = ident
     \<and> nd_handles node = \<lparr>hb_messaging = \<lparr>mh_message_store = [], mh_counter = 0\<rparr>, hb_advertise = 0, hb_kad = Map.empty,
             hb_gossipsub = (mem_topic_store_default, [])\<rparr>
     \<and> nd_task node = and_then (build_swarm cr lb cfg ident) (\<lambda>swarm.
         Returns \<lparr>st_swarm = swarm, st_rx = rx_bundle_new, st_event_out = bch (sc_swarm_event_buffer_size (nc_swarm cfg))\<rparr>)"
  by (cases node) (auto simp: swarm_build_def handle_bundle_new_eq Let_def)

text \<open>A panic while the swarm is built ends the task only: \<open>build\<close> returns its manager regardless.\<close>

lemma task_alive_iff:
  assumes "swarm_build lim bch cr lb cfg ident = Returns node"
  shows "(\<exists>t. nd_task node = Returns t) \<longleftrightarrow> libp2p_ready lb cfg ident"
  using assms build_swarm_iff [of cr lb cfg ident] by (auto simp: swarm_build_iff and_then_Returns_iff)

lemma log_file_not_config: "log_file le \<noteq> config_path"
proof
  assume "log_file le = config_path"
  then have "last (log_file le) = last config_path" by simp
  then show False
    by (auto simp: log_file_def config_path_def split: option.splits if_splits)
qed

lemma setup_logging_iff:
  "(\<exists>r. setup_logging le env d = Returns (r, d')) \<longleftrightarrow>
     (le_unset le \<or> de_create env (log_file le) \<noteq> None)
     \<and> d' = (if de_create env (log_file le) = None then d(log_file le \<mapsto> []) else d)"
  by (auto simp: setup_logging_def fs_create_def split: option.splits)

lemma export_to_file_other: "p \<noteq> path \<Longrightarrow> snd (export_to_file env path buf d) p = d p"
  by (simp add: export_to_file_def fs_create_def fs_write_all_def split: option.split)

lemma main_ident_other:
  assumes "main_ident cr env fresh path d = Returns (r, d')" and "p \<noteq> path"
  shows "d' p = d p"
proof (cases "path \<noteq> [] \<and> isl (from_file_protobuf_encoding cr env path d)")
  case True
  then obtain e where "from_file_protobuf_encoding cr env path d = Inl e"
    by (auto simp: isl_def)
  with True assms(1) obtain buf where "d' = snd (export_to_file env path buf d)"
    by (auto simp: main_ident_def get_ident_def export_keypair_def and_then_Returns_iff Let_def split: option.splits)
      (metis snd_conv)
  with export_to_file_other [OF assms(2)] show ?thesis by simp
next
  case False
  with assms(1) show ?thesis
    by (cases "from_file_protobuf_encoding cr env path d") (auto simp: main_ident_def get_ident_def split: if_splits)
qed

lemma read_config_ok:
  "read_config toml c env path d = (Inr cfg, d') \<longleftrightarrow>
     d' = d \<and> (\<exists>bytes. de_open env path = None \<and> d path = Some bytes \<and> toml_from_str toml (de_text env path bytes) = Some cfg)"
  by (auto simp: read_config_def Let_def bind_eq_Some_conv split: option.splits)

text \<open>When \<open>main\<close> gets as far as the interactive shell.\<close>

lemma main_start_iff:
  "main_start me d = Returns (Starts node, d') \<longleftrightarrow>
     (\<exists>cfg r d2 ident. read_config (me_toml me) (me_default_config me) (me_disk me) config_path d = (Inr cfg, d)
       \<and> me_runtime me = None
       \<and> setup_logging (me_log me) (me_disk me) d = Returns (r, d2)
       \<and> main_ident (me_crypto me) (me_disk me) (me_fresh_key me) (sc_identity_path (nc_swarm cfg)) d2 = Returns (Inr ident, d')
       \<and> swarm_build (me_limits me) (me_broadcast_channel me) (me_crypto me) (me_builder me) cfg ident = Returns node)"
  (is "?l \<longleftrightarrow> ?r")
proof
  assume ?l
  then obtain cfg d1 where c: "read_config (me_toml me) (me_default_config me) (me_disk me) config_path d = (Inr cfg, d1)"
    by (auto simp: main_start_def split: prod.splits sum.splits)
  then have "d1 = d" by (simp add: read_config_ok)
  with c \<open>?l\<close> show ?r
    by (auto simp: main_start_def and_then_Returns_iff split: option.splits sum.splits) (metis sum.exhaust)
qed (auto simp: main_start_def)

section \<open>Properties\<close>

subsection \<open>A node of one-byte keys\<close>

definition demo_node_config :: "nat node_config" where
  "demo_node_config = \<lparr>nc_swarm = swarm_config_default\<lparr>sc_identity_path := ''id''\<rparr>, nc_autonat = autonat_config_default,
     nc_kad = kad_config_default, nc_identify = identify_config_default ''1'', nc_mdns = mdns_config_default,
     nc_messaging = msg_config_default, nc_blob = blob_config_default, nc_advertise = adv_config_default,
     nc_relay_server = relay_config_default, nc_gossipsub = gossip_config_default 0\<rparr>"

definition demo_log :: "string \<Rightarrow> log_env" where
  "demo_log time = \<lparr>le_time = time, le_create_dir = None, le_debug = (\<lambda>_. []), le_unset = True, le_tracer = None\<rparr>"

definition demo_builder :: "(u8, u8, unit, nat) libp2p_builder" where
  "demo_builder = \<lparr>lb_tcp = \<lambda>_. True, lb_dns = True, lb_relay_client = \<lambda>_. True, lb_kad_config_new = demo_lib_new 0,
     lb_mdns = \<lambda>_ _. True,
     lb_identify_config_new = (\<lambda>v p. \<lparr>li_protocol_version = v, li_local_public_key = p, li_agent_version = [],
       li_cache_size = 0, li_interval = 0, li_push_listen_addr_updates = False\<rparr>),
     lb_relay_config_default = \<lparr>lr_max_reservations = 0, lr_max_reservations_per_peer = 0, lr_reservation_duration = 0,
       lr_reservation_rate_limiters = (), lr_max_circuits = 0, lr_max_circuits_per_peer = 0, lr_max_circuit_duration = 0,
       lr_max_circuit_bytes = 0, lr_circuit_src_rate_limiters = ()\<rparr>,
     lb_gossipsub = \<lambda>_. True, lb_behaviours = \<lambda>_. 0, lb_now = 0\<rparr>"

definition demo_main :: "(nat, u8, u8, unit, nat, nat \<times> nat) main_env" where
  "demo_main = \<lparr>me_toml = \<lparr>toml_from_str = \<lambda>_. Some demo_node_config, toml_to_string_pretty = \<lambda>_. []\<rparr>,
     me_default_config = demo_node_config, me_disk = demo_disk_env, me_runtime = None, me_log = demo_log ''1'',
     me_crypto = demo_crypto, me_fresh_key = 7,
     me_limits = \<lparr>cl_broadcast = \<lambda>n. 0 < n, cl_mpsc = \<lambda>n. 0 < n\<rparr>,
     me_broadcast_channel = \<lambda>_. (0, 0), me_builder = demo_builder\<rparr>"

definition demo_main_disk :: disk where
  "demo_main_disk = [config_path \<mapsto> []]"

definition demo_rest_behaviour :: "(nat, unit, unit, unit, unit) rest_behaviour" where
  "demo_rest_behaviour = \<lparr>rs_poll = \<lambda>n. (Pending, n), rs_on_swarm_event = \<lambda>_ n. n, rs_on_handler_event = \<lambda>_ _ n. Returns n,
     rs_established = \<lambda>n. (Inr (), n)\<rparr>"

lemma demo_main_config:
  "read_config (me_toml demo_main) (me_default_config demo_main) (me_disk demo_main) config_path demo_main_disk =
     (Inr demo_node_config, demo_main_disk)"
  by (simp add: read_config_ok demo_main_def demo_disk_env_def demo_main_disk_def)

lemma demo_main_ready: "libp2p_ready (me_builder demo_main) demo_node_config ident"
  by (simp add: libp2p_ready_def demo_main_def demo_builder_def)

lemma demo_main_starts:
  "\<exists>node t0. main_start demo_main demo_main_disk =
       Returns (Starts node, demo_main_disk(log_file (demo_log ''1'') \<mapsto> [], ''id'' \<mapsto> [7]))
     \<and> nd_task node = Returns t0 \<and> nd_identity node = identity_generate demo_crypto 7 \<and> st_event_out t0 = (0, 0)
     \<and> blob_of (st_swarm t0) = blob_behaviour_new blob_config_default 0"
proof -
  let ?d = "demo_main_disk(log_file (demo_log ''1'') \<mapsto> [])" and ?i = "identity_generate demo_crypto 7"
  have log: "setup_logging (me_log demo_main) (me_disk demo_main) demo_main_disk = Returns (Inr [], ?d)"
    by (simp add: setup_logging_def fs_create_def demo_main_def demo_disk_env_def demo_log_def)
  have fresh: "?d ''id'' = None"
    by (simp add: demo_main_disk_def config_path_def log_file_def demo_log_def)
  have ident: "main_ident (me_crypto demo_main) (me_disk demo_main) (me_fresh_key demo_main)
      (sc_identity_path (nc_swarm demo_node_config)) ?d = Returns (Inr ?i, ?d(''id'' \<mapsto> [7]))"
    using fresh
    by (simp add: main_ident_def get_ident_def from_file_protobuf_encoding_def fs_read_def export_keypair_def
        export_to_file_def fs_create_def fs_write_all_def identity_generate_def demo_crypto_def demo_disk_env_def
        demo_node_config_def demo_main_def)
  obtain s where s: "build_swarm (me_crypto demo_main) (me_builder demo_main) demo_node_config ?i = Returns s"
    using build_swarm_iff demo_main_ready by metis
  obtain node where build: "swarm_build (me_limits demo_main) (me_broadcast_channel demo_main) (me_crypto demo_main)
      (me_builder demo_main) demo_node_config ?i = Returns node"
    by (auto simp: swarm_build_def handle_bundle_new_eq Let_def demo_main_def demo_node_config_def swarm_config_default_def)
  then have "main_start demo_main demo_main_disk = Returns (Starts node, ?d(''id'' \<mapsto> [7]))"
    using demo_main_config log ident by (auto simp: main_start_iff demo_main_def)
  with build s build_swarm_parts [OF s] show ?thesis
    by (auto simp: swarm_build_iff demo_main_def demo_builder_def demo_node_config_def)
qed

text \<open>
  C3. The node as \<open>main\<close> starts it. Whenever \<open>main\<close> reaches the shell and the swarm task has
  been built, then in every state that the task reaches, whatever requests, connections, events
  and listeners it meets: no listener of swarm events has lagged, the tables of the blob behaviour
  are consistent, and the advertised peers are distinct and at most one more than configured.
\<close>

theorem running_node_invariants:
  assumes start: "main_start me d = Returns (Starts node, d')" and task: "nd_task node = Returns t0"
    and cfg: "fst (read_config (me_toml me) (me_default_config me) (me_disk me) config_path d) = Inr cfg"
    and libp2p: "driven_by rest next_event"
    and channel: "broadcast_ok bc (sc_swarm_event_buffer_size (nc_swarm cfg))"
      "bc_len bc (me_broadcast_channel me (sc_swarm_event_buffer_size (nc_swarm cfg))) = 0"
      "bc_overwritten bc (me_broadcast_channel me (sc_swarm_event_buffer_size (nc_swarm cfg))) = 0"
    and run: "(run_step (nc_swarm cfg) api bc next_event)\<^sup>*\<^sup>* t0 t"
  shows "bc_len bc (st_event_out t) \<le> sc_swarm_event_buffer_size (nc_swarm cfg)
    \<and> bc_overwritten bc (st_event_out t) = 0
    \<and> blob_tables_wf (blob_of (st_swarm t)) \<and> blob_sends_ok (blob_of (st_swarm t)) \<and> blob_recvs_ok (blob_of (st_swarm t))
    \<and> distinct (ab_advertised_peers (adv_of (st_swarm t)))
    \<and> length (ab_advertised_peers (adv_of (st_swarm t))) \<le> Suc (ac_max_advertise_capacity (nc_advertise cfg))"
proof -
  obtain ident where "swarm_build (me_limits me) (me_broadcast_channel me) (me_crypto me) (me_builder me) cfg ident = Returns node"
    using start cfg by (auto simp: main_start_iff)
  then have "nd_task node = and_then (build_swarm (me_crypto me) (me_builder me) cfg ident) (\<lambda>swarm.
      Returns \<lparr>st_swarm = swarm, st_rx = rx_bundle_new,
        st_event_out = me_broadcast_channel me (sc_swarm_event_buffer_size (nc_swarm cfg))\<rparr>)"
    by (simp add: swarm_build_iff)
  with task have "and_then (build_swarm (me_crypto me) (me_builder me) cfg ident) (\<lambda>swarm.
      Returns \<lparr>st_swarm = swarm, st_rx = rx_bundle_new,
        st_event_out = me_broadcast_channel me (sc_swarm_event_buffer_size (nc_swarm cfg))\<rparr>) = Returns t0"
    by simp
  then obtain s where s: "build_swarm (me_crypto me) (me_builder me) cfg ident = Returns s"
    and t0: "t0 = \<lparr>st_swarm = s, st_rx = rx_bundle_new,
        st_event_out = me_broadcast_channel me (sc_swarm_event_buffer_size (nc_swarm cfg))\<rparr>"
    by (auto simp: and_then_Returns_iff)
  have "invariant_system t0 (run_step (nc_swarm cfg) api bc next_event) (run_inv cfg bc)"
  proof
    show "run_inv cfg bc t0"
      using channel build_swarm_parts [OF s] blob_inv_new adv_sys.inv_init
      by (simp add: run_inv_def buffer_inv_def t0)
  qed (rule run_inv_step [OF libp2p channel(1)])
  from invariant_system.reachable_inv [OF this run] show ?thesis
    using upper_bound_le [of "nc_swarm cfg"]
    by (simp add: run_inv_def buffer_inv_def blob_inv_def adv_inv_def hs_wf_def)
qed

text \<open>A swarm that meets the request of a peer to be advertised at every poll.\<close>

definition demo_next :: "json_codec \<Rightarrow> nat owl_behaviour \<Rightarrow> libp2p_event option \<Rightarrow> nat owl_behaviour \<Rightarrow> bool" where
  "demo_next json s ev s' \<longleftrightarrow> blob_no_wrap (blob_of s)
     \<and> owl_on_handler_event json demo_env (rs_on_handler_event demo_rest_behaviour) (PeerId [1]) (Inr (Inl (ATB_IncomingAdvertiseReq True))) s
         = Returns s'"

lemma demo_next_driven: "driven_by demo_rest_behaviour (demo_next json)"
  unfolding driven_by_def demo_next_def by (blast intro: r_into_rtranclp drives.handler_event)

lemma demo_next_enabled: "blob_no_wrap (blob_of s) \<Longrightarrow> \<exists>s'. demo_next json s ev s'"
  by (cases s rule: owl_cases) (simp add: demo_next_def owl_on_handler_event_def)

theorem running_node_invariants_witness:
  "\<forall>json (api :: nat swarm_api). \<exists>node d' t0 t.
     main_start demo_main demo_main_disk = Returns (Starts node, d') \<and> nd_task node = Returns t0
     \<and> run_step (nc_swarm demo_node_config) api (demo_broadcast 16) (demo_next json) t0 t
     \<and> bc_len (demo_broadcast 16) (st_event_out t) \<le> 16 \<and> length (ab_advertised_peers (adv_of (st_swarm t))) \<le> 33"
proof (intro allI)
  fix json and api :: "nat swarm_api"
  obtain node d' t0 where start: "main_start demo_main demo_main_disk = Returns (Starts node, d')" and task: "nd_task node = Returns t0"
    and t0: "st_event_out t0 = (0, 0)" "blob_of (st_swarm t0) = blob_behaviour_new blob_config_default 0"
    using demo_main_starts by blast
  have wrap: "blob_no_wrap (blob_of (st_swarm t0))"
    by (simp add: t0 blob_no_wrap_def blob_behaviour_new_def blob_behaviour_default_def)
  obtain s' where "demo_next json (st_swarm t0) (Some (LDialing None 0)) s'"
    using demo_next_enabled [OF wrap] by blast
  then obtain t where "swarm_loop (nc_swarm demo_node_config) api (demo_broadcast 16) (demo_next json) (LoopSwarm (LDialing None 0)) t0 t"
    using t0 by (auto simp: demo_broadcast_def upper_bound_eq demo_node_config_def swarm_config_default_def
        intro!: that [OF swarm_loop.event])
  with wrap have step: "run_step (nc_swarm demo_node_config) api (demo_broadcast 16) (demo_next json) t0 t"
    by (auto simp: run_step_def swarm_loop_any_def)
  have cfg: "fst (read_config (me_toml demo_main) (me_default_config demo_main) (me_disk demo_main) config_path demo_main_disk)
      = Inr demo_node_config"
    by (simp add: demo_main_config)
  have size: "sc_swarm_event_buffer_size (nc_swarm demo_node_config) = 16"
    and capacity: "ac_max_advertise_capacity (nc_advertise demo_node_config) = 32"
    by (simp_all add: demo_node_config_def swarm_config_default_def adv_config_default_def)
  have empty: "bc_len (demo_broadcast 16) (me_broadcast_channel demo_main 16) = 0"
    "bc_overwritten (demo_broadcast 16) (me_broadcast_channel demo_main 16) = 0"
    by (simp_all add: demo_broadcast_def demo_main_def)
  have "bc_len (demo_broadcast 16) (st_event_out t) \<le> 16 \<and> length (ab_advertised_peers (adv_of (st_swarm t))) \<le> 33"
    using running_node_invariants [OF start task cfg demo_next_driven, where bc = "demo_broadcast 16" and api = api and t = t and json1 = json] step
      demo_broadcast_ok [of 16] empty
    by (simp add: size capacity r_into_rtranclp)
  with start task step show "\<exists>node d' t0 t.
     main_start demo_main demo_main_disk = Returns (Starts node, d') \<and> nd_task node = Returns t0
     \<and> run_step (nc_swarm demo_node_config) api (demo_broadcast 16) (demo_next json) t0 t
     \<and> bc_len (demo_broadcast 16) (st_event_out t) \<le> 16 \<and> length (ab_advertised_peers (adv_of (st_swarm t))) \<le> 33"
    by blast
qed

text \<open>
  C15. A node keeps its identity across restarts. When \<open>main\<close> has reached the shell with an identity
  path that names neither the configuration nor the log of the next start, a later start on the disk
  it left behind, with whatever fresh key and log at hand, reaches the shell again with the same
  identity, as long as the key file can be read; the identity's peer id belongs to its key.
\<close>

theorem restart_keeps_identity:
  assumes codec: "key_codec (me_crypto me)"
    and start: "main_start me d = Returns (Starts node, d')"
    and cfg: "fst (read_config (me_toml me) (me_default_config me) (me_disk me) config_path d) = Inr cfg"
    and path: "sc_identity_path (nc_swarm cfg) \<notin> {[], config_path, log_file log}"
    and readable: "de_read (me_disk me) (sc_identity_path (nc_swarm cfg)) = None"
    and log: "le_unset log"
  shows "identity_ok (me_crypto me) (nd_identity node)
    \<and> (\<exists>node' d''. main_start (me\<lparr>me_fresh_key := fresh, me_log := log\<rparr>) d' = Returns (Starts node', d'')
        \<and> nd_identity node' = nd_identity node)"
proof -
  let ?path = "sc_identity_path (nc_swarm cfg)" and ?cr = "me_crypto me" and ?env = "me_disk me"
  obtain r d2 ident where parts: "me_runtime me = None" "setup_logging (me_log me) ?env d = Returns (r, d2)"
    "main_ident ?cr ?env (me_fresh_key me) ?path d2 = Returns (Inr ident, d')"
    and conf: "read_config (me_toml me) (me_default_config me) ?env config_path d = (Inr cfg, d)"
    and build: "swarm_build (me_limits me) (me_broadcast_channel me) ?cr (me_builder me) cfg ident = Returns node"
    using start cfg by (auto simp: main_start_iff)
  have ident: "get_ident ?cr ?env (me_fresh_key me) ?path d2 = Returns (Inr ident, d')" and eq: "nd_identity node = ident"
    using parts(3) path build by (simp_all add: main_ident_def swarm_build_iff)
  have "d' config_path = d2 config_path" "d2 config_path = d config_path"
    using main_ident_other [OF parts(3), of config_path] path
      setup_logging_iff [of "me_log me" ?env d d2] parts(2) log_file_not_config [of "me_log me"]
    by auto
  with conf have conf': "read_config (me_toml me) (me_default_config me) ?env config_path d' = (Inr cfg, d')"
    by (auto simp: read_config_ok)
  define d3 where "d3 = (if de_create ?env (log_file log) = None then d'(log_file log \<mapsto> []) else d')"
  obtain r' where logged: "setup_logging log ?env d' = Returns (r', d3)"
    using setup_logging_iff [of log ?env d' d3] log by (auto simp: d3_def)
  have "d3 ?path = d' ?path"
    using path by (simp add: d3_def)
  then have "get_ident ?cr ?env fresh ?path d3 = Returns (Inr ident, d3)"
    using get_ident_again [OF codec ident readable] by simp
  then have "main_ident ?cr ?env fresh ?path d3 = Returns (Inr ident, d3)"
    using path by (simp add: main_ident_def)
  then have "main_start (me\<lparr>me_fresh_key := fresh, me_log := log\<rparr>) d' = Returns (Starts node, d3)"
    using conf' logged parts(1) build by (auto simp: main_start_iff)
  with eq get_ident_ok [OF ident] show ?thesis by blast
qed

theorem restart_keeps_identity_witness:
  "\<exists>node d' node' d''. main_start demo_main demo_main_disk = Returns (Starts node, d')
     \<and> main_start (demo_main\<lparr>me_fresh_key := 8, me_log := demo_log ''2''\<rparr>) d' = Returns (Starts node', d'')
     \<and> nd_identity node' = identity_generate demo_crypto 7"
proof -
  obtain node d' where start: "main_start demo_main demo_main_disk = Returns (Starts node, d')"
    and ident: "nd_identity node = identity_generate demo_crypto 7"
    using demo_main_starts by blast
  have "key_codec (me_crypto demo_main)"
    by (simp add: key_codec_def demo_main_def demo_crypto_def)
  moreover have "fst (read_config (me_toml demo_main) (me_default_config demo_main) (me_disk demo_main) config_path demo_main_disk)
      = Inr demo_node_config"
    by (simp add: demo_main_config)
  moreover have "sc_identity_path (nc_swarm demo_node_config) \<notin> {[], config_path, log_file (demo_log ''2'')}"
    by (simp add: demo_node_config_def config_path_def log_file_def demo_log_def)
  moreover have "de_read (me_disk demo_main) (sc_identity_path (nc_swarm demo_node_config)) = None" "le_unset (demo_log ''2'')"
    by (simp_all add: demo_main_def demo_disk_env_def demo_log_def)
  ultimately have "\<exists>node' d''. main_start (demo_main\<lparr>me_fresh_key := 8, me_log := demo_log ''2''\<rparr>) d' = Returns (Starts node', d'')
      \<and> nd_identity node' = nd_identity node"
    using restart_keeps_identity [OF _ start] by blast
  with start ident show ?thesis by metis
qed

end
