(* ===== verification/Hyper.thy ===== *)
theory Hyper
  imports Owl_Wire
begin

text \<open>
  The HTTP protocol of \<open>owlnest-hyper\<close>: configuration, errors, behaviour and connection handler. What
  the tasks of the HTTP client and server do is foreign; the handler sees it as the answers to its
  polls, which are arguments. The crate is not part of the node yet.
\<close>

section \<open>Types\<close>

record hyper_config =
  hc_timeout :: duration

definition hyper_config_new :: hyper_config where
  "hyper_config_new = \<lparr>hc_timeout = 60 * 1000\<rparr>"

definition hyper_config_with_timeout :: "duration \<Rightarrow> hyper_config \<Rightarrow> hyper_config" where
  "hyper_config_with_timeout timeout c = c\<lparr>hc_timeout := timeout\<rparr>"

datatype hyper_error = HyUnrecognizedMessage rust_text | HyIO rust_text | HyChannel

fun hyper_error_fmt :: "hyper_error \<Rightarrow> rust_text" where
  "hyper_error_fmt (HyUnrecognizedMessage msg) = msg"
| "hyper_error_fmt (HyIO msg) = msg"
| "hyper_error_fmt HyChannel = [Lit ''Callback channel closed unexpectedly'']"

text \<open>A request is opaque.\<close>

datatype hyper_in_event = Hy_SendRequest peer_id string callback | Hy_ListConnected callback

datatype hyper_out_event =
    HyOut_Response "u8 list" u64
  | HyOut_Error hyper_error
  | HyOut_InboundNegotiated peer_id
  | HyOut_OutboundNegotiated peer_id
  | HyOut_Unsupported peer_id

datatype hyper_from_behaviour = HyRequest string callback

datatype hyper_to_behaviour =
    HTB_Error hyper_error
  | HTB_InboundNegotiated
  | HTB_OutboundNegotiated
  | HTB_Unsupported

definition HYPER_PROTOCOL_NAME :: string where
  "HYPER_PROTOCOL_NAME = ''/owlnest/hyper/0.0.1''"

section \<open>Behaviour\<close>

record hyper_behaviour =
  hb_config :: hyper_config
  hb_out_events :: "hyper_out_event list"
  hb_in_events :: "hyper_in_event list"
  hb_connected_peers :: "peer_id hash_set"

definition hyper_behaviour_new :: "hyper_config \<Rightarrow> hyper_behaviour" where
  "hyper_behaviour_new config = \<lparr>hb_config = config, hb_out_events = [], hb_in_events = [], hb_connected_peers = []\<rparr>"

definition hyper_push_event :: "hyper_in_event \<Rightarrow> hyper_behaviour \<Rightarrow> hyper_behaviour" where
  "hyper_push_event msg b = b\<lparr>hb_in_events := push_back (hb_in_events b) msg\<rparr>"

definition hyper_on_connect :: "peer_id \<Rightarrow> hyper_behaviour \<Rightarrow> hyper_behaviour" where
  "hyper_on_connect peer b = b\<lparr>hb_connected_peers := hs_insert peer (hb_connected_peers b)\<rparr>"

definition hyper_on_disconnect :: "connection_closed \<Rightarrow> hyper_behaviour \<Rightarrow> hyper_behaviour" where
  "hyper_on_disconnect info b =
     (if cc_remaining_established info < 1
      then b\<lparr>hb_connected_peers := hs_remove (cc_peer_id info) (hb_connected_peers b)\<rparr> else b)"

definition hyper_emit :: "hyper_out_event \<Rightarrow> hyper_behaviour \<Rightarrow> hyper_behaviour" where
  "hyper_emit ev b = b\<lparr>hb_out_events := push_back (hb_out_events b) ev\<rparr>"

fun hyper_on_handler_event :: "peer_id \<Rightarrow> hyper_to_behaviour \<Rightarrow> hyper_behaviour \<Rightarrow> hyper_behaviour" where
  "hyper_on_handler_event peer (HTB_Error e) b = hyper_emit (HyOut_Error e) b"
| "hyper_on_handler_event peer HTB_InboundNegotiated b = hyper_emit (HyOut_InboundNegotiated peer) b"
| "hyper_on_handler_event peer HTB_OutboundNegotiated b = hyper_emit (HyOut_OutboundNegotiated peer) b"
| "hyper_on_handler_event peer HTB_Unsupported b = hyper_emit (HyOut_Unsupported peer) b"

text \<open>\<open>poll\<close> takes at most one request; \<open>ListConnected\<close> is answered and the poll is pending.\<close>

definition hyper_poll ::
  "hyper_behaviour \<Rightarrow> (hyper_out_event, hyper_from_behaviour) to_swarm poll \<times> hyper_behaviour \<times> (callback \<times> peer_id list) list" where
  "hyper_poll b =
     (case pop_front (hb_out_events b) of
        Some (ev, q) \<Rightarrow> (Ready (GenerateEvent ev), b\<lparr>hb_out_events := q\<rparr>, [])
      | None \<Rightarrow>
          (case pop_front (hb_in_events b) of
             None \<Rightarrow> (Pending, b, [])
           | Some (Hy_SendRequest peer request cb, q) \<Rightarrow>
               (Ready (NotifyHandler peer Any (HyRequest request cb)), b\<lparr>hb_in_events := q\<rparr>, [])
           | Some (Hy_ListConnected cb, q) \<Rightarrow>
               (Pending, b\<lparr>hb_in_events := q\<rparr>, [(cb, hb_connected_peers b)])))"

fun hyper_on_swarm_event :: "from_swarm \<Rightarrow> hyper_behaviour \<Rightarrow> hyper_behaviour" where
  "hyper_on_swarm_event (ConnectionClosed info) b = hyper_on_disconnect info b"
| "hyper_on_swarm_event (OtherFromSwarm _) b = b"

section \<open>Connection handler\<close>

datatype stream_state = StNegotiating | StReady wire | StConsumed

datatype client_state = ClientReady | ClientOpening

record hyper_handler =
  hh_state :: handler_state
  hh_pending_in_events :: "hyper_from_behaviour list"
  hh_pending_out_events :: "hyper_to_behaviour list"
  hh_inbound_stream :: "stream_state option"
  hh_outbound_stream :: "stream_state option"
  hh_server_event_tap :: bool
  hh_client_event_tap :: bool
  hh_client :: "client_state option"
  hh_ongoing_request :: "(string \<times> callback) option"
  hh_pending_requests :: "(string \<times> callback) list"

definition hyper_handler_new :: "hyper_config \<Rightarrow> hyper_handler" where
  "hyper_handler_new config = \<lparr>hh_state = Active, hh_pending_in_events = [], hh_pending_out_events = [],
     hh_inbound_stream = None, hh_outbound_stream = None, hh_server_event_tap = False, hh_client_event_tap = False,
     hh_client = None, hh_ongoing_request = None, hh_pending_requests = []\<rparr>"

text \<open>Both \<open>handle_established\<close> functions; then \<open>listen_protocol\<close> and \<open>connection_keep_alive\<close>.\<close>

definition hyper_established :: "peer_id \<Rightarrow> hyper_behaviour \<Rightarrow> hyper_handler \<times> hyper_behaviour" where
  "hyper_established peer b = (hyper_handler_new (hb_config b), hyper_on_connect peer b)"

definition hyper_listen_protocol :: "hyper_handler \<Rightarrow> string" where
  "hyper_listen_protocol h = HYPER_PROTOCOL_NAME"

definition hyper_keep_alive :: "hyper_handler \<Rightarrow> bool" where
  "hyper_keep_alive h = True"

definition hyper_on_dial_upgrade_error :: "stream_upgrade_error \<Rightarrow> hyper_handler \<Rightarrow> hyper_handler" where
  "hyper_on_dial_upgrade_error e h =
     (let h' = h\<lparr>hh_inbound_stream := None\<rparr>
      in case e of NegotiationFailed \<Rightarrow> h'\<lparr>hh_state := Inactive False\<rparr> | _ \<Rightarrow> h')"

definition hyper_on_behaviour_event :: "hyper_from_behaviour \<Rightarrow> hyper_handler \<Rightarrow> hyper_handler" where
  "hyper_on_behaviour_event ev h = h\<lparr>hh_pending_in_events := push_back (hh_pending_in_events h) ev\<rparr>"

fun hyper_on_connection_event :: "wire connection_event \<Rightarrow> hyper_handler \<Rightarrow> hyper_handler outcome" where
  "hyper_on_connection_event (FullyNegotiatedInbound stream) h =
     Returns (h\<lparr>hh_inbound_stream := Some (StReady stream),
                hh_pending_out_events := push_back (hh_pending_out_events h) HTB_InboundNegotiated\<rparr>)"
| "hyper_on_connection_event (FullyNegotiatedOutbound stream) h =
     Returns (h\<lparr>hh_outbound_stream := Some (StReady stream),
                hh_pending_out_events := push_back (hh_pending_out_events h) HTB_OutboundNegotiated\<rparr>)"
| "hyper_on_connection_event (DialUpgradeError e) h = Returns (hyper_on_dial_upgrade_error e h)"
| "hyper_on_connection_event AddressChange h = Returns h"
| "hyper_on_connection_event LocalProtocolsChange h = Returns h"
| "hyper_on_connection_event RemoteProtocolsChange h = Returns h"
| "hyper_on_connection_event ListenUpgradeError h = Panics"

text \<open>
  The answers to the polls of an iteration of the loop: whether the task that opens the client has
  finished (with a result, or with an error on which \<open>unwrap\<close> panics), and the next message of the
  server and of the client, \<open>None\<close> when the task has ended.
\<close>

record hyper_env =
  he_client :: "nat \<Rightarrow> bool poll"
  he_server_tap :: "nat \<Rightarrow> string option poll"
  he_client_tap :: "nat \<Rightarrow> string option poll"

text \<open>How a part of the body of the loop ends.\<close>

datatype hyper_flow = Proceed hyper_handler | Break hyper_handler | Return hyper_handler | PanicNow

fun and_proceed :: "hyper_flow \<Rightarrow> (hyper_handler \<Rightarrow> hyper_flow) \<Rightarrow> hyper_flow" where
  "and_proceed (Proceed h) f = f h"
| "and_proceed r f = r"

definition hyper_check_inbound :: "hyper_handler \<Rightarrow> hyper_flow" where
  "hyper_check_inbound h =
     (case hh_inbound_stream h of
        Some StNegotiating \<Rightarrow> Break h
      | Some (StReady stream) \<Rightarrow> Proceed (h\<lparr>hh_server_event_tap := True, hh_inbound_stream := Some StConsumed\<rparr>)
      | Some StConsumed \<Rightarrow> Proceed h
      | None \<Rightarrow> Proceed h)"

text \<open>After \<open>take\<close> the outbound stream is not put back once its client is being opened.\<close>

definition hyper_check_outbound :: "hyper_handler \<Rightarrow> hyper_flow" where
  "hyper_check_outbound h =
     (case hh_outbound_stream h of
        Some StNegotiating \<Rightarrow> Break h
      | Some (StReady stream) \<Rightarrow>
          Proceed (h\<lparr>hh_outbound_stream := None, hh_client := Some ClientOpening, hh_client_event_tap := True\<rparr>)
      | Some StConsumed \<Rightarrow> Proceed h
      | None \<Rightarrow> Return (h\<lparr>hh_outbound_stream := Some StNegotiating\<rparr>))"

text \<open>A client that is ready is taken and never put back.\<close>

definition hyper_check_client :: "bool poll \<Rightarrow> hyper_handler \<Rightarrow> hyper_flow" where
  "hyper_check_client task h =
     (case hh_client h of
        Some ClientReady \<Rightarrow>
          (let h1 = h\<lparr>hh_client := None\<rparr> in
           if hh_ongoing_request h1 = None
           then Break (case pop_front (hh_pending_requests h1) of
                         Some (r, q) \<Rightarrow> h1\<lparr>hh_pending_requests := q, hh_ongoing_request := Some r\<rparr>
                       | None \<Rightarrow> h1)
           else Proceed h1)
      | Some ClientOpening \<Rightarrow>
          (case task of
             Ready True \<Rightarrow> Proceed (h\<lparr>hh_client := Some ClientReady\<rparr>)
           | Ready False \<Rightarrow> PanicNow
           | Pending \<Rightarrow> Break h)
      | None \<Rightarrow> Proceed (h\<lparr>hh_outbound_stream := None\<rparr>))"

definition hyper_check_server :: "string option poll \<Rightarrow> hyper_handler \<Rightarrow> hyper_flow" where
  "hyper_check_server tap h =
     (if hh_server_event_tap h \<and> tap = Ready None
      then Break (h\<lparr>hh_server_event_tap := False, hh_inbound_stream := None\<rparr>) else Proceed h)"

text \<open>When the client has ended it is the tap of the server that is removed.\<close>

definition hyper_check_client_events :: "string option poll \<Rightarrow> hyper_handler \<Rightarrow> hyper_flow" where
  "hyper_check_client_events tap h =
     (if hh_client_event_tap h \<and> tap = Ready None
      then Break (h\<lparr>hh_server_event_tap := False, hh_outbound_stream := None\<rparr>) else Proceed h)"

definition hyper_body :: "hyper_env \<Rightarrow> nat \<Rightarrow> hyper_handler \<Rightarrow> hyper_flow" where
  "hyper_body env i h =
     and_proceed (hyper_check_inbound h) (\<lambda>h1.
     and_proceed (hyper_check_outbound h1) (\<lambda>h2.
     and_proceed (hyper_check_client (he_client env i) h2) (\<lambda>h3.
     and_proceed (hyper_check_server (he_server_tap env i) h3) (\<lambda>h4.
     hyper_check_client_events (he_client_tap env i) h4))))"

text \<open>What is left to do in the loop: at most three more rounds with the same outbound stream.\<close>

definition hyper_rounds :: "hyper_handler \<Rightarrow> nat" where
  "hyper_rounds h =
     (case hh_outbound_stream h of
        Some (StReady _) \<Rightarrow> 1
      | Some StConsumed \<Rightarrow> (case hh_client h of None \<Rightarrow> 1 | Some ClientReady \<Rightarrow> 2 | Some ClientOpening \<Rightarrow> 3)
      | _ \<Rightarrow> 0)"

lemmas hyper_body_defs =
  hyper_body_def hyper_check_inbound_def hyper_check_outbound_def hyper_check_client_def hyper_check_server_def
  hyper_check_client_events_def

lemma hyper_body_rounds:
  "hyper_body env i h = Proceed h' \<Longrightarrow> hyper_rounds h' < hyper_rounds h"
  by (auto simp: hyper_body_defs hyper_rounds_def Let_def
      split: option.splits stream_state.splits client_state.splits poll.splits bool.splits if_splits)

function hyper_loop :: "hyper_env \<Rightarrow> nat \<Rightarrow> hyper_handler \<Rightarrow> (bool \<times> hyper_handler) outcome" where
  "hyper_loop env i h =
     (case hyper_body env i h of
        Proceed h' \<Rightarrow> hyper_loop env (Suc i) h'
      | Break h' \<Rightarrow> Returns (False, h')
      | Return h' \<Rightarrow> Returns (True, h')
      | PanicNow \<Rightarrow> Panics)"
  by pat_completeness auto
termination
  by (relation "measure (\<lambda>(_, _, h). hyper_rounds h)") (auto dest: hyper_body_rounds)

declare hyper_loop.simps [simp del]

definition hyper_handler_poll ::
  "hyper_env \<Rightarrow> hyper_handler \<Rightarrow> ((string, hyper_to_behaviour) connection_handler_event poll \<times> hyper_handler) outcome" where
  "hyper_handler_poll env h =
     (case hh_state h of
        Inactive True \<Rightarrow> Returns (Pending, h)
      | Inactive False \<Rightarrow> Returns (Ready (NotifyBehaviour HTB_Unsupported), h\<lparr>hh_state := Inactive True\<rparr>)
      | Active \<Rightarrow>
          and_then (hyper_loop env 0 h) (\<lambda>(request_stream, h').
            if request_stream then Returns (Ready (OutboundSubstreamRequest HYPER_PROTOCOL_NAME), h')
            else (case pop_front (hh_pending_out_events h') of
                    Some (ev, q) \<Rightarrow> Returns (Ready (NotifyBehaviour ev), h'\<lparr>hh_pending_out_events := q\<rparr>)
                  | None \<Rightarrow> Returns (Pending, h'))))"

section \<open>Requests are never sent\<close>

text \<open>What can happen to a handler, with the requests that were handed to it so far.\<close>

inductive hyper_step :: "hyper_handler \<times> hyper_from_behaviour list \<Rightarrow> hyper_handler \<times> hyper_from_behaviour list \<Rightarrow> bool" where
  request: "hyper_step (h, posted) (hyper_on_behaviour_event ev h, posted @ [ev])"
| connection: "hyper_on_connection_event ev h = Returns h' \<Longrightarrow> hyper_step (h, posted) (h', posted)"
| poll: "hyper_handler_poll env h = Returns (r, h') \<Longrightarrow> hyper_step (h, posted) (h', posted)"

inductive_cases hyper_stepE: "hyper_step hp hp'"

definition hyper_stuck :: "hyper_handler \<times> hyper_from_behaviour list \<Rightarrow> bool" where
  "hyper_stuck = (\<lambda>(h, posted). hh_pending_in_events h = posted \<and> hh_pending_requests h = [] \<and> hh_ongoing_request h = None)"

definition same_requests :: "hyper_handler \<Rightarrow> hyper_handler \<Rightarrow> bool" where
  "same_requests h h' \<longleftrightarrow> hh_pending_in_events h' = hh_pending_in_events h
     \<and> (hh_pending_requests h = [] \<and> hh_ongoing_request h = None \<longrightarrow> hh_pending_requests h' = [] \<and> hh_ongoing_request h' = None)"

lemma same_requests_refl [simp]: "same_requests h h"
  by (simp add: same_requests_def)

lemma same_requests_trans: "same_requests a b \<Longrightarrow> same_requests b c \<Longrightarrow> same_requests a c"
  by (auto simp: same_requests_def)

fun flow_keeps :: "hyper_handler \<Rightarrow> hyper_flow \<Rightarrow> bool" where
  "flow_keeps h (Proceed h') = same_requests h h'"
| "flow_keeps h (Break h') = same_requests h h'"
| "flow_keeps h (Return h') = same_requests h h'"
| "flow_keeps h PanicNow = True"

lemma flow_keeps_and_proceed:
  "flow_keeps h r \<Longrightarrow> (\<And>h'. flow_keeps h' (f h')) \<Longrightarrow> flow_keeps h (and_proceed r f)"
  by (cases r; cases "f (case r of Proceed h \<Rightarrow> h)") (simp_all, (metis flow_keeps.simps same_requests_trans)+)

lemma flow_keeps_body: "flow_keeps h (hyper_body env i h)"
  unfolding hyper_body_def
  by (intro flow_keeps_and_proceed)
    (auto simp: hyper_check_inbound_def hyper_check_outbound_def hyper_check_client_def hyper_check_server_def
      hyper_check_client_events_def same_requests_def Let_def
      split: option.split stream_state.split client_state.split poll.split bool.split)

lemma hyper_loop_keeps: "hyper_loop env i h = Returns (b, h') \<Longrightarrow> same_requests h h'"
proof (induction env i h rule: hyper_loop.induct)
  case (1 env i h)
  show ?case
    using "1.prems" "1.IH" flow_keeps_body [of h env i]
    by (subst (asm) hyper_loop.simps) (auto split: hyper_flow.splits intro: same_requests_trans)
qed

lemma hyper_poll_keeps: "hyper_handler_poll env h = Returns (r, h') \<Longrightarrow> same_requests h h'"
  by (auto simp: hyper_handler_poll_def and_then_Returns_iff same_requests_def dest!: hyper_loop_keeps
      split: handler_state.splits bool.splits option.splits if_splits)

lemma hyper_stuck_step:
  assumes "hyper_stuck hp" and "hyper_step hp hp'"
  shows "hyper_stuck hp'"
  using assms(2)
proof cases
  case (request h posted ev)
  with assms(1) show ?thesis
    by (simp add: hyper_stuck_def hyper_on_behaviour_event_def push_back_def)
next
  case (connection ev h h' posted)
  with assms(1) show ?thesis
    by (cases ev) (auto simp: hyper_stuck_def hyper_on_dial_upgrade_error_def Let_def split: stream_upgrade_error.splits)
next
  case (poll env h r h' posted)
  with assms(1) hyper_poll_keeps [of env h r h'] show ?thesis
    by (auto simp: hyper_stuck_def same_requests_def)
qed

interpretation hyper_sys: invariant_system "(hyper_handler_new config, [])" hyper_step hyper_stuck for config
proof unfold_locales
  show "hyper_stuck (hyper_handler_new config, [])"
    by (simp add: hyper_stuck_def hyper_handler_new_def)
qed (rule hyper_stuck_step)

text \<open>
  C32. The HTTP handler never sends a request. Whatever happens on the connection, every poll ends,
  the requests handed to the handler stay queued, all of them and in their order, and no request is
  ever under way; so no caller gets a response.
\<close>

theorem hyper_requests_never_sent:
  assumes "hyper_step\<^sup>*\<^sup>* (hyper_handler_new config, []) (h, posted)"
  shows "hh_pending_in_events h = posted \<and> hh_ongoing_request h = None \<and> hyper_handler_poll env h \<noteq> Hangs"
proof -
  have "hyper_loop env i h \<noteq> Hangs" for i h
  proof (induction env i h rule: hyper_loop.induct)
    case (1 env i h)
    then show ?case
      by (subst hyper_loop.simps) (simp split: hyper_flow.split)
  qed
  then have "hyper_handler_poll env h \<noteq> Hangs"
    by (cases "hyper_loop env 0 h")
      (auto simp: hyper_handler_poll_def split: handler_state.splits bool.splits option.splits if_splits)
  with hyper_sys.reachable_inv [OF assms] show ?thesis
    by (simp add: hyper_stuck_def)
qed

theorem hyper_requests_never_sent_witness:
  "hyper_step\<^sup>*\<^sup>* (hyper_handler_new hyper_config_new, [])
     (hyper_on_behaviour_event (HyRequest ''GET'' 3) (hyper_handler_new hyper_config_new), [HyRequest ''GET'' 3])
   \<and> hh_pending_in_events (hyper_on_behaviour_event (HyRequest ''GET'' 3) (hyper_handler_new hyper_config_new)) = [HyRequest ''GET'' 3]"
proof -
  have "hyper_step\<^sup>*\<^sup>* (hyper_handler_new hyper_config_new, [])
     (hyper_on_behaviour_event (HyRequest ''GET'' 3) (hyper_handler_new hyper_config_new), [] @ [HyRequest ''GET'' 3])"
    by (rule r_into_rtranclp) (rule hyper_step.request)
  with hyper_requests_never_sent [of hyper_config_new _ "[HyRequest ''GET'' 3]"] show ?thesis
    by simp
qed

end
