(* ===== verification/Template.thy ===== *)
theory Template
  imports Owl_Wire "HOL-Library.Sublist"
begin

text \<open>
  The crate \<open>protocols/template\<close>, the skeleton that a new protocol starts from. Its event types have no
  variants yet; here they are type parameters, of which nothing is ever inspected. An arm that is
  still \<open>todo!\<close> panics. The lemmas say what the skeleton does as it stands.
\<close>

section \<open>Configuration and errors\<close>

record template_config =
  tc_timeout :: duration

definition template_config_new :: template_config where
  "template_config_new = \<lparr>tc_timeout = 60 * 1000\<rparr>"

definition template_config_with_timeout :: "duration \<Rightarrow> template_config \<Rightarrow> template_config" where
  "template_config_with_timeout timeout c = c\<lparr>tc_timeout := timeout\<rparr>"

datatype template_error = TpUnrecognizedMessage rust_text | TpIO rust_text | TpChannel

fun template_error_fmt :: "template_error \<Rightarrow> rust_text" where
  "template_error_fmt (TpUnrecognizedMessage msg) = msg"
| "template_error_fmt (TpIO msg) = msg"
| "template_error_fmt TpChannel = [Lit ''Callback channel closed unexpectedly'']"

datatype template_send_error = TpConnectionClosed | TpVerifierMismatch | TpPeerNotFound peer_id | TpTimeout

fun template_send_error_fmt :: "template_send_error \<Rightarrow> rust_text" where
  "template_send_error_fmt TpConnectionClosed = [Lit ''Connection Closed'']"
| "template_send_error_fmt TpVerifierMismatch = [Lit ''Message verifier mismatch'']"
| "template_send_error_fmt TpTimeout = [Lit ''Message timed out'']"
| "template_send_error_fmt (TpPeerNotFound peer) = [Lit ''Peer '', ArgPeer peer, Lit '' not connected'']"

definition TEMPLATE_PROTOCOL_NAME :: string where
  "TEMPLATE_PROTOCOL_NAME = ''TODO''"

section \<open>Connection handler\<close>

text \<open>A pending future is known by the answers to its polls, which are arguments of \<open>poll\<close>.\<close>

datatype template_outbound = TpOpenStream | TpIdle wire | TpBusy u64

record ('f, 't) template_handler =
  th_state :: handler_state
  th_pending_in_events :: "'f list"
  th_pending_out_events :: "'t list"
  th_timeout :: duration
  th_inbound :: bool
  th_outbound :: "template_outbound option"

definition template_handler_new :: "template_config \<Rightarrow> ('f, 't) template_handler" where
  "template_handler_new config = \<lparr>th_state = Active, th_pending_in_events = [], th_pending_out_events = [],
     th_timeout = tc_timeout config, th_inbound = False, th_outbound = None\<rparr>"

definition template_on_dial_upgrade_error ::
  "(stream_upgrade_error \<Rightarrow> string) \<Rightarrow> stream_upgrade_error \<Rightarrow> ('f, 't) template_handler \<Rightarrow> ('f, 't) template_handler outcome" where
  "template_on_dial_upgrade_error debug error h =
     (let h' = h\<lparr>th_outbound := None\<rparr> in
      case error of
        NegotiationFailed \<Rightarrow> Returns (h'\<lparr>th_state := Inactive False\<rparr>)
      | e \<Rightarrow> if \<not> sublist ''Timeout'' (debug e) then Panics else Returns h')"

definition template_listen_protocol :: "('f, 't) template_handler \<Rightarrow> string" where
  "template_listen_protocol h = TEMPLATE_PROTOCOL_NAME"

definition template_on_behaviour_event :: "'f \<Rightarrow> ('f, 't) template_handler \<Rightarrow> ('f, 't) template_handler" where
  "template_on_behaviour_event event h = h\<lparr>th_pending_in_events := push_back (th_pending_in_events h) event\<rparr>"

definition template_keep_alive :: "('f, 't) template_handler \<Rightarrow> bool" where
  "template_keep_alive h = True"

text \<open>
  The loop over the outbound stream. \<open>take\<close> leaves \<open>None\<close> behind, so a busy task that is pending is
  lost and a new stream requested.
\<close>

function template_poll_outbound ::
  "(io_error + wire) poll \<Rightarrow> ('f, 't) template_handler
    \<Rightarrow> (string option \<times> ('f, 't) template_handler) outcome" where
  "template_poll_outbound task h =
     (case th_outbound h of
        Some (TpBusy i) \<Rightarrow>
          (case task of
             Pending \<Rightarrow> template_poll_outbound task (h\<lparr>th_outbound := None\<rparr>)
           | Ready (Inr stream) \<Rightarrow> template_poll_outbound task (h\<lparr>th_outbound := Some (TpIdle stream)\<rparr>)
           | Ready (Inl e) \<Rightarrow> Panics)
      | Some (TpIdle stream) \<Rightarrow>
          (case pop_front (th_pending_in_events h) of
             Some _ \<Rightarrow> Panics
           | None \<Rightarrow> Returns (None, h))
      | Some TpOpenStream \<Rightarrow> Returns (None, h)
      | None \<Rightarrow> Returns (Some TEMPLATE_PROTOCOL_NAME, h\<lparr>th_outbound := Some TpOpenStream\<rparr>))"
  by pat_completeness auto

termination
  by (relation "measure (\<lambda>(_, h). case th_outbound h of Some (TpBusy _) \<Rightarrow> 1 | _ \<Rightarrow> 0)") auto

declare template_poll_outbound.simps [simp del]

definition template_handler_poll ::
  "(io_error + wire \<times> u8 list) poll \<Rightarrow> (io_error + wire) poll \<Rightarrow> ('f, 't) template_handler
    \<Rightarrow> ((string, 't) connection_handler_event poll \<times> ('f, 't) template_handler) outcome" where
  "template_handler_poll received task h =
     (case th_state h of
        Inactive True \<Rightarrow> Returns (Pending, h)
      | Inactive False \<Rightarrow> Panics
      | Active \<Rightarrow>
          if th_inbound h \<and> received \<noteq> Pending then Panics
          else
            and_then (template_poll_outbound task h) (\<lambda>(request, h').
              case request of
                Some protocol \<Rightarrow> Returns (Ready (OutboundSubstreamRequest protocol), h')
              | None \<Rightarrow>
                  (case pop_front (th_pending_out_events h') of
                     Some (ev, q) \<Rightarrow> Returns (Ready (NotifyBehaviour ev), h'\<lparr>th_pending_out_events := q\<rparr>)
                   | None \<Rightarrow> Returns (Pending, h'))))"

fun template_on_connection_event ::
  "(stream_upgrade_error \<Rightarrow> string) \<Rightarrow> wire connection_event \<Rightarrow> ('f, 't) template_handler \<Rightarrow> ('f, 't) template_handler outcome" where
  "template_on_connection_event debug (FullyNegotiatedInbound stream) h = Returns h"
| "template_on_connection_event debug (FullyNegotiatedOutbound stream) h = Returns h"
| "template_on_connection_event debug (DialUpgradeError e) h = template_on_dial_upgrade_error debug e h"
| "template_on_connection_event debug AddressChange h = Returns h"
| "template_on_connection_event debug ListenUpgradeError h = Returns h"
| "template_on_connection_event debug LocalProtocolsChange h = Returns h"
| "template_on_connection_event debug RemoteProtocolsChange h = Returns h"

section \<open>Behaviour\<close>

record ('i, 'o) template_behaviour =
  tb_config :: template_config
  tb_out_events :: "'o list"
  tb_in_events :: "'i list"
  tb_connected_peers :: "peer_id hash_set"

definition template_behaviour_new :: "template_config \<Rightarrow> ('i, 'o) template_behaviour" where
  "template_behaviour_new config = \<lparr>tb_config = config, tb_out_events = [], tb_in_events = [], tb_connected_peers = []\<rparr>"

definition template_push_event :: "'i \<Rightarrow> ('i, 'o) template_behaviour \<Rightarrow> ('i, 'o) template_behaviour" where
  "template_push_event msg b = b\<lparr>tb_in_events := push_back (tb_in_events b) msg\<rparr>"

definition template_on_handler_event :: "peer_id \<Rightarrow> 't \<Rightarrow> ('i, 'o) template_behaviour \<Rightarrow> ('i, 'o) template_behaviour outcome" where
  "template_on_handler_event peer event b = Panics"

definition template_poll :: "('i, 'o) template_behaviour \<Rightarrow> (('o, 'f) to_swarm poll \<times> ('i, 'o) template_behaviour) outcome" where
  "template_poll b =
     (case pop_front (tb_out_events b) of
        Some (ev, q) \<Rightarrow> Returns (Ready (GenerateEvent ev), b\<lparr>tb_out_events := q\<rparr>)
      | None \<Rightarrow>
          (case pop_front (tb_in_events b) of
             Some _ \<Rightarrow> Panics
           | None \<Rightarrow> Returns (Pending, b)))"

fun template_on_swarm_event :: "from_swarm \<Rightarrow> ('i, 'o) template_behaviour \<Rightarrow> ('i, 'o) template_behaviour" where
  "template_on_swarm_event (ConnectionClosed info) b =
     (if cc_remaining_established info < 1
      then b\<lparr>tb_connected_peers := hs_remove (cc_peer_id info) (tb_connected_peers b)\<rparr> else b)"
| "template_on_swarm_event (OtherFromSwarm _) b = b"

definition template_established ::
  "peer_id \<Rightarrow> ('i, 'o) template_behaviour \<Rightarrow> ('f, 't) template_handler \<times> ('i, 'o) template_behaviour" where
  "template_established peer b =
     (template_handler_new (tb_config b), b\<lparr>tb_connected_peers := hs_insert peer (tb_connected_peers b)\<rparr>)"

section \<open>What the skeleton does\<close>

text \<open>As long as the event types are empty, nothing is ever queued and no stream is ever used.\<close>

definition template_idle :: "('f, 't) template_handler \<Rightarrow> bool" where
  "template_idle h \<longleftrightarrow> th_pending_in_events h = [] \<and> th_pending_out_events h = [] \<and> \<not> th_inbound h
     \<and> th_outbound h \<in> {None, Some TpOpenStream}"

inductive template_step :: "(stream_upgrade_error \<Rightarrow> string) \<Rightarrow> ('f, 't) template_handler \<Rightarrow> ('f, 't) template_handler \<Rightarrow> bool"
  for debug where
  poll: "template_handler_poll received task h = Returns (r, h') \<Longrightarrow> template_step debug h h'"
| connection: "template_on_connection_event debug ev h = Returns h' \<Longrightarrow> template_step debug h h'"

lemma template_poll_idle:
  assumes "template_idle h"
  shows "template_handler_poll received task h =
    (case th_state h of
       Inactive True \<Rightarrow> Returns (Pending, h)
     | Inactive False \<Rightarrow> Panics
     | Active \<Rightarrow>
         if th_outbound h = None
         then Returns (Ready (OutboundSubstreamRequest TEMPLATE_PROTOCOL_NAME), h\<lparr>th_outbound := Some TpOpenStream\<rparr>)
         else Returns (Pending, h))"
  using assms
  by (auto simp: template_idle_def template_handler_poll_def template_poll_outbound.simps [of task h]
      split: handler_state.splits bool.splits)

lemma template_dial_error_iff:
  "template_on_connection_event debug ev h = Panics \<longleftrightarrow>
     (\<exists>e. ev = DialUpgradeError e \<and> e \<noteq> NegotiationFailed \<and> \<not> sublist ''Timeout'' (debug e))"
  by (cases ev) (auto simp: template_on_dial_upgrade_error_def Let_def split: stream_upgrade_error.splits)

lemma template_idle_connection:
  "template_idle h \<Longrightarrow> template_on_connection_event debug ev h = Returns h' \<Longrightarrow> template_idle h'"
  by (cases ev) (auto simp: template_idle_def template_on_dial_upgrade_error_def Let_def
      split: stream_upgrade_error.splits if_splits)

lemma template_idle_new: "template_idle (template_handler_new config)"
  by (simp add: template_idle_def template_handler_new_def)

lemma template_idle_step:
  assumes idle: "template_idle h" and "template_step debug h h'"
  shows "template_idle h'"
  using assms(2)
proof cases
  case (poll received task r)
  with idle show ?thesis
    by (auto simp: template_poll_idle split: handler_state.splits bool.splits if_splits) (auto simp: template_idle_def)
next
  case (connection ev)
  with idle show ?thesis by (rule template_idle_connection)
qed

interpretation template_sys: invariant_system "template_handler_new config" "template_step debug" template_idle
  for config debug
  by unfold_locales (auto intro: template_idle_new template_idle_step)

text \<open>
  Whatever the network does, a handler of the skeleton only ever asks for streams: every poll
  requests one, is pending, or panics, the last exactly when negotiation has just failed.
\<close>

lemma template_handler_life:
  assumes "(template_step debug)\<^sup>*\<^sup>* (template_handler_new config) h"
  shows "template_handler_poll received task h = Panics \<longleftrightarrow> th_state h = Inactive False"
    and "template_handler_poll received task h = Returns (r, h') \<Longrightarrow>
      r \<in> {Pending, Ready (OutboundSubstreamRequest TEMPLATE_PROTOCOL_NAME)}"
  using template_poll_idle [OF template_sys.reachable_inv [OF assms], of received task]
  by (auto split: handler_state.splits bool.splits if_splits)

lemma template_poll_panics_iff:
  "template_poll b = Panics \<longleftrightarrow> tb_out_events b = [] \<and> tb_in_events b \<noteq> []"
  by (cases "tb_out_events b"; cases "tb_in_events b") (simp_all add: template_poll_def)

end
