(* ===== verification/Msg_Link.thy ===== *)
theory Msg_Link
  imports Messaging "HOL-Library.Sublist"
begin

text \<open>
  One connection between two messaging handlers, byte by byte: the handler of the sender, the
  substreams it opens one after the other, the bytes under way on each of them in both directions,
  and the handler of the receiver. Every step of either handler is one of the program's; the network
  moves bytes, late or never, but not from one substream to another and not out of order within one.
  On such a connection messages are heard in the order in which they were handed to the sender's
  handler, and none is heard twice.
\<close>

section \<open>What a finished call has read and written\<close>

definition universal_frame :: "u8 list \<Rightarrow> u8 list" where
  "universal_frame bytes = u64_to_be_bytes (of_nat (length bytes)) @ bytes"

lemma universal_write_loop_sound:
  assumes "universal_write_loop env s msg cursor = Some (Inr s')"
  shows "w_tx s' = w_tx s @ drop cursor msg \<and> w_rx s' = w_rx s"
proof -
  have "\<forall>t. Inr s' = (Inr t :: io_error + wire) \<longrightarrow> w_tx t = w_tx s @ drop cursor msg \<and> w_rx t = w_rx s"
  proof (rule universal_write_loop.raw_induct [where P = "\<lambda>env s msg cursor r.
      \<forall>t. r = Inr t \<longrightarrow> w_tx t = w_tx s @ drop cursor msg \<and> w_rx t = w_rx s", OF _ assms])
    fix f env s msg cursor r
    assume IH: "\<And>env s msg cursor r. f env s msg cursor = Some r \<Longrightarrow>
        \<forall>t. r = Inr t \<longrightarrow> w_tx t = w_tx s @ drop cursor msg \<and> w_rx t = w_rx s"
      and eq: "(case write_some env (drop cursor msg) s of Inl e \<Rightarrow> Some (Inl e)
        | Inr (n, s') \<Rightarrow> if length msg \<le> cursor + n then Some (Inr s') else f env s' msg (cursor + n)) = Some r"
    show "\<forall>t. r = Inr t \<longrightarrow> w_tx t = w_tx s @ drop cursor msg \<and> w_rx t = w_rx s"
    proof (intro allI impI)
      fix t assume r: "r = Inr t"
      define n where "n = min (io_chunk env (w_ops s)) (length msg - cursor)"
      define u where "u = tick (s\<lparr>w_tx := w_tx s @ take n (drop cursor msg)\<rparr>)"
      have "write_some env (drop cursor msg) s = Inr (n, u)"
        using eq r by (cases "io_fault env (w_ops s)") (simp_all add: write_some_def n_def u_def Let_def)
      with eq have step: "(if length msg \<le> cursor + n then Some (Inr u) else f env u msg (cursor + n)) = Some r"
        by simp
      have "take n (drop cursor msg) @ drop (cursor + n) msg = drop cursor msg"
        by (metis add.commute append_take_drop_id drop_drop)
      with step r IH [of env u msg "cursor + n" r]
      show "w_tx t = w_tx s @ drop cursor msg \<and> w_rx t = w_rx s"
        by (auto simp: u_def tick_def split: if_splits)
    qed
  qed
  then show ?thesis by simp
qed

lemma universal_send_sound:
  assumes "universal_send H env s bytes = Some (Inr (s', rtt))"
  shows "w_tx s' = w_tx s @ universal_frame bytes \<and> w_rx s = u128_to_be_bytes (H bytes) @ w_rx s'"
proof -
  obtain s1 s2 s3 s4 verf where
    "write_all env (u64_to_be_bytes (of_nat (length bytes))) s = Inr s1" "flush env s1 = Inr s2"
    "universal_write_loop env s2 bytes 0 = Some (Inr s3)" "flush env s3 = Inr s4"
    "read_exact env 16 s4 = Inr (verf, s')" "verf = u128_to_be_bytes (H bytes)"
    using assms by (auto simp: universal_send_def Let_def split: sum.splits option.splits if_splits)
  with universal_write_loop_sound [of env s2 bytes 0 s3] show ?thesis
    by (auto simp: universal_frame_def write_all_def flush_def read_exact_def tick_def split: option.splits if_splits)
      (metis append_take_drop_id)+
qed

lemma universal_read_loop_sound:
  assumes "universal_read_loop env s acc n = Some (Inr (buf, s'))"
  shows "n \<le> length buf \<and> w_tx s' = w_tx s \<and> acc @ w_rx s = buf @ w_rx s'"
proof -
  have "\<forall>b t. Inr (buf, s') = (Inr (b, t) :: io_error + u8 list \<times> wire) \<longrightarrow>
      n \<le> length b \<and> w_tx t = w_tx s \<and> acc @ w_rx s = b @ w_rx t"
  proof (rule universal_read_loop.raw_induct [where P = "\<lambda>env s acc n r. \<forall>b t. r = Inr (b, t) \<longrightarrow>
      n \<le> length b \<and> w_tx t = w_tx s \<and> acc @ w_rx s = b @ w_rx t", OF _ assms])
    fix f env s acc n r
    assume IH: "\<And>env s acc n r. f env s acc n = Some r \<Longrightarrow>
        \<forall>b t. r = Inr (b, t) \<longrightarrow> n \<le> length b \<and> w_tx t = w_tx s \<and> acc @ w_rx s = b @ w_rx t"
      and eq: "(case read_some env 2048 s of Inl e \<Rightarrow> Some (Inl e)
        | Inr (bs, s') \<Rightarrow> if n \<le> length (acc @ bs) then Some (Inr (acc @ bs, s')) else f env s' (acc @ bs) n) = Some r"
    show "\<forall>b t. r = Inr (b, t) \<longrightarrow> n \<le> length b \<and> w_tx t = w_tx s \<and> acc @ w_rx s = b @ w_rx t"
    proof (intro allI impI)
      fix b t assume r: "r = Inr (b, t)"
      define j where "j = read_len env 2048 s"
      define u where "u = tick (s\<lparr>w_rx := drop j (w_rx s)\<rparr>)"
      have "read_some env 2048 s = Inr (take j (w_rx s), u)"
        using eq r by (cases "io_fault env (w_ops s)") (simp_all add: read_some_def j_def u_def Let_def)
      with eq have "(if n \<le> length (acc @ take j (w_rx s)) then Some (Inr (acc @ take j (w_rx s), u))
          else f env u (acc @ take j (w_rx s)) n) = Some r"
        by simp
      with r IH [of env u "acc @ take j (w_rx s)" n r]
      show "n \<le> length b \<and> w_tx t = w_tx s \<and> acc @ w_rx s = b @ w_rx t"
        by (auto simp: u_def tick_def split: if_splits)
    qed
  qed
  then show ?thesis by simp
qed

text \<open>
  A receive that succeeds on a part of one frame has read the whole frame: the length in front of a
  frame that fits a vector is the length of its payload.
\<close>

lemma universal_recv_sound:
  assumes recv: "universal_recv H env r = Some (Inr (r', bytes'))"
    and frame: "prefix (w_rx r) (universal_frame bytes)" and len: "length bytes < 2 ^ 64"
  shows "bytes' = bytes \<and> w_rx r = universal_frame bytes \<and> w_rx r' = [] \<and> w_tx r' = w_tx r @ u128_to_be_bytes (H bytes)"
proof -
  obtain hd s1 s2 where hd: "read_exact env 8 r = Inr (hd, s1)"
    and loop: "universal_read_loop env s1 [] (unat (u64_from_be_bytes hd)) = Some (Inr (bytes', s2))"
    and ack: "w_tx r' = w_tx s2 @ u128_to_be_bytes (H bytes')" "w_rx r' = w_rx s2"
    using recv by (auto simp: universal_recv_def write_all_def flush_def tick_def Let_def
        split: sum.splits option.splits if_splits)
  have s1: "w_rx r = hd @ w_rx s1" "length hd = 8" "w_tx s1 = w_tx r"
    using hd by (auto simp: read_exact_def tick_def split: option.splits if_splits)
  then obtain zs where "(hd @ w_rx s1) @ zs = u64_to_be_bytes (of_nat (length bytes)) @ bytes"
    using frame by (metis prefix_def universal_frame_def)
  then have "hd = u64_to_be_bytes (of_nat (length bytes))" and rest: "prefix (w_rx s1) bytes"
    using s1(2) by auto
  then have "unat (u64_from_be_bytes hd) = length bytes"
    using len by (simp add: unat_of_nat_u64)
  then have "length bytes \<le> length bytes'" "w_rx s1 = bytes' @ w_rx s2" "w_tx s2 = w_tx s1"
    using universal_read_loop_sound [OF loop] by simp_all
  with rest have "bytes' = bytes" "w_rx s2 = []"
    by (auto simp: prefix_def)
  with \<open>hd = _\<close> s1 ack \<open>w_rx s1 = _\<close> \<open>w_tx s2 = _\<close> show ?thesis
    by (simp add: universal_frame_def)
qed

lemma universal_recv_nonempty: "universal_recv H env r = Some (Inr x) \<Longrightarrow> w_rx r \<noteq> []"
  by (auto simp: universal_recv_def read_exact_def split: option.splits if_splits)

section \<open>A connection\<close>

text \<open>
  Substreams are numbered in the order in which they are opened. \<open>cn_current\<close> is the one the sender
  writes to and \<open>cn_left\<close> how many bytes have left the sender on it; \<open>cn_accepted\<close> is the one the
  receiver reads from. \<open>cn_up\<close> and \<open>cn_down\<close> are the bytes under way. \<open>cn_handed\<close> and \<open>cn_heard\<close> record the
  messages that the sender's behaviour handed to the connection and the payloads that the receiver's
  behaviour was told of.
\<close>

record msg_conn =
  cn_sender :: msg_handler
  cn_receiver :: msg_handler
  cn_current :: nat
  cn_left :: nat
  cn_accepted :: nat
  cn_up :: "nat \<Rightarrow> u8 list"
  cn_down :: "nat \<Rightarrow> u8 list"
  cn_handed :: "message list"
  cn_heard :: "u8 list list"

definition msg_conn_new :: "msg_config \<Rightarrow> msg_config \<Rightarrow> msg_conn" where
  "msg_conn_new ca cb = \<lparr>cn_sender = msg_handler_new ca, cn_receiver = msg_handler_new cb, cn_current = 0, cn_left = 0,
     cn_accepted = 0, cn_up = (\<lambda>_. []), cn_down = (\<lambda>_. []), cn_handed = [], cn_heard = []\<rparr>"

definition fresh_wire :: wire where
  "fresh_wire = \<lparr>w_rx = [], w_tx = [], w_ops = 0\<rparr>"

text \<open>Bytes that arrive on the streams of a handler.\<close>

definition outbound_reads :: "u8 list \<Rightarrow> msg_handler \<Rightarrow> msg_handler" where
  "outbound_reads bs h =
     (case mh_outbound h of
        Some (MsgIdle s) \<Rightarrow> h\<lparr>mh_outbound := Some (MsgIdle (s\<lparr>w_rx := w_rx s @ bs\<rparr>))\<rparr>
      | Some (MsgBusy s bytes cb d) \<Rightarrow> h\<lparr>mh_outbound := Some (MsgBusy (s\<lparr>w_rx := w_rx s @ bs\<rparr>) bytes cb d)\<rparr>
      | _ \<Rightarrow> h)"

definition inbound_reads :: "u8 list \<Rightarrow> msg_handler \<Rightarrow> msg_handler" where
  "inbound_reads bs h =
     (case mh_inbound h of Some r \<Rightarrow> h\<lparr>mh_inbound := Some (r\<lparr>w_rx := w_rx r @ bs\<rparr>)\<rparr> | None \<Rightarrow> h)"

text \<open>What the completed calls of a handler have written on its streams.\<close>

definition outbound_written :: "msg_handler \<Rightarrow> u8 list" where
  "outbound_written h =
     (case mh_outbound h of Some (MsgIdle s) \<Rightarrow> w_tx s | Some (MsgBusy s _ _ _) \<Rightarrow> w_tx s | _ \<Rightarrow> [])"

definition inbound_written :: "msg_handler \<Rightarrow> u8 list" where
  "inbound_written h = (case mh_inbound h of Some r \<Rightarrow> w_tx r | None \<Rightarrow> [])"

text \<open>The first \<open>j\<close> of the bytes \<open>bs\<close> that are written on the current substream have left.\<close>

definition cn_leave :: "nat \<Rightarrow> u8 list \<Rightarrow> msg_conn \<Rightarrow> msg_conn" where
  "cn_leave j bs c =
     c\<lparr>cn_up := (cn_up c)(cn_current c := cn_up c (cn_current c) @ drop (cn_left c) (take j bs)), cn_left := max (cn_left c) j\<rparr>"

definition cn_flush :: "msg_conn \<Rightarrow> msg_conn" where
  "cn_flush c = cn_leave (length (outbound_written (cn_sender c))) (outbound_written (cn_sender c)) c"

text \<open>
  The sender's handler after a turn of its loop. A call of \<open>send\<close> that has returned, with or without
  success, has nothing more under way: whatever the handler sends after it is written anew, from where
  the handler takes its stream to be.
\<close>

definition send_over :: "(u8 list \<Rightarrow> u128) \<Rightarrow> io_env option \<Rightarrow> msg_handler \<Rightarrow> bool" where
  "send_over H ans h =
     (case mh_outbound h of Some (MsgBusy s bytes cb d) \<Rightarrow> poll_universal_send H ans s bytes \<noteq> Pending | _ \<Rightarrow> False)"

definition cn_turned :: "bool \<Rightarrow> msg_handler \<Rightarrow> msg_conn \<Rightarrow> msg_conn" where
  "cn_turned over h c =
     (let c' = cn_flush (c\<lparr>cn_sender := h\<rparr>) in if over then c'\<lparr>cn_left := length (outbound_written h)\<rparr> else c')"

text \<open>The receiver's handler after a poll: what it wrote sets out, and what it reports is recorded.\<close>

fun heard_by :: "msg_poll_result poll \<Rightarrow> u8 list list" where
  "heard_by (Ready (NotifyBehaviour (MTB_IncomingMessage bytes))) = [bytes]"
| "heard_by _ = []"

definition cn_receiver_polled :: "msg_poll_result poll \<Rightarrow> msg_handler \<Rightarrow> msg_conn \<Rightarrow> msg_conn" where
  "cn_receiver_polled r h c =
     c\<lparr>cn_receiver := h,
       cn_down := (cn_down c)(cn_accepted c := cn_down c (cn_accepted c)
         @ drop (length (inbound_written (cn_receiver c))) (inbound_written h)),
       cn_heard := cn_heard c @ heard_by r\<rparr>"

text \<open>The sender's behaviour hands a message to the connection.\<close>

definition cn_command :: "message \<Rightarrow> callback \<Rightarrow> msg_conn \<Rightarrow> msg_conn" where
  "cn_command m cb c =
     c\<lparr>cn_sender := msg_on_behaviour_event (PostMessage m cb) (cn_sender c), cn_handed := cn_handed c @ [m]\<rparr>"

text \<open>What a step reports to the behaviour on either side.\<close>

datatype conn_report = NoReport | SenderReport msg_to_behaviour | ReceiverReport msg_to_behaviour

fun sender_report :: "msg_poll_result option \<Rightarrow> conn_report" where
  "sender_report (Some (NotifyBehaviour ev)) = SenderReport ev"
| "sender_report _ = NoReport"

fun receiver_report :: "msg_poll_result poll \<Rightarrow> conn_report" where
  "receiver_report (Ready (NotifyBehaviour ev)) = ReceiverReport ev"
| "receiver_report _ = NoReport"

text \<open>
  The steps. The loop of the sender's \<open>poll_outbound\<close> proceeds turn by turn, so that bytes may move
  between two turns; the other parts of its \<open>poll\<close> are steps of their own, and any poll is a sequence
  of these steps (\<open>sender_poll_steps\<close>). A send task under way may have handed any part of its frame to
  the network. Both handlers also carry the messages of the opposite direction on streams that are
  not followed here.
\<close>

inductive conn_step :: "json_codec \<Rightarrow> (u8 list \<Rightarrow> u128) \<Rightarrow> conn_report \<Rightarrow> msg_conn \<Rightarrow> msg_conn \<Rightarrow> bool"
  for json H where
  opened: "cn_current c < k \<Longrightarrow> msg_on_connection_event (FullyNegotiatedOutbound fresh_wire) (cn_sender c) = Returns h \<Longrightarrow>
    conn_step json H NoReport c (c\<lparr>cn_sender := h, cn_current := k, cn_left := 0\<rparr>)"
| sender_connection: "msg_on_connection_event ev (cn_sender c) = Returns h \<Longrightarrow> \<forall>s. ev \<noteq> FullyNegotiatedOutbound s \<Longrightarrow>
    conn_step json H NoReport c (c\<lparr>cn_sender := h\<rparr>)"
| send_progress: "mh_outbound (cn_sender c) = Some (MsgBusy s bytes cb d) \<Longrightarrow> j \<le> length (w_tx s @ universal_frame bytes) \<Longrightarrow>
    conn_step json H NoReport c (cn_leave j (w_tx s @ universal_frame bytes) c)"
| turn: "mh_state (cn_sender c) = Active \<Longrightarrow> msg_outbound_turn H json env i (cn_sender c) = MsgNext i' h rs \<Longrightarrow>
    conn_step json H NoReport c (cn_turned (send_over H (hio_outbound env i) (cn_sender c)) h c)"
| last_turn: "mh_state (cn_sender c) = Active \<Longrightarrow> msg_outbound_turn H json env i (cn_sender c) = MsgBreak r h rs \<Longrightarrow>
    conn_step json H (sender_report r) c (cn_turned (send_over H (hio_outbound env i) (cn_sender c)) h c)"
| sender_inbound: "mh_state (cn_sender c) = Active \<Longrightarrow> msg_poll_inbound H env (cn_sender c) = (r, h) \<Longrightarrow>
    conn_step json H (sender_report r) c (c\<lparr>cn_sender := h\<rparr>)"
| sender_pops: "mh_state (cn_sender c) = Active \<Longrightarrow> mh_pending_out_events (cn_sender c) = ev # q \<Longrightarrow>
    conn_step json H (SenderReport ev) c (c\<lparr>cn_sender := (cn_sender c)\<lparr>mh_pending_out_events := q\<rparr>\<rparr>)"
| sender_inactive: "mh_state (cn_sender c) = Inactive False \<Longrightarrow>
    conn_step json H (SenderReport MTB_Unsupported) c (c\<lparr>cn_sender := (cn_sender c)\<lparr>mh_state := Inactive True\<rparr>\<rparr>)"
| sender_reads: "conn_step json H NoReport c (c\<lparr>cn_sender := inbound_reads bs (cn_sender c)\<rparr>)"
| acknowledged: "cn_down c (cn_current c) = xs @ ys \<Longrightarrow> conn_step json H NoReport c
    (c\<lparr>cn_sender := outbound_reads xs (cn_sender c), cn_down := (cn_down c)(cn_current c := ys)\<rparr>)"
| accepted: "cn_accepted c < k \<Longrightarrow> msg_on_connection_event (FullyNegotiatedInbound fresh_wire) (cn_receiver c) = Returns h \<Longrightarrow>
    conn_step json H NoReport c (c\<lparr>cn_receiver := h, cn_accepted := k\<rparr>)"
| receiver_connection: "msg_on_connection_event ev (cn_receiver c) = Returns h \<Longrightarrow> \<forall>s. ev \<noteq> FullyNegotiatedInbound s \<Longrightarrow>
    conn_step json H NoReport c (c\<lparr>cn_receiver := h\<rparr>)"
| arrive: "mh_inbound (cn_receiver c) \<noteq> None \<Longrightarrow> cn_up c (cn_accepted c) = xs @ ys \<Longrightarrow> conn_step json H NoReport c
    (c\<lparr>cn_receiver := inbound_reads xs (cn_receiver c), cn_up := (cn_up c)(cn_accepted c := ys)\<rparr>)"
| receiver_poll: "msg_handler_poll H json env (cn_receiver c) = (r, h, rs) \<Longrightarrow>
    conn_step json H (receiver_report r) c (cn_receiver_polled r h c)"
| receiver_command: "conn_step json H NoReport c (c\<lparr>cn_receiver := msg_on_behaviour_event cmd (cn_receiver c)\<rparr>)"
| receiver_reads: "conn_step json H NoReport c (c\<lparr>cn_receiver := outbound_reads bs (cn_receiver c)\<rparr>)"

section \<open>The invariant of a connection\<close>

text \<open>
  A substream is live as long as the receiver may still read from it. On each live substream at most
  one payload, \<open>P k\<close>, can still be heard: the sender writes the next frame only after the
  acknowledgement of the last.
\<close>

definition live :: "msg_conn \<Rightarrow> nat \<Rightarrow> bool" where
  "live c k \<longleftrightarrow> cn_accepted c < k \<or> k = cn_accepted c \<and> mh_inbound (cn_receiver c) \<noteq> None"

definition unread :: "msg_conn \<Rightarrow> nat \<Rightarrow> u8 list" where
  "unread c k =
     (if k = cn_accepted c then (case mh_inbound (cn_receiver c) of Some r \<Rightarrow> w_rx r | None \<Rightarrow> []) else []) @ cn_up c k"

definition unseen :: "msg_conn \<Rightarrow> nat \<Rightarrow> u8 list" where
  "unseen c k =
     (if k = cn_current c
      then (case mh_outbound (cn_sender c) of Some (MsgIdle s) \<Rightarrow> w_rx s | Some (MsgBusy s _ _ _) \<Rightarrow> w_rx s | _ \<Rightarrow> [])
      else []) @ cn_down c k"

definition old_stream :: "u8 list list \<Rightarrow> u8 list \<Rightarrow> bool" where
  "old_stream ps bs \<longleftrightarrow> length ps \<le> 1 \<and> prefix bs (concat (map universal_frame ps))"

definition current_stream :: "(u8 list \<Rightarrow> u128) \<Rightarrow> nat \<Rightarrow> msg_outbound_state option \<Rightarrow> u8 list list \<Rightarrow> u8 list \<Rightarrow> u8 list \<Rightarrow> bool" where
  "current_stream H n out ps bs acks =
     (case out of
        Some (MsgIdle s) \<Rightarrow> ps = [] \<and> bs = [] \<and> acks = [] \<and> n = length (w_tx s)
      | Some (MsgBusy s bytes _ _) \<Rightarrow> length (w_tx s) \<le> n \<and> n \<le> length (w_tx s @ universal_frame bytes) \<and>
          (ps = [bytes] \<and> bs = take (n - length (w_tx s)) (universal_frame bytes) \<and> acks = []
           \<or> ps = [] \<and> bs = [] \<and> acks = u128_to_be_bytes (H bytes) \<and> n = length (w_tx s @ universal_frame bytes))
      | _ \<Rightarrow> old_stream ps bs)"

definition stream_ok :: "(u8 list \<Rightarrow> u128) \<Rightarrow> (nat \<Rightarrow> u8 list list) \<Rightarrow> msg_conn \<Rightarrow> nat \<Rightarrow> bool" where
  "stream_ok H P c k \<longleftrightarrow>
     (cn_current c < k \<longrightarrow> P k = [] \<and> unread c k = [] \<and> cn_down c k = [])
     \<and> (\<not> live c k \<longrightarrow> P k = [])
     \<and> (live c k \<longrightarrow> k < cn_current c \<longrightarrow> old_stream (P k) (unread c k))
     \<and> (live c k \<longrightarrow> k = cn_current c \<longrightarrow>
          current_stream H (cn_left c) (mh_outbound (cn_sender c)) (P k) (unread c k) (unseen c k))"

fun command_msg :: "msg_from_behaviour \<Rightarrow> message" where
  "command_msg (PostMessage m cb) = m"

definition flight :: "(nat \<Rightarrow> u8 list list) \<Rightarrow> msg_conn \<Rightarrow> u8 list list" where
  "flight P c = concat (map P [cn_accepted c..<Suc (cn_current c)])"

definition conn_pipeline :: "json_codec \<Rightarrow> (nat \<Rightarrow> u8 list list) \<Rightarrow> msg_conn \<Rightarrow> u8 list list" where
  "conn_pipeline json P c = cn_heard c @ flight P c
     @ map (\<lambda>x. message_as_bytes json (command_msg x)) (mh_pending_in_events (cn_sender c))"

definition conn_inv :: "json_codec \<Rightarrow> (u8 list \<Rightarrow> u128) \<Rightarrow> msg_conn \<Rightarrow> bool" where
  "conn_inv json H c \<longleftrightarrow>
     (\<forall>m \<in> set (cn_handed c). length (message_as_bytes json m) < 2 ^ 63)
     \<and> (\<forall>bytes. MTB_IncomingMessage bytes \<notin> set (mh_pending_out_events (cn_receiver c)))
     \<and> (\<exists>P. (\<forall>k. stream_ok H P c k) \<and> subseq (conn_pipeline json P c) (map (message_as_bytes json) (cn_handed c)))"

lemma conn_invI:
  assumes "conn_inv json H c \<Longrightarrow> \<forall>m \<in> set (cn_handed c'). length (message_as_bytes json m) < 2 ^ 63"
    and "\<And>bytes. MTB_IncomingMessage bytes \<in> set (mh_pending_out_events (cn_receiver c')) \<Longrightarrow>
      MTB_IncomingMessage bytes \<in> set (mh_pending_out_events (cn_receiver c))"
    and "\<And>P. \<forall>k. stream_ok H P c k \<Longrightarrow> subseq (conn_pipeline json P c) (map (message_as_bytes json) (cn_handed c)) \<Longrightarrow>
      \<exists>P'. (\<forall>k. stream_ok H P' c' k) \<and> subseq (conn_pipeline json P' c') (map (message_as_bytes json) (cn_handed c'))"
    and "conn_inv json H c"
  shows "conn_inv json H c'"
  using assms unfolding conn_inv_def by blast

text \<open>Steps that change neither the streams nor the queue of commands.\<close>

lemma conn_inv_same:
  assumes "conn_inv json H c"
    and "mh_outbound (cn_sender c') = mh_outbound (cn_sender c)" "mh_inbound (cn_receiver c') = mh_inbound (cn_receiver c)"
    and "mh_pending_in_events (cn_sender c') = mh_pending_in_events (cn_sender c)"
    and "\<And>bytes. MTB_IncomingMessage bytes \<in> set (mh_pending_out_events (cn_receiver c')) \<Longrightarrow>
      MTB_IncomingMessage bytes \<in> set (mh_pending_out_events (cn_receiver c))"
    and "cn_current c' = cn_current c" "cn_left c' = cn_left c" "cn_accepted c' = cn_accepted c"
    and "cn_up c' = cn_up c" "cn_down c' = cn_down c" "cn_handed c' = cn_handed c" "cn_heard c' = cn_heard c"
  shows "conn_inv json H c'"
proof (rule conn_invI [OF _ assms(5) _ assms(1)])
  fix P assume "\<forall>k. stream_ok H P c k" "subseq (conn_pipeline json P c) (map (message_as_bytes json) (cn_handed c))"
  moreover have "stream_ok H P c' k = stream_ok H P c k" for k
    by (simp only: stream_ok_def live_def unread_def unseen_def assms)
  moreover have "conn_pipeline json P c' = conn_pipeline json P c"
    by (simp only: conn_pipeline_def flight_def assms)
  ultimately show "\<exists>P'. (\<forall>k. stream_ok H P' c' k) \<and> subseq (conn_pipeline json P' c') (map (message_as_bytes json) (cn_handed c'))"
    using assms(11) by (intro exI [of _ P]) simp
qed (use assms in \<open>simp add: conn_inv_def\<close>)

lemma current_old: "current_stream H n out ps bs acks \<Longrightarrow> old_stream ps bs"
  by (auto simp: current_stream_def old_stream_def take_is_prefix split: option.splits msg_outbound_state.splits)

lemma concat_beyond: "n \<le> m \<Longrightarrow> \<forall>j. n < j \<longrightarrow> P j = [] \<Longrightarrow> concat (map P [a..<Suc m]) = concat (map P [a..<Suc n])"
proof (induction m)
  case (Suc m)
  then show ?case
    by (cases "n = Suc m") (auto simp: concat_eq_Nil_conv)
qed simp

text \<open>A poll of the receiver's handler: either one whole payload was read, or nothing was heard.\<close>

lemma poll_outbound_inbound:
  "msg_poll_outbound H json env i h = (r, h', rs) \<Longrightarrow>
     mh_inbound h' = mh_inbound h \<and> mh_pending_out_events h' = mh_pending_out_events h
     \<and> (\<forall>bytes. r \<noteq> Some (NotifyBehaviour (MTB_IncomingMessage bytes)))"
proof (induction H json env i h arbitrary: r h' rs rule: msg_poll_outbound.induct)
  case (1 H json env i h)
  have turn: "mh_inbound h1 = mh_inbound h \<and> mh_pending_out_events h1 = mh_pending_out_events h"
    if "msg_outbound_turn H json env i h = MsgNext j h1 rs1" for j h1 rs1
    using that by (auto simp: msg_outbound_turn_def msg_progress_in_events_def
        split: option.splits msg_outbound_state.splits poll.splits sum.splits list.splits if_splits msg_from_behaviour.splits)
  have break: "mh_inbound h1 = mh_inbound h \<and> mh_pending_out_events h1 = mh_pending_out_events h
      \<and> r1 \<noteq> Some (NotifyBehaviour (MTB_IncomingMessage bytes))"
    if "msg_outbound_turn H json env i h = MsgBreak r1 h1 rs1" for r1 h1 rs1 bytes
    using that by (auto simp: msg_outbound_turn_def
        split: option.splits msg_outbound_state.splits poll.splits sum.splits list.splits if_splits)
  show ?case
  proof (cases "msg_outbound_turn H json env i h")
    case (MsgBreak r1 h1 rs1)
    with break 1(2) show ?thesis
      by (simp add: msg_poll_outbound.simps [of H json env i h])
  next
    case (MsgNext j h1 rs1)
    obtain r2 h2 rs2 where rest: "msg_poll_outbound H json env j h1 = (r2, h2, rs2)" by (rule prod_cases3)
    with 1(2) MsgNext have "r = r2" "h' = h2" by (simp_all add: msg_poll_outbound.simps [of H json env i h])
    with 1(1) [OF MsgNext rest] turn [OF MsgNext] show ?thesis by simp
  qed
qed

lemma receiver_poll_cases:
  assumes poll: "msg_handler_poll H json env h = (r, h', rs)"
    and quiet: "\<forall>bytes. MTB_IncomingMessage bytes \<notin> set (mh_pending_out_events h)"
  obtains (heard) s s' bytes e where "mh_inbound h = Some s" "universal_recv H e s = Some (Inr (s', bytes))"
      "heard_by r = [bytes]" "mh_inbound h' = Some s'" "mh_pending_out_events h' = mh_pending_out_events h"
    | (silent) "heard_by r = []" "mh_inbound h' = mh_inbound h \<or> mh_inbound h' = None"
      "\<forall>bytes. MTB_IncomingMessage bytes \<notin> set (mh_pending_out_events h')"
proof (cases "mh_state h")
  case (Inactive reported)
  then show thesis
    using poll quiet by (intro silent; cases reported) (auto simp: msg_handler_poll_def)
next
  case Active
  obtain o1 h1 where inb: "msg_poll_inbound H env h = (o1, h1)" by (rule prod.exhaust)
  show thesis
  proof (cases o1)
    case (Some ev)
    then show thesis
      using heard poll Active inb
      by (auto simp: msg_handler_poll_def msg_poll_inbound_def poll_universal_recv_def
          split: option.splits poll.splits sum.splits)
  next
    case None
    have h1: "mh_inbound h1 = mh_inbound h \<or> mh_inbound h1 = None" "\<forall>bytes. MTB_IncomingMessage bytes \<notin> set (mh_pending_out_events h1)"
      using inb None quiet by (auto simp: msg_poll_inbound_def msg_push_out_def push_back_def
          split: option.splits poll.splits sum.splits)
    obtain o2 h2 rs2 where outb: "msg_poll_outbound H json env 0 h1 = (o2, h2, rs2)" by (rule prod_cases3)
    note h2 = poll_outbound_inbound [OF outb]
    show thesis
    proof (rule silent)
      show "mh_inbound h' = mh_inbound h \<or> mh_inbound h' = None"
        using poll Active inb None outb h1 h2
        by (auto simp: msg_handler_poll_def split: option.splits prod.splits list.splits)
      show "\<forall>bytes. MTB_IncomingMessage bytes \<notin> set (mh_pending_out_events h')"
        using poll Active inb None outb h1 h2
        by (cases "mh_pending_out_events h1") (auto simp: msg_handler_poll_def split: option.splits prod.splits list.splits)
      show "heard_by r = []"
        using poll Active inb None outb h1 h2
        by (cases "mh_pending_out_events h1"; cases r rule: heard_by.cases)
          (auto simp: msg_handler_poll_def split: option.splits prod.splits list.splits)
    qed
  qed
qed

section \<open>Every step keeps the invariant\<close>

lemma live_accepted: "live c k \<Longrightarrow> cn_accepted c \<le> k"
  by (auto simp: live_def)

lemma inv_command:
  assumes "conn_inv json H c" "length (message_as_bytes json m) < 2 ^ 63"
  shows "conn_inv json H (cn_command m cb c)" (is "conn_inv json H ?c")
proof (rule conn_invI [OF _ _ _ assms(1)])
  fix P assume P: "\<forall>k. stream_ok H P c k" and sub: "subseq (conn_pipeline json P c) (map (message_as_bytes json) (cn_handed c))"
  have "stream_ok H P ?c k = stream_ok H P c k" for k
    by (simp add: stream_ok_def live_def unread_def unseen_def msg_on_behaviour_event_def cn_command_def)
  moreover have "conn_pipeline json P ?c = conn_pipeline json P c @ [message_as_bytes json m]"
    by (simp add: conn_pipeline_def flight_def msg_on_behaviour_event_def push_back_def cn_command_def)
  ultimately show "\<exists>P'. (\<forall>k. stream_ok H P' ?c k) \<and> subseq (conn_pipeline json P' ?c) (map (message_as_bytes json) (cn_handed ?c))"
    using P sub by (intro exI [of _ P]) (simp add: cn_command_def)
qed (use assms in \<open>auto simp: conn_inv_def cn_command_def\<close>)

lemma inv_opened:
  assumes "conn_inv json H c" "cn_current c < k" "mh_outbound h = Some (MsgIdle fresh_wire)"
    and "mh_pending_in_events h = mh_pending_in_events (cn_sender c)"
  shows "conn_inv json H (c\<lparr>cn_sender := h, cn_current := k, cn_left := 0\<rparr>)" (is "conn_inv json H ?c")
proof (rule conn_invI [OF _ _ _ assms(1)])
  fix P assume P: "\<forall>k. stream_ok H P c k" and sub: "subseq (conn_pipeline json P c) (map (message_as_bytes json) (cn_handed c))"
  have same: "live ?c j = live c j" "unread ?c j = unread c j" for j
    by (simp_all add: live_def unread_def)
  have beyond: "P j = [] \<and> unread c j = [] \<and> cn_down c j = []" if "cn_current c < j" for j
    using P that by (simp add: stream_ok_def)
  have "stream_ok H P ?c j" for j
  proof (cases "cn_current c < j")
    case True
    have "P j = []" "unread ?c j = []" "cn_down c j = []"
      using beyond [OF True] same by simp_all
    then show ?thesis
      using assms(3) by (cases "j = k") (simp_all add: stream_ok_def current_stream_def old_stream_def unseen_def fresh_wire_def)
  next
    case False
    then have "live c j \<longrightarrow> old_stream (P j) (unread c j)"
      using P [THEN spec, of j] current_old by (auto simp: stream_ok_def linorder_not_less le_less)
    with False P [THEN spec, of j] show ?thesis
      using assms(2) by (simp add: stream_ok_def same)
  qed
  moreover have "flight P ?c = flight P c"
    using concat_beyond [of "cn_current c" k P "cn_accepted c"] beyond assms(2) by (simp add: flight_def del: upt_Suc)
  ultimately show "\<exists>P'. (\<forall>k. stream_ok H P' ?c k) \<and> subseq (conn_pipeline json P' ?c) (map (message_as_bytes json) (cn_handed ?c))"
    using sub assms(4) by (intro exI [of _ P]) (simp add: conn_pipeline_def)
qed (use assms in \<open>auto simp: conn_inv_def\<close>)

text \<open>The sender gives up its substream.\<close>

lemma inv_dropped:
  assumes "conn_inv json H c" "mh_outbound h = None \<or> mh_outbound h = Some MsgOpenStream"
    and "mh_pending_in_events h = mh_pending_in_events (cn_sender c)"
  shows "conn_inv json H (c\<lparr>cn_sender := h\<rparr>)" (is "conn_inv json H ?c")
proof (rule conn_invI [OF _ _ _ assms(1)])
  fix P assume P: "\<forall>k. stream_ok H P c k" and sub: "subseq (conn_pipeline json P c) (map (message_as_bytes json) (cn_handed c))"
  have same: "live ?c j = live c j" "unread ?c j = unread c j" "flight P ?c = flight P c" for j
    by (simp_all add: live_def unread_def flight_def)
  have "stream_ok H P ?c j" for j
    using P [THEN spec, of j] assms(2) current_old [of H "cn_left c" "mh_outbound (cn_sender c)" "P j" "unread c j" "unseen c j"]
    by (auto simp: stream_ok_def same current_stream_def [of H _ None] current_stream_def [of H _ "Some MsgOpenStream"])
  then show "\<exists>P'. (\<forall>k. stream_ok H P' ?c k) \<and> subseq (conn_pipeline json P' ?c) (map (message_as_bytes json) (cn_handed ?c))"
    using sub assms(3) same by (intro exI [of _ P]) (simp add: conn_pipeline_def)
qed (use assms in \<open>auto simp: conn_inv_def\<close>)

lemma take_drop_extend:
  assumes "length xs \<le> n" "j \<le> length (xs @ ys)"
  shows "take (n - length xs) ys @ drop n (take j (xs @ ys)) = take (max n j - length xs) ys"
proof (cases "j \<le> n")
  case False
  then have "drop n (take j (xs @ ys)) = take (j - n) (drop (n - length xs) ys)"
    using assms by (simp add: drop_take)
  moreover have "take (n - length xs) ys @ take (j - n) (drop (n - length xs) ys) = take (n - length xs + (j - n)) ys"
    by (rule take_add [symmetric])
  moreover have "n - length xs + (j - n) = max n j - length xs"
    using False assms by simp
  ultimately show ?thesis by simp
qed (use assms in \<open>simp add: max_def\<close>)

lemma inv_leave:
  assumes "conn_inv json H c" "mh_outbound (cn_sender c) = Some (MsgBusy s bytes cb d)"
    and "j \<le> length (w_tx s @ universal_frame bytes)"
  shows "conn_inv json H (cn_leave j (w_tx s @ universal_frame bytes) c)" (is "conn_inv json H ?c")
proof (rule conn_invI [OF _ _ _ assms(1)])
  let ?k = "cn_current c" and ?new = "drop (cn_left c) (take j (w_tx s @ universal_frame bytes))"
  fix P assume P: "\<forall>k. stream_ok H P c k" and sub: "subseq (conn_pipeline json P c) (map (message_as_bytes json) (cn_handed c))"
  have same: "live ?c k = live c k" "unread ?c k = unread c k @ (if k = ?k then ?new else [])" "unseen ?c k = unseen c k"
    "cn_current ?c = ?k" "cn_left ?c = max (cn_left c) j" "cn_sender ?c = cn_sender c" "cn_down ?c = cn_down c" for k
    by (simp_all add: live_def unread_def unseen_def cn_leave_def)
  have "stream_ok H P ?c ?k"
  proof (cases "live c ?k")
    case True
    then have cur: "current_stream H (cn_left c) (Some (MsgBusy s bytes cb d)) (P ?k) (unread c ?k) (unseen c ?k)"
      using P assms(2) by (simp add: stream_ok_def)
    then have "current_stream H (max (cn_left c) j) (Some (MsgBusy s bytes cb d)) (P ?k) (unread c ?k @ ?new) (unseen c ?k)"
      using assms(3) take_drop_extend [of "w_tx s" "cn_left c" j "universal_frame bytes"]
      by (auto simp: current_stream_def max_def)
    with True assms(2) show ?thesis by (simp add: stream_ok_def same)
  qed (use P in \<open>simp add: stream_ok_def same\<close>)
  then have "stream_ok H P ?c k" for k
    using P [THEN spec, of k] by (cases "k = ?k") (simp_all add: stream_ok_def same)
  then show "\<exists>P'. (\<forall>k. stream_ok H P' ?c k) \<and> subseq (conn_pipeline json P' ?c) (map (message_as_bytes json) (cn_handed ?c))"
    using sub by (intro exI [of _ P]) (simp add: conn_pipeline_def flight_def cn_leave_def)
qed (use assms in \<open>auto simp: conn_inv_def cn_leave_def\<close>)

text \<open>On a live substream everything that completed calls have written has left already.\<close>

lemma inv_flush:
  assumes "conn_inv json H c"
  shows "conn_inv json H (cn_flush c)"
proof (rule conn_invI [OF _ _ _ assms])
  let ?k = "cn_current c"
  fix P assume P: "\<forall>k. stream_ok H P c k" and sub: "subseq (conn_pipeline json P c) (map (message_as_bytes json) (cn_handed c))"
  have "stream_ok H P (cn_flush c) k" for k
  proof (cases "live c ?k")
    case True
    then have "current_stream H (cn_left c) (mh_outbound (cn_sender c)) (P ?k) (unread c ?k) (unseen c ?k)"
      using P by (simp add: stream_ok_def)
    then have "length (outbound_written (cn_sender c)) \<le> cn_left c"
      by (auto simp: current_stream_def outbound_written_def split: option.splits msg_outbound_state.splits)
    then have "cn_flush c = c"
      by (simp add: cn_flush_def cn_leave_def max_def)
    with P show ?thesis by simp
  next
    case False
    have same: "live (cn_flush c) j = live c j" "cn_current (cn_flush c) = ?k" "cn_down (cn_flush c) = cn_down c"
      "j \<noteq> ?k \<Longrightarrow> unread (cn_flush c) j = unread c j" for j
      by (simp_all add: live_def unread_def cn_flush_def cn_leave_def)
    show ?thesis
      using P [THEN spec, of k] False by (cases "k = ?k") (simp_all add: stream_ok_def same)
  qed
  then show "\<exists>P'. (\<forall>k. stream_ok H P' (cn_flush c) k) \<and>
      subseq (conn_pipeline json P' (cn_flush c)) (map (message_as_bytes json) (cn_handed (cn_flush c)))"
    using sub by (intro exI [of _ P]) (simp add: conn_pipeline_def flight_def cn_flush_def cn_leave_def)
qed (use assms in \<open>simp_all add: conn_inv_def cn_flush_def cn_leave_def\<close>)

text \<open>The sender takes up a command.\<close>

lemma inv_started:
  assumes "conn_inv json H c" "mh_outbound (cn_sender c) = Some (MsgIdle s)"
    and "mh_pending_in_events (cn_sender c) = PostMessage m cb # evs" "bytes = message_as_bytes json m"
    and "mh_outbound h = Some (MsgBusy s bytes cb d)" "mh_pending_in_events h = evs"
  shows "conn_inv json H (c\<lparr>cn_sender := h\<rparr>)" (is "conn_inv json H ?c")
proof (rule conn_invI [OF _ _ _ assms(1)])
  let ?k = "cn_current c"
  fix P assume P: "\<forall>k. stream_ok H P c k" and sub: "subseq (conn_pipeline json P c) (map (message_as_bytes json) (cn_handed c))"
  have same: "live ?c j = live c j" "unread ?c j = unread c j" "j \<noteq> ?k \<Longrightarrow> unseen ?c j = unseen c j" for j
    by (simp_all add: live_def unread_def unseen_def)
  show "\<exists>P'. (\<forall>k. stream_ok H P' ?c k) \<and> subseq (conn_pipeline json P' ?c) (map (message_as_bytes json) (cn_handed ?c))"
  proof (cases "live c ?k")
    case True
    let ?P = "P(?k := [bytes])"
    have idle: "P ?k = []" "unread c ?k = []" "unseen c ?k = []" "cn_left c = length (w_tx s)"
      using P [THEN spec, of ?k] True assms(2) by (simp_all add: stream_ok_def current_stream_def)
    then have "unseen ?c ?k = []"
      using assms(2,5) by (simp add: unseen_def)
    with idle have "stream_ok H ?P ?c ?k"
      using True assms(5) by (simp add: stream_ok_def same current_stream_def)
    then have "stream_ok H ?P ?c j" for j
      using P [THEN spec, of j] by (cases "j = ?k") (simp_all add: stream_ok_def same)
    moreover have "flight ?P ?c = flight P c @ [bytes]"
      using live_accepted [OF True] idle(1) by (simp add: flight_def)
    ultimately show ?thesis
      using sub assms(3,4,6) by (intro exI [of _ ?P]) (simp add: conn_pipeline_def)
  next
    case False
    then have "stream_ok H P ?c j" for j
      using P [THEN spec, of j] by (cases "j = ?k") (simp_all add: stream_ok_def same)
    moreover have "subseq (conn_pipeline json P ?c) (conn_pipeline json P c)"
      using assms(3,6) by (simp add: conn_pipeline_def flight_def subseq_append' list_emb_Cons)
    ultimately show ?thesis
      using sub by (intro exI [of _ P]) (auto intro: subseq_order.trans)
  qed
qed (use assms in \<open>auto simp: conn_inv_def\<close>)

text \<open>A send is complete: its acknowledgement was there, so the payload has been heard.\<close>

lemma length_ack_pos: "u128_to_be_bytes w @ xs \<noteq> []"
  by (simp flip: length_greater_0_conv)

lemma inv_sent:
  assumes "conn_inv json H c" "mh_outbound (cn_sender c) = Some (MsgBusy s bytes cb d)"
    and "w_tx s' = w_tx s @ universal_frame bytes" "w_rx s = u128_to_be_bytes (H bytes) @ w_rx s'"
    and "mh_outbound h = Some (MsgIdle s')" "mh_pending_in_events h = mh_pending_in_events (cn_sender c)"
  shows "conn_inv json H (c\<lparr>cn_sender := h\<rparr>)" (is "conn_inv json H ?c")
proof (rule conn_invI [OF _ _ _ assms(1)])
  let ?k = "cn_current c"
  fix P assume P: "\<forall>k. stream_ok H P c k" and sub: "subseq (conn_pipeline json P c) (map (message_as_bytes json) (cn_handed c))"
  have same: "live ?c j = live c j" "unread ?c j = unread c j" "j \<noteq> ?k \<Longrightarrow> unseen ?c j = unseen c j" for j
    by (simp_all add: live_def unread_def unseen_def)
  have "stream_ok H P ?c ?k"
  proof (cases "live c ?k")
    case True
    have seen: "unseen c ?k = u128_to_be_bytes (H bytes) @ w_rx s' @ cn_down c ?k"
      using assms(2,4) by (simp add: unseen_def)
    have "current_stream H (cn_left c) (Some (MsgBusy s bytes cb d)) (P ?k) (unread c ?k) (unseen c ?k)"
      using P True assms(2) by (simp add: stream_ok_def)
    then have "P ?k = []" "unread c ?k = []" "unseen c ?k = u128_to_be_bytes (H bytes)" "cn_left c = length (w_tx s')"
      using assms(3) length_ack_pos unfolding seen by (auto simp: current_stream_def)
    moreover from this(3) have "unseen ?c ?k = []"
      using assms(5) unfolding seen by (simp add: unseen_def)
    ultimately show ?thesis
      using True assms(5) by (simp add: stream_ok_def same current_stream_def)
  qed (use P in \<open>simp add: stream_ok_def same\<close>)
  then have "stream_ok H P ?c k" for k
    using P [THEN spec, of k] by (cases "k = ?k") (simp_all add: stream_ok_def same)
  then show "\<exists>P'. (\<forall>k. stream_ok H P' ?c k) \<and> subseq (conn_pipeline json P' ?c) (map (message_as_bytes json) (cn_handed ?c))"
    using sub assms(6) by (intro exI [of _ P]) (simp add: conn_pipeline_def flight_def)
qed (use assms in \<open>auto simp: conn_inv_def\<close>)

lemma inv_turn:
  assumes inv: "conn_inv json H c" and "msg_outbound_turn H json env i (cn_sender c) = MsgNext i' h rs"
  shows "conn_inv json H (c\<lparr>cn_sender := h\<rparr>)"
proof (cases "mh_outbound (cn_sender c)")
  case (Some out)
  then show ?thesis
  proof (cases out)
    case (MsgIdle s)
    then obtain m cb evs where "mh_pending_in_events (cn_sender c) = PostMessage m cb # evs"
      "h = msg_progress_in_events json (hio_instant env) (PostMessage m cb) s ((cn_sender c)\<lparr>mh_pending_in_events := evs\<rparr>)"
      using assms(2) Some by (cases "mh_pending_in_events (cn_sender c)")
        (auto simp: msg_outbound_turn_def, metis msg_from_behaviour.exhaust)
    with Some MsgIdle show ?thesis
      by (intro inv_started [OF inv, of s m cb evs]) (simp_all add: msg_progress_in_events_def)
  next
    case (MsgBusy s bytes cb d)
    then obtain s' rtt e where "universal_send H e s bytes = Some (Inr (s', rtt))"
      "h = (cn_sender c)\<lparr>mh_outbound := Some (MsgIdle s')\<rparr>"
      using assms(2) Some by (auto simp: msg_outbound_turn_def poll_universal_send_def
          split: option.splits poll.splits sum.splits if_splits)
    with Some MsgBusy universal_send_sound show ?thesis
      by (intro inv_sent [OF inv, of s bytes cb d s']) auto
  qed (use assms Some in \<open>simp add: msg_outbound_turn_def\<close>)
qed (use assms in \<open>simp add: msg_outbound_turn_def\<close>)

lemma inv_last_turn:
  assumes inv: "conn_inv json H c" and "msg_outbound_turn H json env i (cn_sender c) = MsgBreak r h rs"
  shows "conn_inv json H (c\<lparr>cn_sender := h\<rparr>)"
proof (cases "h = cn_sender c")
  case False
  then have "mh_outbound h = None \<or> mh_outbound h = Some MsgOpenStream"
    "mh_pending_in_events h = mh_pending_in_events (cn_sender c)"
    using assms(2) by (auto simp: msg_outbound_turn_def
        split: option.splits msg_outbound_state.splits poll.splits sum.splits list.splits if_splits)
  then show ?thesis
    by (rule inv_dropped [OF inv])
qed (use inv in simp)

text \<open>The receiver's side.\<close>

lemma inv_acknowledged:
  assumes "conn_inv json H c" "cn_down c (cn_current c) = xs @ ys"
  shows "conn_inv json H (c\<lparr>cn_sender := outbound_reads xs (cn_sender c), cn_down := (cn_down c)(cn_current c := ys)\<rparr>)"
    (is "conn_inv json H ?c")
proof (rule conn_invI [OF _ _ _ assms(1)])
  let ?k = "cn_current c"
  fix P assume P: "\<forall>k. stream_ok H P c k" and sub: "subseq (conn_pipeline json P c) (map (message_as_bytes json) (cn_handed c))"
  have same: "live ?c j = live c j" "unread ?c j = unread c j" "flight P ?c = flight P c"
    "mh_pending_in_events (outbound_reads xs (cn_sender c)) = mh_pending_in_events (cn_sender c)" for j
    by (simp_all add: live_def unread_def flight_def outbound_reads_def split: option.split msg_outbound_state.split)
  have "current_stream H n (mh_outbound (cn_sender ?c)) ps bs (unseen ?c ?k) =
      current_stream H n (mh_outbound (cn_sender c)) ps bs (unseen c ?k)" for n ps bs
    using assms(2) by (simp add: current_stream_def outbound_reads_def unseen_def split: option.split msg_outbound_state.split)
  then have "stream_ok H P ?c k" for k
    using P [THEN spec, of k] by (cases "k = ?k") (simp_all add: stream_ok_def same)
  then show "\<exists>P'. (\<forall>k. stream_ok H P' ?c k) \<and> subseq (conn_pipeline json P' ?c) (map (message_as_bytes json) (cn_handed ?c))"
    using sub same by (intro exI [of _ P]) (simp add: conn_pipeline_def)
qed (use assms in \<open>auto simp: conn_inv_def\<close>)

lemma subseq_concat_later: "a \<le> b \<Longrightarrow> subseq (concat (map P [b..<n])) (concat (map P [a..<n]))"
proof (cases "b \<le> n")
  case True
  moreover assume "a \<le> b"
  ultimately have "[a..<n] = [a..<b] @ [b..<n]"
    using upt_add_eq_append [of a b "n - b"] by simp
  then show ?thesis
    by (simp add: list_emb_append2)
qed simp

lemma inv_accepted:
  assumes "conn_inv json H c" "cn_accepted c < k" "mh_inbound h = Some fresh_wire"
    and "\<And>bytes. MTB_IncomingMessage bytes \<in> set (mh_pending_out_events h) \<Longrightarrow>
      MTB_IncomingMessage bytes \<in> set (mh_pending_out_events (cn_receiver c))"
  shows "conn_inv json H (c\<lparr>cn_receiver := h, cn_accepted := k\<rparr>)" (is "conn_inv json H ?c")
proof (rule conn_invI [OF _ _ _ assms(1)])
  fix P assume P: "\<forall>k. stream_ok H P c k" and sub: "subseq (conn_pipeline json P c) (map (message_as_bytes json) (cn_handed c))"
  let ?P = "\<lambda>j. if j < k then [] else P j"
  have live: "live ?c j \<longleftrightarrow> k \<le> j" "k \<le> j \<Longrightarrow> live c j" for j
    using assms(2,3) by (auto simp: live_def)
  have same: "k \<le> j \<Longrightarrow> unread ?c j = unread c j" "unseen ?c j = unseen c j" "cn_up c j = [] \<Longrightarrow> unread ?c j = []" for j
    using assms(2,3) by (auto simp: unread_def unseen_def fresh_wire_def)
  have "stream_ok H ?P ?c j" for j
    using P [THEN spec, of j] live [of j] same [of j]
    by (cases "k \<le> j") (auto simp: stream_ok_def unread_def fresh_wire_def)
  moreover have "flight ?P ?c = concat (map P [k..<Suc (cn_current c)])"
    unfolding flight_def by (auto simp del: upt_Suc intro!: arg_cong [of _ _ concat] map_cong)
  then have "subseq (flight ?P ?c) (flight P c)"
    using subseq_concat_later [of "cn_accepted c" k P] assms(2) by (simp add: flight_def)
  then have "subseq (conn_pipeline json ?P ?c) (conn_pipeline json P c)"
    by (simp add: conn_pipeline_def subseq_append subseq_append')
  ultimately show "\<exists>P'. (\<forall>k. stream_ok H P' ?c k) \<and> subseq (conn_pipeline json P' ?c) (map (message_as_bytes json) (cn_handed ?c))"
    using sub by (intro exI [of _ ?P]) (auto intro: subseq_order.trans)
qed (use assms in \<open>auto simp: conn_inv_def\<close>)

lemma inv_arrive:
  assumes "conn_inv json H c" "mh_inbound (cn_receiver c) \<noteq> None" "cn_up c (cn_accepted c) = xs @ ys"
  shows "conn_inv json H (c\<lparr>cn_receiver := inbound_reads xs (cn_receiver c), cn_up := (cn_up c)(cn_accepted c := ys)\<rparr>)"
    (is "conn_inv json H ?c")
proof (rule conn_invI [OF _ _ _ assms(1)])
  fix P assume P: "\<forall>k. stream_ok H P c k" and sub: "subseq (conn_pipeline json P c) (map (message_as_bytes json) (cn_handed c))"
  have "live ?c j = live c j" "unread ?c j = unread c j" "unseen ?c j = unseen c j" for j
    using assms(2,3) by (auto simp: live_def unread_def unseen_def inbound_reads_def)
  then have "stream_ok H P ?c k" for k
    using P [THEN spec, of k] by (auto simp: stream_ok_def)
  then show "\<exists>P'. (\<forall>k. stream_ok H P' ?c k) \<and> subseq (conn_pipeline json P' ?c) (map (message_as_bytes json) (cn_handed ?c))"
    using sub by (intro exI [of _ P]) (simp add: conn_pipeline_def flight_def)
qed (use assms in \<open>auto simp: conn_inv_def inbound_reads_def\<close>)

lemma pipeline_fits:
  assumes "\<forall>m \<in> set (cn_handed c). length (message_as_bytes json m) < 2 ^ 63"
    and "subseq (conn_pipeline json P c) (map (message_as_bytes json) (cn_handed c))" "bytes \<in> set (P k)"
    and "cn_accepted c \<le> k" "k \<le> cn_current c"
  shows "length bytes < 2 ^ 64"
proof -
  have "bytes \<in> set (conn_pipeline json P c)"
    using assms(3-5) by (auto simp: conn_pipeline_def flight_def simp del: upt_Suc)
  then have "bytes \<in> set (map (message_as_bytes json) (cn_handed c))"
    by (rule list_emb_set [OF assms(2)]) simp
  with assms(1) show ?thesis by fastforce
qed

text \<open>What the receiver reads from a live substream is the payload that was still to be heard.\<close>

lemma heard_payload:
  assumes "old_stream ps (w_rx r @ up)" "universal_recv H e r = Some (Inr (r', bytes))"
    and "\<And>b. b \<in> set ps \<Longrightarrow> length b < 2 ^ 64"
  shows "ps = [bytes] \<and> w_rx r @ up = universal_frame bytes \<and> up = [] \<and> w_rx r' = []
    \<and> w_tx r' = w_tx r @ u128_to_be_bytes (H bytes)"
proof -
  have "w_rx r \<noteq> []"
    using universal_recv_nonempty [OF assms(2)] .
  with assms(1) obtain b where ps: "ps = [b]" and pre: "prefix (w_rx r @ up) (universal_frame b)"
    by (cases ps) (auto simp: old_stream_def)
  then have "prefix (w_rx r) (universal_frame b)"
    by (blast intro: prefix_order.trans prefixI)
  from universal_recv_sound [OF assms(2) this] assms(3) [of b] ps
  have "bytes = b" "w_rx r = universal_frame b" "w_rx r' = []" "w_tx r' = w_tx r @ u128_to_be_bytes (H b)" by auto
  with pre ps show ?thesis
    by (auto simp: prefix_def)
qed

lemma inv_heard:
  assumes "conn_inv json H c" "mh_inbound (cn_receiver c) = Some s" "universal_recv H e s = Some (Inr (s', bytes))"
    and "heard_by r = [bytes]" "mh_inbound h = Some s'" "mh_pending_out_events h = mh_pending_out_events (cn_receiver c)"
  shows "conn_inv json H (cn_receiver_polled r h c)" (is "conn_inv json H ?c")
proof (rule conn_invI [OF _ _ _ assms(1)])
  let ?k = "cn_accepted c"
  fix P assume P: "\<forall>k. stream_ok H P c k" and sub: "subseq (conn_pipeline json P c) (map (message_as_bytes json) (cn_handed c))"
  have live: "live c ?k" "live ?c j = live c j" for j
    using assms(2,5) by (auto simp: live_def cn_receiver_polled_def)
  have unread: "unread c ?k = w_rx s @ cn_up c ?k"
    using assms(2) by (simp add: unread_def)
  have le: "?k \<le> cn_current c"
    using P [THEN spec, of ?k] universal_recv_nonempty [OF assms(3)] unread by (auto simp: stream_ok_def not_less)
  have "old_stream (P ?k) (w_rx s @ cn_up c ?k)"
    using P [THEN spec, of ?k] live(1) le current_old unread by (auto simp: stream_ok_def le_less)
  moreover have "length b < 2 ^ 64" if "b \<in> set (P ?k)" for b
    using pipeline_fits [OF _ sub that order.refl le] assms(1) by (simp add: conn_inv_def)
  ultimately have payload: "P ?k = [bytes]" "unread c ?k = universal_frame bytes" "cn_up c ?k = []" "w_rx s' = []"
    and ack: "w_tx s' = w_tx s @ u128_to_be_bytes (H bytes)"
    using heard_payload [OF _ assms(3), of "P ?k" "cn_up c ?k"] unread by auto
  have down: "cn_down ?c = (cn_down c)(?k := cn_down c ?k @ u128_to_be_bytes (H bytes))"
    using assms(2,5) ack by (simp add: cn_receiver_polled_def inbound_written_def)
  let ?P = "P(?k := [])"
  have same: "cn_current ?c = cn_current c" "cn_left ?c = cn_left c" "cn_sender ?c = cn_sender c" "cn_up ?c = cn_up c"
    "cn_accepted ?c = ?k" "j \<noteq> ?k \<Longrightarrow> unread ?c j = unread c j" "j \<noteq> ?k \<Longrightarrow> unseen ?c j = unseen c j" "unread ?c ?k = []" for j
    using payload assms(5) by (simp_all add: cn_receiver_polled_def unread_def unseen_def)
  have "stream_ok H ?P ?c ?k"
  proof (cases "?k = cn_current c")
    case True
    then have cur: "current_stream H (cn_left c) (mh_outbound (cn_sender c)) [bytes] (universal_frame bytes) (unseen c ?k)"
      using P [THEN spec, of ?k] live(1) payload by (simp add: stream_ok_def)
    have "unseen ?c ?k = unseen c ?k @ u128_to_be_bytes (H bytes)"
      using down same by (simp add: unseen_def)
    with cur have "current_stream H (cn_left c) (mh_outbound (cn_sender c)) [] [] (unseen ?c ?k)"
      by (auto simp: current_stream_def old_stream_def universal_frame_def split: option.splits msg_outbound_state.splits
          dest: arg_cong [of _ _ length])
    with True live same show ?thesis by (simp add: stream_ok_def)
  qed (use le same in \<open>simp add: stream_ok_def old_stream_def\<close>)
  moreover have "stream_ok H ?P ?c j" if "j \<noteq> ?k" for j
    using P [THEN spec, of j]
    by (simp only: stream_ok_def live(2) same(1-3) same(6,7) [OF that] down fun_upd_other [OF that])
  ultimately have "stream_ok H ?P ?c j" for j
    by (cases "j = ?k") simp_all
  moreover have "cn_heard ?c @ flight ?P ?c = cn_heard c @ flight P c"
    using le payload(1) assms(4) by (simp add: flight_def cn_receiver_polled_def upt_conv_Cons [of ?k] del: upt_Suc)
  then have "conn_pipeline json ?P ?c = conn_pipeline json P c"
    unfolding conn_pipeline_def using same(3) by (metis append.assoc)
  ultimately show "\<exists>P'. (\<forall>k. stream_ok H P' ?c k) \<and> subseq (conn_pipeline json P' ?c) (map (message_as_bytes json) (cn_handed ?c))"
    using sub by (intro exI [of _ ?P]) (simp add: cn_receiver_polled_def)
qed (use assms in \<open>auto simp: conn_inv_def cn_receiver_polled_def\<close>)

lemma inv_unheard:
  assumes "conn_inv json H c" "heard_by r = []" "mh_inbound h = mh_inbound (cn_receiver c) \<or> mh_inbound h = None"
    and "\<forall>bytes. MTB_IncomingMessage bytes \<notin> set (mh_pending_out_events h)"
  shows "conn_inv json H (cn_receiver_polled r h c)"
proof (cases "mh_inbound h = mh_inbound (cn_receiver c)")
  case True
  then show ?thesis
    using assms(2,4) by (intro conn_inv_same [OF assms(1)]) (simp_all add: cn_receiver_polled_def inbound_written_def)
next
  case False
  let ?c = "cn_receiver_polled r h c" and ?k = "cn_accepted c"
  have none: "mh_inbound h = None" using False assms(3) by simp
  show ?thesis
  proof (rule conn_invI [OF _ _ _ assms(1)])
    fix P assume P: "\<forall>k. stream_ok H P c k" and sub: "subseq (conn_pipeline json P c) (map (message_as_bytes json) (cn_handed c))"
    let ?P = "P(?k := [])"
    have live: "live ?c j \<longleftrightarrow> live c j \<and> j \<noteq> ?k" for j
      using none by (auto simp: live_def cn_receiver_polled_def)
    have same: "cn_current ?c = cn_current c" "cn_left ?c = cn_left c" "cn_sender ?c = cn_sender c" "cn_down ?c = cn_down c"
      "j \<noteq> ?k \<Longrightarrow> unread ?c j = unread c j" "unseen ?c j = unseen c j" "unread c j = [] \<Longrightarrow> unread ?c j = []" for j
      using none by (auto simp: cn_receiver_polled_def inbound_written_def unread_def unseen_def)
    have "stream_ok H ?P ?c j" for j
      using P [THEN spec, of j] live [of j] same(1-4) same(5-7) [of j] by (cases "j = ?k") (auto simp: stream_ok_def)
    moreover have "subseq (flight ?P ?c) (flight P c)"
    proof -
      have "subseq (concat (map ?P ks)) (concat (map P ks))" for ks
        by (induction ks) (simp_all add: list_emb_append_mono)
      then show ?thesis by (simp only: flight_def same(1)) (simp add: cn_receiver_polled_def del: upt_Suc)
    qed
    then have "subseq (conn_pipeline json ?P ?c) (conn_pipeline json P c)"
      unfolding conn_pipeline_def same(3) using assms(2)
      by (intro list_emb_append_mono) (simp_all add: cn_receiver_polled_def)
    ultimately show "\<exists>P'. (\<forall>k. stream_ok H P' ?c k) \<and> subseq (conn_pipeline json P' ?c) (map (message_as_bytes json) (cn_handed ?c))"
      using sub by (intro exI [of _ ?P]) (auto simp: cn_receiver_polled_def intro: subseq_order.trans)
  qed (use assms in \<open>auto simp: conn_inv_def cn_receiver_polled_def\<close>)
qed

lemma reads_same [simp]:
  "mh_outbound (inbound_reads bs h) = mh_outbound h" "mh_pending_in_events (inbound_reads bs h) = mh_pending_in_events h"
  "mh_inbound (outbound_reads bs h) = mh_inbound h" "mh_pending_out_events (outbound_reads bs h) = mh_pending_out_events h"
  by (simp_all add: inbound_reads_def outbound_reads_def split: option.split msg_outbound_state.split)

lemma poll_inbound_same:
  "msg_poll_inbound H env h = (r, h') \<Longrightarrow>
     mh_outbound h' = mh_outbound h \<and> mh_pending_in_events h' = mh_pending_in_events h \<and> mh_state h' = mh_state h"
  by (auto simp: msg_poll_inbound_def msg_push_out_def split: option.splits poll.splits sum.splits)

lemma turn_over_idle:
  assumes "send_over H (hio_outbound env i) h0"
    and "msg_outbound_turn H json env i h0 = MsgNext j h rs \<or> msg_outbound_turn H json env i h0 = MsgBreak r h rs"
  shows "mh_outbound h \<noteq> Some (MsgBusy s bytes cb d)"
  using assms
  by (auto simp: send_over_def msg_outbound_turn_def split: option.splits msg_outbound_state.splits poll.splits sum.splits)

lemma inv_restart:
  assumes inv: "conn_inv json H c" and "\<And>s bytes cb d. mh_outbound (cn_sender c) \<noteq> Some (MsgBusy s bytes cb d)"
  shows "conn_inv json H (c\<lparr>cn_left := length (outbound_written (cn_sender c))\<rparr>)" (is "conn_inv json H ?c")
proof -
  have "stream_ok H P ?c k" if "stream_ok H P c k" for P k
    using that assms(2)
    by (auto simp: stream_ok_def live_def unread_def unseen_def current_stream_def outbound_written_def
        split: option.splits msg_outbound_state.splits)
  moreover have "conn_pipeline json P ?c = conn_pipeline json P c" for P
    by (simp add: conn_pipeline_def flight_def)
  ultimately show ?thesis
    using inv by (simp add: conn_inv_def) blast
qed

lemma inv_turned:
  assumes "conn_inv json H (c\<lparr>cn_sender := h\<rparr>)"
    and "over \<Longrightarrow> (\<And>s bytes cb d. mh_outbound h \<noteq> Some (MsgBusy s bytes cb d))"
  shows "conn_inv json H (cn_turned over h c)"
proof -
  have "conn_inv json H (cn_flush (c\<lparr>cn_sender := h\<rparr>))"
    using inv_flush [OF assms(1)] .
  with inv_restart [OF this] assms(2) show ?thesis
    by (simp add: cn_turned_def cn_flush_def cn_leave_def Let_def)
qed

lemma conn_inv_step:
  assumes inv: "conn_inv json H c" and "conn_step json H rep c c'"
  shows "conn_inv json H c'"
  using assms(2)
proof cases
  case (opened k h)
  then show ?thesis
    using inv_opened [OF inv, of k h] by (auto simp: msg_push_out_def)
next
  case (sender_connection ev h)
  then show ?thesis
  proof (cases ev)
    case (DialUpgradeError e)
    then have "mh_outbound h = None" "mh_pending_in_events h = mh_pending_in_events (cn_sender c)"
      using sender_connection by (auto simp: msg_on_dial_upgrade_error_def Let_def split: stream_upgrade_error.splits)
    then show ?thesis
      using inv_dropped [OF inv] sender_connection by simp
  qed (use sender_connection in \<open>auto simp: msg_push_out_def intro!: conn_inv_same [OF inv]\<close>)
next
  case (send_progress s bytes cb d j)
  then show ?thesis using inv_leave [OF inv] by simp
next
  case (turn env i i' h rs)
  then show ?thesis
    using inv_turned [OF inv_turn [OF inv]] turn_over_idle [of H env i "cn_sender c" json] by blast
next
  case (last_turn env i r h rs)
  then show ?thesis
    using inv_turned [OF inv_last_turn [OF inv]] turn_over_idle [of H env i "cn_sender c" json] by blast
next
  case (sender_inbound env r h)
  then show ?thesis
    using poll_inbound_same [OF sender_inbound(4)] by (intro conn_inv_same [OF inv]) simp_all
next
  case (acknowledged xs ys)
  then show ?thesis using inv_acknowledged [OF inv] by simp
next
  case (accepted k h)
  then show ?thesis
    using inv_accepted [OF inv, of k h] by (auto simp: msg_push_out_def push_back_def)
next
  case (receiver_connection ev h)
  then have "mh_inbound h = mh_inbound (cn_receiver c)"
    and "\<And>bytes. MTB_IncomingMessage bytes \<in> set (mh_pending_out_events h) \<Longrightarrow>
      MTB_IncomingMessage bytes \<in> set (mh_pending_out_events (cn_receiver c))"
    by (cases ev; auto simp: msg_push_out_def push_back_def msg_on_dial_upgrade_error_def Let_def
        split: stream_upgrade_error.splits)+
  then show ?thesis
    unfolding receiver_connection by (intro conn_inv_same [OF inv]) simp_all
next
  case (arrive xs ys)
  then show ?thesis using inv_arrive [OF inv] by simp
next
  case (receiver_poll env r h rs)
  have "\<forall>bytes. MTB_IncomingMessage bytes \<notin> set (mh_pending_out_events (cn_receiver c))"
    using inv by (simp add: conn_inv_def)
  with receiver_poll(3) show ?thesis
    unfolding receiver_poll(2)
    by (rule receiver_poll_cases) (use inv_heard [OF inv] inv_unheard [OF inv] in blast)+
qed (auto simp: msg_on_behaviour_event_def intro!: conn_inv_same [OF inv])

lemma conn_inv_new: "conn_inv json H (msg_conn_new ca cb)"
proof -
  have "stream_ok H (\<lambda>_. []) (msg_conn_new ca cb) k" for k
    by (simp add: stream_ok_def msg_conn_new_def msg_handler_new_def unread_def old_stream_def current_stream_def)
  then show ?thesis
    unfolding conn_inv_def
    by (intro conjI exI [of _ "\<lambda>_. []"] allI)
      (simp_all add: conn_pipeline_def flight_def msg_conn_new_def msg_handler_new_def)
qed

lemma conn_inv_heard:
  assumes "conn_inv json H c"
  shows "subseq (cn_heard c) (map (message_as_bytes json) (cn_handed c))"
proof -
  obtain P where "subseq (conn_pipeline json P c) (map (message_as_bytes json) (cn_handed c))"
    using assms by (auto simp: conn_inv_def)
  then show ?thesis
    unfolding conn_pipeline_def by (rule subseq_order.trans [OF prefix_imp_subseq [OF prefixI [OF refl]]])
qed

fun report_heard :: "conn_report \<Rightarrow> u8 list list" where
  "report_heard (ReceiverReport (MTB_IncomingMessage bytes)) = [bytes]"
| "report_heard _ = []"

lemma conn_step_logs:
  assumes "conn_step json H rep c c'"
  shows "cn_heard c' = cn_heard c @ report_heard rep \<and> cn_handed c' = cn_handed c"
  using assms
proof cases
  case (last_turn env i r h rs)
  then show ?thesis by (cases r rule: sender_report.cases) (simp_all add: cn_turned_def cn_flush_def cn_leave_def Let_def)
next
  case (sender_inbound env r h)
  then show ?thesis by (cases r rule: sender_report.cases) simp_all
next
  case (receiver_poll env r h rs)
  then show ?thesis
    by (cases r rule: heard_by.cases) (simp_all add: cn_receiver_polled_def)
qed (simp_all add: cn_turned_def cn_flush_def cn_leave_def Let_def)

section \<open>A poll of the sender is a sequence of steps\<close>

text \<open>
  Whatever the streams do during a call of the sender's \<open>poll\<close>, its effect is that of silent steps
  followed, when it is ready, by the step that makes its report.
\<close>

lemma poll_outbound_steps:
  "msg_poll_outbound H json env i h0 = (r, h, rs) \<Longrightarrow> cn_sender c = h0 \<Longrightarrow> mh_state h0 = Active \<Longrightarrow>
     \<exists>c1 c2. (conn_step json H NoReport)\<^sup>*\<^sup>* c c1 \<and> conn_step json H (sender_report r) c1 c2 \<and> cn_sender c2 = h
       \<and> cn_receiver c2 = cn_receiver c \<and> cn_heard c2 = cn_heard c \<and> cn_handed c2 = cn_handed c \<and> mh_state h = Active"
proof (induction H json env i h0 arbitrary: c r h rs rule: msg_poll_outbound.induct)
  case (1 H json env i h0)
  note poll = 1(2) [unfolded msg_poll_outbound.simps [of H json env i h0]]
  have state: "mh_state h1 = mh_state h0"
    if "msg_outbound_turn H json env i h0 = MsgNext j h1 rs1 \<or> msg_outbound_turn H json env i h0 = MsgBreak r1 h1 rs1" for j h1 rs1 r1
    using that by (auto simp: msg_outbound_turn_def msg_progress_in_events_def
        split: option.splits msg_outbound_state.splits poll.splits sum.splits list.splits if_splits msg_from_behaviour.splits)
  have active: "mh_state (cn_sender c) = Active" and turn: "msg_outbound_turn H json env i (cn_sender c) = msg_outbound_turn H json env i h0"
    using 1(3,4) by simp_all
  let ?turned = "cn_turned (send_over H (hio_outbound env i) (cn_sender c))"
  have turned: "cn_sender (?turned h1 c) = h1" "cn_receiver (?turned h1 c) = cn_receiver c"
    "cn_heard (?turned h1 c) = cn_heard c" "cn_handed (?turned h1 c) = cn_handed c" for h1
    by (simp_all add: cn_turned_def cn_flush_def cn_leave_def Let_def)
  show ?case
  proof (cases "msg_outbound_turn H json env i h0")
    case (MsgBreak r1 h1 rs1)
    with poll have "r = r1" "h = h1" by simp_all
    with conn_step.last_turn [OF active] turn state MsgBreak 1(4) show ?thesis
      by (intro exI [of _ c] exI [of _ "?turned h1 c"]) (simp add: turned)
  next
    case (MsgNext j h1 rs1)
    let ?c = "?turned h1 c"
    obtain r2 h2 rs2 where rest: "msg_poll_outbound H json env j h1 = (r2, h2, rs2)" by (rule prod_cases3)
    with poll MsgNext have "r = r2" "h = h2" by simp_all
    moreover obtain c1 c2 where "(conn_step json H NoReport)\<^sup>*\<^sup>* ?c c1" "conn_step json H (sender_report r2) c1 c2"
      "cn_sender c2 = h2" "cn_receiver c2 = cn_receiver c" "cn_heard c2 = cn_heard c" "cn_handed c2 = cn_handed c" "mh_state h2 = Active"
      using 1(1) [OF MsgNext rest, of ?c] state MsgNext 1(4) by (auto simp: turned)
    ultimately show ?thesis
      using conn_step.turn [OF active] turn MsgNext by (metis converse_rtranclp_into_rtranclp)
  qed
qed

lemma sender_poll_steps:
  assumes "msg_handler_poll H json env (cn_sender c) = (r, h, rs)"
  shows "\<exists>c'. (case r of
        Pending \<Rightarrow> (conn_step json H NoReport)\<^sup>*\<^sup>* c c'
      | Ready ev \<Rightarrow> \<exists>c1. (conn_step json H NoReport)\<^sup>*\<^sup>* c c1 \<and> conn_step json H (sender_report (Some ev)) c1 c')
    \<and> cn_sender c' = h \<and> cn_receiver c' = cn_receiver c \<and> cn_heard c' = cn_heard c \<and> cn_handed c' = cn_handed c"
proof (cases "mh_state (cn_sender c)")
  case (Inactive reported)
  then show ?thesis
    using assms conn_step.sender_inactive [of c json H]
    by (cases reported; intro exI [of _ "c\<lparr>cn_sender := h\<rparr>"]) (auto simp: msg_handler_poll_def)
next
  case Active
  obtain o1 h1 where inb: "msg_poll_inbound H env (cn_sender c) = (o1, h1)" by (rule prod.exhaust)
  let ?c1 = "c\<lparr>cn_sender := h1\<rparr>"
  have step1: "conn_step json H (sender_report o1) c ?c1"
    using conn_step.sender_inbound [OF Active inb] .
  show ?thesis
  proof (cases o1)
    case (Some ev)
    then show ?thesis
      using assms Active inb step1 by (intro exI [of _ ?c1]) (auto simp: msg_handler_poll_def)
  next
    case None
    obtain o2 h2 rs2 where outb: "msg_poll_outbound H json env 0 (cn_sender ?c1) = (o2, h2, rs2)" by (rule prod_cases3)
    obtain c1 c2 where steps: "(conn_step json H NoReport)\<^sup>*\<^sup>* ?c1 c1" "conn_step json H (sender_report o2) c1 c2"
      and c2: "cn_sender c2 = h2" "cn_receiver c2 = cn_receiver c" "cn_heard c2 = cn_heard c" "cn_handed c2 = cn_handed c" "mh_state h2 = Active"
      using poll_outbound_steps [OF outb refl] poll_inbound_same [OF inb] Active by auto
    have pre: "(conn_step json H NoReport)\<^sup>*\<^sup>* c c1"
      using step1 steps(1) None by (simp add: converse_rtranclp_into_rtranclp)
    show ?thesis
    proof (cases o2)
      case (Some ev)
      then show ?thesis
        using assms Active inb None outb pre steps(2) c2 by (intro exI [of _ c2]) (auto simp: msg_handler_poll_def)
    next
      case no_event: None
      with steps(2) pre have c: "(conn_step json H NoReport)\<^sup>*\<^sup>* c c2" by simp
      show ?thesis
      proof (cases "mh_pending_out_events h2")
        case Nil
        then show ?thesis
          using assms Active inb None outb no_event c c2 by (intro exI [of _ c2]) (auto simp: msg_handler_poll_def)
      next
        case (Cons ev q)
        let ?c3 = "c2\<lparr>cn_sender := (cn_sender c2)\<lparr>mh_pending_out_events := q\<rparr>\<rparr>"
        have "conn_step json H (SenderReport ev) c2 ?c3"
          using conn_step.sender_pops [of c2 ev q] c2 Cons by simp
        then show ?thesis
          using assms Active inb None outb no_event Cons c c2
          by (intro exI [of _ ?c3]) (auto simp: msg_handler_poll_def)
      qed
    qed
  qed
qed

end
