(* ===== verification/Msg_Network.thy ===== *)
theory Msg_Network
  imports Msg_Link "HOL-Library.Multiset"
begin

text \<open>
  Messages from one peer to another: the behaviours of both peers joined by any number of
  connections (\<open>Msg_Link\<close>), one after the other or at the same time. Over each connection messages
  arrive in the order in which they were requested, and no message arrives twice; and between two
  peers that are polled and whose streams work, every message arrives and is acknowledged.
\<close>

section \<open>Two peers\<close>

text \<open>
  Beside the states of the program the record keeps what was requested, what was handed to which
  connection and what was delivered from which connection, and for each event queued at the receiver
  the connection it stems from: \<open>OutEvent::IncomingMessage\<close> names the sender that the message claims.
\<close>

record msg_net =
  mn_requested :: "message list"
  mn_sender :: msg_behaviour
  mn_handed :: "(nat \<times> message) list"
  mn_conns :: "nat \<Rightarrow> msg_conn"
  mn_receiver :: msg_behaviour
  mn_origin :: "nat option list"
  mn_delivered :: "(nat \<times> message) list"

definition msg_net_init :: "msg_config \<Rightarrow> msg_config \<Rightarrow> msg_net" where
  "msg_net_init ca cb = \<lparr>mn_requested = [], mn_sender = msg_behaviour_new ca, mn_handed = [],
     mn_conns = (\<lambda>_. msg_conn_new ca cb), mn_receiver = msg_behaviour_new cb, mn_origin = [], mn_delivered = []\<rparr>"

fun request_msgs :: "peer_id \<Rightarrow> msg_in_event \<Rightarrow> message list" where
  "request_msgs to (Msg_SendMessage peer m cb) = (if peer = to then [m] else [])"
| "request_msgs to (Msg_ListConnected cb) = []"

fun event_msgs :: "nat option \<times> msg_out_event \<Rightarrow> (nat \<times> message) list" where
  "event_msgs (Some i, MsgOut_IncomingMessage from m) = [(i, m)]"
| "event_msgs _ = []"

text \<open>A report of a connection to the behaviour of its side.\<close>

fun mn_report :: "json_codec \<Rightarrow> peer_id \<Rightarrow> peer_id \<Rightarrow> nat \<Rightarrow> conn_report \<Rightarrow> msg_net \<Rightarrow> msg_net" where
  "mn_report json me to i NoReport n = n"
| "mn_report json me to i (SenderReport ev) n = n\<lparr>mn_sender := msg_on_handler_event json ev to (mn_sender n)\<rparr>"
| "mn_report json me to i (ReceiverReport ev) n =
     n\<lparr>mn_receiver := msg_on_handler_event json ev me (mn_receiver n), mn_origin := mn_origin n @ [Some i]\<rparr>"

text \<open>
  The steps. The swarm may hand a command to any connection with the peer (\<open>NotifyHandler::Any\<close>) or,
  when there is none, drop it; it may lose what a closing connection still had to report. A closed
  connection makes no more steps, and a new one is in its initial state. An encoded message fits a
  vector, whose length is below \<open>2 ^ 63\<close>. Both behaviours also meet requests, events of other peers and
  events of the swarm at any time.
\<close>

inductive msg_net_step :: "json_codec \<Rightarrow> (u8 list \<Rightarrow> u128) \<Rightarrow> peer_id \<Rightarrow> peer_id \<Rightarrow> msg_net \<Rightarrow> msg_net \<Rightarrow> bool"
  for json H me to where
  request: "msg_net_step json H me to n
    (n\<lparr>mn_sender := msg_push_event ev (mn_sender n), mn_requested := mn_requested n @ request_msgs to ev\<rparr>)"
| sender_poll: "msg_poll (mn_sender n) = (r, b', rs) \<Longrightarrow> msg_net_step json H me to n (n\<lparr>mn_sender := b'\<rparr>)"
| sender_hands: "msg_poll (mn_sender n) = (Ready (NotifyHandler to w (PostMessage m cb)), b', rs) \<Longrightarrow>
    length (message_as_bytes json m) < 2 ^ 63 \<Longrightarrow> msg_net_step json H me to n
      (n\<lparr>mn_sender := b', mn_handed := mn_handed n @ [(i, m)], mn_conns := (mn_conns n)(i := cn_command m cb (mn_conns n i))\<rparr>)"
| sender_swarm: "msg_net_step json H me to n (n\<lparr>mn_sender := msg_on_swarm_event sev (mn_sender n)\<rparr>)"
| sender_event: "msg_net_step json H me to n (n\<lparr>mn_sender := msg_on_handler_event json hev peer (mn_sender n)\<rparr>)"
| connection: "conn_step json H rep (mn_conns n i) c \<Longrightarrow> msg_net_step json H me to n
    (mn_report json me to i rep (n\<lparr>mn_conns := (mn_conns n)(i := c)\<rparr>))"
| report_lost: "conn_step json H rep (mn_conns n i) c \<Longrightarrow> msg_net_step json H me to n
    (n\<lparr>mn_conns := (mn_conns n)(i := c)\<rparr>)"
| receiver_event: "msg_net_step json H me to n
    (n\<lparr>mn_receiver := msg_on_handler_event json hev peer (mn_receiver n), mn_origin := mn_origin n @ [None]\<rparr>)"
| receiver_request: "msg_net_step json H me to n (n\<lparr>mn_receiver := msg_push_event ev (mn_receiver n)\<rparr>)"
| receiver_swarm: "msg_net_step json H me to n (n\<lparr>mn_receiver := msg_on_swarm_event sev (mn_receiver n)\<rparr>)"
| receiver_poll: "msg_poll (mn_receiver n) = (r, b', rs) \<Longrightarrow> msg_net_step json H me to n
    (n\<lparr>mn_receiver := b',
       mn_origin := (if mb_out_events (mn_receiver n) = [] then mn_origin n else tl (mn_origin n)),
       mn_delivered := mn_delivered n @ concat (map event_msgs (take 1 (zip (mn_origin n) (mb_out_events (mn_receiver n)))))\<rparr>)"

section \<open>The invariant\<close>

text \<open>The messages of one connection.\<close>

definition over :: "nat \<Rightarrow> (nat \<times> 'm) list \<Rightarrow> 'm list" where
  "over i xs = map snd (filter (\<lambda>x. fst x = i) xs)"

lemma over_simps [simp]:
  "over i [] = []" "over i (xs @ ys) = over i xs @ over i ys" "over i ((j, m) # xs) = (if j = i then m # over i xs else over i xs)"
  by (simp_all add: over_def)

lemma over_subseq: "subseq (over i xs) (map snd xs)"
  unfolding over_def by (intro subseq_map subseq_filter_left)

lemma subseq_mset: "subseq xs ys \<Longrightarrow> mset xs \<subseteq># mset ys"
  by (induction rule: list_emb.induct) (auto intro: subset_mset.order_trans)

text \<open>Messages in order over each key are, all together, a part of the others.\<close>

lemma over_mset:
  assumes "\<And>i. subseq (over i xs) (over i ys)"
  shows "mset xs \<subseteq># mset ys"
proof (rule mset_subset_eqI)
  fix x :: "nat \<times> 'a"
  have count: "count (mset zs) x = count (mset (over (fst x) zs)) (snd x)" for zs
    by (induction zs) (auto simp: over_def)
  have "count (mset (over (fst x) xs)) (snd x) \<le> count (mset (over (fst x) ys)) (snd x)"
    using assms [of "fst x"] by (intro mset_subset_eq_count subseq_mset)
  then show "count (mset xs) x \<le> count (mset ys) x"
    by (simp only: count)
qed

definition queued :: "msg_net \<Rightarrow> (nat \<times> message) list" where
  "queued n = concat (map event_msgs (zip (mn_origin n) (mb_out_events (mn_receiver n))))"

definition msg_net_inv :: "json_codec \<Rightarrow> (u8 list \<Rightarrow> u128) \<Rightarrow> peer_id \<Rightarrow> msg_net \<Rightarrow> bool" where
  "msg_net_inv json H to n \<longleftrightarrow>
     (\<forall>i. conn_inv json H (mn_conns n i)
        \<and> cn_handed (mn_conns n i) = over i (mn_handed n)
        \<and> subseq (map (message_as_bytes json) (over i (mn_delivered n @ queued n))) (cn_heard (mn_conns n i)))
     \<and> subseq (map snd (mn_handed n) @ concat (map (request_msgs to) (mb_in_events (mn_sender n)))) (mn_requested n)
     \<and> length (mn_origin n) = length (mb_out_events (mn_receiver n))"

lemma on_handler_event_queues:
  "mb_in_events (msg_on_handler_event json ev peer b) = mb_in_events b"
  "\<exists>e. mb_out_events (msg_on_handler_event json ev peer b) = mb_out_events b @ [e]"
  by (cases ev; auto simp: msg_emit_def push_back_def Let_def split: sum.splits)+

lemma on_swarm_event_queues [simp]:
  "mb_in_events (msg_on_swarm_event ev b) = mb_in_events b"
  "mb_out_events (msg_on_swarm_event ev b) = mb_out_events b"
  by (cases ev; simp add: msg_on_disconnect_def)+

lemma in_events_taken:
  "msg_handle_in_events peers evs = (r, evs', rs) \<Longrightarrow>
    subseq ((case r of Some (NotifyHandler peer x cmd) \<Rightarrow> if peer = to then [command_msg cmd] else [] | _ \<Rightarrow> [])
            @ concat (map (request_msgs to) evs')) (concat (map (request_msgs to) evs))"
proof (induction peers evs arbitrary: r evs' rs rule: msg_handle_in_events.induct)
  case (2 peers peer message cb evs)
  then show ?case
    by (auto simp: Let_def split: if_splits prod.splits)
qed (auto split: prod.splits)

lemma sender_poll_taken:
  assumes "msg_poll b = (r, b', rs)"
  shows "subseq ((case r of Ready (NotifyHandler peer x cmd) \<Rightarrow> if peer = to then [command_msg cmd] else [] | _ \<Rightarrow> [])
    @ concat (map (request_msgs to) (mb_in_events b'))) (concat (map (request_msgs to) (mb_in_events b)))"
proof (cases "mb_out_events b")
  case Nil
  obtain r' evs rs' where ev: "msg_handle_in_events (mb_connected_peers b) (mb_in_events b) = (r', evs, rs')"
    by (metis prod_cases3)
  from in_events_taken [OF ev, of to] ev Nil assms show ?thesis
    by (auto simp: msg_poll_def split: option.splits)
qed (use assms in \<open>auto simp: msg_poll_def\<close>)

lemma taken_rest:
  assumes "subseq (xs @ ys) zs" shows "subseq ys zs"
  using assms by (rule subseq_order.trans [rotated]) (simp add: list_emb_append2)

text \<open>A payload that was heard is that of a message handed to the connection.\<close>

lemma report_decodes:
  assumes "json_roundtrip json" "conn_inv json H c'" "conn_step json H (ReceiverReport (MTB_IncomingMessage bytes)) c c'"
  shows "\<exists>m. bytes = message_as_bytes json m \<and> json_from_slice json bytes = Inr m"
proof -
  have "bytes \<in> set (cn_heard c')"
    using conn_step_logs [OF assms(3)] by simp
  then obtain m where "bytes = message_as_bytes json m"
    by (rule list_emb_set [OF conn_inv_heard [OF assms(2)]]) auto
  with assms(1) show ?thesis
    by (auto simp: json_roundtrip_def message_as_bytes_def)
qed

lemma sender_report_inv:
  assumes "msg_net_inv json H to n"
  shows "msg_net_inv json H to (n\<lparr>mn_sender := msg_on_handler_event json ev peer (mn_sender n)\<rparr>)"
  using assms by (simp add: msg_net_inv_def queued_def on_handler_event_queues)

text \<open>A connection that makes a step: what it reports is heard, or nothing is.\<close>

lemma connection_inv:
  assumes inv: "msg_net_inv json H to n" and step: "conn_step json H rep (mn_conns n i) c"
  shows "msg_net_inv json H to (n\<lparr>mn_conns := (mn_conns n)(i := c)\<rparr>)" (is "msg_net_inv json H to ?n")
proof -
  have conn: "conn_inv json H c" "cn_handed c = over i (mn_handed n)"
    and "subseq (map (message_as_bytes json) (over i (mn_delivered n @ queued n))) (cn_heard c)"
    using inv conn_inv_step [OF _ step] conn_step_logs [OF step]
    by (auto simp: msg_net_inv_def dest!: spec [of _ i] intro: list_emb_append2 subseq_order.trans)
  with inv show ?thesis
    by (simp add: msg_net_inv_def queued_def)
qed

lemma receiver_report_inv:
  assumes codec: "json_roundtrip json" and inv: "msg_net_inv json H to n"
    and step: "conn_step json H (ReceiverReport ev) (mn_conns n i) c"
  shows "msg_net_inv json H to (n\<lparr>mn_conns := (mn_conns n)(i := c),
    mn_receiver := msg_on_handler_event json ev me (mn_receiver n), mn_origin := mn_origin n @ [Some i]\<rparr>)"
    (is "msg_net_inv json H to ?n")
proof -
  note inv1 = connection_inv [OF inv step]
  then have cinv: "conn_inv json H c" by (auto simp: msg_net_inv_def dest: spec [of _ i])
  have len: "length (mn_origin n) = length (mb_out_events (mn_receiver n))"
    using inv by (simp add: msg_net_inv_def)
  obtain e where e: "mb_out_events (msg_on_handler_event json ev me (mn_receiver n)) = mb_out_events (mn_receiver n) @ [e]"
    using on_handler_event_queues(2) by blast
  then have queued: "queued ?n = queued n @ event_msgs (Some i, e)"
    using len by (simp add: queued_def)
  have "subseq (map (message_as_bytes json) (over i (mn_delivered n @ queued n)) @ map (message_as_bytes json) (over i (event_msgs (Some i, e)))) (cn_heard c)"
  proof -
    have "map (message_as_bytes json) (over i (event_msgs (Some i, e))) = report_heard (ReceiverReport ev)"
    proof (cases ev)
      case (MTB_IncomingMessage bytes)
      then obtain m where "bytes = message_as_bytes json m" "json_from_slice json bytes = Inr m"
        using report_decodes [OF codec cinv] step by blast
      with MTB_IncomingMessage e show ?thesis by (auto simp: msg_emit_def push_back_def)
    qed (use e in \<open>auto simp: msg_emit_def push_back_def Let_def\<close>)
    moreover have "subseq (map (message_as_bytes json) (over i (mn_delivered n @ queued n))) (cn_heard (mn_conns n i))"
      using inv by (simp add: msg_net_inv_def)
    ultimately show ?thesis
      using conn_step_logs [OF step] by (metis list_emb_append_mono subseq_order.refl)
  qed
  moreover have "over j (event_msgs (Some i, e)) = []" if "j \<noteq> i" for j
    using that by (cases e) auto
  moreover have "subseq (map (message_as_bytes json) (over j (mn_delivered n @ queued n))) (cn_heard (mn_conns n j))" for j
    using inv by (simp add: msg_net_inv_def)
  ultimately have "subseq (map (message_as_bytes json) (over j (mn_delivered n @ queued ?n))) (cn_heard (mn_conns ?n j))" for j
    unfolding queued by (cases "j = i") simp_all
  with inv1 len e show ?thesis
    by (simp add: msg_net_inv_def on_handler_event_queues)
qed

lemma receiver_poll_inv:
  assumes inv: "msg_net_inv json H to n" and poll: "msg_poll (mn_receiver n) = (r, b', rs)"
  shows "msg_net_inv json H to
    (n\<lparr>mn_receiver := b',
       mn_origin := (if mb_out_events (mn_receiver n) = [] then mn_origin n else tl (mn_origin n)),
       mn_delivered := mn_delivered n @ concat (map event_msgs (take 1 (zip (mn_origin n) (mb_out_events (mn_receiver n)))))\<rparr>)"
proof (cases "mb_out_events (mn_receiver n)")
  case Nil
  with poll have "mb_out_events b' = []"
    by (auto simp: msg_poll_def split: option.splits prod.splits)
  with Nil inv show ?thesis
    by (simp add: msg_net_inv_def queued_def)
next
  case (Cons e es)
  with inv obtain mk mks where mk: "mn_origin n = mk # mks"
    by (cases "mn_origin n") (auto simp: msg_net_inv_def)
  have "mb_out_events b' = es"
    using poll Cons by (auto simp: msg_poll_def)
  with Cons mk inv show ?thesis
    by (simp add: msg_net_inv_def queued_def)
qed

lemma sender_poll_inv:
  assumes inv: "msg_net_inv json H to n" and poll: "msg_poll (mn_sender n) = (r, b', rs)"
  shows "msg_net_inv json H to (n\<lparr>mn_sender := b'\<rparr>)"
proof -
  have "subseq (concat (map (request_msgs to) (mb_in_events b'))) (concat (map (request_msgs to) (mb_in_events (mn_sender n))))"
    using taken_rest [OF sender_poll_taken [OF poll, of to]] .
  then have "subseq (map snd (mn_handed n) @ concat (map (request_msgs to) (mb_in_events b')))
      (map snd (mn_handed n) @ concat (map (request_msgs to) (mb_in_events (mn_sender n))))"
    by (simp add: subseq_append')
  with inv show ?thesis
    by (auto simp: msg_net_inv_def queued_def intro: subseq_order.trans)
qed

lemma sender_hands_inv:
  assumes inv: "msg_net_inv json H to n" and poll: "msg_poll (mn_sender n) = (Ready (NotifyHandler to w (PostMessage m cb)), b', rs)"
    and fits: "length (message_as_bytes json m) < 2 ^ 63"
  shows "msg_net_inv json H to
    (n\<lparr>mn_sender := b', mn_handed := mn_handed n @ [(i, m)], mn_conns := (mn_conns n)(i := cn_command m cb (mn_conns n i))\<rparr>)"
proof -
  have "subseq (m # concat (map (request_msgs to) (mb_in_events b'))) (concat (map (request_msgs to) (mb_in_events (mn_sender n))))"
    using sender_poll_taken [OF poll, of to] by simp
  then have "subseq (map snd (mn_handed n) @ m # concat (map (request_msgs to) (mb_in_events b')))
      (map snd (mn_handed n) @ concat (map (request_msgs to) (mb_in_events (mn_sender n))))"
    by (simp add: subseq_append')
  moreover have "conn_inv json H (cn_command m cb (mn_conns n i))"
    using inv_command [OF _ fits] inv by (simp add: msg_net_inv_def)
  moreover have "cn_handed (cn_command m cb c) = cn_handed c @ [m]" "cn_heard (cn_command m cb c) = cn_heard c" for c
    by (simp_all add: cn_command_def)
  ultimately show ?thesis
    using inv by (auto simp: msg_net_inv_def queued_def intro: subseq_order.trans)
qed

lemma msg_net_inv_step:
  assumes codec: "json_roundtrip json" and inv: "msg_net_inv json H to n" and "msg_net_step json H me to n n'"
  shows "msg_net_inv json H to n'"
  using assms(3)
proof cases
  case (request ev)
  have "subseq ((map snd (mn_handed n) @ concat (map (request_msgs to) (mb_in_events (mn_sender n)))) @ request_msgs to ev)
      (mn_requested n @ request_msgs to ev)"
    using inv by (simp add: msg_net_inv_def del: append_assoc)
  with inv show ?thesis
    unfolding request by (simp add: msg_net_inv_def queued_def msg_push_event_def push_back_def)
next
  case (connection rep i c)
  then show ?thesis
    using connection_inv [OF inv] receiver_report_inv [OF codec inv] sender_report_inv [OF connection_inv [OF inv]]
    by (cases rep) auto
next
  case (receiver_event hev peer)
  obtain e where "mb_out_events (msg_on_handler_event json hev peer (mn_receiver n)) = mb_out_events (mn_receiver n) @ [e]"
    using on_handler_event_queues(2) by blast
  then show ?thesis
    using inv unfolding receiver_event by (simp add: msg_net_inv_def queued_def)
qed (use inv sender_poll_inv [OF inv] sender_hands_inv [OF inv] connection_inv [OF inv] receiver_poll_inv [OF inv] in
  \<open>auto simp: msg_net_inv_def queued_def msg_push_event_def on_handler_event_queues\<close>)

lemma msg_net_init_inv: "msg_net_inv json H to (msg_net_init ca cb)"
  by (simp add: msg_net_inv_def queued_def msg_net_init_def msg_behaviour_new_def conn_inv_new)
    (simp add: msg_conn_new_def)

lemma delivered_in_order:
  assumes codec: "json_roundtrip json" and inv: "msg_net_inv json H to n"
  shows "subseq (over i (mn_delivered n)) (over i (mn_handed n))" "subseq (map snd (mn_handed n)) (mn_requested n)"
proof -
  let ?e = "message_as_bytes json" and ?d = "\<lambda>bytes. projr (json_from_slice json bytes)"
  have "subseq (map ?e (over i (mn_delivered n))) (map ?e (over i (mn_handed n)))"
    using inv conn_inv_heard [of json H "mn_conns n i"]
    by (auto simp: msg_net_inv_def dest!: spec [of _ i] intro: subseq_order.trans prefix_imp_subseq)
  then have "subseq (map ?d (map ?e (over i (mn_delivered n)))) (map ?d (map ?e (over i (mn_handed n))))"
    by (rule subseq_map)
  moreover have "map ?d (map ?e ms) = ms" for ms
    using codec by (induction ms) (simp_all add: json_roundtrip_def message_as_bytes_def)
  ultimately show "subseq (over i (mn_delivered n)) (over i (mn_handed n))" by simp
  have "subseq (map snd (mn_handed n) @ concat (map (request_msgs to) (mb_in_events (mn_sender n)))) (mn_requested n)"
    using inv by (simp add: msg_net_inv_def)
  then show "subseq (map snd (mn_handed n)) (mn_requested n)"
    by (rule subseq_order.trans [OF prefix_imp_subseq [OF prefixI [OF refl]]])
qed

section \<open>Messages arrive in order and at most once\<close>

text \<open>
  C7. Messages to a peer are delivered at most once, and over each connection in the order in which
  they were requested. Whatever the receiver's behaviour has handed to its swarm from the connections
  with the sender is a part of what was requested, each message at most as often as it was requested;
  and what came over any one connection is a subsequence of the requests. This holds for every
  interleaving of requests, polls, connection and swarm events and traffic with other peers, with
  substreams opened, reset and reopened, bytes delayed or lost, messages timing out, and any number of
  connections, one after the other or at once.
\<close>

theorem msg_in_order_at_most_once:
  assumes "json_roundtrip json"
    and "(msg_net_step json H me to)\<^sup>*\<^sup>* (msg_net_init sender_config receiver_config) n"
  shows "mset (map snd (mn_delivered n)) \<subseteq># mset (mn_requested n)
    \<and> (\<forall>i. subseq (over i (mn_delivered n)) (mn_requested n))"
proof -
  have "invariant_system (msg_net_init sender_config receiver_config) (msg_net_step json H me to) (msg_net_inv json H to)"
    using msg_net_inv_step [OF assms(1)] msg_net_init_inv by unfold_locales blast+
  from invariant_system.reachable_inv [OF this assms(2)] have inv: "msg_net_inv json H to n" .
  note order = delivered_in_order [OF assms(1) inv]
  have "mset (map snd (mn_delivered n)) \<subseteq># mset (map snd (mn_handed n))"
    using over_mset [OF order(1)] by (simp add: image_mset_subseteq_mono)
  moreover have "mset (map snd (mn_handed n)) \<subseteq># mset (mn_requested n)"
    using order(2) by (rule subseq_mset)
  moreover have "subseq (over i (mn_delivered n)) (mn_requested n)" for i
    using order(1) over_subseq order(2) by (blast intro: subseq_order.trans)
  ultimately show ?thesis
    by (blast intro: subset_mset.order_trans)
qed

section \<open>Every message arrives when both peers are polled\<close>






definition io_at :: "nat \<Rightarrow> io_env option \<Rightarrow> io_env option \<Rightarrow> handler_io" where
  "io_at instant inbound outbound = \<lparr>hio_instant = instant, hio_inbound = inbound, hio_outbound = (\<lambda>_. outbound)\<rparr>"





text \<open>The receiver's handler reads the frame, acknowledges it and reports the payload.\<close>

lemma receiver_hears:
  assumes "fault_free e" "mh_state h = Active" "mh_inbound h = Some r" "w_rx r = []"
    and "bytes \<noteq> []" "length bytes div 1024 \<le> 128"
  shows "\<exists>r'. msg_handler_poll H json (io_at instant (Some e) None) (inbound_reads (universal_frame bytes) h) =
      (Ready (NotifyBehaviour (MTB_IncomingMessage bytes)), h\<lparr>mh_inbound := Some r'\<rparr>, [])
    \<and> w_rx r' = [] \<and> w_tx r' = w_tx r @ u128_to_be_bytes (H bytes)"
proof -
  obtain r' where "universal_recv H e (r\<lparr>w_rx := universal_frame bytes\<rparr>) = Some (Inr (r', bytes))"
    "w_rx r' = []" "w_tx r' = w_tx r @ u128_to_be_bytes (H bytes)"
    using universal_recv_frame [OF assms(1,6,5), of "r\<lparr>w_rx := universal_frame bytes\<rparr>" H] by (auto simp: universal_frame_def)
  with assms(2-4) show ?thesis
    by (intro exI [of _ r']) (simp add: msg_handler_poll_def msg_poll_inbound_def inbound_reads_def io_at_def poll_universal_recv_def)
qed



text \<open>A run in which a message is delivered: a stream opens in each handler, the message is requested, handed over, sent and heard.\<close>

lemma tiny_bytes:
  "message_as_bytes demo_json tiny_message \<noteq> []" "length (message_as_bytes demo_json tiny_message) div 1024 \<le> 128"
  "length (message_as_bytes demo_json tiny_message) < 2 ^ 63"
  by (simp_all add: message_as_bytes_def demo_json_def demo_to_vec_def tiny_message_def flip: length_greater_0_conv)

lemma demo_run:
  fixes H :: "u8 list \<Rightarrow> u128"
  defines "step \<equiv> msg_net_step demo_json H (PeerId [1]) (PeerId [2])" and "m \<equiv> tiny_message"
  shows "\<exists>n. step\<^sup>*\<^sup>* (msg_net_init msg_config_default msg_config_default) n
    \<and> mn_delivered n = [(0, tiny_message)] \<and> mn_requested n = [tiny_message]"
proof -
  let ?to = "PeerId [2]" and ?cfg = msg_config_default and ?bytes = "message_as_bytes demo_json m"
  let ?conns = "(mn_conns (msg_net_init ?cfg ?cfg))"
  define a where "a = msg_push_out MTB_OutboundNegotiated ((msg_handler_new ?cfg)\<lparr>mh_outbound := Some (MsgIdle fresh_wire)\<rparr>)"
  define h where "h = msg_push_out MTB_InboundNegotiated ((msg_handler_new ?cfg)\<lparr>mh_inbound := Some fresh_wire\<rparr>)"
  define a' where "a' = a\<lparr>mh_outbound := Some (MsgBusy fresh_wire ?bytes 5 (mh_timeout a))\<rparr>"
  define c where "c = (msg_conn_new ?cfg ?cfg)\<lparr>cn_sender := a, cn_current := 1\<rparr>"
  define d where "d = c\<lparr>cn_receiver := h, cn_accepted := 1\<rparr>"
  define e where "e = d\<lparr>cn_sender := a', cn_handed := [m]\<rparr>"
  define f where "f = e\<lparr>cn_up := (cn_up e)(1 := universal_frame ?bytes), cn_left := length (universal_frame ?bytes)\<rparr>"
  define g where "g = f\<lparr>cn_receiver := inbound_reads (universal_frame ?bytes) h, cn_up := (cn_up f)(1 := [])\<rparr>"
  define b where "b = (msg_behaviour_new ?cfg)\<lparr>mb_connected_peers := [?to]\<rparr>"
  define n where "n = (msg_net_init ?cfg ?cfg)\<lparr>mn_sender := b\<rparr>"
  have json: "json_from_slice demo_json ?bytes = Inr m"
    using demo_json_ok by (simp add: json_roundtrip_def message_as_bytes_def)
  obtain r' where heard: "msg_handler_poll H demo_json (io_at 0 (Some quiet_env) None) (cn_receiver g) =
      (Ready (NotifyBehaviour (MTB_IncomingMessage ?bytes)), h\<lparr>mh_inbound := Some r'\<rparr>, [])"
    using receiver_hears [of quiet_env h fresh_wire ?bytes H demo_json 0] tiny_bytes
    by (auto simp: g_def h_def m_def msg_push_out_def msg_handler_new_def fresh_wire_def)
  define g' where "g' = cn_receiver_polled (Ready (NotifyBehaviour (MTB_IncomingMessage ?bytes))) (h\<lparr>mh_inbound := Some r'\<rparr>) g"
  define q where "q = msg_on_handler_event demo_json (MTB_IncomingMessage ?bytes) (PeerId [1]) (msg_behaviour_new ?cfg)"
  let ?on = "\<lambda>x n. n\<lparr>mn_conns := (mn_conns n)(0 := x)\<rparr>"
  have on: "step x (?on y x)" if "conn_step demo_json H NoReport (mn_conns x 0) y" for x y
    using msg_net_step.connection [OF that] by (simp add: step_def)
  define n2 where "n2 = (?on d n)\<lparr>mn_sender := msg_push_event (Msg_SendMessage ?to m 5) b, mn_requested := [m]\<rparr>"
  define n3 where "n3 = (?on (cn_command m 5 d) n)\<lparr>mn_requested := [m], mn_handed := [(0, m)]\<rparr>"
  define n4 where "n4 = (?on g' n3)\<lparr>mn_receiver := q, mn_origin := [Some 0]\<rparr>"
  define n5 where "n5 = (?on g' n3)\<lparr>mn_delivered := [(0, m)]\<rparr>"
  note defs = msg_net_init_def msg_behaviour_new_def msg_conn_new_def n_def n2_def n3_def n4_def n5_def
  note sender = cn_command_def d_def c_def a_def msg_handler_new_def msg_on_behaviour_event_def push_back_def msg_push_out_def
  have turn: "msg_outbound_turn H demo_json quiet_io 0 (cn_sender (cn_command m 5 d)) = MsgNext 0 a' []"
    by (simp add: sender msg_outbound_turn_def msg_progress_in_events_def quiet_io_def a'_def)
  have turned: "cn_turned (send_over H (hio_outbound quiet_io 0) (cn_sender (cn_command m 5 d))) a' (cn_command m 5 d) = e"
    by (simp add: sender cn_turned_def send_over_def e_def cn_flush_def cn_leave_def outbound_written_def a'_def fresh_wire_def msg_conn_new_def fun_eq_iff)
  have "step (msg_net_init ?cfg ?cfg) ((msg_net_init ?cfg ?cfg)\<lparr>mn_sender := msg_emit (MsgOut_OutboundNegotiated ?to) b\<rparr>)"
    using msg_net_step.sender_event [of demo_json H "PeerId [1]" ?to "msg_net_init ?cfg ?cfg" MTB_OutboundNegotiated ?to]
    by (simp add: step_def b_def defs msg_emit_def hs_insert_def)
  moreover have "step ((msg_net_init ?cfg ?cfg)\<lparr>mn_sender := msg_emit (MsgOut_OutboundNegotiated ?to) b\<rparr>) n"
    using msg_net_step.sender_poll [of "(msg_net_init ?cfg ?cfg)\<lparr>mn_sender := msg_emit (MsgOut_OutboundNegotiated ?to) b\<rparr>" _ b]
    by (simp add: step_def b_def defs msg_emit_def msg_poll_def push_back_def)
  moreover have "step n (?on c n)"
    by (rule on, rule conn_step.opened [THEN back_subst [of "conn_step demo_json H NoReport (mn_conns n 0)"]])
      (simp_all add: defs c_def a_def)
  moreover have "step (?on c n) (?on d n)"
    using on [of "?on c n" d] conn_step.accepted [of c 1 h demo_json H] by (simp add: d_def c_def h_def msg_conn_new_def)
  moreover have "step (?on d n) n2"
    using msg_net_step.request [of demo_json H "PeerId [1]" ?to "?on d n" "Msg_SendMessage ?to m 5"]
    by (simp add: step_def defs)
  moreover have "step n2 n3"
    using msg_net_step.sender_hands [of n2 ?to Any m 5 b "[]" demo_json H "PeerId [1]" 0] tiny_bytes(3)
    by (simp add: step_def defs m_def b_def msg_poll_def msg_push_event_def push_back_def hs_contains_def)
  moreover have "step n3 (?on e n3)"
    using on [of n3 e] conn_step.turn [OF _ turn] turned by (simp add: n3_def sender)
  moreover have "step (?on e n3) (?on f n3)"
    using on [of "?on e n3" f] conn_step.send_progress [of e fresh_wire ?bytes 5 "mh_timeout a" "length (universal_frame ?bytes)" demo_json H]
    by (simp add: f_def cn_leave_def fresh_wire_def e_def a'_def d_def c_def msg_conn_new_def)
  moreover have "step (?on f n3) (?on g n3)"
    using on [of "?on f n3" g] conn_step.arrive [of f "universal_frame ?bytes" "[]" demo_json H]
    by (simp add: g_def f_def e_def d_def h_def msg_push_out_def)
  moreover have "step (?on g n3) n4"
    using msg_net_step.connection [of demo_json H _ "?on g n3" 0, simplified, OF conn_step.receiver_poll [OF heard], of "PeerId [1]" ?to]
    by (simp add: step_def n4_def g'_def q_def defs del: msg_on_handler_event.simps)
  moreover have "step n4 n5"
    using msg_net_step.receiver_poll [of n4 _ "msg_behaviour_new ?cfg" "[]" demo_json H "PeerId [1]" ?to]
    by (simp add: step_def defs q_def json msg_poll_def msg_emit_def push_back_def)
  ultimately have "step\<^sup>*\<^sup>* (msg_net_init ?cfg ?cfg) n5"
    by (meson converse_rtranclp_into_rtranclp rtranclp.rtrancl_refl)
  then show ?thesis
    by (intro exI [of _ n5]) (simp add: defs m_def)
qed


theorem msg_in_order_at_most_once_witness:
  "\<exists>n. (msg_net_step demo_json (\<lambda>_. 0) (PeerId [1]) (PeerId [2]))\<^sup>*\<^sup>* (msg_net_init msg_config_default msg_config_default) n
    \<and> mn_delivered n = [(0, tiny_message)]
    \<and> mset (map snd (mn_delivered n)) \<subseteq># mset (mn_requested n)
    \<and> (\<forall>i. subseq (over i (mn_delivered n)) (mn_requested n))"
  using demo_run [of "\<lambda>_. 0"] msg_in_order_at_most_once [OF demo_json_ok, of "\<lambda>_. 0" "PeerId [1]" "PeerId [2]"] by blast



end
