(* ===== verification/Allow_Block.thy ===== *)
theory Allow_Block
  imports Select
begin

text \<open>
  The allow list (\<open>owlnest/src/net/p2p/protocols/allow_block_list.rs\<close>): a behaviour that accepts
  only connections of peers on a list and disconnects a peer that is taken off it. The module stands in
  the repository but \<open>protocols/mod.rs\<close> does not declare it (the line is commented out), so the node has
  no such behaviour: it is modelled and verified on its own. A waker is known by a number; waking it is
  part of the result of the operation. Policies are an interface.
\<close>

section \<open>Policies\<close>

text \<open>\<open>struct NotAllowed\<close> and \<open>ConnectionDenied::new(NotAllowed)\<close>, which boxes it.\<close>

datatype not_allowed = NotAllowed

fun not_allowed_fmt :: "not_allowed \<Rightarrow> string" where
  "not_allowed_fmt NotAllowed = ''NotAllowed''"

text \<open>\<open>policy_peer_id::AllowPeerId\<close>.\<close>

datatype allow_peer_id = AllowPeerId (allowed_peers: "peer_id hash_set")

definition allow_peer_id_default :: allow_peer_id where
  "allow_peer_id_default = AllowPeerId []"

definition allow_add_peer :: "peer_id \<Rightarrow> allow_peer_id \<Rightarrow> bool \<times> allow_peer_id" where
  "allow_add_peer peer p =
     (\<not> hs_contains (allowed_peers p) peer, AllowPeerId (hs_insert peer (allowed_peers p)))"

definition allow_remove_peer :: "peer_id \<Rightarrow> allow_peer_id \<Rightarrow> bool \<times> allow_peer_id" where
  "allow_remove_peer peer p =
     (hs_contains (allowed_peers p) peer, AllowPeerId (hs_remove peer (allowed_peers p)))"

definition is_allowed :: "allow_peer_id \<Rightarrow> peer_id \<Rightarrow> bool" where
  "is_allowed p peer = hs_contains (allowed_peers p) peer"

definition allow_enforce :: "allow_peer_id \<Rightarrow> peer_id \<Rightarrow> connection_denied + unit" where
  "allow_enforce p peer =
     (if is_allowed p peer then Inr () else Inl (ConnectionDenied (not_allowed_fmt NotAllowed)))"

section \<open>The behaviour\<close>

record 'p allow_behaviour =
  al_policy :: 'p
  al_pending_disconnect :: "peer_id list"
  al_waker :: "nat option"

datatype allow_out_event = BannedPeer peer_id

text \<open>\<open>dummy::ConnectionHandler\<close> takes no commands and raises no events.\<close>

datatype dummy_handler = DummyHandler

definition allow_behaviour_new :: "'p \<Rightarrow> 'p allow_behaviour" where
  "allow_behaviour_new policy = \<lparr>al_policy = policy, al_pending_disconnect = [], al_waker = None\<rparr>"

definition allow_on_swarm_event :: "from_swarm \<Rightarrow> 'p allow_behaviour \<Rightarrow> 'p allow_behaviour" where
  "allow_on_swarm_event ev b = b"

definition allow_on_handler_event :: "peer_id \<Rightarrow> 'e \<Rightarrow> 'p allow_behaviour \<Rightarrow> 'p allow_behaviour outcome" where
  "allow_on_handler_event peer ev b = Panics"

text \<open>The policy is enforced on dials of a known peer and on every established connection.\<close>

definition allow_pending_outbound ::
  "('p \<Rightarrow> peer_id \<Rightarrow> connection_denied + unit) \<Rightarrow> peer_id option \<Rightarrow> 'p allow_behaviour
    \<Rightarrow> (connection_denied + multiaddr list) \<times> 'p allow_behaviour" where
  "allow_pending_outbound enforce maybe_peer b =
     (case maybe_peer of
        Some peer \<Rightarrow> (case enforce (al_policy b) peer of Inl e \<Rightarrow> (Inl e, b) | Inr _ \<Rightarrow> (Inr [], b))
      | None \<Rightarrow> (Inr [], b))"

definition allow_established_inbound ::
  "('p \<Rightarrow> peer_id \<Rightarrow> connection_denied + unit) \<Rightarrow> peer_id \<Rightarrow> 'p allow_behaviour
    \<Rightarrow> (connection_denied + dummy_handler) \<times> 'p allow_behaviour" where
  "allow_established_inbound enforce peer b =
     (case enforce (al_policy b) peer of Inl e \<Rightarrow> (Inl e, b) | Inr _ \<Rightarrow> (Inr DummyHandler, b))"

definition allow_established_outbound ::
  "('p \<Rightarrow> peer_id \<Rightarrow> connection_denied + unit) \<Rightarrow> peer_id \<Rightarrow> 'p allow_behaviour
    \<Rightarrow> (connection_denied + dummy_handler) \<times> 'p allow_behaviour" where
  "allow_established_outbound enforce peer b =
     (case enforce (al_policy b) peer of Inl e \<Rightarrow> (Inl e, b) | Inr _ \<Rightarrow> (Inr DummyHandler, b))"

text \<open>\<open>poll\<close>, called with the waker \<open>cx\<close>; \<open>CloseConnection::All\<close> is \<open>None\<close>.\<close>

definition allow_poll :: "nat \<Rightarrow> 'p allow_behaviour \<Rightarrow> (allow_out_event, 'c) to_swarm poll \<times> 'p allow_behaviour" where
  "allow_poll cx b =
     (case pop_front (al_pending_disconnect b) of
        Some (v, q) \<Rightarrow> (Ready (CloseConnection v None), b\<lparr>al_pending_disconnect := q\<rparr>)
      | None \<Rightarrow> (Pending, b\<lparr>al_waker := Some cx\<rparr>))"

text \<open>\<open>add_peer\<close> and \<open>remove_peer\<close>, the latter with the waker that it wakes.\<close>

definition behaviour_add_peer :: "peer_id \<Rightarrow> allow_peer_id allow_behaviour \<Rightarrow> bool \<times> allow_peer_id allow_behaviour" where
  "behaviour_add_peer peer b =
     (case allow_add_peer peer (al_policy b) of (r, p) \<Rightarrow> (r, b\<lparr>al_policy := p\<rparr>))"

definition behaviour_remove_peer ::
  "peer_id \<Rightarrow> allow_peer_id allow_behaviour \<Rightarrow> bool \<times> nat option \<times> allow_peer_id allow_behaviour" where
  "behaviour_remove_peer peer b =
     (case allow_remove_peer peer (al_policy b) of
        (False, p) \<Rightarrow> (False, None, b\<lparr>al_policy := p\<rparr>)
      | (True, p) \<Rightarrow>
          (True, al_waker b,
           b\<lparr>al_policy := p, al_pending_disconnect := push_back (al_pending_disconnect b) peer, al_waker := None\<rparr>))"

section \<open>The interface of a policy\<close>

definition refuses :: "('a \<Rightarrow> (connection_denied + 'h) \<times> 'a) \<Rightarrow> 'a \<Rightarrow> bool" where
  "refuses f a \<longleftrightarrow> isl (fst (f a))"

locale peer_policy =
  fixes enforce :: "'p \<Rightarrow> peer_id \<Rightarrow> connection_denied + unit"
    and admits :: "'p \<Rightarrow> peer_id \<Rightarrow> bool"
  assumes enforce_ok: "enforce p peer = Inr () \<longleftrightarrow> admits p peer"
begin

lemma inbound_refuses: "refuses (allow_established_inbound enforce peer) b \<longleftrightarrow> \<not> admits (al_policy b) peer"
  using enforce_ok [of "al_policy b" peer]
  by (auto simp: refuses_def allow_established_inbound_def split: sum.splits)

lemma outbound_refuses: "refuses (allow_established_outbound enforce peer) b \<longleftrightarrow> \<not> admits (al_policy b) peer"
  using enforce_ok [of "al_policy b" peer]
  by (auto simp: refuses_def allow_established_outbound_def split: sum.splits)

lemma dial_refuses:
  "refuses (allow_pending_outbound enforce maybe_peer) b \<longleftrightarrow> (\<exists>peer. maybe_peer = Some peer \<and> \<not> admits (al_policy b) peer)"
  using enforce_ok [of "al_policy b" "the maybe_peer"]
  by (auto simp: refuses_def allow_pending_outbound_def split: sum.splits option.splits)

end

interpretation by_id: peer_policy allow_enforce is_allowed
  by unfold_locales (simp add: allow_enforce_def)

section \<open>Runs of the behaviour\<close>

text \<open>
  What callers and the swarm do with the behaviour, and what comes of it: a peer is disconnected, the
  task that polls finds nothing to do and sleeps until its waker is woken, or a waker is woken.
\<close>

datatype allow_op = AddPeer peer_id | RemovePeer peer_id | PollAllow nat

datatype allow_effect = Disconnected peer_id | Slept nat | Woken nat

fun allow_exec :: "allow_op \<Rightarrow> allow_peer_id allow_behaviour \<Rightarrow> allow_effect list \<times> allow_peer_id allow_behaviour" where
  "allow_exec (AddPeer peer) b = ([], snd (behaviour_add_peer peer b))"
| "allow_exec (RemovePeer peer) b =
     (case behaviour_remove_peer peer b of
        (_, w, b') \<Rightarrow> (case w of Some x \<Rightarrow> [Woken x] | None \<Rightarrow> [], b'))"
| "allow_exec (PollAllow cx) b =
     (case allow_poll cx b :: (allow_out_event, unit) to_swarm poll \<times> allow_peer_id allow_behaviour of
        (Ready (CloseConnection peer _), b') \<Rightarrow> ([Disconnected peer], b')
      | (Ready _, b') \<Rightarrow> ([], b')
      | (Pending, b') \<Rightarrow> ([Slept cx], b'))"

fun allow_run :: "allow_op list \<Rightarrow> allow_peer_id allow_behaviour \<Rightarrow> allow_effect list \<times> allow_peer_id allow_behaviour" where
  "allow_run [] b = ([], b)"
| "allow_run (op # ops) b =
     (case allow_exec op b of (es, b') \<Rightarrow> (case allow_run ops b' of (es', b'') \<Rightarrow> (es @ es', b'')))"

fun disconnected :: "allow_effect list \<Rightarrow> peer_id list" where
  "disconnected [] = []"
| "disconnected (Disconnected peer # es) = peer # disconnected es"
| "disconnected (_ # es) = disconnected es"

text \<open>
  The task that sleeps after the effects, if any: the last one that found nothing to do, unless it was
  woken since. Only a task that sleeps is woken.
\<close>

fun sleeper :: "nat option \<Rightarrow> allow_effect list \<Rightarrow> nat option" where
  "sleeper t [] = t"
| "sleeper t (Disconnected peer # es) = sleeper t es"
| "sleeper t (Slept cx # es) = sleeper (Some cx) es"
| "sleeper t (Woken w # es) = sleeper (if t = Some w then None else t) es"

fun wakes_sleepers :: "nat option \<Rightarrow> allow_effect list \<Rightarrow> bool" where
  "wakes_sleepers t [] \<longleftrightarrow> True"
| "wakes_sleepers t (Disconnected peer # es) \<longleftrightarrow> wakes_sleepers t es"
| "wakes_sleepers t (Slept cx # es) \<longleftrightarrow> wakes_sleepers (Some cx) es"
| "wakes_sleepers t (Woken w # es) \<longleftrightarrow> t = Some w \<and> wakes_sleepers None es"

text \<open>The specification: the set of peers on the list, and who has been taken off it.\<close>

fun members :: "peer_id set \<Rightarrow> allow_op list \<Rightarrow> peer_id set" where
  "members A [] = A"
| "members A (AddPeer peer # ops) = members (insert peer A) ops"
| "members A (RemovePeer peer # ops) = members (A - {peer}) ops"
| "members A (PollAllow cx # ops) = members A ops"

fun taken_off :: "peer_id set \<Rightarrow> allow_op list \<Rightarrow> peer_id list" where
  "taken_off A [] = []"
| "taken_off A (AddPeer peer # ops) = taken_off (insert peer A) ops"
| "taken_off A (RemovePeer peer # ops) = (if peer \<in> A then [peer] else []) @ taken_off (A - {peer}) ops"
| "taken_off A (PollAllow cx # ops) = taken_off A ops"

text \<open>A stored waker belongs to a task that has nothing to do.\<close>

definition awake :: "'p allow_behaviour \<Rightarrow> bool" where
  "awake b \<longleftrightarrow> al_waker b = None \<or> al_pending_disconnect b = []"

lemma disconnected_append [simp]: "disconnected (es @ es') = disconnected es @ disconnected es'"
  by (induction es rule: disconnected.induct) auto

lemma sleeper_append [simp]: "sleeper t (es @ es') = sleeper (sleeper t es) es'"
  by (induction t es rule: sleeper.induct) auto

lemma wakes_sleepers_append [simp]:
  "wakes_sleepers t (es @ es') \<longleftrightarrow> wakes_sleepers t es \<and> wakes_sleepers (sleeper t es) es'"
  by (induction t es rule: wakes_sleepers.induct) auto

lemma allow_exec_spec:
  assumes "allow_exec op b = (es, b')" and "awake b"
  shows "awake b'"
    and "set (allowed_peers (al_policy b')) = members (set (allowed_peers (al_policy b))) [op]"
    and "disconnected es @ al_pending_disconnect b' =
      al_pending_disconnect b @ taken_off (set (allowed_peers (al_policy b))) [op]"
    and "sleeper (al_waker b) es = al_waker b'" and "wakes_sleepers (al_waker b) es"
  using assms
  by (cases op; cases "al_pending_disconnect b";
      auto simp: awake_def behaviour_add_peer_def allow_add_peer_def behaviour_remove_peer_def allow_remove_peer_def
        allow_poll_def push_back_def hs_contains_def split: prod.splits option.splits if_splits bool.splits)+

lemma members_Cons: "members A (op # ops) = members (members A [op]) ops"
  by (cases op) simp_all

lemma taken_off_Cons: "taken_off A (op # ops) = taken_off A [op] @ taken_off (members A [op]) ops"
  by (cases op) simp_all

lemma allow_run_spec:
  assumes "allow_run ops b = (es, b')" and "awake b"
  shows "awake b' \<and> set (allowed_peers (al_policy b')) = members (set (allowed_peers (al_policy b))) ops
    \<and> disconnected es @ al_pending_disconnect b' =
      al_pending_disconnect b @ taken_off (set (allowed_peers (al_policy b))) ops
    \<and> sleeper (al_waker b) es = al_waker b' \<and> wakes_sleepers (al_waker b) es"
  using assms
proof (induction ops arbitrary: b es)
  case (Cons op ops)
  obtain es1 b1 where op: "allow_exec op b = (es1, b1)" by (metis surj_pair)
  obtain es2 where run: "allow_run ops b1 = (es2, b')" "es = es1 @ es2"
    using Cons.prems(1) op by (auto split: prod.splits)
  note first = allow_exec_spec [OF op Cons.prems(2)]
  show ?case
    using Cons.IH [OF run(1) first(1)] first run(2)
    by (metis append.assoc disconnected_append members_Cons taken_off_Cons sleeper_append wakes_sleepers_append)
qed simp

text \<open>
  C11. The allow list does what its two parts promise together. After any sequence of additions,
  removals and polls, starting from the empty list, the behaviour accepts a connection of a peer,
  inbound or outbound, if and only if the peer's last addition was not followed by a removal, and
  refuses to dial exactly the known peers that are not on the list; the peers that the swarm was told
  to disconnect, followed by those it is still to be told of, are exactly the peers taken off the list,
  in order, each as often as it was taken off. No wake-up is lost and none is spurious: a task that
  polled, found nothing to do and was not woken since still has nothing to do, and every wake-up is of
  the task that sleeps.
\<close>

theorem allow_list_refines:
  assumes "allow_run ops (allow_behaviour_new allow_peer_id_default) = (es, b)"
  shows "(\<not> refuses (allow_established_inbound allow_enforce peer) b \<longleftrightarrow> peer \<in> members {} ops)
    \<and> (\<not> refuses (allow_established_outbound allow_enforce peer) b \<longleftrightarrow> peer \<in> members {} ops)
    \<and> (refuses (allow_pending_outbound allow_enforce maybe_peer) b \<longleftrightarrow> (\<exists>p. maybe_peer = Some p \<and> p \<notin> members {} ops))
    \<and> disconnected es @ al_pending_disconnect b = taken_off {} ops
    \<and> (sleeper None es = None \<or> al_pending_disconnect b = [])
    \<and> wakes_sleepers None es"
proof -
  have "awake b \<and> set (allowed_peers (al_policy b)) = members {} ops
      \<and> disconnected es @ al_pending_disconnect b = taken_off {} ops
      \<and> sleeper None es = al_waker b \<and> wakes_sleepers None es"
    using allow_run_spec [OF assms]
    by (simp add: awake_def allow_behaviour_new_def allow_peer_id_default_def)
  then show ?thesis
    by (simp add: by_id.inbound_refuses by_id.outbound_refuses by_id.dial_refuses is_allowed_def hs_contains_def awake_def)
qed

theorem allow_list_refines_witness:
  "let ops = [AddPeer (PeerId [1]), AddPeer (PeerId [2]), PollAllow 7, RemovePeer (PeerId [1]), PollAllow 7];
       (es, b) = allow_run ops (allow_behaviour_new allow_peer_id_default)
   in es = [Slept 7, Woken 7, Disconnected (PeerId [1])]
    \<and> refuses (allow_established_inbound allow_enforce (PeerId [1])) b
    \<and> \<not> refuses (allow_established_outbound allow_enforce (PeerId [2])) b"
proof -
  let ?ops = "[AddPeer (PeerId [1]), AddPeer (PeerId [2]), PollAllow 7, RemovePeer (PeerId [1]), PollAllow 7]"
  obtain es b where run: "allow_run ?ops (allow_behaviour_new allow_peer_id_default) = (es, b)"
    by (metis surj_pair)
  moreover from run have "es = [Slept 7, Woken 7, Disconnected (PeerId [1])]"
    by (simp add: allow_behaviour_new_def allow_peer_id_default_def behaviour_add_peer_def allow_add_peer_def
        behaviour_remove_peer_def allow_remove_peer_def allow_poll_def push_back_def hs_contains_def)
  ultimately show ?thesis
    using allow_list_refines [OF run, of "PeerId [1]"] allow_list_refines [OF run, of "PeerId [2]"]
    by (simp add: Let_def)
qed

end
