(* ===== verification/Event_Log.thy ===== *)
theory Event_Log
  imports Swarm_Events
begin

text \<open>
  The dispatchers of the libp2p adapters that only write to the log: \<open>ev_dispatch\<close> of \<open>ping.rs\<close>,
  \<open>upnp.rs\<close>, \<open>dcutr.rs\<close>, \<open>identify.rs\<close>, \<open>relay_server.rs\<close>, \<open>autonat.rs\<close> and \<open>kad.rs\<close>. A line of the log
  is its level and its text; values that are printed by their \<open>Debug\<close> instance are foreign text.
\<close>

section \<open>Log lines\<close>

datatype log_level = TraceLevel | DebugLevel | InfoLevel | WarnLevel

type_synonym log_line = "log_level \<times> rust_text"

section \<open>ping, upnp and dcutr\<close>

datatype ping_failure = PingTimeout | PingUnsupported | PingOther string

record ping_event =
  pe_peer :: peer_id
  pe_result :: "ping_failure + duration"

fun ping_result_fmt :: "ping_failure + duration \<Rightarrow> rust_text" where
  "ping_result_fmt (Inr rtt) = [Lit ''success with RTT '', ArgNat rtt, Lit ''ms'']"
| "ping_result_fmt (Inl PingTimeout) = [Lit ''timed out'']"
| "ping_result_fmt (Inl PingUnsupported) = [Lit ''unsupported'']"
| "ping_result_fmt (Inl (PingOther e)) = [Lit ''error '', ArgForeign e]"

definition ping_ev_dispatch :: "ping_event \<Rightarrow> log_line" where
  "ping_ev_dispatch ev =
     (TraceLevel, [Lit ''Ping to '', ArgPeer (pe_peer ev), Lit '' returned ''] @ ping_result_fmt (pe_result ev))"

datatype upnp_event = UpnpNewExternalAddr multiaddr | UpnpExpiredExternalAddr multiaddr | GatewayNotFound | NonRoutableGateway

fun upnp_ev_dispatch :: "upnp_event \<Rightarrow> log_line" where
  "upnp_ev_dispatch (UpnpNewExternalAddr addr) = (InfoLevel, [Lit ''New external address: '', ArgStr (multiaddr_str addr)])"
| "upnp_ev_dispatch (UpnpExpiredExternalAddr addr) =
     (InfoLevel, [Lit ''Renewal for external address '', ArgStr (multiaddr_str addr), Lit '' failed''])"
| "upnp_ev_dispatch GatewayNotFound = (InfoLevel, [Lit ''Gateway not found or does not support UPnP''])"
| "upnp_ev_dispatch NonRoutableGateway =
     (InfoLevel, [Lit ''Gateway is not exposed directly to the public Internet, i.e. it itself has a private IP address.''])"

definition dcutr_ev_dispatch :: "string \<Rightarrow> log_line" where
  "dcutr_ev_dispatch ev = (InfoLevel, [ArgForeign ev])"

section \<open>identify, relay server, autonat and kad\<close>

datatype identify_event =
    IdentifyReceived peer_id (received_version: string)
  | IdentifySent peer_id
  | IdentifyPushed peer_id string
  | IdentifyError peer_id string

fun identify_ev_dispatch :: "identify_event \<Rightarrow> log_line" where
  "identify_ev_dispatch (IdentifyReceived peer version) =
     (DebugLevel, [Lit ''Identified peer '', ArgPeer peer, Lit '' : '', ArgStr version])"
| "identify_ev_dispatch (IdentifySent peer) =
     (TraceLevel, [Lit ''Identification information has been sent to peer '', ArgPeer peer, Lit '' as response''])"
| "identify_ev_dispatch (IdentifyPushed peer info) =
     (TraceLevel, [Lit ''Information '', ArgForeign info, Lit '' has been sent to peer '', ArgPeer peer, Lit '' for identification''])"
| "identify_ev_dispatch (IdentifyError peer error) =
     (WarnLevel, [Lit ''Error when identifying peer '', ArgPeer peer, Lit '' with '', ArgForeign error])"

datatype relay_event =
    ReservationReqAccepted peer_id bool
  | ReservationReqDenied peer_id string
  | ReservationTimedOut peer_id
  | CircuitReqDenied peer_id peer_id string
  | CircuitReqAccepted peer_id peer_id
  | CircuitClosed peer_id peer_id string
  | OtherRelayEvent string

fun show_bool :: "bool \<Rightarrow> string" where
  "show_bool True = ''true''"
| "show_bool False = ''false''"

fun relay_server_ev_dispatch :: "relay_event \<Rightarrow> log_line" where
  "relay_server_ev_dispatch (ReservationReqAccepted src renewed) =
     (DebugLevel, [Lit ''Reservation from '', ArgPeer src, Lit '' accepted, IsRenew:'', ArgStr (show_bool renewed)])"
| "relay_server_ev_dispatch (ReservationReqDenied src status) =
     (InfoLevel, [Lit ''Denied reservation from '', ArgPeer src, Lit '', reason: '', ArgForeign status])"
| "relay_server_ev_dispatch (ReservationTimedOut src) =
     (InfoLevel, [Lit ''Reservation expired for source peer '', ArgPeer src])"
| "relay_server_ev_dispatch (CircuitReqDenied src dst status) =
     (InfoLevel, [Lit ''Circuit request from '', ArgPeer src, Lit '' to peer '', ArgPeer dst, Lit '' denied, reason: '', ArgForeign status])"
| "relay_server_ev_dispatch (CircuitReqAccepted src dst) =
     (DebugLevel, [Lit ''Circuit request from '', ArgPeer src, Lit '' to peer '', ArgPeer dst, Lit '' accepted''])"
| "relay_server_ev_dispatch (CircuitClosed src dst error) =
     (InfoLevel, [Lit ''Circuit from '', ArgPeer src, Lit '' to '', ArgPeer dst, Lit '' closed, error?: '', ArgForeign error])"
| "relay_server_ev_dispatch (OtherRelayEvent ev) = (InfoLevel, [ArgForeign ev])"

datatype autonat_event = InboundProbe string | OutboundProbe string | StatusChanged string string

fun autonat_ev_dispatch :: "autonat_event \<Rightarrow> log_line" where
  "autonat_ev_dispatch (InboundProbe probe) = (InfoLevel, [Lit ''Incoming probe: '', ArgForeign probe])"
| "autonat_ev_dispatch (OutboundProbe probe) = (InfoLevel, [Lit ''Probe sent: '', ArgForeign probe])"
| "autonat_ev_dispatch (StatusChanged old new) =
     (InfoLevel, [Lit ''Nat statue changed from '', ArgForeign old, Lit '' to '', ArgForeign new])"

text \<open>\<open>kad::ev_dispatch\<close> on all fields of the event; events without an arm leave no line.\<close>

datatype kad_log_event =
    KadInboundRequest string
  | KadQueryProgressed string string string string
  | KadRoutingUpdated peer_id bool string string string
  | KadModeChanged string
  | KadOther string

fun kad_ev_dispatch :: "kad_log_event \<Rightarrow> log_line option" where
  "kad_ev_dispatch (KadInboundRequest request) = Some (InfoLevel, [Lit ''Incoming request: '', ArgForeign request])"
| "kad_ev_dispatch (KadQueryProgressed i result stats step) =
     Some (DebugLevel, [Lit ''Outbound query '', ArgForeign i, Lit '' progressed, stats: '', ArgForeign stats,
       Lit '', step: '', ArgForeign step, Lit '', result: '', ArgForeign result])"
| "kad_ev_dispatch (KadRoutingUpdated peer is_new_peer addresses bucket_range old_peer) =
     Some (TraceLevel, [Lit ''Peer '', ArgPeer peer, Lit '' updated the table, is new peer: '', ArgStr (show_bool is_new_peer),
       Lit '', addresses: '', ArgForeign addresses, Lit '', bucket range: '', ArgForeign bucket_range,
       Lit '', old peer?: '', ArgForeign old_peer])"
| "kad_ev_dispatch (KadModeChanged new_mode) =
     Some (InfoLevel, [Lit ''The mode of this peer has been changed to '', ArgForeign new_mode])"
| "kad_ev_dispatch (KadOther ev) = None"

section \<open>What the log tells\<close>

text \<open>The line of an event of the relay server names every peer that takes part, and denials stand out.\<close>

fun relay_peers :: "relay_event \<Rightarrow> peer_id set" where
  "relay_peers (ReservationReqAccepted src _) = {src}"
| "relay_peers (ReservationReqDenied src _) = {src}"
| "relay_peers (ReservationTimedOut src) = {src}"
| "relay_peers (CircuitReqDenied src dst _) = {src, dst}"
| "relay_peers (CircuitReqAccepted src dst) = {src, dst}"
| "relay_peers (CircuitClosed src dst _) = {src, dst}"
| "relay_peers (OtherRelayEvent _) = {}"

lemma relay_log_names_peers: "{p. ArgPeer p \<in> set (snd (relay_server_ev_dispatch ev))} = relay_peers ev"
  by (cases ev) auto

lemma ping_log_distinguishes:
  "ping_ev_dispatch ev = ping_ev_dispatch ev' \<longleftrightarrow> ev = ev'"
proof -
  have "ping_result_fmt r = ping_result_fmt r' \<longleftrightarrow> r = r'" for r r'
    by (cases r rule: ping_result_fmt.cases; cases r' rule: ping_result_fmt.cases) simp_all
  then show ?thesis
    by (cases ev; cases ev') (simp add: ping_ev_dispatch_def)
qed

end
