(* ===== verification/Expansion.thy ===== *)
theory Expansion
  imports Startup
begin

text \<open>
  The procedural macros of \<open>owlnest-proc\<close>, which build the swarm's \<open>Behaviour\<close> and its \<open>Manager\<close>
  from the enabled Cargo features. Tokens are kept at the granularity that matters to the macros: a struct is a list of
  field and comma tokens, which each attribute parses and prints again.
\<close>

section \<open>Items\<close>

datatype field_type = TyIdent string | TyOther string

record struct_field =
  sf_vis :: string
  sf_ident :: "string option"
  sf_type :: field_type

datatype body_token = TokField struct_field | TokComma

text \<open>The attributes in use: \<open>cfg_attr(any(feature = ..), with_field({..}))\<close>, the generators, and inert ones.\<close>

datatype item_attr =
    CfgWithField "string list" "struct_field list"
  | GenerateManager
  | GenerateBehaviourSelect
  | InertAttr string

datatype item_data = BracedStruct "body_token list" | TupleStruct "struct_field list" | UnitStruct | EnumOrUnion

record derive_input =
  di_attrs :: "item_attr list"
  di_vis :: string
  di_ident :: string
  di_data :: item_data

text \<open>Parsing a braced struct: fields separated by commas, the last comma optional, every field named.\<close>

fun parse_fields :: "body_token list \<Rightarrow> struct_field list option" where
  "parse_fields [] = Some []"
| "parse_fields [TokField f] = (if sf_ident f = None then None else Some [f])"
| "parse_fields (TokField f # TokComma # ts) =
     (if sf_ident f = None then None else map_option ((#) f) (parse_fields ts))"
| "parse_fields _ = None"

text \<open>\<open>syn::parse(item).unwrap()\<close> and the fields of a struct; both failures end in a panic.\<close>

definition struct_fields :: "derive_input \<Rightarrow> struct_field list outcome" where
  "struct_fields ast =
     (case di_data ast of
        BracedStruct ts \<Rightarrow> (case parse_fields ts of Some fs \<Rightarrow> Returns fs | None \<Rightarrow> Panics)
      | TupleStruct fs \<Rightarrow> Returns fs
      | UnitStruct \<Rightarrow> Returns []
      | EnumOrUnion \<Rightarrow> Panics)"

section \<open>The attributes\<close>

text \<open>\<open>with_field\<close>: a comma after each old field, then the new fields, then one comma.\<close>

definition with_field :: "struct_field list \<Rightarrow> derive_input \<Rightarrow> derive_input outcome" where
  "with_field fields_to_append ast =
     and_then (struct_fields ast) (\<lambda>old_fields.
       Returns (ast\<lparr>di_data := BracedStruct
         (concat (map (\<lambda>f. [TokField f, TokComma]) old_fields) @ map TokField fields_to_append @ [TokComma])\<rparr>))"

lemma with_field_attrs: "with_field fs ast = Returns ast' \<Longrightarrow> di_attrs ast' = di_attrs ast"
  by (cases "struct_fields ast") (auto simp: with_field_def)

text \<open>The name of a field and the enum variant that its type is parsed as.\<close>

fun field_variant :: "struct_field \<Rightarrow> (string \<times> string) outcome" where
  "field_variant \<lparr>sf_vis = v, sf_ident = Some ident, sf_type = TyIdent variant\<rparr> = Returns (ident, variant)"
| "field_variant _ = Panics"

fun field_variants :: "struct_field list \<Rightarrow> (string \<times> string) list outcome" where
  "field_variants [] = Returns []"
| "field_variants (f # fs) = and_then (field_variant f) (\<lambda>p. and_then (field_variants fs) (\<lambda>ps. Returns (p # ps)))"

definition generate_behaviour_select :: "derive_input \<Rightarrow> (string \<times> string) list outcome" where
  "generate_behaviour_select ast = and_then (struct_fields ast) field_variants"

definition generate_manager :: "derive_input \<Rightarrow> (string \<times> string) list outcome" where
  "generate_manager ast = and_then (struct_fields ast) field_variants"

text \<open>
  What \<open>generate_manager\<close> prints for its fields: the channels of \<open>RxBundle\<close>, the variants of \<open>Rx\<close>,
  the configurations that \<open>HandleBundle::new\<close> reads and the methods of \<open>Manager\<close>.
\<close>

definition manager_channels :: "(string \<times> string) list \<Rightarrow> (string \<times> string) list" where
  "manager_channels fs = (''swarm'', ''Swarm'') # fs"

definition manager_rx_variants :: "(string \<times> string) list \<Rightarrow> string list" where
  "manager_rx_variants fs = map snd fs @ [''Swarm'']"

definition manager_configs :: "(string \<times> string) list \<Rightarrow> string list" where
  "manager_configs fs = ''swarm'' # map fst fs"

definition manager_methods :: "(string \<times> string) list \<Rightarrow> string list" where
  "manager_methods fs = [''new'', ''executor'', ''identity'', ''swarm'', ''event_subscriber''] @ map fst fs"

text \<open>The compiler takes the attributes of an item from the outside in; inert ones stay as they are.\<close>

datatype expansion = PlainItem | ManagerCode "(string \<times> string) list" | SelectCode "(string \<times> string) list"

definition any_feature :: "string set \<Rightarrow> string list \<Rightarrow> bool" where
  "any_feature features cond \<longleftrightarrow> list_ex (\<lambda>f. f \<in> features) cond"

function expand_item :: "string set \<Rightarrow> derive_input \<Rightarrow> expansion outcome" where
  "expand_item features ast =
     (case di_attrs ast of
        [] \<Rightarrow> and_then (struct_fields ast) (\<lambda>_. Returns PlainItem)
      | InertAttr a # attrs \<Rightarrow> expand_item features (ast\<lparr>di_attrs := attrs\<rparr>)
      | CfgWithField cond fs # attrs \<Rightarrow>
          if any_feature features cond
          then (case with_field fs (ast\<lparr>di_attrs := attrs\<rparr>) of
                  Returns ast' \<Rightarrow> expand_item features ast'
                | Panics \<Rightarrow> Panics
                | Hangs \<Rightarrow> Hangs)
          else expand_item features (ast\<lparr>di_attrs := attrs\<rparr>)
      | GenerateManager # attrs \<Rightarrow> and_then (generate_manager ast) (\<lambda>fs. Returns (ManagerCode fs))
      | GenerateBehaviourSelect # attrs \<Rightarrow> and_then (generate_behaviour_select ast) (\<lambda>fs. Returns (SelectCode fs)))"
  by pat_completeness auto
termination
  by (relation "measure (\<lambda>(_, ast). length (di_attrs ast))") (auto dest: with_field_attrs)

declare expand_item.simps [simp del]

section \<open>The swarm's items\<close>

definition cfg_with_field :: "string \<Rightarrow> string \<Rightarrow> string \<Rightarrow> string \<Rightarrow> item_attr" where
  "cfg_with_field family feature ident variant =
     CfgWithField [family, feature] [\<lparr>sf_vis = ''pub'', sf_ident = Some ident, sf_type = TyIdent variant\<rparr>]"

definition manager_item :: derive_input where
  "manager_item = \<lparr>di_attrs =
     [cfg_with_field ''owlnest-protocols'' ''owlnest-messaging'' ''messaging'' ''Messaging'',
      cfg_with_field ''owlnest-protocols'' ''owlnest-advertise'' ''advertise'' ''Advertise'',
      cfg_with_field ''owlnest-protocols'' ''owlnest-blob'' ''blob'' ''Blob'',
      cfg_with_field ''libp2p-protocols'' ''libp2p-kad'' ''kad'' ''Kad'',
      cfg_with_field ''libp2p-protocols'' ''libp2p-autonat'' ''autonat'' ''AutoNat'',
      cfg_with_field ''libp2p-protocols'' ''libp2p-mdns'' ''mdns'' ''Mdns'',
      cfg_with_field ''libp2p-protocols'' ''libp2p-gossipsub'' ''gossipsub'' ''Gossipsub'',
      GenerateManager],
     di_vis = ''pub(crate)'', di_ident = ''RxBundle'', di_data = BracedStruct []\<rparr>"

definition behaviour_item :: derive_input where
  "behaviour_item = \<lparr>di_attrs =
     [InertAttr ''allow(clippy::too_many_arguments)'',
      cfg_with_field ''owlnest-protocols'' ''owlnest-messaging'' ''messaging'' ''Messaging'',
      cfg_with_field ''owlnest-protocols'' ''owlnest-advertise'' ''advertise'' ''Advertise'',
      cfg_with_field ''owlnest-protocols'' ''owlnest-blob'' ''blob'' ''Blob'',
      cfg_with_field ''libp2p-protocols'' ''libp2p-mdns'' ''mdns'' ''Mdns'',
      cfg_with_field ''libp2p-protocols'' ''libp2p-autonat'' ''autonat'' ''AutoNat'',
      cfg_with_field ''libp2p-protocols'' ''libp2p-identify'' ''identify'' ''Identify'',
      cfg_with_field ''libp2p-protocols'' ''libp2p-dcutr'' ''dcutr'' ''Dcutr'',
      cfg_with_field ''libp2p-protocols'' ''libp2p-upnp'' ''upnp'' ''Upnp'',
      cfg_with_field ''libp2p-protocols'' ''libp2p-ping'' ''ping'' ''Ping'',
      cfg_with_field ''libp2p-protocols'' ''libp2p-relay-server'' ''relay_server'' ''RelayServer'',
      cfg_with_field ''libp2p-protocols'' ''libp2p-kad'' ''kad'' ''Kad'',
      cfg_with_field ''libp2p-protocols'' ''libp2p-relay-client'' ''relay_client'' ''RelayClient'',
      cfg_with_field ''libp2p-protocols'' ''libp2p-gossipsub'' ''gossipsub'' ''Gossipsub'',
      GenerateBehaviourSelect],
     di_vis = ''pub'', di_ident = ''Behaviour'', di_data = BracedStruct []\<rparr>"

text \<open>Code under \<open>cfg(any(..))\<close> that has to fit what the macros generate: each piece with its condition.\<close>

definition cfg_select :: "string set \<Rightarrow> ('a \<times> string list) list \<Rightarrow> 'a list" where
  "cfg_select features table = map fst (filter (\<lambda>(_, cond). any_feature features cond) table)"

definition cfg_owlnest :: "string \<Rightarrow> string list" where
  "cfg_owlnest p = [''owlnest-protocols'', ''owlnest-'' @ p]"

definition cfg_libp2p :: "string \<Rightarrow> string list" where
  "cfg_libp2p p = [''libp2p-protocols'', ''libp2p-'' @ p]"

text \<open>The struct literal \<open>behaviour::Behaviour { .. }\<close> in \<open>Builder::build\<close>.\<close>

definition builder_literal :: "string set \<Rightarrow> string list" where
  "builder_literal features = cfg_select features
     [(''blob'', cfg_owlnest ''blob''), (''advertise'', cfg_owlnest ''advertise''), (''messaging'', cfg_owlnest ''messaging''),
      (''kad'', cfg_libp2p ''kad''), (''mdns'', cfg_libp2p ''mdns''), (''identify'', cfg_libp2p ''identify''),
      (''relay_server'', cfg_libp2p ''relay-server''), (''relay_client'', cfg_libp2p ''relay-client''),
      (''dcutr'', cfg_libp2p ''dcutr''), (''autonat'', cfg_libp2p ''autonat''), (''upnp'', cfg_libp2p ''upnp''),
      (''ping'', cfg_libp2p ''ping''), (''gossipsub'', cfg_libp2p ''gossipsub'')]"

text \<open>The fields of \<open>SwarmConfig\<close>.\<close>

definition swarm_config_fields :: "string set \<Rightarrow> string list" where
  "swarm_config_fields features = ''swarm'' # cfg_select features
     [(''autonat'', cfg_libp2p ''autonat''), (''kad'', cfg_libp2p ''kad''), (''identify'', cfg_libp2p ''identify''),
      (''mdns'', cfg_libp2p ''mdns''), (''messaging'', cfg_owlnest ''messaging''), (''blob'', cfg_owlnest ''blob''),
      (''advertise'', cfg_owlnest ''advertise''), (''relay_server'', cfg_libp2p ''relay-server''),
      (''gossipsub'', cfg_libp2p ''gossipsub'')]"

text \<open>The arms of \<open>handle_incoming_event\<close> and of \<open>handle_behaviour_event\<close>, by the variant they match.\<close>

definition incoming_arms :: "string set \<Rightarrow> string list" where
  "incoming_arms features = ''Swarm'' # cfg_select features
     [(''Advertise'', cfg_owlnest ''advertise''), (''Blob'', cfg_owlnest ''blob''), (''Messaging'', cfg_owlnest ''messaging''),
      (''Kad'', cfg_libp2p ''kad''), (''Mdns'', cfg_libp2p ''mdns''), (''AutoNat'', cfg_libp2p ''autonat''),
      (''Gossipsub'', cfg_libp2p ''gossipsub'')]"

definition behaviour_event_arms :: "string set \<Rightarrow> string list" where
  "behaviour_event_arms features = cfg_select features
     [(''Kad'', cfg_libp2p ''kad''), (''Identify'', cfg_libp2p ''identify''), (''Mdns'', cfg_libp2p ''mdns''),
      (''RelayServer'', cfg_libp2p ''relay-server''), (''Dcutr'', cfg_libp2p ''dcutr''), (''AutoNat'', cfg_libp2p ''autonat''),
      (''Upnp'', cfg_libp2p ''upnp''), (''Ping'', cfg_libp2p ''ping'')]"

text \<open>The modules of \<open>protocols/mod.rs\<close>, the configurations \<open>Builder::build\<close> reads and the literal of \<open>setup_default\<close>.\<close>

definition protocol_modules :: "string set \<Rightarrow> string list" where
  "protocol_modules features = cfg_select features
     [(''identify'', cfg_libp2p ''identify''), (''kad'', cfg_libp2p ''kad''), (''mdns'', cfg_libp2p ''mdns''),
      (''messaging'', cfg_owlnest ''messaging''), (''relay_client'', cfg_libp2p ''relay-client''),
      (''relay_server'', cfg_libp2p ''relay-server''), (''advertise'', cfg_owlnest ''advertise''), (''dcutr'', cfg_libp2p ''dcutr''),
      (''autonat'', cfg_libp2p ''autonat''), (''blob'', cfg_owlnest ''blob''), (''upnp'', cfg_libp2p ''upnp''),
      (''ping'', cfg_libp2p ''ping''), (''gossipsub'', cfg_libp2p ''gossipsub'')]"

definition builder_configs :: "string set \<Rightarrow> string list" where
  "builder_configs features = cfg_select features
     [(''blob'', cfg_owlnest ''blob''), (''advertise'', cfg_owlnest ''advertise''), (''messaging'', cfg_owlnest ''messaging''),
      (''kad'', cfg_libp2p ''kad''), (''mdns'', cfg_libp2p ''mdns''), (''identify'', cfg_libp2p ''identify''),
      (''relay_server'', cfg_libp2p ''relay-server'')]"

definition setup_default_literal :: "string set \<Rightarrow> string list" where
  "setup_default_literal features = ''swarm'' # cfg_select features
     [(''autonat'', cfg_libp2p ''autonat''), (''kad'', cfg_libp2p ''kad''), (''identify'', cfg_libp2p ''identify''),
      (''mdns'', cfg_libp2p ''mdns''), (''messaging'', cfg_owlnest ''messaging''), (''blob'', cfg_owlnest ''blob''),
      (''advertise'', cfg_owlnest ''advertise''), (''relay_server'', cfg_libp2p ''relay-server''),
      (''gossipsub'', cfg_libp2p ''gossipsub'')]"

text \<open>The command line: the variants of \<open>Command\<close>, the arms of \<open>handle_command\<close> and the accessors of \<open>Manager\<close> they use.\<close>

definition command_variants :: "string set \<Rightarrow> string list" where
  "command_variants features = [''Id'', ''Clear'', ''Shutdown'', ''Dial'', ''Listen'', ''Swarm'', ''Utils''] @ cfg_select features
     [(''Advertise'', cfg_owlnest ''advertise''), (''Blob'', cfg_owlnest ''blob''), (''Messaging'', cfg_owlnest ''messaging''),
      (''AutoNat'', cfg_libp2p ''autonat''), (''Gossipsub'', cfg_libp2p ''gossipsub''), (''Kad'', cfg_libp2p ''kad''),
      (''Mdns'', cfg_libp2p ''mdns''), (''RelayClient'', cfg_libp2p ''relay-client'')]"

definition command_arms :: "string set \<Rightarrow> string list" where
  "command_arms features = [''Id'', ''Clear'', ''Shutdown'', ''Dial'', ''Listen'', ''Swarm'', ''Utils''] @ cfg_select features
     [(''Advertise'', cfg_owlnest ''advertise''), (''Blob'', cfg_owlnest ''blob''), (''Messaging'', cfg_owlnest ''messaging''),
      (''AutoNat'', cfg_libp2p ''autonat''), (''Kad'', cfg_libp2p ''kad''), (''Mdns'', cfg_libp2p ''mdns''),
      (''RelayClient'', cfg_libp2p ''relay-client''), (''Gossipsub'', cfg_libp2p ''gossipsub'')]"

definition command_accessors :: "string set \<Rightarrow> string list" where
  "command_accessors features = [''swarm'', ''executor''] @ cfg_select features
     [(''advertise'', cfg_owlnest ''advertise''), (''blob'', cfg_owlnest ''blob''), (''messaging'', cfg_owlnest ''messaging''),
      (''autonat'', cfg_libp2p ''autonat''), (''kad'', cfg_libp2p ''kad''), (''mdns'', cfg_libp2p ''mdns''),
      (''gossipsub'', cfg_libp2p ''gossipsub'')]"

section \<open>Attributes compose\<close>

definition named :: "struct_field \<Rightarrow> bool" where
  "named f \<longleftrightarrow> sf_ident f \<noteq> None"

lemma parse_fields_printed:
  "list_all named fs \<Longrightarrow>
     parse_fields (concat (map (\<lambda>f. [TokField f, TokComma]) fs) @ ts) = map_option ((@) fs) (parse_fields ts)"
  by (induction fs; cases "parse_fields ts") (auto simp: named_def)

text \<open>
  One field per attribute is what \<open>with_field\<close> is made for: what it prints parses again exactly when
  one field is appended, since no comma separates several and the last comma is printed for none.
\<close>

lemma with_field_reparse:
  assumes "struct_fields ast = Returns fs" and "list_all named fs" and "list_all named new"
    and "with_field new ast = Returns ast'"
  shows "struct_fields ast' = (if length new = 1 then Returns (fs @ new) else Panics)"
proof -
  have "struct_fields ast' =
      (case map_option ((@) fs) (parse_fields (map TokField new @ [TokComma])) of Some gs \<Rightarrow> Returns gs | None \<Rightarrow> Panics)"
    using assms(1,4) parse_fields_printed [OF assms(2), of "map TokField new @ [TokComma]"]
    by (auto simp: with_field_def struct_fields_def)
  also have "parse_fields (map TokField new @ [TokComma]) = (if length new = 1 then Some new else None)"
    using assms(3) by (cases new rule: remdups_adj.cases) (auto simp: named_def)
  finally show ?thesis by simp
qed

definition plain_field :: "struct_field \<Rightarrow> bool" where
  "plain_field f \<longleftrightarrow> (\<exists>p. field_variant f = Returns p)"

fun simple_attr :: "item_attr \<Rightarrow> bool" where
  "simple_attr (CfgWithField cond fs) = (list_all named fs \<and> list_all plain_field fs \<and> length fs = 1)"
| "simple_attr (InertAttr a) = True"
| "simple_attr _ = False"

fun enabled_fields :: "string set \<Rightarrow> item_attr list \<Rightarrow> struct_field list" where
  "enabled_fields features (CfgWithField cond fs # attrs) =
     (if any_feature features cond then fs else []) @ enabled_fields features attrs"
| "enabled_fields features (_ # attrs) = enabled_fields features attrs"
| "enabled_fields features [] = []"

lemma expand_item_fields:
  assumes "di_attrs ast = attrs @ [last_attr]" and "list_all simple_attr attrs"
    and "struct_fields ast = Returns fs" and "list_all named fs"
  shows "\<exists>ast'. expand_item features ast = expand_item features ast' \<and> di_attrs ast' = [last_attr]
    \<and> struct_fields ast' = Returns (fs @ enabled_fields features attrs)"
  using assms
proof (induction attrs arbitrary: ast fs)
  case Nil
  then show ?case by auto
next
  case (Cons a attrs)
  have kept: "struct_fields (ast\<lparr>di_attrs := attrs @ [last_attr]\<rparr>) = Returns fs"
    using Cons.prems(3) by (simp add: struct_fields_def)
  show ?case
  proof (cases a)
    case (CfgWithField cond new)
    with Cons.prems(2) have new: "list_all named new" "length new = 1" by simp_all
    show ?thesis
    proof (cases "any_feature features cond")
      case True
      obtain ast1 where ast1: "with_field new (ast\<lparr>di_attrs := attrs @ [last_attr]\<rparr>) = Returns ast1"
        using kept by (simp add: with_field_def)
      have "struct_fields ast1 = Returns (fs @ new)" "di_attrs ast1 = attrs @ [last_attr]"
        using with_field_reparse [OF kept Cons.prems(4) new(1) ast1] new(2) with_field_attrs [OF ast1] by simp_all
      moreover have "expand_item features ast = expand_item features ast1"
        using Cons.prems(1) CfgWithField True ast1 by (simp add: expand_item.simps [of features ast])
      ultimately show ?thesis
        using Cons.IH [of ast1 "fs @ new"] Cons.prems(2,4) new(1) CfgWithField True by simp
    next
      case False
      then show ?thesis
        using Cons.IH [OF _ _ kept Cons.prems(4)] Cons.prems(1,2) CfgWithField
        by (simp add: expand_item.simps [of features ast])
    qed
  qed (use Cons.IH [OF _ _ kept Cons.prems(4)] Cons.prems(1,2) in \<open>simp_all add: expand_item.simps [of features ast]\<close>)
qed

definition field_pair :: "struct_field \<Rightarrow> string \<times> string" where
  "field_pair f = (the (sf_ident f), case sf_type f of TyIdent v \<Rightarrow> v | TyOther v \<Rightarrow> v)"

lemma field_variant_pair: "plain_field f \<Longrightarrow> field_variant f = Returns (field_pair f)"
  by (cases f rule: field_variant.cases) (auto simp: plain_field_def field_pair_def)

lemma field_variants_pairs: "list_all plain_field fs \<Longrightarrow> field_variants fs = Returns (map field_pair fs)"
  by (induction fs) (simp_all add: field_variant_pair)

lemma enabled_fields_plain: "list_all simple_attr attrs \<Longrightarrow> list_all plain_field (enabled_fields features attrs)"
  by (induction features attrs rule: enabled_fields.induct) auto

lemma expand_to_fields:
  assumes "di_attrs ast = attrs @ [last_attr]" and "list_all simple_attr attrs" and "di_data ast = BracedStruct []"
  shows "last_attr = GenerateManager \<Longrightarrow>
      expand_item features ast = Returns (ManagerCode (map field_pair (enabled_fields features attrs)))"
    and "last_attr = GenerateBehaviourSelect \<Longrightarrow>
      expand_item features ast = Returns (SelectCode (map field_pair (enabled_fields features attrs)))"
proof -
  have "struct_fields ast = Returns []"
    using assms(3) by (simp add: struct_fields_def)
  then obtain ast' where "expand_item features ast = expand_item features ast'" "di_attrs ast' = [last_attr]"
      "struct_fields ast' = Returns (enabled_fields features attrs)"
    using expand_item_fields [OF assms(1,2), of "[]" features] by auto
  then show "last_attr = GenerateManager \<Longrightarrow>
      expand_item features ast = Returns (ManagerCode (map field_pair (enabled_fields features attrs)))"
    and "last_attr = GenerateBehaviourSelect \<Longrightarrow>
      expand_item features ast = Returns (SelectCode (map field_pair (enabled_fields features attrs)))"
    using field_variants_pairs [OF enabled_fields_plain [OF assms(2)]]
    by (simp_all add: expand_item.simps [of features ast'] generate_manager_def generate_behaviour_select_def)
qed

text \<open>The fields with their conditions, as a table.\<close>

fun attr_table :: "item_attr list \<Rightarrow> ((string \<times> string) \<times> string list) list" where
  "attr_table (CfgWithField cond fs # attrs) = map (\<lambda>f. (field_pair f, cond)) fs @ attr_table attrs"
| "attr_table (_ # attrs) = attr_table attrs"
| "attr_table [] = []"

lemma enabled_fields_table: "map field_pair (enabled_fields features attrs) = cfg_select features (attr_table attrs)"
  by (induction attrs rule: attr_table.induct) (auto simp: cfg_select_def comp_def filter_map)

lemma field_pair_cfg [simp]: "field_pair \<lparr>sf_vis = v, sf_ident = Some i, sf_type = TyIdent t\<rparr> = (i, t)"
  by (simp add: field_pair_def)

definition manager_table :: "((string \<times> string) \<times> string list) list" where
  "manager_table = attr_table (butlast (di_attrs manager_item))"

definition behaviour_table :: "((string \<times> string) \<times> string list) list" where
  "behaviour_table = attr_table (butlast (di_attrs behaviour_item))"

lemma expand_manager: "expand_item features manager_item = Returns (ManagerCode (cfg_select features manager_table))"
  unfolding manager_table_def enabled_fields_table [symmetric]
  by (rule expand_to_fields(1)) (simp_all add: manager_item_def cfg_with_field_def named_def plain_field_def)

lemma expand_behaviour: "expand_item features behaviour_item = Returns (SelectCode (cfg_select features behaviour_table))"
  unfolding behaviour_table_def enabled_fields_table [symmetric]
  by (rule expand_to_fields(2)) (simp_all add: behaviour_item_def cfg_with_field_def named_def plain_field_def)

lemma set_cfg_select_mono: "set t \<subseteq> set t' \<Longrightarrow> set (cfg_select features t) \<subseteq> set (cfg_select features t')"
  by (auto simp: cfg_select_def)

lemma map_cfg_select: "map g (cfg_select features t) = cfg_select features (map (\<lambda>(x, cond). (g x, cond)) t)"
  by (induction t) (auto simp: cfg_select_def)

lemma distinct_cfg_select: "distinct (map fst t) \<Longrightarrow> distinct (cfg_select features t)"
  by (simp add: cfg_select_def distinct_map_filter)

lemma set_cfg_select_subset: "set (cfg_select features t) \<subseteq> fst ` set t"
  by (auto simp: cfg_select_def)

lemmas cfg_tables = manager_table_def behaviour_table_def manager_item_def behaviour_item_def
  cfg_with_field_def cfg_owlnest_def cfg_libp2p_def

lemma set_cfg_select_cong: "set t = set t' \<Longrightarrow> set (cfg_select features t) = set (cfg_select features t')"
  by (simp add: set_cfg_select_mono subset_antisym)

section \<open>Every choice of features gives a consistent program\<close>

text \<open>
  C9. Whatever Cargo features are enabled, the two items expand without a panic and the code around
  them that is listed here fits what they generate: the literal in \<open>Builder::build\<close> initialises exactly the fields of
  \<open>Behaviour\<close>, each once; every request channel of the manager belongs to a field of \<open>Behaviour\<close>
  of the same name and variant; \<open>HandleBundle::new\<close> reads only fields that \<open>SwarmConfig\<close> has; the
  match in \<open>handle_incoming_event\<close> covers exactly the variants of \<open>Rx\<close>; the match on behaviour events
  names only variants that exist; every field has its module; the builder reads only configurations
  that exist and \<open>setup_default\<close> gives all of them; the command line handles exactly its commands and
  asks the manager only for handles it has; and no two methods of \<open>Manager\<close> share a name.
\<close>

theorem expansion_consistent:
  "\<exists>mf bf. expand_item features manager_item = Returns (ManagerCode mf)
    \<and> expand_item features behaviour_item = Returns (SelectCode bf)
    \<and> set (builder_literal features) = set (map fst bf) \<and> distinct (builder_literal features) \<and> distinct (map fst bf)
    \<and> set mf \<subseteq> set bf
    \<and> set (manager_configs mf) \<subseteq> set (swarm_config_fields features)
    \<and> set (incoming_arms features) = set (manager_rx_variants mf)
    \<and> set (behaviour_event_arms features) \<subseteq> set (map snd bf)
    \<and> set (map fst bf) = set (protocol_modules features)
    \<and> set (builder_configs features) \<subseteq> set (swarm_config_fields features)
    \<and> set (setup_default_literal features) = set (swarm_config_fields features)
    \<and> set (command_arms features) = set (command_variants features)
    \<and> set (command_accessors features) \<subseteq> set (manager_methods mf)
    \<and> distinct (manager_methods mf)"
proof (intro exI conjI)
  let ?mf = "cfg_select features manager_table" and ?bf = "cfg_select features behaviour_table"
  show "expand_item features manager_item = Returns (ManagerCode ?mf)"
    "expand_item features behaviour_item = Returns (SelectCode ?bf)"
    by (rule expand_manager expand_behaviour)+
  show "set (builder_literal features) = set (map fst ?bf)"
    unfolding builder_literal_def map_cfg_select by (rule set_cfg_select_cong) (auto simp: cfg_tables)
  show "distinct (builder_literal features)"
    unfolding builder_literal_def by (rule distinct_cfg_select) simp
  show "distinct (map fst ?bf)"
    unfolding map_cfg_select by (rule distinct_cfg_select) (simp add: cfg_tables)
  show "set ?mf \<subseteq> set ?bf"
    by (rule set_cfg_select_mono) (auto simp: cfg_tables)
  show "set (manager_configs ?mf) \<subseteq> set (swarm_config_fields features)"
    unfolding manager_configs_def swarm_config_fields_def map_cfg_select set_simps
    by (rule insert_mono, rule set_cfg_select_mono) (auto simp: cfg_tables)
  have "set (map snd ?mf) = set (tl (incoming_arms features))"
    unfolding incoming_arms_def map_cfg_select list.sel by (rule set_cfg_select_cong) (auto simp: cfg_tables)
  then show "set (incoming_arms features) = set (manager_rx_variants ?mf)"
    by (simp add: manager_rx_variants_def incoming_arms_def)
  show "set (behaviour_event_arms features) \<subseteq> set (map snd ?bf)"
    unfolding behaviour_event_arms_def map_cfg_select by (rule set_cfg_select_mono) (auto simp: cfg_tables)
  show "set (map fst ?bf) = set (protocol_modules features)"
    unfolding protocol_modules_def map_cfg_select by (rule set_cfg_select_cong) (auto simp: cfg_tables)
  show "set (builder_configs features) \<subseteq> set (swarm_config_fields features)"
    unfolding builder_configs_def swarm_config_fields_def set_simps
    by (rule order_trans [OF set_cfg_select_mono subset_insertI]) (auto simp: cfg_tables)
  show "set (setup_default_literal features) = set (swarm_config_fields features)"
    unfolding setup_default_literal_def swarm_config_fields_def ..
  show "set (command_arms features) = set (command_variants features)"
    unfolding command_arms_def command_variants_def set_append
    by (rule arg_cong [where f = "(\<union>) _"], rule set_cfg_select_cong) (auto simp: cfg_tables)
  have "set (cfg_select features t) \<subseteq> set (map fst ?mf)"
    if "set t \<subseteq> set (map (\<lambda>(x, cond). (fst x, cond)) manager_table)" for t
    unfolding map_cfg_select using that by (rule set_cfg_select_mono)
  then show "set (command_accessors features) \<subseteq> set (manager_methods ?mf)"
    unfolding command_accessors_def manager_methods_def set_append
    by (intro Un_mono) (auto simp: cfg_tables)
  have "distinct (map fst ?mf)"
    unfolding map_cfg_select by (rule distinct_cfg_select) (simp add: cfg_tables)
  moreover have "set (map fst ?mf) \<subseteq> {''messaging'', ''advertise'', ''blob'', ''kad'', ''autonat'', ''mdns'', ''gossipsub''}"
    unfolding map_cfg_select by (rule order_trans [OF set_cfg_select_subset]) (simp add: cfg_tables)
  ultimately show "distinct (manager_methods ?mf)"
    by (auto simp: manager_methods_def)
qed

section \<open>The generated bundle of channels\<close>

text \<open>The features that \<open>default\<close> stands for in \<open>Cargo.toml\<close>.\<close>

definition default_features :: "string set" where
  "default_features = {''default'', ''full'', ''volatile'', ''owlnest-protocols'', ''libp2p-protocols''}"

text \<open>The arm printed for one channel, and \<open>Future::poll\<close> of the bundle: the arms in order.\<close>

definition manager_arm ::
  "rx_bundle \<Rightarrow> string \<times> string \<Rightarrow> (rx poll \<times> rx_bundle) outcome \<Rightarrow> (rx poll \<times> rx_bundle) outcome" where
  "manager_arm b channel =
     (if channel = (''swarm'', ''Swarm'') then rx_arm RxSwarm (rb_swarm b) (\<lambda>r. b\<lparr>rb_swarm := r\<rparr>)
      else if channel = (''messaging'', ''Messaging'') then rx_arm RxMessaging (rb_messaging b) (\<lambda>r. b\<lparr>rb_messaging := r\<rparr>)
      else if channel = (''advertise'', ''Advertise'') then rx_arm RxAdvertise (rb_advertise b) (\<lambda>r. b\<lparr>rb_advertise := r\<rparr>)
      else if channel = (''blob'', ''Blob'') then rx_arm RxBlob (rb_blob b) (\<lambda>r. b\<lparr>rb_blob := r\<rparr>)
      else if channel = (''kad'', ''Kad'') then rx_arm RxKad (rb_kad b) (\<lambda>r. b\<lparr>rb_kad := r\<rparr>)
      else if channel = (''autonat'', ''AutoNat'') then rx_arm RxAutoNat (rb_autonat b) (\<lambda>r. b\<lparr>rb_autonat := r\<rparr>)
      else if channel = (''mdns'', ''Mdns'') then rx_arm RxMdns (rb_mdns b) (\<lambda>r. b\<lparr>rb_mdns := r\<rparr>)
      else rx_arm RxGossipsub (rb_gossipsub b) (\<lambda>r. b\<lparr>rb_gossipsub := r\<rparr>))"

definition manager_poll :: "(string \<times> string) list \<Rightarrow> rx_bundle \<Rightarrow> (rx poll \<times> rx_bundle) outcome" where
  "manager_poll fs b = foldr (manager_arm b) (manager_channels fs) (Returns (Pending, b))"

definition rx_is_terminated :: "rx_bundle \<Rightarrow> bool" where
  "rx_is_terminated b = False"

text \<open>
  With the default features, polling the bundle of request channels is what the macros generate
  from \<open>manager.rs\<close>: the arms of the expanded item, one per field in the order of its attributes and
  the swarm's own channel first. The fairness results on the bundle thus speak of the generated code,
  of \<open>Future::poll\<close> and \<open>Stream::poll_next\<close> alike.
\<close>

theorem rx_poll_next_expansion:
  "\<exists>fs. expand_item default_features manager_item = Returns (ManagerCode fs)
    \<and> fs = [(''messaging'', ''Messaging''), (''advertise'', ''Advertise''), (''blob'', ''Blob''), (''kad'', ''Kad''),
        (''autonat'', ''AutoNat''), (''mdns'', ''Mdns''), (''gossipsub'', ''Gossipsub'')]
    \<and> rx_poll_next b = manager_poll fs b"
  unfolding expand_manager
  by (simp add: cfg_tables cfg_select_def any_feature_def default_features_def manager_poll_def manager_channels_def
      manager_arm_def rx_poll_next_def)

end
