(* ===== verification/Handle_Methods.thy ===== *)
theory Handle_Methods
  imports Main "HOL-Library.Multiset"
begin

text \<open>
  The macros of \<open>owlnest-macro\<close> that generate the methods of the handles
  (\<open>generate_handler_method\<close> and its blocking variant), and every use of them in the workspace: each
  declared method with the variant of \<open>InEvent\<close> that it sends. Types are written without spaces.
\<close>

section \<open>The methods of the handles\<close>

text \<open>
  \<open>generate_handler_method\<close> takes the parameters of a method one by one and sorts them by how the
  event is given their value: \<open>name: T\<close> is copied, \<open>name: <T>\<close> is cloned, \<open>name: |T|\<close> is moved.
\<close>

datatype param_kind = CopyParam | CloneParam | OwnParam

record method_param =
  mp_name :: string
  mp_type :: string
  mp_kind :: param_kind

record munched =
  mu_order :: "method_param list"
  mu_copy :: "method_param list"
  mu_clone :: "method_param list"
  mu_owned :: "method_param list"

fun munch :: "method_param list \<Rightarrow> munched \<Rightarrow> munched" where
  "munch [] m = m"
| "munch (p # ps) m =
     munch ps
       (case mp_kind p of
          CloneParam \<Rightarrow> m\<lparr>mu_order := mu_order m @ [p], mu_clone := p # mu_clone m\<rparr>
        | CopyParam \<Rightarrow> m\<lparr>mu_order := mu_order m @ [p], mu_copy := p # mu_copy m\<rparr>
        | OwnParam \<Rightarrow> m\<lparr>mu_order := mu_order m @ [p], mu_owned := p # mu_owned m\<rparr>)"

datatype field_init = CallbackTx | Deref string | CloneOf string | MoveOf string

fun init_of :: "method_param \<Rightarrow> field_init" where
  "init_of p = (case mp_kind p of CopyParam \<Rightarrow> Deref (mp_name p) | CloneParam \<Rightarrow> CloneOf (mp_name p) | OwnParam \<Rightarrow> MoveOf (mp_name p))"

text \<open>A generated method: its parameters and the fields of the event it sends.\<close>

record handler_method =
  hm_params :: "method_param list"
  hm_event :: "field_init list"

definition munched_fields :: "munched \<Rightarrow> field_init list" where
  "munched_fields m = map (\<lambda>p. Deref (mp_name p)) (mu_copy m) @ map (\<lambda>p. CloneOf (mp_name p)) (mu_clone m)
     @ map (\<lambda>p. MoveOf (mp_name p)) (mu_owned m)"

definition munch_all :: "method_param list \<Rightarrow> munched" where
  "munch_all ps = munch ps \<lparr>mu_order = [], mu_copy = [], mu_clone = [], mu_owned = []\<rparr>"

definition expand_method :: "method_param list \<Rightarrow> string option \<Rightarrow> handler_method" where
  "expand_method ps return_type =
     (let m = munch_all ps
      in \<lparr>hm_params = mu_order m,
          hm_event = (case return_type of Some _ \<Rightarrow> [CallbackTx] | None \<Rightarrow> []) @ munched_fields m\<rparr>)"

text \<open>
  \<open>generate_handler_method_blocking\<close>: the last arm, for methods that return a value, expects owned
  parameters without the comma that the sorting puts after each, so no arm matches when there is one.
\<close>

definition expand_method_blocking :: "method_param list \<Rightarrow> string option \<Rightarrow> handler_method option" where
  "expand_method_blocking ps return_type =
     (let m = munch_all ps
      in case return_type of
           None \<Rightarrow> Some \<lparr>hm_params = mu_order m, hm_event = munched_fields m\<rparr>
         | Some _ \<Rightarrow>
             if mu_owned m = [] then Some \<lparr>hm_params = mu_order m, hm_event = CallbackTx # munched_fields m\<rparr> else None)"

lemma munch_spec:
  "mu_order (munch ps m) = mu_order m @ ps"
  "mu_copy (munch ps m) = rev (filter (\<lambda>p. mp_kind p = CopyParam) ps) @ mu_copy m"
  "mu_clone (munch ps m) = rev (filter (\<lambda>p. mp_kind p = CloneParam) ps) @ mu_clone m"
  "mu_owned (munch ps m) = rev (filter (\<lambda>p. mp_kind p = OwnParam) ps) @ mu_owned m"
  by (induction ps arbitrary: m) (simp_all split: param_kind.split)

lemma munched_fields_mset: "mset (munched_fields (munch_all ps)) = mset (map init_of ps)"
proof -
  have "mset (munched_fields (munch_all ps)) =
      image_mset (\<lambda>p. Deref (mp_name p)) {#p \<in># mset ps. mp_kind p = CopyParam#}
      + image_mset (\<lambda>p. CloneOf (mp_name p)) {#p \<in># mset ps. mp_kind p = CloneParam#}
      + image_mset (\<lambda>p. MoveOf (mp_name p)) {#p \<in># mset ps. mp_kind p = OwnParam#}"
    by (simp add: munch_all_def munched_fields_def munch_spec mset_filter)
  also have "\<dots> = mset (map init_of ps)"
  proof (induction ps)
    case (Cons p ps)
    then show ?case by (cases "mp_kind p") simp_all
  qed simp
  finally show ?thesis .
qed

lemma expand_params: "hm_params (expand_method ps return_type) = ps"
  by (simp add: expand_method_def Let_def munch_all_def munch_spec)

lemma expand_event:
  "mset (hm_event (expand_method ps return_type)) =
     mset ((case return_type of Some _ \<Rightarrow> [CallbackTx] | None \<Rightarrow> []) @ map init_of ps)"
  by (simp add: expand_method_def Let_def munched_fields_mset del: mset_map)

lemma expand_blocking:
  "expand_method_blocking ps return_type =
     (if return_type \<noteq> None \<and> list_ex (\<lambda>p. mp_kind p = OwnParam) ps then None else Some (expand_method ps return_type))"
proof -
  have "mu_owned (munch_all ps) = [] \<longleftrightarrow> \<not> list_ex (\<lambda>p. mp_kind p = OwnParam) ps"
    by (auto simp: munch_all_def munch_spec filter_empty_conv list_ex_iff)
  then show ?thesis
    by (auto simp: expand_method_def expand_method_blocking_def Let_def split: option.splits)
qed

text \<open>
  C10. The methods that the macros generate for the handles pass their arguments on faithfully, whatever
  method is declared: the parameters stand in the order in which they were written, and the event is
  given every one of them exactly once, copied, cloned or moved as marked, with the callback exactly
  when the method returns a value. The asynchronous macro always succeeds; the blocking one fails
  exactly for a method that returns a value and takes a parameter by value, and otherwise generates the
  same method.
\<close>

theorem handler_methods_faithful:
  "hm_params (expand_method ps return_type) = ps
    \<and> mset (hm_event (expand_method ps return_type)) =
        mset ((case return_type of Some _ \<Rightarrow> [CallbackTx] | None \<Rightarrow> []) @ map init_of ps)
    \<and> expand_method_blocking ps return_type =
        (if return_type \<noteq> None \<and> list_ex (\<lambda>p. mp_kind p = OwnParam) ps then None else Some (expand_method ps return_type))"
  by (intro conjI expand_params expand_event expand_blocking)

section \<open>Type checking a generated method\<close>

text \<open>
  The type of the value that a field of the event is given: dereferencing needs a reference to a
  \<open>Copy\<close> type, cloning a reference gives what it points to.
\<close>

definition copy_types :: "string list" where
  "copy_types = [''PeerId'', ''ListenerId'', ''bool'', ''u64'']"

fun deref_type :: "string \<Rightarrow> string option" where
  "deref_type (c # t) = (if c = CHR ''&'' \<and> t \<in> set copy_types then Some t else None)"
| "deref_type [] = None"

fun clone_type :: "string \<Rightarrow> string" where
  "clone_type (c # t) = (if c = CHR ''&'' then t else c # t)"
| "clone_type [] = []"

definition param_type :: "method_param list \<Rightarrow> string \<Rightarrow> string option" where
  "param_type ps x = map_option mp_type (List.find (\<lambda>p. mp_name p = x) ps)"

fun init_field :: "method_param list \<Rightarrow> string option \<Rightarrow> field_init \<Rightarrow> (string \<times> string) option" where
  "init_field ps ret CallbackTx = map_option (\<lambda>r. (''callback'', ''Callback<'' @ r @ ''>'')) ret"
| "init_field ps ret (Deref x) = map_option (Pair x) (Option.bind (param_type ps x) deref_type)"
| "init_field ps ret (CloneOf x) = map_option (\<lambda>t. (x, clone_type t)) (param_type ps x)"
| "init_field ps ret (MoveOf x) = map_option (Pair x) (param_type ps x)"

record method_decl =
  md_variant :: string
  md_name :: string
  md_params :: "method_param list"
  md_return :: "string option"

type_synonym event_fields = "(string \<times> (string \<times> string) list) list"

definition literal_fits :: "event_fields \<Rightarrow> method_decl \<Rightarrow> handler_method \<Rightarrow> bool" where
  "literal_fits variants d m =
     (case map_of variants (md_variant d) of
        None \<Rightarrow> False
      | Some fs \<Rightarrow> mset (map (init_field (md_params d) (md_return d)) (hm_event m)) = mset (map Some fs))"

definition method_fits :: "event_fields \<Rightarrow> method_decl \<Rightarrow> bool" where
  "method_fits variants d = literal_fits variants d (expand_method (md_params d) (md_return d))"

definition blocking_fits :: "event_fields \<Rightarrow> method_decl \<Rightarrow> bool" where
  "blocking_fits variants d =
     (case expand_method_blocking (md_params d) (md_return d) of
        None \<Rightarrow> False
      | Some m \<Rightarrow> literal_fits variants d m)"

definition arg :: "string \<Rightarrow> string \<Rightarrow> method_param" where
  "arg x t = \<lparr>mp_name = x, mp_type = t, mp_kind = CopyParam\<rparr>"

definition clone_arg :: "string \<Rightarrow> string \<Rightarrow> method_param" where
  "clone_arg x t = \<lparr>mp_name = x, mp_type = t, mp_kind = CloneParam\<rparr>"

definition own_arg :: "string \<Rightarrow> string \<Rightarrow> method_param" where
  "own_arg x t = \<lparr>mp_name = x, mp_type = t, mp_kind = OwnParam\<rparr>"

definition decl :: "string \<Rightarrow> string \<Rightarrow> method_param list \<Rightarrow> string option \<Rightarrow> method_decl" where
  "decl v n ps r = \<lparr>md_variant = v, md_name = n, md_params = ps, md_return = r\<rparr>"

section \<open>The declared methods\<close>

definition swarm_variants :: event_fields where
  "swarm_variants =
     [(''Dial'', [(''address'', ''Multiaddr''), (''callback'', ''Callback<Result<(),DialError>>'')]),
      (''Listen'', [(''address'', ''Multiaddr''), (''callback'', ''Callback<Result<ListenerId,TransportError<std::io::Error>>>'')]),
      (''ListListeners'', [(''callback'', ''Callback<Box<[Multiaddr]>>'')]),
      (''RemoveListeners'', [(''listener_id'', ''ListenerId''), (''callback'', ''Callback<bool>'')]),
      (''AddExternalAddress'', [(''address'', ''Multiaddr''), (''callback'', ''Callback<()>'')]),
      (''RemoveExternalAddress'', [(''address'', ''Multiaddr''), (''callback'', ''Callback<()>'')]),
      (''ListExternalAddresses'', [(''callback'', ''Callback<Box<[Multiaddr]>>'')]),
      (''ListConnected'', [(''callback'', ''Callback<Box<[PeerId]>>'')]),
      (''IsConnectedToPeerId'', [(''peer_id'', ''PeerId''), (''callback'', ''Callback<bool>'')]),
      (''DisconnectFromPeerId'', [(''peer_id'', ''PeerId''), (''callback'', ''Callback<Result<(),()>>'')])]"

definition swarm_methods :: "method_decl list" where
  "swarm_methods =
     [decl ''Dial'' ''dial'' [clone_arg ''address'' ''&Multiaddr''] (Some ''Result<(),DialError>''),
      decl ''Listen'' ''listen'' [clone_arg ''address'' ''&Multiaddr''] (Some ''Result<ListenerId,TransportError<std::io::Error>>''),
      decl ''ListListeners'' ''list_listeners'' [] (Some ''Box<[Multiaddr]>''),
      decl ''RemoveListeners'' ''remove_listener'' [arg ''listener_id'' ''&ListenerId''] (Some ''bool''),
      decl ''AddExternalAddress'' ''add_external_address'' [clone_arg ''address'' ''&Multiaddr''] (Some ''()''),
      decl ''ListExternalAddresses'' ''list_external_addresses'' [] (Some ''Box<[Multiaddr]>''),
      decl ''RemoveExternalAddress'' ''remove_external_address'' [clone_arg ''address'' ''&Multiaddr''] (Some ''()''),
      decl ''ListConnected'' ''list_connected'' [] (Some ''Box<[PeerId]>''),
      decl ''IsConnectedToPeerId'' ''is_connected'' [arg ''peer_id'' ''&PeerId''] (Some ''bool''),
      decl ''DisconnectFromPeerId'' ''disconnect_peer_id'' [arg ''peer_id'' ''&PeerId''] (Some ''Result<(),()>'')]"

definition swarm_blocking_methods :: "method_decl list" where
  "swarm_blocking_methods =
     [decl ''Dial'' ''dial_blocking'' [clone_arg ''address'' ''&Multiaddr''] (Some ''Result<(),DialError>''),
      decl ''Listen'' ''listen_blocking'' [clone_arg ''address'' ''&Multiaddr''] (Some ''Result<ListenerId,TransportError<std::io::Error>>''),
      decl ''ListListeners'' ''list_listeners_blocking'' [] (Some ''Box<[Multiaddr]>''),
      decl ''RemoveListeners'' ''remove_listener_blocking'' [arg ''listener_id'' ''&ListenerId''] (Some ''bool''),
      decl ''AddExternalAddress'' ''add_external_address_blocking'' [clone_arg ''address'' ''&Multiaddr''] (Some ''()''),
      decl ''ListExternalAddresses'' ''list_external_addresses_blocking'' [] (Some ''Box<[Multiaddr]>''),
      decl ''RemoveExternalAddress'' ''remove_external_address_blocking'' [clone_arg ''address'' ''&Multiaddr''] (Some ''()''),
      decl ''ListConnected'' ''list_connected_blocking'' [] (Some ''Box<[PeerId]>''),
      decl ''IsConnectedToPeerId'' ''is_connected_blocking'' [arg ''peer_id'' ''&PeerId''] (Some ''bool''),
      decl ''DisconnectFromPeerId'' ''disconnect_peer_id_blocking'' [arg ''peer_id'' ''&PeerId''] (Some ''Result<(),()>'')]"

definition advertise_variants :: event_fields where
  "advertise_variants =
     [(''SetProviderState'', [(''target_state'', ''bool''), (''callback'', ''Callback<bool>'')]),
      (''GetProviderState'', [(''callback'', ''Callback<bool>'')]),
      (''QueryAdvertisedPeer'', [(''peer'', ''PeerId'')]),
      (''SetRemoteAdvertisement'', [(''remote'', ''PeerId''), (''state'', ''bool''), (''callback'', ''Callback<()>'')]),
      (''RemoveAdvertised'', [(''peer'', ''PeerId'')]),
      (''ClearAdvertised'', []),
      (''ListAdvertised'', [(''callback'', ''Callback<Box<[PeerId]>>'')]),
      (''ListConnected'', [(''callback'', ''Callback<Box<[PeerId]>>'')])]"

definition advertise_methods :: "method_decl list" where
  "advertise_methods =
     [decl ''ListConnected'' ''list_connected'' [] (Some ''Box<[PeerId]>''),
      decl ''ListAdvertised'' ''list_advertised'' [] (Some ''Box<[PeerId]>''),
      decl ''GetProviderState'' ''provider_state'' [] (Some ''bool''),
      decl ''ClearAdvertised'' ''clear_advertised'' [] None,
      decl ''SetProviderState'' ''set_provider_state'' [own_arg ''target_state'' ''bool''] (Some ''bool''),
      decl ''SetRemoteAdvertisement'' ''set_remote_advertisement'' [arg ''remote'' ''&PeerId'', own_arg ''state'' ''bool''] (Some ''()'')]"

definition messaging_variants :: event_fields where
  "messaging_variants =
     [(''SendMessage'', [(''peer'', ''PeerId''), (''message'', ''Message''), (''callback'', ''Callback<Result<Duration,SendError>>'')]),
      (''ListConnected'', [(''callback'', ''Callback<Box<[PeerId]>>'')])]"

definition messaging_methods :: "method_decl list" where
  "messaging_methods = [decl ''ListConnected'' ''list_connected'' [] (Some ''Box<[PeerId]>'')]"

definition blob_variants :: event_fields where
  "blob_variants =
     [(''SendFile'', [(''file'', ''File''), (''file_path'', ''PathBuf''), (''to'', ''PeerId''), (''callback'', ''Callback<Result<u64,FileSendError>>'')]),
      (''AcceptFile'', [(''file'', ''File''), (''recv_id'', ''u64''), (''path'', ''PathBuf''), (''callback'', ''Callback<Result<Duration,error::FileRecvError>>'')]),
      (''ListConnected'', [(''callback'', ''Callback<Box<[PeerId]>>'')]),
      (''ListRecv'', [(''callback'', ''Callback<Box<[RecvInfo]>>'')]),
      (''ListSend'', [(''callback'', ''Callback<Box<[SendInfo]>>'')]),
      (''CancelRecv'', [(''local_recv_id'', ''u64''), (''callback'', ''Callback<Result<(),CancellationError>>'')]),
      (''CancelSend'', [(''local_send_id'', ''u64''), (''callback'', ''Callback<Result<(),CancellationError>>'')])]"

definition blob_methods :: "method_decl list" where
  "blob_methods =
     [decl ''ListRecv'' ''list_pending_recv'' [] (Some ''Box<[RecvInfo]>''),
      decl ''ListSend'' ''list_pending_send'' [] (Some ''Box<[SendInfo]>''),
      decl ''ListConnected'' ''list_connected'' [] (Some ''Box<[PeerId]>'')]"

text \<open>The tuple variant \<open>SetMode\<close> of kad is sent by a method written by hand and has no named fields.\<close>

definition kad_variants :: event_fields where
  "kad_variants =
     [(''PeerLookup'', [(''peer_id'', ''PeerId''), (''callback'', ''Callback<kad::QueryId>'')]),
      (''BootStrap'', [(''callback'', ''Callback<Result<kad::QueryId,kad::NoKnownPeers>>'')]),
      (''InsertNode'', [(''peer_id'', ''PeerId''), (''address'', ''Multiaddr''), (''callback'', ''Callback<kad::RoutingUpdate>'')])]"

definition kad_methods :: "method_decl list" where
  "kad_methods =
     [decl ''BootStrap'' ''bootstrap'' [] (Some ''Result<kad::QueryId,kad::NoKnownPeers>''),
      decl ''InsertNode'' ''insert_node'' [arg ''peer_id'' ''&PeerId'', clone_arg ''address'' ''&Multiaddr''] (Some ''kad::RoutingUpdate'')]"

definition mdns_variants :: event_fields where
  "mdns_variants =
     [(''ListDiscoveredNodes'', [(''callback'', ''Callback<Box<[PeerId]>>'')]),
      (''HasNode'', [(''peer'', ''PeerId''), (''callback'', ''Callback<bool>'')])]"

definition mdns_methods :: "method_decl list" where
  "mdns_methods =
     [decl ''ListDiscoveredNodes'' ''list_discovered_node'' [] (Some ''Box<[PeerId]>''),
      decl ''HasNode'' ''has_node'' [arg ''peer'' ''&PeerId''] (Some ''bool'')]"

text \<open>\<open>NatStatusResult\<close> is an alias of \<open>(NatStatus, usize)\<close>.\<close>

definition autonat_variants :: event_fields where
  "autonat_variants =
     [(''AddServer'', [(''peer_id'', ''PeerId''), (''address'', ''Option<Multiaddr>'')]),
      (''RemoveServer'', [(''peer_id'', ''PeerId'')]),
      (''Probe'', [(''candidate'', ''Multiaddr'')]),
      (''GetNatStatus'', [(''callback'', ''Callback<(NatStatus,usize)>'')])]"

definition autonat_methods :: "method_decl list" where
  "autonat_methods =
     [decl ''RemoveServer'' ''remove_server'' [arg ''peer_id'' ''&PeerId''] None,
      decl ''Probe'' ''probe'' [clone_arg ''candidate'' ''&Multiaddr''] None,
      decl ''GetNatStatus'' ''get_nat_status'' [] (Some ''(NatStatus,usize)''),
      decl ''AddServer'' ''add_server'' [arg ''peer_id'' ''&PeerId'', own_arg ''address'' ''Option<Multiaddr>''] None]"

definition gossipsub_variants :: event_fields where
  "gossipsub_variants =
     [(''SubscribeTopic'', [(''topic'', ''TopicHash''), (''callback'', ''Callback<Result<bool,SubscriptionError>>'')]),
      (''UnsubscribeTopic'', [(''topic'', ''TopicHash''), (''callback'', ''Callback<bool>'')]),
      (''PublishMessage'', [(''topic'', ''TopicHash''), (''message'', ''Box<[u8]>''), (''callback'', ''Callback<Result<MessageId,PublishError>>'')]),
      (''MeshPeersOfTopic'', [(''topic'', ''TopicHash''), (''callback'', ''Callback<Box<[PeerId]>>'')]),
      (''AllPeersWithTopic'', [(''callback'', ''Callback<Box<[(PeerId,Box<[TopicHash]>)]>>'')]),
      (''BanPeer'', [(''peer'', ''PeerId'')]),
      (''UnbanPeer'', [(''peer'', ''PeerId'')])]"

definition gossipsub_methods :: "method_decl list" where
  "gossipsub_methods =
     [decl ''BanPeer'' ''ban_peer'' [arg ''peer'' ''&PeerId''] None,
      decl ''UnbanPeer'' ''unban_peer'' [arg ''peer'' ''&PeerId''] None,
      decl ''MeshPeersOfTopic'' ''mesh_peers_of_topic'' [clone_arg ''topic'' ''&TopicHash''] (Some ''Box<[PeerId]>''),
      decl ''AllPeersWithTopic'' ''all_peers_with_topic'' [] (Some ''Box<[(PeerId,Box<[TopicHash]>)]>'')]"

text \<open>
  The handle of the hyper protocol, which is not compiled: \<open>InEvent::SendRequest\<close> is a tuple variant,
  and neither parameter is a reference.
\<close>

definition hyper_send_request :: method_decl where
  "hyper_send_request = decl ''SendRequest'' ''send_request''
     [arg ''peer'' ''PeerId'', arg ''request'' ''Request<String>''] (Some ''Response<Bytes>'')"

section \<open>Every declared method fits its event\<close>

lemmas decl_defs = decl_def arg_def clone_arg_def own_arg_def

lemma fits_by_params:
  "method_fits variants d =
     (case map_of variants (md_variant d) of
        None \<Rightarrow> False
      | Some fs \<Rightarrow> mset (map (init_field (md_params d) (md_return d))
            ((case md_return d of Some _ \<Rightarrow> [CallbackTx] | None \<Rightarrow> []) @ map init_of (md_params d))) = mset (map Some fs))"
  by (simp only: method_fits_def literal_fits_def mset_map expand_event)

lemma blocking_by_params:
  "blocking_fits variants d \<longleftrightarrow>
     \<not> (md_return d \<noteq> None \<and> list_ex (\<lambda>p. mp_kind p = OwnParam) (md_params d)) \<and> method_fits variants d"
  by (simp add: blocking_fits_def method_fits_def expand_blocking)

lemmas fit_simps = fits_by_params blocking_by_params decl_defs param_type_def copy_types_def add_mset_commute

text \<open>
  Every method that the handles of the node declare type-checks against the event it sends: the
  macro expands, the variant exists, and the generated literal gives each of its fields exactly once a
  value of the field's type, with the callback for the declared return type and no other field. This
  covers the handles of the swarm, asynchronous and blocking, and of all seven protocols.
\<close>

theorem handle_methods_fit:
  "list_all (method_fits swarm_variants) swarm_methods
    \<and> list_all (blocking_fits swarm_variants) swarm_blocking_methods
    \<and> list_all (method_fits advertise_variants) advertise_methods
    \<and> list_all (method_fits messaging_variants) messaging_methods
    \<and> list_all (method_fits blob_variants) blob_methods
    \<and> list_all (method_fits kad_variants) kad_methods
    \<and> list_all (method_fits mdns_variants) mdns_methods
    \<and> list_all (method_fits autonat_variants) autonat_methods
    \<and> list_all (method_fits gossipsub_variants) gossipsub_methods"
proof (intro conjI)
  show "list_all (method_fits swarm_variants) swarm_methods"
    by (simp add: swarm_methods_def swarm_variants_def fit_simps)
  show "list_all (blocking_fits swarm_variants) swarm_blocking_methods"
    by (simp add: swarm_blocking_methods_def swarm_variants_def fit_simps)
  show "list_all (method_fits advertise_variants) advertise_methods"
    by (simp add: advertise_methods_def advertise_variants_def fit_simps)
  show "list_all (method_fits messaging_variants) messaging_methods"
    by (simp add: messaging_methods_def messaging_variants_def fit_simps)
  show "list_all (method_fits blob_variants) blob_methods"
    by (simp add: blob_methods_def blob_variants_def fit_simps)
  show "list_all (method_fits kad_variants) kad_methods"
    by (simp add: kad_methods_def kad_variants_def fit_simps)
  show "list_all (method_fits mdns_variants) mdns_methods"
    by (simp add: mdns_methods_def mdns_variants_def fit_simps)
  show "list_all (method_fits autonat_variants) autonat_methods"
    by (simp add: autonat_methods_def autonat_variants_def fit_simps)
  show "list_all (method_fits gossipsub_variants) gossipsub_methods"
    by (simp add: gossipsub_methods_def gossipsub_variants_def fit_simps)
qed

text \<open>The declaration in the hyper handle type-checks against no event at all: it dereferences values that are no references.\<close>

lemma hyper_send_request_ill_typed: "\<not> method_fits variants hyper_send_request"
proof
  let ?fields = "map (init_field (md_params hyper_send_request) (md_return hyper_send_request))
      (CallbackTx # map init_of (md_params hyper_send_request))"
  assume "method_fits variants hyper_send_request"
  then obtain fs where fs: "mset ?fields = mset (map Some fs)"
    by (auto simp: fits_by_params hyper_send_request_def decl_defs split: option.splits)
  have "None \<in> set ?fields"
    by (simp add: hyper_send_request_def decl_defs param_type_def copy_types_def)
  with mset_eq_setD [OF fs] show False by auto
qed

end
