(* ===== verification/Replay.thy ===== *)
theory Replay
  imports Blob_Agreement Handles
begin

text \<open>
  The tests of the blob protocol in \<open>owlnest/src/net/p2p/protocols/blob.rs\<close>, replayed on the model by
  evaluation, with two connected peers. Each test makes the same calls of the handles and the same
  assertions as its source; a failed assertion panics.
\<close>

section \<open>Two peers in a test\<close>

text \<open>
  Beside the two nodes the state of a test keeps the events of both swarms and what the receives of
  each side have written to the disk, by the id of the receive.
\<close>

record replay =
  rp_nodes :: "blob_node \<times> blob_node"
  rp_events :: "(side \<times> blob_out_event) list"
  rp_disk :: "((side \<times> u64) \<times> u8 list) list"

definition rp_do :: "net_action \<Rightarrow> replay \<Rightarrow> replay" where
  "rp_do a s = (case net_do demo_pid demo_env 0 a (rp_nodes s) of Some n \<Rightarrow> s\<lparr>rp_nodes := n\<rparr> | None \<Rightarrow> s)"

fun rp_observe :: "side \<Rightarrow> blob_to_swarm poll \<times> blob_behaviour \<Rightarrow> replay \<Rightarrow> replay" where
  "rp_observe X (Ready (GenerateEvent ev), _) s = s\<lparr>rp_events := rp_events s @ [(X, ev)]\<rparr>"
| "rp_observe X _ s = s"

definition rp_poll :: "side \<Rightarrow> replay \<Rightarrow> replay" where
  "rp_poll X s = rp_observe X (blob_poll demo_env (nd_b (nd_at X (rp_nodes s)))) (rp_do (ActPoll X) s)"

fun rp_written :: "side \<Rightarrow> (u64 \<times> ongoing_file_recv) list \<Rightarrow> ((side \<times> u64) \<times> u8 list) list \<Rightarrow> ((side \<times> u64) \<times> u8 list) list" where
  "rp_written X [] disk = disk"
| "rp_written X ((_, v) # vs) disk = rp_written X vs (hm_insert (X, or_local_recv_id v) (f_data (or_file_handle v)) disk)"

definition rp_save :: "side \<Rightarrow> replay \<Rightarrow> replay" where
  "rp_save X s = s\<lparr>rp_disk := rp_written X (bb_ongoing_recv (nd_b (nd_at X (rp_nodes s)))) (rp_disk s)\<rparr>"

text \<open>\<open>sleep!(100)\<close>: enough rounds of polling, sending and handling on both sides for the test to come to rest.\<close>

definition rp_turn :: "side \<Rightarrow> replay \<Rightarrow> replay" where
  "rp_turn X s = rp_save X (rp_do (ActHandle X) (rp_save (other X) (rp_do (ActHandle (other X)) (rp_do (ActTransmit X) (rp_poll X s)))))"

fun rp_sleep :: "nat \<Rightarrow> replay \<Rightarrow> replay" where
  "rp_sleep 0 s = s"
| "rp_sleep (Suc n) s = rp_sleep n (rp_turn East (rp_turn West s))"

text \<open>A call of a method of the blob handle of one side, and what the test does with its result.\<close>

fun rp_return :: "side \<Rightarrow> replay \<Rightarrow> 'a \<times> blob_behaviour \<Rightarrow> ('a \<times> replay) outcome" where
  "rp_return X s (r, b) = Returns (r, s\<lparr>rp_nodes := nd_put X ((nd_at X (rp_nodes s))\<lparr>nd_b := b\<rparr>) (rp_nodes s)\<rparr>)"

definition rp_call :: "side \<Rightarrow> (blob_behaviour \<Rightarrow> ('a \<times> blob_behaviour) outcome) \<Rightarrow> replay \<Rightarrow> ('a \<times> replay) outcome" where
  "rp_call X f s = and_then (f (nd_b (nd_at X (rp_nodes s)))) (rp_return X s)"

fun rp_assert :: "('a \<Rightarrow> bool) \<Rightarrow> 'a \<times> replay \<Rightarrow> replay outcome" where
  "rp_assert P (r, s) = (if P r then Returns s else Panics)"

fun rp_unwrap :: "('e + 'a) \<times> replay \<Rightarrow> replay outcome" where
  "rp_unwrap (Inr _, s) = Returns s"
| "rp_unwrap (Inl _, s) = Panics"

definition rp_sleeping :: "nat \<Rightarrow> replay \<Rightarrow> replay outcome" where
  "rp_sleeping n s = Returns (rp_sleep n s)"

text \<open>A test is a sequence of steps.\<close>

fun run_test :: "('s \<Rightarrow> 's outcome) list \<Rightarrow> 's \<Rightarrow> 's outcome" where
  "run_test [] s = Returns s"
| "run_test (step # steps) s = and_then (step s) (run_test steps)"

definition passes :: "'a outcome \<Rightarrow> bool" where
  "passes t = (case t of Returns _ \<Rightarrow> True | _ \<Rightarrow> False)"

section \<open>The blob tests\<close>

text \<open>The source file exists, and nothing in the fresh temporary directory.\<close>

definition test_fs :: file_system where
  "test_fs = \<lparr>fs_is_dir = \<lambda>_. False, fs_open_read = \<lambda>_. Inr demo_file, fs_create_new = \<lambda>_. Inr \<lparr>f_data = [], f_pos = 0\<rparr>\<rparr>"

text \<open>\<open>setup_peer\<close>: two fresh nodes, connected, with the protocol negotiated on both sides.\<close>

definition setup_peer :: replay where
  "setup_peer = rp_do (ActReport East TB_OutboundNegotiated) (rp_do (ActReport West TB_OutboundNegotiated)
     \<lparr>rp_nodes = (node_init blob_config_default 0, node_init blob_config_default 0), rp_events = [], rp_disk = []\<rparr>)"

text \<open>\<open>send\<close>: send the source file and sleep; a failure panics in \<open>unwrap\<close>.\<close>

definition test_send :: "side \<Rightarrow> replay \<Rightarrow> replay outcome" where
  "test_send X s =
     and_then (and_then (rp_call X (handle_send_file test_fs demo_env 0 prompt_swarm (Answered (Inr 0)) (demo_pid (other X)) ''../Cargo.lock'') s)
       rp_unwrap) (rp_sleeping 3)"

definition test_list_recv :: "side \<Rightarrow> (recv_info list \<Rightarrow> bool) \<Rightarrow> replay \<Rightarrow> replay outcome" where
  "test_list_recv X P s = and_then (rp_call X (list_pending_recv demo_env 3 prompt_swarm) s) (rp_assert P)"

definition test_list_send :: "side \<Rightarrow> (send_info list \<Rightarrow> bool) \<Rightarrow> replay \<Rightarrow> replay outcome" where
  "test_list_send X P s = and_then (rp_call X (list_pending_send demo_env 2 prompt_swarm) s) (rp_assert P)"

text \<open>\<open>wait_recv\<close>: accept, and wait for the event that reports all bytes as received.\<close>

fun is_completion :: "side \<Rightarrow> side \<times> blob_out_event \<Rightarrow> bool" where
  "is_completion X (Y, Out_RecvProgressed i bytes_received bytes_total) = (X = Y \<and> bytes_received = bytes_total)"
| "is_completion X _ = False"

fun until_completion :: "side \<Rightarrow> nat \<Rightarrow> replay \<Rightarrow> replay outcome" where
  "until_completion X 0 s = Hangs"
| "until_completion X (Suc n) s =
     (if list_ex (is_completion X) (rp_events s) then Returns s else until_completion X n (rp_sleep 1 s))"

definition wait_recv :: "side \<Rightarrow> u64 \<Rightarrow> replay \<Rightarrow> replay outcome" where
  "wait_recv X recv_id s =
     and_then (and_then (rp_call X (handle_recv_file test_fs demo_env 1 prompt_swarm (Answered (Inr 0)) recv_id ''/tmp/test_locker_file'')
         (s\<lparr>rp_events := []\<rparr>)) rp_unwrap) (until_completion X 20)"

text \<open>\<open>verify_file\<close>: what the receive wrote is what the source file holds.\<close>

definition verify_file :: "side \<Rightarrow> u64 \<Rightarrow> replay \<Rightarrow> replay outcome" where
  "verify_file X recv_id s = (if hm_get (rp_disk s) (X, recv_id) = Some (f_data demo_file) then Returns s else Panics)"

text \<open>The remainder of \<open>send_recv\<close> takes the first listed receive; indexing an empty list panics.\<close>

fun recv_first :: "side \<Rightarrow> recv_info list \<times> replay \<Rightarrow> replay outcome" where
  "recv_first X ([], s) = Panics"
| "recv_first X (info # _, s) = and_then (wait_recv X (ri_local_recv_id info) s) (verify_file X (ri_local_recv_id info))"

definition test_recv_first :: "side \<Rightarrow> replay \<Rightarrow> replay outcome" where
  "test_recv_first X s = and_then (rp_call X (list_pending_recv demo_env 3 prompt_swarm) s) (recv_first X)"

definition one_send :: "send_info list \<Rightarrow> bool" where
  "one_send l \<longleftrightarrow> length l = 1"

definition test_send_recv :: "side \<Rightarrow> replay \<Rightarrow> replay outcome" where
  "test_send_recv X s = run_test [test_send X, test_list_send X one_send, test_recv_first (other X)] s"

definition single_send_recv :: "replay outcome" where
  "single_send_recv = run_test [test_send_recv West] setup_peer"

definition multi_send_recv :: "replay outcome" where
  "multi_send_recv =
     run_test [test_send_recv West, test_send_recv West, test_send_recv East, test_send_recv West, test_send_recv East] setup_peer"

text \<open>The tests of cancellation; the error of a cancellation ends a test like a panic.\<close>

definition test_cancel_send :: "side \<Rightarrow> u64 \<Rightarrow> replay \<Rightarrow> replay outcome" where
  "test_cancel_send X i s = and_then (and_then (rp_call X (handle_cancel_send demo_env 4 prompt_swarm i) s) rp_unwrap) (rp_sleeping 3)"

definition test_cancel_recv :: "side \<Rightarrow> u64 \<Rightarrow> replay \<Rightarrow> replay outcome" where
  "test_cancel_recv X i s = and_then (and_then (rp_call X (handle_cancel_recv demo_env 4 prompt_swarm i) s) rp_unwrap) (rp_sleeping 3)"

fun cancel_first :: "side \<Rightarrow> recv_info list \<times> replay \<Rightarrow> replay outcome" where
  "cancel_first X ([], s) = Panics"
| "cancel_first X (info # _, s) = test_cancel_recv X (ri_local_recv_id info) s"

definition test_cancel_first :: "side \<Rightarrow> replay \<Rightarrow> replay outcome" where
  "test_cancel_first X s = and_then (rp_call X (list_pending_recv demo_env 3 prompt_swarm) s) (cancel_first X)"

definition cancel_single_send :: "replay outcome" where
  "cancel_single_send = run_test
     [test_send West, test_list_recv East (\<lambda>l. 0 < length l), test_cancel_send West 0,
      test_list_recv East (\<lambda>l. length l = 0)] setup_peer"

definition cancel_single_send_in_multiple :: "replay outcome" where
  "cancel_single_send_in_multiple = run_test
     [test_send West, test_send West, test_send West, test_send West, test_list_recv East (\<lambda>l. 2 < length l),
      test_cancel_send West 2, test_list_recv East (\<lambda>l. length l = 3),
      test_list_recv East (\<lambda>l. \<not> list_ex (\<lambda>v. ri_local_recv_id v = 2) l)] setup_peer"

definition cancel_single_recv :: "replay outcome" where
  "cancel_single_recv = run_test
     [test_send West, test_cancel_first East, test_list_send West (\<lambda>l. length l = 0)] setup_peer"

definition cancel_single_recv_in_multiple :: "replay outcome" where
  "cancel_single_recv_in_multiple = run_test
     [test_send West, test_send West, test_send West, test_send West, test_list_send West (\<lambda>l. 2 < length l),
      test_cancel_recv East 2, test_list_send West (\<lambda>l. length l = 3),
      test_list_send West (\<lambda>l. \<not> list_ex (\<lambda>v. si_local_send_id v = 2) l)] setup_peer"

text \<open>
  The repository's own tests of the blob protocol pass on the model: a file sent and received,
  five transfers in both directions, and the cancellation of one send or one receive, alone or among
  four. The calls go through the modelled handles, behaviours and messages of two connected peers.
\<close>

theorem blob_tests_pass:
  "passes single_send_recv \<and> passes multi_send_recv
    \<and> passes cancel_single_send \<and> passes cancel_single_send_in_multiple
    \<and> passes cancel_single_recv \<and> passes cancel_single_recv_in_multiple"
proof (intro conjI)
  show "passes single_send_recv" by code_simp
  show "passes multi_send_recv" by code_simp
  show "passes cancel_single_send" by code_simp
  show "passes cancel_single_send_in_multiple" by code_simp
  show "passes cancel_single_recv" by code_simp
  show "passes cancel_single_recv_in_multiple" by code_simp
qed

end
