(* ===== verification/Replay_Services.thy ===== *)
theory Replay_Services
  imports Replay Adapters Memcache Gossip
begin

text \<open>
  Further tests of the repository on the model: the advertise test with two connected peers
  (\<open>owlnest/src/net/p2p/protocols/advertise.rs\<close>), the messaging test (\<open>messaging.rs\<close> beside it), the
  test of the map manager (\<open>memcache/src/lib.rs\<close>)
  and the test of the topic store (\<open>gossipsub.rs\<close>). Assertions on the libp2p swarm, that the peers are
  connected, are the assumption of the set-up, and the text of the test message is shortened.
\<close>

section \<open>Advertise\<close>

record adv_replay =
  ar_west :: adv_behaviour
  ar_east :: adv_behaviour
  ar_events :: "(side \<times> adv_out_event) list"
  ar_replies :: "adv_reply list"

fun ar_at :: "side \<Rightarrow> adv_replay \<Rightarrow> adv_behaviour" where
  "ar_at West s = ar_west s"
| "ar_at East s = ar_east s"

fun ar_put :: "side \<Rightarrow> adv_behaviour \<Rightarrow> adv_replay \<Rightarrow> adv_replay" where
  "ar_put West b s = s\<lparr>ar_west := b\<rparr>"
| "ar_put East b s = s\<lparr>ar_east := b\<rparr>"

text \<open>A poll: events are recorded, commands arrive at the other side as the event of their packet.\<close>

fun ar_effect :: "side \<Rightarrow> adv_to_swarm poll \<Rightarrow> adv_replay \<Rightarrow> adv_replay" where
  "ar_effect X (Ready (GenerateEvent ev)) s = s\<lparr>ar_events := ar_events s @ [(X, ev)]\<rparr>"
| "ar_effect X (Ready (NotifyHandler _ _ cmd)) s =
     ar_put (other X) (adv_on_handler_event (demo_pid X) (adv_event_of_packet (adv_packet_of_cmd cmd)) (ar_at (other X) s)) s"
| "ar_effect X _ s = s"

fun ar_polled :: "side \<Rightarrow> adv_to_swarm poll \<times> adv_behaviour \<times> adv_reply list \<Rightarrow> adv_replay \<Rightarrow> adv_replay" where
  "ar_polled X (r, b, rs) s = ar_effect X r ((ar_put X b s)\<lparr>ar_replies := ar_replies s @ rs\<rparr>)"

definition ar_poll :: "side \<Rightarrow> adv_replay \<Rightarrow> adv_replay" where
  "ar_poll X s = ar_polled X (adv_poll (ar_at X s)) s"

fun ar_sleep :: "nat \<Rightarrow> adv_replay \<Rightarrow> adv_replay" where
  "ar_sleep 0 s = s"
| "ar_sleep (Suc n) s = ar_sleep n (ar_poll East (ar_poll West s))"

text \<open>A request through the handle of one side, and the answer to its callback.\<close>

definition ar_request :: "side \<Rightarrow> adv_in_event \<Rightarrow> adv_replay \<Rightarrow> adv_replay" where
  "ar_request X ev s = ar_sleep 3 (ar_put X (adv_push_event ev (ar_at X s)) (s\<lparr>ar_events := [], ar_replies := []\<rparr>))"

fun ar_assert_reply :: "adv_reply \<Rightarrow> adv_replay \<Rightarrow> adv_replay outcome" where
  "ar_assert_reply r s = (if ar_replies s = [r] then Returns s else Panics)"

definition test_set_provider_state :: "side \<Rightarrow> bool \<Rightarrow> adv_replay \<Rightarrow> adv_replay outcome" where
  "test_set_provider_state X state s = ar_assert_reply (AdvReplyState 1 state) (ar_request X (Adv_SetProviderState state 1) s)"

definition test_set_remote_advertisement :: "side \<Rightarrow> bool \<Rightarrow> adv_replay \<Rightarrow> adv_replay outcome" where
  "test_set_remote_advertisement X state s =
     ar_assert_reply (AdvReplyUnit 2) (ar_request X (Adv_SetRemoteAdvertisement (demo_pid (other X)) state 2) s)"

text \<open>\<open>query_advertised_peer\<close> listens to the events of its own swarm while the request is served.\<close>

fun ar_stream :: "side \<Rightarrow> (side \<times> adv_out_event) list \<Rightarrow> libp2p_event event_stream" where
  "ar_stream X [] = Elapsed"
| "ar_stream X ((Y, ev) # evs) = (if X = Y then More (LBehaviour (EvAdvertise ev)) (ar_stream X evs) else ar_stream X evs)"

fun ar_assert_answer :: "(peer_id list option \<Rightarrow> bool) \<Rightarrow> adv_replay \<Rightarrow> (adv_error + peer_id list option) \<times> adv_in_event receiver \<Rightarrow> adv_replay outcome" where
  "ar_assert_answer P s (Inr l, _) = (if P l then Returns s else Panics)"
| "ar_assert_answer P s (Inl _, _) = Panics"

definition ar_listen :: "side \<Rightarrow> (peer_id list option \<Rightarrow> bool) \<Rightarrow> adv_replay \<Rightarrow> adv_replay outcome" where
  "ar_listen X P s =
     and_then (query_advertised_peer (demo_pid (other X)) (ar_stream X (ar_events s)) receiver_new) (ar_assert_answer P s)"

definition test_query_advertised_peer :: "side \<Rightarrow> (peer_id list option \<Rightarrow> bool) \<Rightarrow> adv_replay \<Rightarrow> adv_replay outcome" where
  "test_query_advertised_peer X P s = ar_listen X P (ar_request X (Adv_QueryAdvertisedPeer (demo_pid (other X))) s)"

definition advertise_setup :: adv_replay where
  "advertise_setup = \<lparr>ar_west = adv_on_handler_event (demo_pid East) ATB_OutboundNegotiated (adv_behaviour_new adv_config_default),
     ar_east = adv_on_handler_event (demo_pid West) ATB_OutboundNegotiated (adv_behaviour_new adv_config_default),
     ar_events = [], ar_replies = []\<rparr>"

definition advertise_test :: "adv_replay outcome" where
  "advertise_test = run_test
     [test_set_provider_state West True,
      test_set_remote_advertisement East True,
      test_query_advertised_peer East (\<lambda>l. case l of Some ps \<Rightarrow> demo_pid East \<in> set ps | None \<Rightarrow> False),
      test_set_provider_state West False,
      test_query_advertised_peer East (\<lambda>l. l = None),
      test_set_remote_advertisement East False,
      test_set_provider_state West True,
      test_query_advertised_peer East (\<lambda>l. case l of Some ps \<Rightarrow> length ps = 0 | None \<Rightarrow> False)] advertise_setup"

section \<open>Messaging\<close>

record msg_replay =
  mr_west :: msg_behaviour
  mr_east :: msg_behaviour
  mr_events :: "(side \<times> msg_out_event) list"

fun mr_at :: "side \<Rightarrow> msg_replay \<Rightarrow> msg_behaviour" where
  "mr_at West s = mr_west s"
| "mr_at East s = mr_east s"

fun mr_put :: "side \<Rightarrow> msg_behaviour \<Rightarrow> msg_replay \<Rightarrow> msg_replay" where
  "mr_put West b s = s\<lparr>mr_west := b\<rparr>"
| "mr_put East b s = s\<lparr>mr_east := b\<rparr>"

fun mr_effect :: "side \<Rightarrow> msg_to_swarm poll \<Rightarrow> msg_replay \<Rightarrow> msg_replay" where
  "mr_effect X (Ready (GenerateEvent ev)) s = s\<lparr>mr_events := mr_events s @ [(X, ev)]\<rparr>"
| "mr_effect X (Ready (NotifyHandler _ _ (PostMessage m cb))) s =
     mr_put (other X) (msg_on_handler_event demo_json (MTB_IncomingMessage (message_as_bytes demo_json m)) (demo_pid X) (mr_at (other X) s)) s"
| "mr_effect X _ s = s"

fun mr_polled :: "side \<Rightarrow> msg_to_swarm poll \<times> msg_behaviour \<times> msg_reply list \<Rightarrow> msg_replay \<Rightarrow> msg_replay" where
  "mr_polled X (r, b, rs) s = mr_effect X r (mr_put X b s)"

definition mr_poll :: "side \<Rightarrow> msg_replay \<Rightarrow> msg_replay" where
  "mr_poll X s = mr_polled X (msg_poll (mr_at X s)) s"

fun mr_sleep :: "nat \<Rightarrow> msg_replay \<Rightarrow> msg_replay" where
  "mr_sleep 0 s = s"
| "mr_sleep (Suc n) s = mr_sleep n (mr_poll East (mr_poll West s))"

text \<open>\<open>single_send_recv\<close>: the watcher of the receiver sees one message, from the sender, with the text.\<close>

definition eq_message :: "message \<Rightarrow> message \<Rightarrow> bool" where
  "eq_message lhs rhs \<longleftrightarrow> m_from lhs = m_from rhs \<and> m_to lhs = m_to rhs \<and> m_msg lhs = m_msg rhs"

fun mr_watched :: "side \<Rightarrow> message \<Rightarrow> side \<times> msg_out_event \<Rightarrow> bool" where
  "mr_watched X m (Y, MsgOut_IncomingMessage from msg) = (X = Y \<and> from = m_from m \<and> eq_message msg m)"
| "mr_watched X m _ = False"

definition mr_assert :: "side \<Rightarrow> message \<Rightarrow> msg_replay \<Rightarrow> msg_replay outcome" where
  "mr_assert X m s = (if list_ex (mr_watched X m) (mr_events s) then Returns s else Panics)"

definition mr_send :: "side \<Rightarrow> message \<Rightarrow> msg_replay \<Rightarrow> msg_replay" where
  "mr_send X m s = mr_sleep 3 (mr_put X (msg_push_event (Msg_SendMessage (demo_pid (other X)) m 1) (mr_at X s)) (s\<lparr>mr_events := []\<rparr>))"

definition test_message :: "side \<Rightarrow> message" where
  "test_message X = message_new 0 (demo_pid X) (demo_pid (other X)) ''Test MESSAGE''"

definition message_send_recv :: "side \<Rightarrow> msg_replay \<Rightarrow> msg_replay outcome" where
  "message_send_recv X s = mr_assert (other X) (test_message X) (mr_send X (test_message X) s)"

definition messaging_setup :: msg_replay where
  "messaging_setup = \<lparr>mr_west = msg_on_handler_event demo_json MTB_OutboundNegotiated (demo_pid East) (msg_behaviour_new msg_config_default),
     mr_east = msg_on_handler_event demo_json MTB_OutboundNegotiated (demo_pid West) (msg_behaviour_new msg_config_default),
     mr_events = []\<rparr>"

definition messaging_test :: "msg_replay outcome" where
  "messaging_test = run_test [message_send_recv West, message_send_recv East] messaging_setup"

section \<open>The map manager\<close>

fun mm_assert :: "string map_result \<Rightarrow> string map_result \<times> string map_manager \<Rightarrow> string map_manager outcome" where
  "mm_assert expected (r, m) = (if r = expected then Returns m else Panics)"

definition mm_expect :: "(string map_manager \<Rightarrow> (string map_result \<times> string map_manager) outcome) \<Rightarrow> string map_result
    \<Rightarrow> string map_manager \<Rightarrow> string map_manager outcome" where
  "mm_expect call expected m = and_then (call m) (mm_assert expected)"

definition memcache_it_works :: "string map_manager outcome" where
  "memcache_it_works = run_test
     [mm_expect (map_try_insert ''ping'' ''PONG'') MapInserted,
      mm_expect (map_try_insert ''ping'' ''PONG'') MapFailed,
      mm_expect (map_try_insert ''123'' ''abc'') MapInserted,
      mm_expect (map_get_single ''123'') (FoundValue (Some ''abc'')),
      mm_expect (map_set ''123'' ''def'') (Modified ''abc''),
      mm_expect (map_get_single ''123'') (FoundValue (Some ''def'')),
      mm_expect (map_delete ''ping'') (MapDeleted ''PONG'')] map_manager_new"

section \<open>The topic store\<close>

fun ts_assert :: "bool \<Rightarrow> bool \<times> mem_topic_store \<Rightarrow> mem_topic_store outcome" where
  "ts_assert expected (r, s) = (if r = expected then Returns s else Panics)"

definition ts_vacant :: "topic_hash \<Rightarrow> mem_topic_store \<Rightarrow> mem_topic_store outcome" where
  "ts_vacant h s = (if hm_get (mt_populated s) h = None \<and> hm_get (mt_vacant s) h \<noteq> None then Returns s else Panics)"

definition ts_populated :: "topic_hash \<Rightarrow> mem_topic_store \<Rightarrow> mem_topic_store outcome" where
  "ts_populated h s = (if hm_get (mt_populated s) h \<noteq> None \<and> hm_get (mt_vacant s) h = None then Returns s else Panics)"

definition ts_insert_hash :: "topic_hash \<Rightarrow> bool \<Rightarrow> mem_topic_store \<Rightarrow> mem_topic_store outcome" where
  "ts_insert_hash h expected s = ts_assert expected (insert_hash h s)"

definition ts_insert_topic :: "string \<Rightarrow> topic_hash \<Rightarrow> bool \<Rightarrow> mem_topic_store \<Rightarrow> mem_topic_store outcome" where
  "ts_insert_topic name h expected s = ts_assert expected (insert_topic name h s)"

definition ts_subscribe :: "topic_hash \<Rightarrow> string option \<Rightarrow> bool \<Rightarrow> mem_topic_store \<Rightarrow> mem_topic_store outcome" where
  "ts_subscribe h name expected s = ts_assert expected (store_subscribe_topic h name s)"

definition fallthrough_and_promote :: "mem_topic_store outcome" where
  "fallthrough_and_promote =
     (let h = TopicHash ''this is a topic hash''; h' = TopicHash ''this is also a topic hash'' in
      run_test
        [ts_insert_hash h True, ts_vacant h,
         ts_insert_topic ''this is a topic hash'' h False, ts_populated h,
         ts_insert_hash h False, ts_populated h,
         ts_subscribe h' None True, ts_vacant h',
         ts_subscribe h' (Some ''this is also a topic hash'') False, ts_populated h',
         ts_subscribe h' None False, ts_populated h'] mem_topic_store_default)"

text \<open>The tests of the advertise and messaging protocols, of the map manager and of the topic store pass on the model.\<close>

theorem service_tests_pass:
  "passes advertise_test \<and> passes messaging_test \<and> passes memcache_it_works \<and> passes fallthrough_and_promote"
proof (intro conjI)
  show "passes advertise_test" by code_simp
  show "passes messaging_test" by code_simp
  show "passes memcache_it_works" by code_simp
  show "passes fallthrough_and_promote" by code_simp
qed

end
