(* ===== verification/Spec2Isabelle.thy ===== *)
theory Spec2Isabelle
  imports Blob_Agreement Select_Claims Memcache Startup Hyper Template Msg_Network Allow_Block Event_Log
    Expansion Handle_Methods Replay_Services
begin

text \<open>
  OwlNest is a peer-to-peer node on top of libp2p. A libp2p swarm runs in one task; it is made of
  \<open>NetworkBehaviour\<close>s, one per protocol, and of one \<open>ConnectionHandler\<close> per protocol and connection.
  OwlNest brings three protocols of its own (blob for files, messaging for texts, advertise for
  lists of peers), macros that compose behaviours and handlers, adapters that give a common shape
  to the behaviours of libp2p, and a front end: handles with asynchronous methods and a command
  line. This development models that code, function by function, and proves what makes it correct.

  \<^bold>\<open>How the program is modelled.\<close> A function of the source is a HOL function on explicit state. What
  can panic or run forever returns an \<open>outcome\<close> (\<open>Panics\<close>, \<open>Hangs\<close>, \<open>Returns\<close>); \<open>Result\<close> is a sum with
  the error on the left; \<open>Poll\<close> is a datatype; \<open>u64\<close>, \<open>u32\<close>, \<open>u8\<close> are words with wrap-around; hash
  maps and sets are association lists and lists without repetition in their iteration order, which
  the step relation of the blob behaviour may change at any time. A oneshot callback is a number, and answering it is a value in a list of
  replies. What the source takes from elsewhere (xxh3, serde_json, prost, the libp2p behaviours
  and swarm, tokio's broadcast channel, the clock, the file system, key encodings) is an argument,
  and what is assumed of it is a named predicate with a concrete instance in a witness.

  \<^bold>\<open>Prelude.\<close> \<open>Owl_Prelude\<close> has these types, the maps and sets with their simplification rules, the
  vocabulary of libp2p, and the interfaces as locales: \<open>invariant_system\<close> (an invariant of a step
  relation holds in all reachable states), \<open>history_log\<close>, and \<open>data_refinement\<close> (operations that
  simulate an abstract specification do so for all sequences).

  \<^bold>\<open>Framing.\<close> \<open>Owl_Wire\<close> models \<open>owlnest-blob/src/protocol.rs\<close> and the universal protocol of
  \<open>owlnest-prelude/src/lib.rs\<close> on byte streams with partial reads and writes and faults. The loops
  are \<open>partial_function (option)\<close>: a loop that never ends is \<open>None\<close>. Shown: both protocols deliver every
  admissible payload for every way the stream is split, \<open>recv\<close> is bounded whatever arrives, and
  exactly when it refuses or spins.

  \<^bold>\<open>Blob.\<close> \<open>Blob_Types\<close> (configuration, errors, events, records of transfers), \<open>Blob_Behaviour\<close> (the
  whole \<open>behaviour.rs\<close>), \<open>Blob_Invariant\<close> (the step relation of the behaviour with the iteration
  order free, and its invariant), \<open>Blob_Safety\<close> (ids increase, cancelled sends stay gone),
  \<open>Blob_Claims\<close> (the properties of requests, connection events and disconnects), \<open>Blob_Transfer\<close> (a
  file sent in chunks arrives unchanged), \<open>Blob_Handler\<close> (\<open>handler.rs\<close>), \<open>Blob_Link\<close> (two handlers
  joined by streams deliver every command).

  \<^bold>\<open>Two blob peers.\<close> \<open>Blob_Protocol\<close> is the abstract protocol of one transfer, with its invariant.
  \<open>Blob_Network\<close> joins two blob behaviours by queues of messages and shows that every step of either
  side is a step of the abstract protocol for each transfer. \<open>Blob_Agreement\<close> draws the
  consequences for all interleavings, cancellations and failures: a receiver holds a prefix of what
  the sender was asked to send, completion means equality, and neither side panics; and what goes
  wrong when a third peer uses the same id.

  \<^bold>\<open>Messaging and advertise.\<close> \<open>Messaging\<close>, \<open>Advertise\<close> and \<open>Advertise_Claims\<close> model behaviour, handler,
  and the message store. Shown: requests are served once and in order, messages and answers
  travel from one behaviour to the other, the number of advertised peers is bounded, answers are
  given only by providers. \<open>Msg_Link\<close> joins two messaging handlers by a connection, byte by byte, with
  substreams that are reset and reopened: whatever the network delays or loses, a payload is heard in
  the order of the commands and at most once. \<open>Msg_Network\<close> joins the behaviours of two peers by any
  number of such connections: messages are delivered at most once, and over each connection in the
  order of the requests; and on working streams polling both sides delivers every message and answers
  every caller. \<open>Hyper\<close> models the HTTP protocol of \<open>owlnest-hyper\<close>, not yet part of the
  node, and shows that its polls end and its requests are never sent; \<open>Template\<close> the skeleton for new
  protocols.

  \<^bold>\<open>Composition.\<close> \<open>Select\<close> models what the macros of \<open>owlnest-macro\<close> generate, as combinators of two
  fields, and applies them to the three protocols and one arbitrary further field that stands for
  the behaviours of libp2p. \<open>Select_Claims\<close> shows, with a locale of event sources, that polling the
  composition drains every field in order and exactly when the composed handler panics.
  \<open>Allow_Block\<close> models the allow list (\<open>allow_block_list.rs\<close>, whose module is commented out, so that no
  node has it) with its policies as a locale, and shows that it accepts exactly the listed peers,
  disconnects the removed ones, and that the task which polls it is woken exactly when there is
  something to do.

  \<^bold>\<open>Macros and features.\<close> \<open>Expansion\<close> models the attributes of \<open>owlnest-proc\<close> on lists of field and comma
  tokens and the order in which the compiler expands them, and shows for every set of Cargo features
  that the code under \<open>cfg\<close> conditions (the builder, the configuration, both event matches, the modules
  and the command line) fits what they generate; with the default features the generated bundle is the
  one modelled in \<open>Swarm\<close>. \<open>Handle_Methods\<close> models the macros that generate the methods of the handles,
  shows that a generated method gives each of its arguments to its event exactly once, and
  type-checks every use of them against the event it sends.

  \<^bold>\<open>Stores and adapters.\<close> \<open>Gossip\<close> and \<open>Gossip_Claims\<close> (\<open>gossipsub.rs\<close>: requests, handle, topic and
  message store, refined to maps and histories), \<open>Memcache\<close> (\<open>memcache\<close>: both stores and
  both managers, refined to the mathematical map and set), \<open>Swarm_Events\<close> (the events of the swarm and
  their conversions, the requests of the kad, mDNS and autonat adapters and of the swarm,
  \<open>event_handlers.rs\<close>), \<open>Event_Log\<close> (the dispatchers that log the events of the libp2p behaviours),
  \<open>Configs\<close> (the configurations and their conversions).

  \<^bold>\<open>Swarm task and front end.\<close> \<open>Swarm\<close> (the bundle of request channels that \<open>owlnest-proc\<close> generates and
  the event loop of \<open>swarm/mod.rs\<close> as a labelled step relation, in which a poll of the swarm may change
  the behaviours with or without an event), \<open>Handles\<close> (waiting, and the blob handle with its command
  line, for every fate of a request and with the swarm task working beside the caller), \<open>Adapters\<close> (the
  handles that listen to events, the generated methods, callbacks), \<open>Shell\<close> (the swarm handle, further
  subcommands, how failed reads are counted), \<open>Command_Line\<close> (the gossipsub subcommands, printers of
  events, \<open>cli/mod.rs\<close>: the dispatch of a line and the thread of the shell; how the thread ends,
  crashes or gets stuck, and when the process ends), \<open>Identity\<close> (identities, key files, \<open>read_config\<close>).

  \<^bold>\<open>The node.\<close> \<open>Startup\<close> models \<open>main\<close>, \<open>setup_logging\<close>, the constructors of the handles and
  \<open>Builder::build\<close>, and puts the parts together: the swarm task that \<open>main\<close> starts, run with libp2p
  driving the composed behaviour, keeps the invariants of blob, advertise and the event channel; a
  restart keeps the identity.

  \<^bold>\<open>Tests.\<close> \<open>Replay\<close> and \<open>Replay_Services\<close> run the repository's own tests of blob, advertise, messaging,
  the map manager and the topic store on the model, by evaluation, through the modelled handles and
  behaviours of two connected peers; all of them pass.

  \<^bold>\<open>Bounds and fuel.\<close> No definition of the program uses fuel; in the replayed tests a sleep is a fixed
  number of rounds, chosen large enough for both peers to come to rest. Functions over queues terminate by a measure on the
  queued work; loops over streams are partial functions with proofs of when they return. The
  invariant of the blob behaviour assumes that its two counters do not wrap around, i.e. fewer than
  \<open>2 ^ 64\<close> transfers in the life of a node (\<open>blob_no_wrap\<close>).

  \<^bold>\<open>Limits of the model.\<close> The content of a file is a value: a file that another process changes between
  \<open>metadata\<close> and a read, or between two reads, is outside the model. A file on disk is known by the
  string of its path, so two paths to one file count as two files. The handles other than the blob
  handle are modelled for a swarm task that is running and takes their requests. A \<open>recv\<close> of the
  universal protocol (messaging, advertise) that meets the end of its stream in the middle of a frame
  stays pending for ever in the model, where the program's poll does not return; in the blob handler
  such a poll is \<open>Hangs\<close>. \<open>Expansion\<close> covers the code under \<open>cfg\<close> conditions that it lists, not the hooks
  inside the adapters of kad and mDNS.

  \<^bold>\<open>Not modelled.\<close> Parsing and printing inside a field by \<open>syn\<close> and \<open>quote\<close>; the layout of tables and
  colours of the terminal; log output other than that of the dispatchers; the definitions of the
  command line's syntax, which clap reads (splitting and parsing a line are parameters); the insides
  of libp2p, tokio, prost, serde_json and xxh3, which are parameters; the policy by address of the
  allow list, which has no operations; the empty database and HTTP modules; the relay test, which
  exercises libp2p's relay, and the set-up of logging in the tests. What remains of the sources beside
  these are imports, attributes, type aliases and comments.
\<close>

end
